(* ===== verification/Prelude.thy ===== *)
theory Prelude
  imports Complex_Main "HOL-Library.Multiset" "HOL-Library.Sublist" "HOL-Library.AList"
    "HOL-Library.Code_Target_Numeral"
begin

text \<open>
  What the components share: Python strings as lists of code points, the exceptions the code
  raises and catches as a datatype, results that are an exception or a value, and the built-in
  operations of Python (slices, ranges, \<open>strip\<close>, \<open>splitlines\<close>, \<open>join\<close>, \<open>dict.fromkeys\<close>,
  \<open>str(int)\<close>, stable \<open>sorted\<close>) as executable functions with the facts the component proofs use.
\<close>

named_theorems py \<open>unfolds the models of Python's built-in operations\<close>

section \<open>Strings\<close>

text \<open>
  A Python \<open>str\<close> is a sequence of Unicode code points, so it is a list of naturals and its
  \<open>len\<close> is the length of the list. \<open>asc\<close> reads an ASCII literal of the source.
\<close>

type_synonym ustr = "nat list"

definition asc :: "string \<Rightarrow> ustr" where
  "asc s = map of_char s"

text \<open>The code points for which \<open>str.isspace\<close> (and \<open>\s\<close> in a pattern) holds.\<close>

definition is_space :: "nat \<Rightarrow> bool" where
  "is_space c \<longleftrightarrow> 9 \<le> c \<and> c \<le> 13 \<or> 28 \<le> c \<and> c \<le> 32 \<or> c = 133 \<or> c = 160 \<or> c = 5760
     \<or> 8192 \<le> c \<and> c \<le> 8202 \<or> c = 8232 \<or> c = 8233 \<or> c = 8239 \<or> c = 8287 \<or> c = 12288"

definition lstrip :: "ustr \<Rightarrow> ustr" where
  "lstrip s = dropWhile is_space s"

definition rstrip :: "ustr \<Rightarrow> ustr" where
  "rstrip s = rev (dropWhile is_space (rev s))"

definition strip :: "ustr \<Rightarrow> ustr" where
  "strip s = rstrip (lstrip s)"

text \<open>A text is stripped when neither end is white space.\<close>

definition stripped :: "ustr \<Rightarrow> bool" where
  "stripped s \<longleftrightarrow> s = [] \<or> \<not> is_space (hd s) \<and> \<not> is_space (last s)"

lemma lstrip_suffix: "suffix (lstrip s) s"
  by (simp add: lstrip_def suffix_dropWhile)

lemma rstrip_prefix: "prefix (rstrip s) s"
  unfolding rstrip_def by (metis rev_rev_ident suffix_dropWhile suffix_to_prefix)

lemma rstrip_Nil_iff: "rstrip s = [] \<longleftrightarrow> (\<forall>c \<in> set s. is_space c)"
  by (simp add: rstrip_def)

lemma lstrip_Nil_iff: "lstrip s = [] \<longleftrightarrow> (\<forall>c \<in> set s. is_space c)"
  by (simp add: lstrip_def)

lemma hd_lstrip: "lstrip s \<noteq> [] \<Longrightarrow> \<not> is_space (hd (lstrip s))"
  using hd_dropWhile [of is_space s] by (simp add: lstrip_def)

lemma last_rstrip: "rstrip s \<noteq> [] \<Longrightarrow> \<not> is_space (last (rstrip s))"
  using hd_dropWhile [of is_space "rev s"] by (simp add: rstrip_def last_rev)

lemma hd_rstrip: "rstrip s \<noteq> [] \<Longrightarrow> hd (rstrip s) = hd s"
  using rstrip_prefix [of s] by (metis hd_append2 prefixE)

lemma strip_Nil_iff: "strip s = [] \<longleftrightarrow> (\<forall>c \<in> set s. is_space c)"
proof
  assume "strip s = []"
  then have all: "\<forall>c \<in> set (lstrip s). is_space c" by (simp add: strip_def rstrip_Nil_iff)
  have "lstrip s = []"
  proof (rule ccontr)
    assume "lstrip s \<noteq> []"
    with hd_lstrip all show False by fastforce
  qed
  then show "\<forall>c \<in> set s. is_space c" by (simp add: lstrip_Nil_iff)
next
  assume "\<forall>c \<in> set s. is_space c"
  then have "lstrip s = []" by (simp add: lstrip_Nil_iff)
  then show "strip s = []" by (simp add: strip_def rstrip_def)
qed

lemma strip_Nil [simp]: "strip [] = []"
  by (simp add: strip_Nil_iff)

lemma stripped_strip: "stripped (strip s)"
proof (cases "strip s = []")
  case False
  then have "lstrip s \<noteq> []" by (auto simp: strip_def rstrip_def)
  with False show ?thesis
    using last_rstrip [of "lstrip s"] hd_rstrip [of "lstrip s"] hd_lstrip [of s]
    by (auto simp: stripped_def strip_def)
qed (simp add: stripped_def)

lemma lstrip_id: "s = [] \<or> \<not> is_space (hd s) \<Longrightarrow> lstrip s = s"
  by (cases s) (auto simp: lstrip_def)

lemma rstrip_id:
  assumes "s = [] \<or> \<not> is_space (last s)"
  shows "rstrip s = s"
proof -
  from assms have "rev s = [] \<or> \<not> is_space (hd (rev s))" by (auto simp: hd_rev)
  then have "lstrip (rev s) = rev s" by (rule lstrip_id)
  then show ?thesis by (simp add: rstrip_def lstrip_def)
qed

lemma strip_id: "stripped s \<Longrightarrow> strip s = s"
  by (auto simp: stripped_def strip_def lstrip_id rstrip_id)

lemma strip_sublist: "sublist (strip s) s"
  unfolding strip_def
  by (meson lstrip_suffix prefix_imp_sublist rstrip_prefix sublist_order.order_trans suffix_imp_sublist)

lemma length_strip: "length (strip s) \<le> length s"
  by (rule sublist_length_le [OF strip_sublist])

lemma set_strip: "set (strip s) \<subseteq> set s"
  by (rule set_mono_sublist [OF strip_sublist])

lemma strip_append_stripped:
  assumes "t \<noteq> []" "stripped t"
  shows "suffix t (strip (s @ t))"
proof -
  from assms have nsp: "\<not> is_space (hd t)" "\<not> is_space (last t)" by (auto simp: stripped_def)
  have "\<exists>c \<in> set (s @ t). \<not> is_space c" using assms(1) nsp(1) by (metis UnCI hd_in_set set_append)
  obtain u where u: "lstrip (s @ t) = u @ t"
  proof (cases "\<forall>c \<in> set s. is_space c")
    case True
    then have "lstrip (s @ t) = lstrip t" by (simp add: lstrip_def)
    also have "\<dots> = t" using nsp(1) by (simp add: lstrip_id)
    finally show ?thesis using that [of "[]"] by simp
  next
    case False
    then have "lstrip (s @ t) = lstrip s @ t"
      by (auto simp: lstrip_def)
    then show ?thesis using that by blast
  qed
  have "strip (s @ t) = u @ t"
    using assms(1) nsp(2) by (simp add: strip_def u rstrip_id)
  then show ?thesis by (simp add: suffix_def)
qed

text \<open>\<open>pat in s\<close> for strings.\<close>

fun contains :: "ustr \<Rightarrow> ustr \<Rightarrow> bool" where
  "contains p [] \<longleftrightarrow> p = []"
| "contains p (c # s) \<longleftrightarrow> prefix p (c # s) \<or> contains p s"

lemma contains_iff_sublist: "contains p s \<longleftrightarrow> sublist p s"
  by (induction s) (auto simp: sublist_Cons_right)

text \<open>\<open>sep.join(parts)\<close>.\<close>

fun join :: "ustr \<Rightarrow> ustr list \<Rightarrow> ustr" where
  "join sep [] = []"
| "join sep [x] = x"
| "join sep (x # y # xs) = x @ sep @ join sep (y # xs)"

lemma join_Cons: "join sep (x # xs) = (if xs = [] then x else x @ sep @ join sep xs)"
  by (cases xs) auto

text \<open>\<open>s.split()\<close>: the maximal runs without white space.\<close>

fun split_ws_aux :: "ustr \<Rightarrow> ustr \<Rightarrow> ustr list" where
  "split_ws_aux cur [] = (if cur = [] then [] else [cur])"
| "split_ws_aux cur (c # s) =
     (if is_space c then (if cur = [] then split_ws_aux [] s else cur # split_ws_aux [] s)
      else split_ws_aux (cur @ [c]) s)"

definition split_ws :: "ustr \<Rightarrow> ustr list" where
  "split_ws s = split_ws_aux [] s"

text \<open>\<open>s.split(c)\<close>\<close>

fun split_on_aux :: "nat \<Rightarrow> ustr \<Rightarrow> ustr \<Rightarrow> ustr list" where
  "split_on_aux sep cur [] = [cur]"
| "split_on_aux sep cur (c # s) =
     (if c = sep then cur # split_on_aux sep [] s else split_on_aux sep (cur @ [c]) s)"

definition split_on :: "nat \<Rightarrow> ustr \<Rightarrow> ustr list" where
  "split_on sep s = split_on_aux sep [] s"

text \<open>\<open>s.splitlines()\<close>: \<open>\r\n\<close> is one line boundary, and a boundary at the end opens no line.\<close>

definition is_linebreak :: "nat \<Rightarrow> bool" where
  "is_linebreak c \<longleftrightarrow> 10 \<le> c \<and> c \<le> 13 \<or> 28 \<le> c \<and> c \<le> 30 \<or> c = 133 \<or> c = 8232 \<or> c = 8233"

fun splitlines_aux :: "ustr \<Rightarrow> ustr \<Rightarrow> ustr list" where
  "splitlines_aux cur [] = (if cur = [] then [] else [cur])"
| "splitlines_aux cur (c # s) =
     (if c = 13 \<and> s \<noteq> [] \<and> hd s = 10 then cur # splitlines_aux [] (tl s)
      else if is_linebreak c then cur # splitlines_aux [] s
      else splitlines_aux (cur @ [c]) s)"

definition splitlines :: "ustr \<Rightarrow> ustr list" where
  "splitlines s = splitlines_aux [] s"

section \<open>Slices, ranges, ordered dictionaries\<close>

text \<open>\<open>s[lo:hi]\<close>: a negative bound counts from the end, and both bounds are clipped.\<close>

definition slice_bound :: "nat \<Rightarrow> int \<Rightarrow> nat" where
  "slice_bound n i = nat (if i < 0 then max 0 (int n + i) else min (int n) i)"

definition slice :: "'a list \<Rightarrow> int \<Rightarrow> int \<Rightarrow> 'a list" where
  "slice xs lo hi =
     (let a = slice_bound (length xs) lo; b = slice_bound (length xs) hi in drop a (take b xs))"

definition slice_to :: "'a list \<Rightarrow> int \<Rightarrow> 'a list" where
  "slice_to xs hi = take (slice_bound (length xs) hi) xs"

definition slice_from :: "'a list \<Rightarrow> int \<Rightarrow> 'a list" where
  "slice_from xs lo = drop (slice_bound (length xs) lo) xs"

lemma slice_bound_nat [simp]: "slice_bound n (int k) = min n k"
  by (simp add: slice_bound_def)

lemma slice_bound_le: "slice_bound n i \<le> n"
  by (auto simp: slice_bound_def)

lemma slice_nat: "slice xs (int a) (int b) = drop a (take b xs)"
  by (cases "a \<le> length xs") (auto simp: slice_def Let_def min_def)

lemma slice_to_nonneg: "0 \<le> k \<Longrightarrow> slice_to xs k = take (nat k) xs"
  by (auto simp: slice_to_def slice_bound_def min_def)

lemma length_slice_to: "0 \<le> k \<Longrightarrow> int (length (slice_to xs k)) \<le> k"
  by (simp add: slice_to_nonneg)

lemma slice_from_neg: "0 < k \<Longrightarrow> slice_from xs (- k) = drop (length xs - nat k) xs"
  by (auto simp: slice_from_def slice_bound_def max_def nat_diff_distrib')

text \<open>\<open>range(0, n, step)\<close> for a positive step.\<close>

definition range0 :: "nat \<Rightarrow> nat \<Rightarrow> nat list" where
  "range0 n step = map (\<lambda>k. k * step) [0..<(n + step - 1) div step]"

lemma concat_take_drop: "concat (map (\<lambda>k. take m (drop (k * m) xs)) [0..<n]) = take (n * m) xs"
  by (induction n) (simp_all add: take_add [symmetric] add.commute)

lemma div_ceiling:
  assumes "0 < m"
  shows "n \<le> (n + m - 1) div m * (m::nat)"
  using div_mult_mod_eq [of "n + m - 1" m] mod_less_divisor [OF assms, of "n + m - 1"] assms
  by linarith

lemma range0_concat:
  assumes "0 < n"
  shows "concat (map (\<lambda>i. take n (drop i xs)) (range0 (length xs) n)) = xs"
proof -
  have "concat (map (\<lambda>i. take n (drop i xs)) (range0 (length xs) n))
      = take ((length xs + n - 1) div n * n) xs"
    by (simp add: range0_def comp_def concat_take_drop)
  with div_ceiling [OF assms, of "length xs"] show ?thesis by simp
qed

lemma range0_less:
  assumes "i \<in> set (range0 n m)" "0 < m"
  shows "i < n"
proof -
  obtain k where k: "i = k * m" "k < (n + m - 1) div m"
    using assms(1) unfolding range0_def by fastforce
  then have "Suc k * m \<le> (n + m - 1) div m * m" by (intro mult_le_mono1) simp
  also have "\<dots> \<le> n + m - 1" by (rule div_times_less_eq_dividend)
  finally show ?thesis using k(1) assms(2) by simp
qed

lemma slice_window: "0 \<le> n \<Longrightarrow> slice xs (int i) (int i + n) = take (nat n) (drop i xs)"
  using slice_nat [of xs i "i + nat n"] by (simp add: take_drop add.commute)

text \<open>\<open>list(dict.fromkeys(xs))\<close>: the first occurrence of every element, in order.\<close>

fun fromkeys_aux :: "'a list \<Rightarrow> 'a list \<Rightarrow> 'a list" where
  "fromkeys_aux seen [] = []"
| "fromkeys_aux seen (x # xs) =
     (if List.member seen x then fromkeys_aux seen xs else x # fromkeys_aux (x # seen) xs)"

definition fromkeys :: "'a list \<Rightarrow> 'a list" where
  "fromkeys xs = fromkeys_aux [] xs"

lemma set_fromkeys_aux: "set (fromkeys_aux seen xs) = set xs - set seen"
  by (induction xs arbitrary: seen) auto

lemma distinct_fromkeys_aux: "distinct (fromkeys_aux seen xs)"
  by (induction xs arbitrary: seen) (auto simp: set_fromkeys_aux)

lemma set_fromkeys [simp]: "set (fromkeys xs) = set xs"
  by (simp add: fromkeys_def set_fromkeys_aux)

lemma distinct_fromkeys [simp]: "distinct (fromkeys xs)"
  by (simp add: fromkeys_def distinct_fromkeys_aux)

lemma fromkeys_aux_id: "distinct xs \<Longrightarrow> set xs \<inter> set seen = {} \<Longrightarrow> fromkeys_aux seen xs = xs"
  by (induction xs arbitrary: seen) auto

lemma fromkeys_id: "distinct xs \<Longrightarrow> fromkeys xs = xs"
  by (simp add: fromkeys_def fromkeys_aux_id)

text \<open>
  \<open>sorted(xs, key=f)\<close> is the stable \<open>sort_key f\<close>. With \<open>reverse=True\<close> Python keeps the order of
  equal elements as well, which \<open>sort_key\<close> does on the negated key.
\<close>

definition sorted_desc :: "('a \<Rightarrow> real) \<Rightarrow> 'a list \<Rightarrow> 'a list" where
  "sorted_desc f xs = sort_key (\<lambda>x. - f x) xs"

lemma set_sorted_desc [simp]: "set (sorted_desc f xs) = set xs"
  by (simp add: sorted_desc_def)

lemma length_sorted_desc [simp]: "length (sorted_desc f xs) = length xs"
  by (simp add: sorted_desc_def)

lemma mset_sorted_desc [simp]: "mset (sorted_desc f xs) = mset xs"
  by (simp add: sorted_desc_def)

lemma distinct_map_sorted_desc [simp]: "distinct (map g (sorted_desc f xs)) = distinct (map g xs)"
  by (metis mset_sorted_desc mset_map mset_eq_imp_distinct_iff)

lemma sorted_desc_ordered: "sorted_wrt (\<lambda>x y. f y \<le> f x) (sorted_desc f xs)"
proof -
  have "sorted (map (\<lambda>x. - f x) (sorted_desc f xs))" by (simp add: sorted_desc_def)
  then show ?thesis by (simp add: sorted_map)
qed

text \<open>Numbering from 1, as \<open>enumerate(xs, 1)\<close> does.\<close>

definition enumerate1 :: "'a list \<Rightarrow> (nat \<times> 'a) list" where
  "enumerate1 xs = zip [1..<Suc (length xs)] xs"

section \<open>Decimal rendering of integers\<close>

fun str_nat :: "nat \<Rightarrow> ustr" where
  "str_nat n = (if n < 10 then [48 + n] else str_nat (n div 10) @ [48 + n mod 10])"

declare str_nat.simps [simp del]

definition str_int :: "int \<Rightarrow> ustr" where
  "str_int i = (if i < 0 then 45 # str_nat (nat (- i)) else str_nat (nat i))"

definition digits_value :: "ustr \<Rightarrow> nat" where
  "digits_value s = foldl (\<lambda>a c. 10 * a + (c - 48)) 0 s"

lemma str_nat_digits: "\<forall>c \<in> set (str_nat n). 48 \<le> c \<and> c \<le> 57"
proof (induction n rule: str_nat.induct)
  case (1 n)
  show ?case
  proof (cases "n < 10")
    case True
    then show ?thesis by (simp add: str_nat.simps [of n])
  next
    case False
    then have "n mod 10 < 10" by simp
    with 1 False show ?thesis by (auto simp: str_nat.simps [of n])
  qed
qed

lemma str_nat_nonempty: "str_nat n \<noteq> []"
  by (subst str_nat.simps) simp

lemma digits_value_str_nat: "digits_value (str_nat n) = n"
proof (induction n rule: str_nat.induct)
  case (1 n)
  show ?case
  proof (cases "n < 10")
    case True
    then show ?thesis by (simp add: str_nat.simps [of n] digits_value_def)
  next
    case False
    with 1 show ?thesis by (simp add: str_nat.simps [of n] digits_value_def)
  qed
qed

lemma str_nat_inj: "str_nat m = str_nat n \<longleftrightarrow> m = n"
  by (metis digits_value_str_nat)

lemma str_int_chars: "c \<in> set (str_int i) \<Longrightarrow> c = 45 \<or> 48 \<le> c \<and> c \<le> 57"
  using str_nat_digits by (auto simp: str_int_def split: if_splits)

lemma str_nat_no_minus: "45 \<notin> set (str_nat n)"
  using str_nat_digits [of n] by auto

lemma str_int_inj: "str_int i = str_int j \<longleftrightarrow> i = j"
proof
  assume eq: "str_int i = str_int j"
  have "i < 0 \<longleftrightarrow> j < 0"
  proof (rule ccontr)
    assume "\<not> (i < 0 \<longleftrightarrow> j < 0)"
    then have "45 \<in> set (str_nat (nat i)) \<or> 45 \<in> set (str_nat (nat j))"
      using eq by (auto simp: str_int_def split: if_splits) (metis list.set_intros(1))+
    then show False using str_nat_no_minus by blast
  qed
  with eq show "i = j" by (auto simp: str_int_def str_nat_inj split: if_splits)
qed simp

lemma str_int_no_colon: "58 \<notin> set (str_int i)"
  using str_int_chars [of 58 i] by auto

lemma append_sep_inj:
  "x \<notin> set a \<Longrightarrow> x \<notin> set b \<Longrightarrow> a @ x # s = b @ x # t \<longleftrightarrow> a = b \<and> s = t"
proof (induction a arbitrary: b)
  case Nil then show ?case by (cases b) auto
next
  case (Cons y a) then show ?case by (cases b) auto
qed

text \<open>\<open>int(s)\<close> for ASCII digits with an optional sign and white space around; \<open>None\<close> is \<open>ValueError\<close>.\<close>

definition parse_digits :: "ustr \<Rightarrow> int option" where
  "parse_digits s = (if s \<noteq> [] \<and> list_all (\<lambda>c. 48 \<le> c \<and> c \<le> 57) s then Some (int (digits_value s)) else None)"

definition parse_int :: "ustr \<Rightarrow> int option" where
  "parse_int s =
     (case strip s of
        [] \<Rightarrow> None
      | c # r \<Rightarrow> if c = 45 then map_option uminus (parse_digits r)
                 else if c = 43 then parse_digits r else parse_digits (c # r))"

lemma parse_digits_str_nat: "parse_digits (str_nat n) = Some (int n)"
  using str_nat_digits [of n] by (simp add: parse_digits_def str_nat_nonempty digits_value_str_nat list_all_iff)

lemma parse_int_str_int: "parse_int (str_int i) = Some i"
proof -
  have sp: "strip (str_nat n) = str_nat n" for n
  proof -
    have "\<not> is_space c" if "c \<in> set (str_nat n)" for c
      using str_nat_digits [of n] that by (auto simp: is_space_def)
    then have "stripped (str_nat n)" by (simp add: stripped_def str_nat_nonempty)
    then show ?thesis by (rule strip_id)
  qed
  show ?thesis
  proof (cases "i < 0")
    case True
    have "stripped (45 # str_nat (nat (- i)))"
      using str_nat_digits [of "nat (- i)"] str_nat_nonempty [of "nat (- i)"] last_in_set
      by (fastforce simp: stripped_def is_space_def)
    then show ?thesis
      using True by (simp add: parse_int_def str_int_def strip_id parse_digits_str_nat)
  next
    case False
    obtain c r where cr: "str_nat (nat i) = c # r" using str_nat_nonempty by (metis list.exhaust)
    then have "c \<noteq> 45" "c \<noteq> 43" using str_nat_digits [of "nat i"] by auto
    then show ?thesis
      using False parse_digits_str_nat [of "nat i"] sp [of "nat i"] cr by (simp add: parse_int_def str_int_def)
  qed
qed

section \<open>Association lists\<close>

lemma set_update_subset: "set (AList.update k v m) \<subseteq> insert (k, v) (set m)"
  by (induction m) auto

end
