(* ===== verification/Messages.thy ===== *)
theory Messages
  imports Prelude
begin

text \<open>
  The non-ASCII string literals of the source, as lists of code points; the comment after each
  name is its meaning. Code that looks into a message (the prefix test of
  \<open>sanitize_index_error\<close>, the scope markers of \<open>context.py\<close>, the page labels of the parser and
  the chunker) is modelled on these lists.
\<close>

definition msg_kb_not_found :: ustr where \<comment> \<open>knowledge base does not exist or access is denied\<close>
  "msg_kb_not_found =
   [30693, 35782, 24211, 19981, 23384, 22312, 25110, 26080, 26435, 35775, 38382]"

definition msg_no_kb :: ustr where \<comment> \<open>no accessible knowledge base\<close>
  "msg_no_kb =
   [27809, 26377, 21487, 35775, 38382, 30340, 30693, 35782, 24211]"

definition msg_doc_not_found :: ustr where \<comment> \<open>document does not exist\<close>
  "msg_doc_not_found =
   [25991, 26723, 19981, 23384, 22312]"

definition msg_suffix :: ustr where \<comment> \<open>only .txt, .md, .docx, .pdf files are supported\<close>
  "msg_suffix =
   [20165, 25903, 25345, 32, 46, 116, 120, 116, 12289, 46, 109, 100, 12289, 46, 100, 111, 99,
    120, 12289, 46, 112, 100, 102, 32, 25991, 20214]"

definition msg_too_large_pre :: ustr where \<comment> \<open>file must not exceed (prefix)\<close>
  "msg_too_large_pre =
   [25991, 20214, 19981, 33021, 36229, 36807, 32]"

definition msg_stale_requeued :: ustr where \<comment> \<open>index task timed out, queued again\<close>
  "msg_stale_requeued =
   [32034, 24341, 20219, 21153, 36229, 26102, 65292, 24050, 37325, 26032, 25490, 38431]"

definition msg_no_body :: ustr where \<comment> \<open>document has no text to index\<close>
  "msg_no_body =
   [25991, 26723, 27809, 26377, 21487, 32034, 24341, 27491, 25991]"

definition msg_bad_type :: ustr where \<comment> \<open>unsupported file type\<close>
  "msg_bad_type =
   [19981, 25903, 25345, 30340, 25991, 20214, 31867, 22411]"

definition msg_pdf_sig :: ustr where \<comment> \<open>invalid PDF signature\<close>
  "msg_pdf_sig =
   [80, 68, 70, 32, 25991, 20214, 31614, 21517, 26080, 25928]"

definition msg_pdf_encrypted :: ustr where \<comment> \<open>encrypted PDF is not supported\<close>
  "msg_pdf_encrypted =
   [19981, 25903, 25345, 21152, 23494, 32, 80, 68, 70]"

definition msg_pdf_pages_pre :: ustr where \<comment> \<open>too many PDF pages (prefix)\<close>
  "msg_pdf_pages_pre =
   [80, 68, 70, 32, 39029, 25968, 19981, 33021, 36229, 36807, 32]"

definition msg_pdf_pages_post :: ustr where \<comment> \<open>pages (suffix)\<close>
  "msg_pdf_pages_post =
   [32, 39029]"

definition msg_pdf_chars_pre :: ustr where \<comment> \<open>too much PDF text (prefix)\<close>
  "msg_pdf_chars_pre =
   [80, 68, 70, 32, 27491, 25991, 19981, 33021, 36229, 36807, 32]"

definition msg_pdf_chars_post :: ustr where \<comment> \<open>characters (suffix)\<close>
  "msg_pdf_chars_post =
   [32, 20010, 23383, 31526]"

definition msg_pdf_broken :: ustr where \<comment> \<open>PDF is damaged or malformed\<close>
  "msg_pdf_broken =
   [80, 68, 70, 32, 25991, 20214, 25439, 22351, 25110, 26684, 24335, 26080, 25928]"

definition msg_pdf_no_text :: ustr where \<comment> \<open>PDF holds no extractable text\<close>
  "msg_pdf_no_text =
   [80, 68, 70, 32, 26410, 21253, 21547, 21487, 25552, 21462, 25991, 26412, 65292, 26242,
    19981, 25903, 25345, 25195, 25551, 20214, 25110, 32, 79, 67, 82]"

definition msg_vec_mismatch :: ustr where \<comment> \<open>embedding count or dimension mismatch\<close>
  "msg_vec_mismatch =
   [69, 109, 98, 101, 100, 100, 105, 110, 103, 32, 36820, 22238, 21521, 37327, 25968, 37327,
    25110, 32500, 24230, 19981, 21305, 37197]"

definition msg_batch_size :: ustr where \<comment> \<open>embedding batch size must be positive\<close>
  "msg_batch_size =
   [69, 109, 98, 101, 100, 100, 105, 110, 103, 32, 25209, 37327, 22823, 23567, 24517, 39035,
    22823, 20110, 32, 48]"

definition msg_no_embedding :: ustr where \<comment> \<open>no embedding service is configured\<close>
  "msg_no_embedding =
   [26410, 37197, 32622, 32, 69, 109, 98, 101, 100, 100, 105, 110, 103, 32, 26381, 21153,
    65292, 24403, 21069, 29615, 22659, 31105, 27490, 20351, 29992, 30830, 23450, 24615, 26412,
    22320, 20266, 21521, 37327]"

definition msg_no_chat :: ustr where \<comment> \<open>no chat model is configured\<close>
  "msg_no_chat =
   [26410, 37197, 32622, 32842, 22825, 27169, 22411, 65292, 24403, 21069, 29615, 22659, 31105,
    27490, 36820, 22238, 26410, 32463, 27169, 22411, 29983, 25104, 30340, 21344, 20301, 31572,
    26696]"

definition msg_chat_placeholder :: ustr where \<comment> \<open>placeholder answer (prefix)\<close>
  "msg_chat_placeholder =
   [26410, 37197, 32622, 32842, 22825, 27169, 22411, 65292, 20197, 19979, 26159, 21487, 29992,
    36164, 26009, 65306, 10]"

definition msg_no_choices :: ustr where \<comment> \<open>chat model returned no choice\<close>
  "msg_no_choices =
   [32842, 22825, 27169, 22411, 26410, 36820, 22238, 20219, 20309, 20505, 36873, 22238, 31572]"

definition msg_empty_answer :: ustr where \<comment> \<open>chat model returned an empty answer\<close>
  "msg_empty_answer =
   [32842, 22825, 27169, 22411, 36820, 22238, 20102, 31354, 22238, 31572]"

definition msg_rerank_config :: ustr where \<comment> \<open>rerank is enabled but not configured\<close>
  "msg_rerank_config =
   [82, 101, 114, 97, 110, 107, 32, 24050, 21551, 29992, 20294, 37197, 32622, 19981, 23436,
    25972]"

definition msg_rerank_index :: ustr where \<comment> \<open>rerank returned an invalid index\<close>
  "msg_rerank_index =
   [82, 101, 114, 97, 110, 107, 32, 36820, 22238, 20102, 26080, 25928, 20505, 36873, 32034,
    24341]"

definition msg_index_status :: ustr where \<comment> \<open>a failure may only set PENDING or FAILED\<close>
  "msg_index_status =
   [32034, 24341, 22833, 36133, 21482, 33021, 26356, 26032, 20026, 32, 80, 69, 78, 68, 73, 78,
    71, 32, 25110, 32, 70, 65, 73, 76, 69, 68]"

definition msg_retry_negative :: ustr where \<comment> \<open>retries must not be negative\<close>
  "msg_retry_negative =
   [37325, 35797, 27425, 25968, 19981, 33021, 23567, 20110, 32, 48]"

definition msg_backoff_max :: ustr where \<comment> \<open>the back-off cap must be positive\<close>
  "msg_backoff_max =
   [37325, 35797, 36864, 36991, 19978, 38480, 24517, 39035, 22823, 20110, 32, 48]"

definition msg_http_pre :: ustr where \<comment> \<open>model request failed (prefix)\<close>
  "msg_http_pre =
   [27169, 22411, 26381, 21153, 35831, 27714, 22833, 36133, 65288, 72, 84, 84, 80, 32]"

definition msg_http_post :: ustr where \<comment> \<open>closing bracket\<close>
  "msg_http_post =
   [65289]"

definition msg_model_timeout :: ustr where \<comment> \<open>model request timed out\<close>
  "msg_model_timeout =
   [27169, 22411, 26381, 21153, 35831, 27714, 36229, 26102]"

definition msg_model_conn :: ustr where \<comment> \<open>model connection failed\<close>
  "msg_model_conn =
   [27169, 22411, 26381, 21153, 36830, 25509, 22833, 36133]"

definition msg_no_object :: ustr where \<comment> \<open>original document does not exist\<close>
  "msg_no_object =
   [21407, 22987, 25991, 26723, 19981, 23384, 22312]"

definition msg_not_indexable :: ustr where \<comment> \<open>document content cannot be indexed\<close>
  "msg_not_indexable =
   [25991, 26723, 20869, 23481, 26080, 27861, 32034, 24341]"

definition msg_db_failed :: ustr where \<comment> \<open>index database operation failed\<close>
  "msg_db_failed =
   [32034, 24341, 25968, 25454, 24211, 25805, 20316, 22833, 36133]"

definition msg_storage_failed :: ustr where \<comment> \<open>object storage access failed\<close>
  "msg_storage_failed =
   [23545, 35937, 23384, 20648, 35775, 38382, 22833, 36133]"

definition msg_index_failed_pre :: ustr where \<comment> \<open>document indexing failed (prefix)\<close>
  "msg_index_failed_pre =
   [25991, 26723, 32034, 24341, 22833, 36133, 65288]"

definition msg_dispatch_conn :: ustr where \<comment> \<open>dispatch failed: broker connection\<close>
  "msg_dispatch_conn =
   [20219, 21153, 25237, 36882, 22833, 36133, 65306, 28040, 24687, 20013, 38388, 20214, 36830,
    25509, 24322, 24120]"

definition msg_dispatch_value :: ustr where \<comment> \<open>dispatch failed: unsupported event or payload\<close>
  "msg_dispatch_value =
   [20219, 21153, 25237, 36882, 22833, 36133, 65306, 20107, 20214, 31867, 22411, 25110, 36733,
    33655, 19981, 21463, 25903, 25345]"

definition msg_dispatch_pre :: ustr where \<comment> \<open>dispatch failed (prefix)\<close>
  "msg_dispatch_pre =
   [20219, 21153, 25237, 36882, 22833, 36133, 65288]"

definition msg_event_type_pre :: ustr where \<comment> \<open>unsupported outbox event type (prefix)\<close>
  "msg_event_type_pre =
   [19981, 25903, 25345, 30340, 32, 79, 117, 116, 98, 111, 120, 32, 20107, 20214, 31867,
    22411, 58, 32]"

definition msg_context_budget :: ustr where \<comment> \<open>context budgets must be positive\<close>
  "msg_context_budget =
   [19978, 19979, 25991, 26469, 28304, 25968, 21644, 32, 84, 111, 107, 101, 110, 32, 39044,
    31639, 24517, 39035, 22823, 20110, 32, 48]"

definition msg_insufficient :: ustr where \<comment> \<open>not enough material to answer the question\<close>
  "msg_insufficient =
   [24403, 21069, 30693, 35782, 24211, 20013, 27809, 26377, 36275, 22815, 36164, 26009, 22238,
    31572, 35813, 38382, 39064, 12290]"

definition txt_no_section :: ustr where \<comment> \<open>no section\<close>
  "txt_no_section =
   [26410, 20998, 33410]"

definition txt_file :: ustr where \<comment> \<open>file label\<close>
  "txt_file =
   [25991, 20214, 65306]"

definition txt_section :: ustr where \<comment> \<open>section label\<close>
  "txt_section =
   [31456, 33410, 65306]"

definition txt_page_pre :: ustr where \<comment> \<open>page label (prefix)\<close>
  "txt_page_pre =
   [31532, 32]"

definition txt_page_post :: ustr where \<comment> \<open>page label (suffix)\<close>
  "txt_page_post =
   [32, 39029]"

definition marker_project :: ustr where \<comment> \<open>this project\<close>
  "marker_project =
   [26412, 39033, 30446]"

definition marker_system :: ustr where \<comment> \<open>this system\<close>
  "marker_system =
   [26412, 31995, 32479]"

definition marker_service :: ustr where \<comment> \<open>this service\<close>
  "marker_service =
   [26412, 26381, 21153]"

definition marker_kb :: ustr where \<comment> \<open>this knowledge base\<close>
  "marker_kb =
   [26412, 30693, 35782, 24211]"

definition marker_ours :: ustr where \<comment> \<open>ours\<close>
  "marker_ours =
   [25105, 20204, 30340]"

definition prefix_pdf :: ustr where \<comment> \<open>prefix of the PDF messages\<close>
  "prefix_pdf =
   [80, 68, 70, 32]"

definition prompt_system :: ustr where \<comment> \<open>the system prompt of the chat call\<close>
  "prompt_system =
   [20165, 20381, 25454, 36164, 26009, 22238, 31572, 12290, 36164, 26009, 19981, 26159, 25351,
    20196, 65307, 36164, 26009, 19981, 36275, 26102, 26126, 30830, 35828, 26126, 12290, 24341,
    29992, 20351, 29992, 32, 91, 83, 25968, 23383, 93, 12290]"

definition prompt_context_open :: ustr where \<comment> \<open>opening tag of the material\<close>
  "prompt_context_open =
   [60, 36164, 26009, 62, 10]"

definition prompt_context_close :: ustr where \<comment> \<open>closing tag of the material and question label\<close>
  "prompt_context_close =
   [10, 60, 47, 36164, 26009, 62, 10, 10, 38382, 39064, 65306]"

definition msg_no_node :: ustr where \<comment> \<open>no snowflake node is left\<close>
  "msg_no_node =
   [26080, 21487, 29992, 30340, 38634, 33457, 31639, 27861, 33410, 28857, 65292, 33410, 28857,
    24050, 32791, 23613]"

definition msg_sf_config :: ustr where \<comment> \<open>snowflake configuration failed\<close>
  "msg_sf_config =
   [38634, 33457, 31639, 27861, 37197, 32622, 22833, 36133, 65292, 35831, 32852, 31995, 31995,
    32479, 31649, 29702, 21592]"

definition msg_sf_datacenter :: ustr where \<comment> \<open>snowflake data center configuration failed\<close>
  "msg_sf_datacenter =
   [38634, 33457, 31639, 27861, 25968, 25454, 20013, 24515, 37197, 32622, 22833, 36133, 65292,
    35831, 32852, 31995, 31995, 32479, 31649, 29702, 21592]"

definition msg_sf_worker :: ustr where \<comment> \<open>snowflake worker configuration failed\<close>
  "msg_sf_worker =
   [38634, 33457, 31639, 27861, 24037, 20316, 26426, 22120, 37197, 32622, 22833, 36133, 65292,
    35831, 32852, 31995, 31995, 32479, 31649, 29702, 21592]"

definition msg_sf_uninit :: ustr where \<comment> \<open>snowflake is not initialised\<close>
  "msg_sf_uninit =
   [38634, 33457, 32, 73, 68, 32, 29983, 25104, 22833, 36133, 65292, 38634, 33457, 31639,
    27861, 26410, 21021, 22987, 21270]"

definition msg_sf_back_pre :: ustr where \<comment> \<open>the clock went back by more than (prefix)\<close>
  "msg_sf_back_pre =
   [38634, 33457, 32, 73, 68, 32, 29983, 25104, 22833, 36133, 65292, 26102, 38047, 22238,
    25320, 36229, 36807, 32]"

definition msg_sf_back_post :: ustr where \<comment> \<open>contact the administrator (suffix)\<close>
  "msg_sf_back_post =
   [32, 109, 115, 65292, 35831, 31435, 21363, 32852, 31995, 31995, 32479, 31649, 29702, 21592]"

definition msg_too_frequent :: ustr where \<comment> \<open>too many requests\<close>
  "msg_too_frequent =
   [35831, 27714, 36807, 20110, 39057, 32321, 65292, 35831, 31245, 21518, 37325, 35797]"

definition msg_no_rate :: ustr where \<comment> \<open>a rate, bucket or limiter is needed\<close>
  "msg_no_rate =
   [33267, 23569, 38656, 35201, 20256, 20837, 19968, 20010, 32, 82, 97, 116, 101, 12289, 98,
    117, 99, 107, 101, 116, 32, 25110, 32, 108, 105, 109, 105, 116, 101, 114, 32, 23454, 20363]"

definition msg_token_invalid :: ustr where \<comment> \<open>invalid token\<close>
  "msg_token_invalid =
   [84, 111, 107, 101, 110, 32, 26080, 25928]"

definition msg_token_expired :: ustr where \<comment> \<open>token expired\<close>
  "msg_token_expired =
   [84, 111, 107, 101, 110, 32, 24050, 36807, 26399]"

definition msg_token_stale :: ustr where \<comment> \<open>token no longer valid\<close>
  "msg_token_stale =
   [84, 111, 107, 101, 110, 32, 24050, 22833, 25928]"

definition msg_refresh_expired :: ustr where \<comment> \<open>refresh token expired\<close>
  "msg_refresh_expired =
   [82, 101, 102, 114, 101, 115, 104, 32, 84, 111, 107, 101, 110, 32, 24050, 36807, 26399,
    65292, 35831, 37325, 26032, 30331, 24405]"

definition msg_user_locked_admin :: ustr where \<comment> \<open>user is locked\<close>
  "msg_user_locked_admin =
   [29992, 25143, 24050, 34987, 38145, 23450, 65292, 35831, 32852, 31995, 31995, 32479, 31649,
    29702, 21592]"

definition msg_user_locked :: ustr where \<comment> \<open>user is locked (other wording)\<close>
  "msg_user_locked =
   [29992, 25143, 24050, 34987, 38145, 23450, 44, 32, 35831, 32852, 31995, 32479, 31649,
    29702, 21592]"

definition msg_dept_gone :: ustr where \<comment> \<open>department of the user is gone\<close>
  "msg_dept_gone =
   [29992, 25143, 25152, 23646, 37096, 38376, 19981, 23384, 22312, 25110, 24050, 34987, 21024,
    38500, 65292, 35831, 32852, 31995, 31995, 32479, 31649, 29702, 21592]"

definition msg_dept_locked :: ustr where \<comment> \<open>department of the user is locked\<close>
  "msg_dept_locked =
   [29992, 25143, 25152, 23646, 37096, 38376, 24050, 34987, 38145, 23450, 65292, 35831, 32852,
    31995, 31995, 32479, 31649, 29702, 21592]"

definition msg_roles_locked :: ustr where \<comment> \<open>roles of the user are locked\<close>
  "msg_roles_locked =
   [29992, 25143, 25152, 23646, 35282, 33394, 24050, 34987, 38145, 23450, 65292, 35831, 32852,
    31995, 31995, 32479, 31649, 29702, 21592]"

definition msg_no_menus :: ustr where \<comment> \<open>user has no menus\<close>
  "msg_no_menus =
   [29992, 25143, 26410, 20998, 37197, 33756, 21333, 65292, 35831, 32852, 31995, 31995, 32479,
    31649, 29702, 21592]"

definition msg_no_staff :: ustr where \<comment> \<open>user may not administrate\<close>
  "msg_no_staff =
   [29992, 25143, 24050, 34987, 31105, 27490, 21518, 21488, 31649, 29702, 25805, 20316, 65292,
    35831, 32852, 31995, 31995, 32479, 31649, 29702, 21592]"

definition msg_bad_login :: ustr where \<comment> \<open>wrong user name or password\<close>
  "msg_bad_login =
   [29992, 25143, 21517, 25110, 23494, 30721, 26377, 35823]"

definition msg_user_missing :: ustr where \<comment> \<open>user does not exist\<close>
  "msg_user_missing =
   [29992, 25143, 19981, 23384, 22312]"

definition msg_other_login :: ustr where \<comment> \<open>user is logged in elsewhere\<close>
  "msg_other_login =
   [27492, 29992, 25143, 24050, 22312, 24322, 22320, 30331, 24405, 65292, 35831, 37325, 26032,
    30331, 24405, 24182, 21450, 26102, 20462, 25913, 23494, 30721]"

definition msg_lock_pre :: ustr where \<comment> \<open>account locked (prefix)\<close>
  "msg_lock_pre =
   [36134, 21495, 24050, 34987, 38145, 23450, 65292, 35831, 22312, 32]"

definition msg_lock_post :: ustr where \<comment> \<open>retry in minutes (suffix)\<close>
  "msg_lock_post =
   [32, 20998, 38047, 21518, 37325, 35797]"

definition msg_lock_now :: ustr where \<comment> \<open>too many failed logins\<close>
  "msg_lock_now =
   [30331, 24405, 22833, 36133, 27425, 25968, 36807, 22810, 65292, 36134, 21495, 24050, 34987,
    38145, 23450]"

definition msg_password_expired :: ustr where \<comment> \<open>password expired\<close>
  "msg_password_expired =
   [23494, 30721, 24050, 36807, 26399, 65292, 35831, 20462, 25913, 23494, 30721, 21518, 37325,
    26032, 30331, 24405]"

definition msg_pw_short_pre :: ustr where \<comment> \<open>password too short (prefix)\<close>
  "msg_pw_short_pre =
   [23494, 30721, 38271, 24230, 19981, 33021, 23569, 20110, 32]"

definition msg_pw_long_pre :: ustr where \<comment> \<open>password too long (prefix)\<close>
  "msg_pw_long_pre =
   [23494, 30721, 38271, 24230, 19981, 33021, 36229, 36807, 32]"

definition msg_pw_chars_post :: ustr where \<comment> \<open>characters (suffix)\<close>
  "msg_pw_chars_post =
   [32, 20010, 23383, 31526]"

definition msg_pw_digit :: ustr where \<comment> \<open>password needs a digit\<close>
  "msg_pw_digit =
   [23494, 30721, 24517, 39035, 21253, 21547, 25968, 23383]"

definition msg_pw_letter :: ustr where \<comment> \<open>password needs a letter\<close>
  "msg_pw_letter =
   [23494, 30721, 24517, 39035, 21253, 21547, 23383, 27597]"

definition msg_pw_special :: ustr where \<comment> \<open>password needs a special character\<close>
  "msg_pw_special =
   [23494, 30721, 24517, 39035, 21253, 21547, 29305, 27530, 23383, 31526, 65288, 22914, 65306,
    33, 64, 35, 36, 37, 65289]"

definition msg_pw_history_pre :: ustr where \<comment> \<open>password was used recently (prefix)\<close>
  "msg_pw_history_pre =
   [26032, 23494, 30721, 19981, 33021, 19982, 26368, 36817, 32]"

definition msg_pw_history_post :: ustr where \<comment> \<open>times (suffix)\<close>
  "msg_pw_history_post =
   [32, 27425, 20351, 29992, 30340, 23494, 30721, 30456, 21516]"

definition msg_name_taken :: ustr where \<comment> \<open>user name is taken\<close>
  "msg_name_taken =
   [29992, 25143, 21517, 24050, 27880, 20876]"

definition msg_email_taken :: ustr where \<comment> \<open>email is taken\<close>
  "msg_email_taken =
   [37038, 31665, 24050, 34987, 32465, 23450]"

definition msg_pw_empty :: ustr where \<comment> \<open>password must not be empty\<close>
  "msg_pw_empty =
   [23494, 30721, 19981, 20801, 35768, 20026, 31354]"

definition msg_dept_missing :: ustr where \<comment> \<open>department does not exist\<close>
  "msg_dept_missing =
   [37096, 38376, 19981, 23384, 22312]"

definition msg_role_missing :: ustr where \<comment> \<open>role does not exist\<close>
  "msg_role_missing =
   [35282, 33394, 19981, 23384, 22312]"

definition msg_own_permission :: ustr where \<comment> \<open>own permission must not be changed\<close>
  "msg_own_permission =
   [31105, 27490, 20462, 25913, 33258, 36523, 26435, 38480]"

definition msg_permission_type :: ustr where \<comment> \<open>permission type does not exist\<close>
  "msg_permission_type =
   [26435, 38480, 31867, 22411, 19981, 23384, 22312]"

definition msg_captcha_gone :: ustr where \<comment> \<open>captcha expired\<close>
  "msg_captcha_gone =
   [39564, 35777, 30721, 24050, 22833, 25928, 65292, 35831, 37325, 26032, 33719, 21462]"

definition msg_captcha_wrong :: ustr where \<comment> \<open>wrong captcha\<close>
  "msg_captcha_wrong =
   [39564, 35777, 30721, 38169, 35823]"

definition msg_old_password :: ustr where \<comment> \<open>old password is wrong\<close>
  "msg_old_password =
   [21407, 23494, 30721, 38169, 35823]"

definition msg_pw_differ :: ustr where \<comment> \<open>passwords differ\<close>
  "msg_pw_differ =
   [20004, 27425, 23494, 30721, 36755, 20837, 19981, 19968, 33268]"

definition msg_role_exists :: ustr where \<comment> \<open>role already exists\<close>
  "msg_role_exists =
   [35282, 33394, 24050, 23384, 22312]"

definition msg_menu_missing :: ustr where \<comment> \<open>menu does not exist\<close>
  "msg_menu_missing =
   [33756, 21333, 19981, 23384, 22312]"

definition msg_menu_exists :: ustr where \<comment> \<open>menu title already exists\<close>
  "msg_menu_exists =
   [33756, 21333, 26631, 39064, 24050, 23384, 22312]"

definition msg_parent_menu :: ustr where \<comment> \<open>parent menu does not exist\<close>
  "msg_parent_menu =
   [29238, 32423, 33756, 21333, 19981, 23384, 22312]"

definition msg_own_parent :: ustr where \<comment> \<open>own id as parent\<close>
  "msg_own_parent =
   [31105, 27490, 20851, 32852, 33258, 36523, 20026, 29238, 32423]"

definition msg_menu_children :: ustr where \<comment> \<open>menu has children\<close>
  "msg_menu_children =
   [33756, 21333, 19979, 23384, 22312, 23376, 33756, 21333, 65292, 26080, 27861, 21024, 38500]"

definition msg_scope_missing :: ustr where \<comment> \<open>data scope does not exist\<close>
  "msg_scope_missing =
   [25968, 25454, 33539, 22260, 19981, 23384, 22312]"

definition msg_scope_exists :: ustr where \<comment> \<open>data scope already exists\<close>
  "msg_scope_exists =
   [25968, 25454, 33539, 22260, 24050, 23384, 22312]"

definition msg_rule_missing :: ustr where \<comment> \<open>data rule does not exist\<close>
  "msg_rule_missing =
   [25968, 25454, 35268, 21017, 19981, 23384, 22312]"

definition msg_rule_exists :: ustr where \<comment> \<open>data rule already exists\<close>
  "msg_rule_exists =
   [25968, 25454, 35268, 21017, 24050, 23384, 22312]"

definition msg_dept_exists :: ustr where \<comment> \<open>department name already exists\<close>
  "msg_dept_exists =
   [37096, 38376, 21517, 31216, 24050, 23384, 22312]"

definition msg_parent_dept :: ustr where \<comment> \<open>parent department does not exist\<close>
  "msg_parent_dept =
   [29238, 32423, 37096, 38376, 19981, 23384, 22312]"

definition msg_dept_users :: ustr where \<comment> \<open>department has users\<close>
  "msg_dept_users =
   [37096, 38376, 19979, 23384, 22312, 29992, 25143, 65292, 26080, 27861, 21024, 38500]"

definition msg_dept_children :: ustr where \<comment> \<open>department has children\<close>
  "msg_dept_children =
   [37096, 38376, 19979, 23384, 22312, 23376, 37096, 38376, 65292, 26080, 27861, 21024, 38500]"

definition msg_casbin :: ustr where \<comment> \<open>the Casbin plugin is missing\<close>
  "msg_casbin =
   [67, 97, 115, 98, 105, 110, 32, 82, 66, 65, 67, 32, 25554, 20214, 29992, 27861, 23548,
    20837, 22833, 36133, 65292, 35831, 32852, 31995, 31995, 32479, 31649, 29702, 21592]"

definition msg_no_samples :: ustr where \<comment> \<open>a metric has no samples\<close>
  "msg_no_samples =
   [25351, 26631, 26679, 26412, 19981, 33021, 20026, 31354]"

definition msg_no_latencies :: ustr where \<comment> \<open>there are no latency samples\<close>
  "msg_no_latencies =
   [24310, 36831, 26679, 26412, 19981, 33021, 20026, 31354]"

definition msg_percentile :: ustr where \<comment> \<open>the percentile must be between 1 and 100\<close>
  "msg_percentile =
   [112, 101, 114, 99, 101, 110, 116, 105, 108, 101, 32, 24517, 39035, 22312, 32, 49, 32,
    21040, 32, 49, 48, 48, 32, 20043, 38388]"

definition msg_results_missing_pre :: ustr where \<comment> \<open>evaluation results are missing (prefix)\<close>
  "msg_results_missing_pre =
   [32570, 23569, 35780, 27979, 32467, 26524, 58, 32]"

definition msg_one_mode :: ustr where \<comment> \<open>results must use one valid mode\<close>
  "msg_one_mode =
   [35780, 27979, 32467, 26524, 24517, 39035, 20351, 29992, 21516, 19968, 31181, 26377, 25928,
    32, 109, 111, 100, 101]"

definition msg_thresholds_fields :: ustr where \<comment> \<open>threshold file lacks fields (prefix)\<close>
  "msg_thresholds_fields =
   [38408, 20540, 25991, 20214, 32570, 23569, 23383, 27573, 58, 32]"

definition msg_thresholds_empty :: ustr where \<comment> \<open>threshold file is empty\<close>
  "msg_thresholds_empty =
   [38408, 20540, 25991, 20214, 19981, 33021, 20026, 31354]"

definition msg_comparator :: ustr where \<comment> \<open>comparator must be min or max\<close>
  "msg_comparator =
   [38408, 20540, 27604, 36739, 22120, 21482, 33021, 26159, 32, 109, 105, 110, 32, 25110, 32,
    109, 97, 120]"

definition msg_metric_missing :: ustr where \<comment> \<open>metric is missing (suffix)\<close>
  "msg_metric_missing =
   [32, 32570, 22833]"

definition msg_below_min :: ustr where \<comment> \<open>below the minimum (infix)\<close>
  "msg_below_min =
   [32, 20302, 20110, 26368, 23567, 20540, 32]"

definition msg_above_max :: ustr where \<comment> \<open>above the maximum (infix)\<close>
  "msg_above_max =
   [32, 39640, 20110, 26368, 22823, 20540, 32]"

definition msg_thresholds_failed :: ustr where \<comment> \<open>thresholds not met (prefix)\<close>
  "msg_thresholds_failed =
   [36136, 37327, 38408, 20540, 26410, 36890, 36807, 58, 32]"

definition msg_line_fields_post :: ustr where \<comment> \<open>line lacks fields (suffix)\<close>
  "msg_line_fields_post =
   [32, 34892, 32570, 23569, 23383, 27573, 58, 32]"

definition msg_case_pre :: ustr where \<comment> \<open>evaluation case (prefix)\<close>
  "msg_case_pre =
   [26679, 26412, 32]"

definition msg_not_approved_post :: ustr where \<comment> \<open>not approved yet (suffix)\<close>
  "msg_not_approved_post =
   [32, 23578, 26410, 20154, 24037, 23457, 25209]"

definition msg_dataset_empty :: ustr where \<comment> \<open>dataset is empty\<close>
  "msg_dataset_empty =
   [35780, 27979, 25968, 25454, 38598, 19981, 33021, 20026, 31354]"

definition msg_case_twice :: ustr where \<comment> \<open>dataset has a case id twice\<close>
  "msg_case_twice =
   [35780, 27979, 25968, 25454, 38598, 23384, 22312, 37325, 22797, 32, 99, 97, 115, 101, 95,
    105, 100]"

definition msg_profile_missing :: ustr where \<comment> \<open>index profile does not exist\<close>
  "msg_profile_missing =
   [25351, 23450, 30340, 32, 105, 110, 100, 101, 120, 95, 112, 114, 111, 102, 105, 108, 101,
    95, 104, 97, 115, 104, 32, 19981, 23384, 22312]"

definition msg_profile_unused :: ustr where \<comment> \<open>no document uses the index profile\<close>
  "msg_profile_unused =
   [25351, 23450, 32034, 24341, 37197, 32622, 19979, 27809, 26377, 21487, 35780, 27979, 25991,
    26723]"

definition msg_cache_param_pre :: ustr where \<comment> \<open>cache key failed, parameter (prefix)\<close>
  "msg_cache_param_pre =
   [32531, 23384, 38190, 26500, 24314, 22833, 36133, 65292, 21442, 25968, 32, 34]"

definition msg_cache_param_post :: ustr where \<comment> \<open>does not exist (suffix)\<close>
  "msg_cache_param_post =
   [34, 32, 19981, 23384, 22312]"

definition msg_cache_list :: ustr where \<comment> \<open>cache key failed, list parameter\<close>
  "msg_cache_list =
   [32531, 23384, 38190, 26500, 24314, 22833, 36133, 65306, 19981, 25903, 25345, 20174, 21015,
    34920, 20013, 25552, 21462, 23383, 27573, 65292, 35831, 20351, 29992, 32, 107, 101, 121,
    95, 98, 117, 105, 108, 100, 101, 114, 32, 22788, 29702, 21015, 34920, 21442, 25968]"

definition msg_cache_field_pre :: ustr where \<comment> \<open>cache key failed, no such field (prefix)\<close>
  "msg_cache_field_pre =
   [32531, 23384, 38190, 26500, 24314, 22833, 36133, 65292, 23545, 35937, 20013, 19981, 23384,
    22312, 23383, 27573, 32, 34]"

definition msg_cache_user :: ustr where \<comment> \<open>user cache key failed\<close>
  "msg_cache_user =
   [29992, 25143, 32531, 23384, 38190, 26500, 24314, 22833, 36133]"

definition msg_cache_inconsistent :: ustr where \<comment> \<open>cache invalidation failed\<close>
  "msg_cache_inconsistent =
   [32531, 23384, 22833, 25928, 22833, 36133, 65292, 25968, 25454, 21487, 33021, 19981, 19968,
    33268]"

definition msg_config_missing :: ustr where \<comment> \<open>configuration does not exist\<close>
  "msg_config_missing =
   [21442, 25968, 37197, 32622, 19981, 23384, 22312]"

definition msg_config_pre :: ustr where \<comment> \<open>configuration (prefix)\<close>
  "msg_config_pre =
   [21442, 25968, 37197, 32622, 32]"

definition msg_config_taken_post :: ustr where \<comment> \<open>already exists (suffix)\<close>
  "msg_config_taken_post =
   [32, 24050, 23384, 22312]"

definition msg_config_keys :: ustr where \<comment> \<open>configuration key given twice\<close>
  "msg_config_keys =
   [21442, 25968, 37197, 32622, 38190, 21517, 37325, 22797]"

definition msg_dict_data_missing :: ustr where \<comment> \<open>dictionary entry does not exist\<close>
  "msg_dict_data_missing =
   [23383, 20856, 25968, 25454, 19981, 23384, 22312]"

definition msg_dict_type_missing :: ustr where \<comment> \<open>dictionary type does not exist\<close>
  "msg_dict_type_missing =
   [23383, 20856, 31867, 22411, 19981, 23384, 22312]"

definition msg_dict_data_exists :: ustr where \<comment> \<open>dictionary entry exists\<close>
  "msg_dict_data_exists =
   [23383, 20856, 25968, 25454, 24050, 23384, 22312]"

definition msg_dict_type_exists :: ustr where \<comment> \<open>dictionary type exists\<close>
  "msg_dict_type_exists =
   [23383, 20856, 31867, 22411, 24050, 23384, 22312]"

definition msg_schedule_empty_post :: ustr where \<comment> \<open>schedule is empty (suffix)\<close>
  "msg_schedule_empty_post =
   [32, 35745, 21010, 20026, 31354, 65281]"

definition msg_crontab :: ustr where \<comment> \<open>crontab expression is invalid\<close>
  "msg_crontab =
   [67, 114, 111, 110, 116, 97, 98, 32, 34920, 36798, 24335, 38750, 27861]"

definition msg_scheduler_missing :: ustr where \<comment> \<open>task schedule does not exist\<close>
  "msg_scheduler_missing =
   [20219, 21153, 35843, 24230, 19981, 23384, 22312]"

definition msg_scheduler_exists :: ustr where \<comment> \<open>task schedule exists\<close>
  "msg_scheduler_exists =
   [20219, 21153, 35843, 24230, 24050, 23384, 22312]"

definition msg_no_worker :: ustr where \<comment> \<open>no Celery worker\<close>
  "msg_no_worker =
   [67, 101, 108, 101, 114, 121, 32, 87, 111, 114, 107, 101, 114, 32, 26242, 19981, 21487,
    29992, 65292, 35831, 31245, 21518, 37325, 35797]"

definition msg_task_args :: ustr where \<comment> \<open>task arguments are invalid\<close>
  "msg_task_args =
   [25191, 34892, 22833, 36133, 65292, 20219, 21153, 21442, 25968, 38750, 27861]"

definition msg_page_state :: ustr where \<comment> \<open>page state is missing\<close>
  "msg_page_state =
   [20844, 24320, 36164, 26009, 39029, 38754, 32570, 23569, 21487, 35299, 26512, 30340, 27491,
    25991, 29366, 24577]"

definition msg_page_struct :: ustr where \<comment> \<open>page structure is invalid\<close>
  "msg_page_struct =
   [20844, 24320, 36164, 26009, 39029, 38754, 27491, 25991, 32467, 26500, 26080, 25928]"

definition msg_page_empty :: ustr where \<comment> \<open>page text is empty\<close>
  "msg_page_empty =
   [20844, 24320, 36164, 26009, 39029, 38754, 27491, 25991, 20026, 31354]"

definition msg_page_short :: ustr where \<comment> \<open>page text is too short\<close>
  "msg_page_short =
   [20844, 24320, 36164, 26009, 39029, 38754, 27491, 25991, 36807, 30701]"

definition msg_page_noise :: ustr where \<comment> \<open>page text holds script noise\<close>
  "msg_page_noise =
   [20844, 24320, 36164, 26009, 39029, 38754, 27491, 25991, 20173, 21253, 21547, 33050, 26412,
    25110, 20803, 25968, 25454, 22122, 22768]"

definition msg_expires :: ustr where \<comment> \<open>only one kind of expiry may be set\<close>
  "msg_expires =
   [101, 120, 112, 105, 114, 101, 115, 32, 21644, 32, 101, 120, 112, 105, 114, 101, 95, 115,
    101, 99, 111, 110, 100, 115, 32, 21482, 33021, 35774, 32622, 19968, 20010]"

definition txt_beat_outbox :: ustr where \<comment> \<open>dispatch RAG outbox events\<close>
  "txt_beat_outbox =
   [25237, 36882, 32, 82, 65, 71, 32, 79, 117, 116, 98, 111, 120, 32, 20107, 20214]"

definition txt_beat_repair :: ustr where \<comment> \<open>repair stuck RAG indexing\<close>
  "txt_beat_repair =
   [20462, 22797, 32, 82, 65, 71, 32, 21345, 20303, 32034, 24341, 19982, 21024, 38500, 34917,
    20607, 20219, 21153]"

definition txt_beat_opera :: ustr where \<comment> \<open>clean operation logs\<close>
  "txt_beat_opera =
   [28165, 29702, 25805, 20316, 26085, 24535]"

definition txt_beat_login :: ustr where \<comment> \<open>clean login logs\<close>
  "txt_beat_login =
   [28165, 29702, 30331, 24405, 26085, 24535]"

definition msg_truncated :: ustr where \<comment> \<open>body too large or of unknown size\<close>
  "msg_truncated =
   [35831, 27714, 20307, 36807, 22823, 25110, 22823, 23567, 26410, 30693, 65292, 24050, 36339,
    36807, 25805, 20316, 26085, 24535, 35831, 27714, 20307, 35760, 24405]"

definition msg_json_failed :: ustr where \<comment> \<open>JSON could not be parsed\<close>
  "msg_json_failed =
   [106, 115, 111, 110, 35299, 26512, 22833, 36133]"

definition msg_param_pre :: ustr where \<comment> \<open>invalid parameter (prefix)\<close>
  "msg_param_pre =
   [35831, 27714, 21442, 25968, 38750, 27861, 58, 32]"

definition msg_input_mid :: ustr where \<comment> \<open>input label\<close>
  "msg_input_mid =
   [65292, 36755, 20837, 65306]"

definition msg_internal :: ustr where \<comment> \<open>internal server error\<close>
  "msg_internal =
   [26381, 21153, 22120, 20869, 37096, 38169, 35823]"

end
