(* ===== verification/Chunking.thy ===== *)
theory Chunking
  imports Messages
begin

text \<open>
  \<open>backend/app/rag/chunking.py\<close>: cleaning a parsed text, cutting it into chunks by paragraphs with
  an overlap, and grouping chunks under the headings and page marks of the document. The lemmas
  bound the chunks, show that no text is lost, and that the sections partition the lines.
\<close>

section \<open>Cleaning\<close>

text \<open>The characters that \<open>[\x00-\x08\x0b\x0c\x0e-\x1f\x7f]\<close> removes.\<close>

definition is_control :: "nat \<Rightarrow> bool" where
  "is_control c \<longleftrightarrow> c \<le> 8 \<or> c = 11 \<or> c = 12 \<or> 14 \<le> c \<and> c \<le> 31 \<or> c = 127"

text \<open>\<open>replace('\r\n', '\n').replace('\r', '\n')\<close>\<close>

fun replace_crlf :: "ustr \<Rightarrow> ustr" where
  "replace_crlf [] = []"
| "replace_crlf (c # s) =
     (if c = 13 \<and> s \<noteq> [] \<and> hd s = 10 then 10 # replace_crlf (tl s) else c # replace_crlf s)"

definition replace_cr :: "ustr \<Rightarrow> ustr" where
  "replace_cr s = map (\<lambda>c. if c = 13 then 10 else c) s"

text \<open>\<open>re.sub(r'\n{3,}', '\n\n', s)\<close>: of every run of line feeds at most two stay.\<close>

fun squeeze_nl :: "nat \<Rightarrow> ustr \<Rightarrow> ustr" where
  "squeeze_nl k [] = []"
| "squeeze_nl k (c # s) =
     (if c = 10 then (if 2 \<le> k then squeeze_nl k s else 10 # squeeze_nl (Suc k) s)
      else c # squeeze_nl 0 s)"

definition clean_text :: "ustr \<Rightarrow> ustr" where
  "clean_text text =
     strip (squeeze_nl 0 (replace_cr (replace_crlf (filter (\<lambda>c. \<not> is_control c) text))))"

section \<open>Chunks\<close>

text \<open>\<open>re.split(r'\n{2,}', content)\<close>\<close>

function split_blank :: "ustr \<Rightarrow> ustr \<Rightarrow> ustr list" where
  "split_blank cur [] = [cur]"
| "split_blank cur (c # s) =
     (if c = 10 \<and> s \<noteq> [] \<and> hd s = 10 then cur # split_blank [] (dropWhile (\<lambda>d. d = 10) s)
      else split_blank (cur @ [c]) s)"
  by pat_completeness auto
termination
  by (relation "measure (\<lambda>(cur, s). length s)") (auto simp: le_imp_less_Suc length_dropWhile_le)

definition paragraphs_of :: "ustr \<Rightarrow> ustr list" where
  "paragraphs_of content = map strip (filter (\<lambda>p. strip p \<noteq> []) (split_blank [] content))"

text \<open>The windows of a paragraph that is longer than a chunk.\<close>

definition windows :: "int \<Rightarrow> int \<Rightarrow> ustr \<Rightarrow> ustr list" where
  "windows chunk_size overlap p =
     (let step = nat (max (chunk_size - overlap) 1)
      in map (\<lambda>i. slice p (int i) (int i + chunk_size)) (range0 (length p) step))"

definition nl2 :: ustr where "nl2 = [10, 10]"

text \<open>One turn of the loop: the chunks closed so far and the chunk being filled.\<close>

definition split_step :: "int \<Rightarrow> int \<Rightarrow> ustr list \<times> ustr \<Rightarrow> ustr \<Rightarrow> ustr list \<times> ustr" where
  "split_step chunk_size overlap st paragraph =
     (let (chunks, current) = st in
      if int (length paragraph) > chunk_size
      then ((if current \<noteq> [] then chunks @ [current] else chunks)
              @ windows chunk_size overlap paragraph, [])
      else
        let candidate = strip (current @ nl2 @ paragraph) in
        if int (length candidate) \<le> chunk_size then (chunks, candidate)
        else (chunks @ [current],
              if overlap \<noteq> 0 then strip (slice_from current (- overlap) @ nl2 @ paragraph)
              else paragraph))"

definition split_text :: "ustr \<Rightarrow> int \<Rightarrow> int \<Rightarrow> ustr list" where
  "split_text text chunk_size overlap =
     (let content = clean_text text in
      if content = [] then []
      else
        let (chunks, current) =
              foldl (split_step chunk_size overlap) ([], []) (paragraphs_of content)
        in filter (\<lambda>c. strip c \<noteq> []) (if current \<noteq> [] then chunks @ [current] else chunks))"

section \<open>Sections\<close>

text \<open>\<open>f'...{filename}\n...{heading}\n\n{content}'\<close>\<close>

definition contextualize_chunk :: "ustr \<Rightarrow> ustr list \<Rightarrow> ustr \<Rightarrow> ustr" where
  "contextualize_chunk filename heading_path content =
     (let heading = if heading_path \<noteq> [] then join (asc '' > '') heading_path else txt_no_section
      in txt_file @ filename @ [10] @ txt_section @ heading @ nl2 @ content)"

record parent_child_chunks =
  pc_heading_path :: "ustr list"
  pc_parent_content :: ustr
  pc_children :: "ustr list"

text \<open>
  \<open>\d\<close>: the decimal digits of Unicode come in runs of ten; these are the first code points of the
  runs (category Nd, version 14.0, that of Python 3.11).
\<close>

definition decimal_zeros :: "nat list" where
  "decimal_zeros =
   [48, 1632, 1776, 1984, 2406, 2534, 2662, 2790, 2918, 3046, 3174, 3302, 3430, 3558, 3664, 3792,
    3872, 4160, 4240, 6112, 6160, 6470, 6608, 6784, 6800, 6992, 7088, 7232, 7248, 42528, 43216,
    43264, 43472, 43504, 43600, 44016, 65296, 66720, 68912, 69734, 69872, 69942, 70096, 70384,
    70736, 70864, 71248, 71360, 71472, 71904, 72016, 72784, 73040, 73120, 92768, 92864, 93008,
    120782, 120792, 120802, 120812, 120822, 123200, 123632, 125264, 130032]"

definition is_decimal :: "nat \<Rightarrow> bool" where
  "is_decimal c \<longleftrightarrow> list_ex (\<lambda>z. z \<le> c \<and> c < z + 10) decimal_zeros"

text \<open>
  \<open>^(#{1,6})\s+(.+)$\<close>: the level and the heading text. When only white space follows the hashes,
  \<open>\s+\<close> gives its last character back to \<open>.+\<close>.
\<close>

definition match_heading :: "ustr \<Rightarrow> (nat \<times> ustr) option" where
  "match_heading line =
     (let level = length (takeWhile (\<lambda>c. c = 35) line);
          rest = dropWhile (\<lambda>c. c = 35) line;
          gap = takeWhile is_space rest;
          title = dropWhile is_space rest
      in if level < 1 \<or> 6 < level \<or> gap = [] then None
         else if title \<noteq> [] then Some (level, title)
         else if 2 \<le> length gap then Some (level, [last gap]) else None)"

text \<open>The page mark: label, optional white space, digits, optional white space, label.\<close>

definition match_page :: "ustr \<Rightarrow> ustr option" where
  "match_page line =
     (if line = [] \<or> hd line \<noteq> 31532 then None
      else
        let rest = dropWhile is_space (tl line);
            digits = takeWhile is_decimal rest;
            after = dropWhile is_space (dropWhile is_decimal rest)
        in if digits \<noteq> [] \<and> after = [39029] then Some digits else None)"

text \<open>The state of the loop over the lines: closed sections, heading path, open section.\<close>

type_synonym section_state = "(ustr list \<times> ustr list) list \<times> ustr list \<times> ustr list"

definition section_step :: "section_state \<Rightarrow> ustr \<Rightarrow> section_state" where
  "section_step st line =
     (let (sections, heading_path, section_lines) = st;
          heading_match = match_heading line;
          page_match = match_page line
      in if heading_match \<noteq> None \<or> page_match \<noteq> None
         then
           let sections' = (if section_lines \<noteq> [] then sections @ [(heading_path, section_lines)]
                            else sections);
               path' = (case page_match of
                          Some n \<Rightarrow> [txt_page_pre @ n @ txt_page_post]
                        | None \<Rightarrow>
                            (case heading_match of
                               Some (level, title) \<Rightarrow> take (level - 1) heading_path @ [strip title]
                             | None \<Rightarrow> heading_path))
           in (sections', path', [line])
         else (sections, heading_path, section_lines @ [line]))"

definition sections_of :: "ustr list \<Rightarrow> (ustr list \<times> ustr list) list" where
  "sections_of lines =
     (let (sections, heading_path, section_lines) = foldl section_step ([], [], []) lines
      in if section_lines \<noteq> [] then sections @ [(heading_path, section_lines)] else sections)"

definition split_parent_child_text :: "ustr \<Rightarrow> int \<Rightarrow> int \<Rightarrow> parent_child_chunks list" where
  "split_parent_child_text text chunk_size overlap =
     (let content = clean_text text in
      if content = [] then []
      else
        map (\<lambda>(path, parent). \<lparr>pc_heading_path = path, pc_parent_content = parent,
                               pc_children = split_text parent chunk_size overlap\<rparr>)
          (filter (\<lambda>(path, parent). parent \<noteq> [])
            (map (\<lambda>(path, lines). (path, clean_text (join [10] lines)))
              (sections_of (splitlines content)))))"

section \<open>Cleaning is idempotent\<close>

text \<open>At most two line feeds in a row, \<open>k\<close> of them just before the text.\<close>

fun nl_short :: "nat \<Rightarrow> ustr \<Rightarrow> bool" where
  "nl_short k [] \<longleftrightarrow> True"
| "nl_short k (c # s) \<longleftrightarrow> (if c = 10 then k < 2 \<and> nl_short (Suc k) s else nl_short 0 s)"

lemma length_squeeze_nl: "length (squeeze_nl k s) \<le> length s"
  by (induction s arbitrary: k) (auto intro: le_SucI)

lemma squeeze_nl_id: "nl_short k s \<Longrightarrow> squeeze_nl k s = s"
  by (induction s arbitrary: k) auto

lemma nl_short_mono: "nl_short k s \<Longrightarrow> j \<le> k \<Longrightarrow> nl_short j s"
  by (induction s arbitrary: j k) (auto split: if_splits)

lemma nl_short_squeeze_nl: "nl_short k (squeeze_nl k s)"
  by (induction s arbitrary: k) auto

lemma nl_short_append1: "nl_short k (s @ t) \<Longrightarrow> nl_short k s"
  by (induction s arbitrary: k) (auto split: if_splits)

lemma nl_short_append2: "nl_short k (s @ t) \<Longrightarrow> nl_short 0 t"
  by (induction s arbitrary: k) (auto split: if_splits intro: nl_short_mono)

lemma nl_short_sublist: "nl_short 0 s \<Longrightarrow> sublist t s \<Longrightarrow> nl_short 0 t"
  by (auto simp: sublist_def dest: nl_short_append1 nl_short_append2)

lemma set_squeeze_nl: "set (squeeze_nl k s) \<subseteq> set s"
  by (induction s arbitrary: k) auto

lemma set_replace_crlf: "set (replace_crlf s) \<subseteq> set s"
proof (induction s rule: replace_crlf.induct)
  case (2 c s)
  show ?case
  proof (cases "c = 13 \<and> s \<noteq> [] \<and> hd s = 10")
    case True
    then obtain t where "s = 10 # t" by (cases s) auto
    with True 2 show ?thesis by auto
  next
    case False
    with 2 show ?thesis by auto
  qed
qed simp

lemma replace_crlf_id: "13 \<notin> set s \<Longrightarrow> replace_crlf s = s"
  by (induction s) simp_all

lemma replace_cr_id: "13 \<notin> set s \<Longrightarrow> replace_cr s = s"
  unfolding replace_cr_def by (rule map_idI) auto

lemma set_replace_cr: "set (replace_cr s) \<subseteq> insert 10 (set s - {13})"
  by (auto simp: replace_cr_def)

text \<open>What cleaning guarantees.\<close>

definition clean :: "ustr \<Rightarrow> bool" where
  "clean s \<longleftrightarrow> (\<forall>c \<in> set s. \<not> is_control c \<and> c \<noteq> 13) \<and> nl_short 0 s \<and> stripped s"

lemma clean_clean_text: "clean (clean_text text)"
proof -
  let ?f = "filter (\<lambda>c. \<not> is_control c) text"
  let ?q = "squeeze_nl 0 (replace_cr (replace_crlf ?f))"
  have "set ?q \<subseteq> insert 10 (set ?f - {13})"
    using set_squeeze_nl set_replace_cr set_replace_crlf by fast
  moreover have "\<not> is_control 10" by (simp add: is_control_def)
  ultimately have "\<forall>c \<in> set ?q. \<not> is_control c \<and> c \<noteq> 13" by auto
  then have "\<forall>c \<in> set (strip ?q). \<not> is_control c \<and> c \<noteq> 13" using set_strip by blast
  moreover have "nl_short 0 (strip ?q)"
    using nl_short_squeeze_nl strip_sublist by (rule nl_short_sublist)
  moreover have "stripped (strip ?q)" by (rule stripped_strip)
  ultimately show ?thesis unfolding clean_def clean_text_def by blast
qed

lemma clean_text_id:
  assumes "clean s"
  shows "clean_text s = s"
proof -
  from assms have "filter (\<lambda>c. \<not> is_control c) s = s" by (auto simp: clean_def filter_id_conv)
  moreover from assms have "13 \<notin> set s" by (auto simp: clean_def)
  moreover from assms have "nl_short 0 s" "stripped s" by (auto simp: clean_def)
  ultimately show ?thesis
    by (simp add: clean_text_def replace_crlf_id replace_cr_id squeeze_nl_id strip_id)
qed

text \<open>
  \<open>clean_text\<close> is idempotent, and its result holds no control character and no carriage return,
  never three line feeds in a row, and no white space at either end.
\<close>

theorem clean_text_normal_form:
  "clean_text (clean_text text) = clean_text text \<and> clean (clean_text text)"
  by (simp add: clean_clean_text clean_text_id)

text \<open>Cleaning is the identity on what is already clean, for instance on "a\n\nb".\<close>

lemma clean_example: "clean_text [97, 10, 10, 98] = [97, 10, 10, 98]"
  by (rule clean_text_id) (simp add: clean_def is_control_def stripped_def is_space_def)

section \<open>Windows\<close>

lemma windows_eq:
  assumes "0 \<le> chunk_size"
  shows "windows chunk_size overlap p =
    (let step = nat (max (chunk_size - overlap) 1)
     in map (\<lambda>k. take (nat chunk_size) (drop (k * step) p))
          [0..<(length p + step - 1) div step])"
proof -
  obtain n where n: "chunk_size = int n" using assms nonneg_int_cases by blast
  have "slice p (int i) (int i + chunk_size) = take n (drop i p)" for i
    using slice_nat [of p i "i + n"] by (simp add: n take_drop add.commute)
  then show ?thesis by (simp add: windows_def range0_def Let_def n)
qed

lemma length_window:
  assumes "0 \<le> chunk_size" "w \<in> set (windows chunk_size overlap p)"
  shows "int (length w) \<le> chunk_size"
proof -
  from assms have "length w \<le> nat chunk_size" by (auto simp: windows_eq Let_def)
  with assms(1) show ?thesis by linarith
qed

lemma sublist_window: "0 \<le> chunk_size \<Longrightarrow> w \<in> set (windows chunk_size overlap p) \<Longrightarrow> sublist w p"
  by (auto simp: windows_eq Let_def intro!: sublist_order.order_trans [OF prefix_imp_sublist [OF take_is_prefix]
      suffix_imp_sublist [OF suffix_drop]])

text \<open>The windows start every \<open>step\<close> characters, so their first \<open>step\<close> characters are the text.\<close>

lemma windows_cover:
  assumes "0 \<le> overlap" "0 < chunk_size"
  shows "concat (map (take (nat (max (chunk_size - overlap) 1))) (windows chunk_size overlap p)) = p"
proof -
  let ?step = "nat (max (chunk_size - overlap) 1)"
  have le: "?step \<le> nat chunk_size" "0 < ?step" using assms by auto
  have "concat (map (take ?step) (windows chunk_size overlap p)) =
      concat (map (\<lambda>k. take ?step (drop (k * ?step) p)) [0..<(length p + ?step - 1) div ?step])"
    using assms le by (simp add: windows_eq Let_def comp_def min_def)
  also have "\<dots> = take ((length p + ?step - 1) div ?step * ?step) p"
    by (rule concat_take_drop)
  also have "\<dots> = p"
    using div_ceiling [OF le(2)] by simp
  finally show ?thesis .
qed

section \<open>Chunks are bounded and lose nothing\<close>

lemma split_step_cases [consumes 1, case_names long merged closed]:
  assumes "split_step cs ov (chunks, current) p = st'"
  obtains
    "int (length p) > cs"
      "st' = ((if current \<noteq> [] then chunks @ [current] else chunks) @ windows cs ov p, [])"
  | "int (length p) \<le> cs" "int (length (strip (current @ nl2 @ p))) \<le> cs"
      "st' = (chunks, strip (current @ nl2 @ p))"
  | "int (length p) \<le> cs" "int (length (strip (current @ nl2 @ p))) > cs"
      "st' = (chunks @ [current],
              if ov \<noteq> 0 then strip (slice_from current (- ov) @ nl2 @ p) else p)"
  using assms by (force simp: split_step_def Let_def split: if_splits)

definition short :: "int \<Rightarrow> int \<Rightarrow> ustr \<Rightarrow> bool" where
  "short cs ov c \<longleftrightarrow> int (length c) \<le> cs + ov + 2"

lemma split_step_short:
  assumes "0 \<le> cs" "0 \<le> ov" "\<forall>c \<in> set (fst st). short cs ov c" "short cs ov (snd st)"
  shows "(\<forall>c \<in> set (fst (split_step cs ov st p)). short cs ov c)
    \<and> short cs ov (snd (split_step cs ov st p))"
proof -
  obtain chunks current where st: "st = (chunks, current)" by (cases st)
  have win: "short cs ov w" if "w \<in> set (windows cs ov p)" for w
    using length_window [OF assms(1) that] assms(2) by (simp add: short_def)
  show ?thesis
    using refl [of "split_step cs ov (chunks, current) p"]
  proof (cases rule: split_step_cases)
    case long
    have "short cs ov []" using assms(1,2) by (simp add: short_def)
    with long assms win show ?thesis unfolding st by auto
  next
    case merged
    with assms show ?thesis unfolding st by (auto simp: short_def)
  next
    case closed
    have "length (slice_from current (- ov)) \<le> nat ov" if "ov \<noteq> 0"
      using that assms(2) by (simp add: slice_from_neg)
    then have "int (length (strip (slice_from current (- ov) @ nl2 @ p))) \<le> cs + ov + 2"
      if "ov \<noteq> 0"
      using that closed(1) assms(2) length_strip [of "slice_from current (- ov) @ nl2 @ p"]
      by (simp add: nl2_def)
    with closed assms show ?thesis unfolding st by (auto simp: short_def)
  qed
qed

lemma split_fold_short:
  assumes "0 \<le> cs" "0 \<le> ov" "\<forall>c \<in> set (fst st). short cs ov c" "short cs ov (snd st)"
  shows "(\<forall>c \<in> set (fst (foldl (split_step cs ov) st ps)). short cs ov c)
    \<and> short cs ov (snd (foldl (split_step cs ov) st ps))"
  using assms(3,4)
proof (induction ps arbitrary: st)
  case (Cons p ps)
  from split_step_short [OF assms(1,2) Cons.prems, of p] show ?case
    using Cons.IH [of "split_step cs ov st p"] by auto
qed simp

lemma mem_split_text:
  "split_text text cs ov =
     (if clean_text text = [] then []
      else let st = foldl (split_step cs ov) ([], []) (paragraphs_of (clean_text text))
           in filter (\<lambda>c. strip c \<noteq> []) (if snd st \<noteq> [] then fst st @ [snd st] else fst st))"
  by (simp add: split_text_def Let_def case_prod_unfold)

text \<open>
  C1: no chunk is blank, and a chunk is at most the chunk size plus the overlap and a blank line
  long: \<open>split_text\<close> prepends the overlap to a paragraph without checking the sum again, so the
  chunk size itself is not a bound.
\<close>

theorem split_text_bound:
  assumes "0 \<le> chunk_size" "0 \<le> overlap"
  shows "\<forall>c \<in> set (split_text text chunk_size overlap).
           strip c \<noteq> [] \<and> int (length c) \<le> chunk_size + overlap + 2"
proof -
  have "short chunk_size overlap []" using assms by (simp add: short_def)
  then show ?thesis
    using split_fold_short [OF assms, of "([], [])" "paragraphs_of (clean_text text)"]
    by (auto simp: mem_split_text Let_def short_def split: if_splits)
qed

text \<open>The bound is met by a chunk that is longer than the chunk size.\<close>

theorem split_text_bound_witness:
  "\<exists>c. split_text [97, 98, 99, 10, 10, 100, 101, 102, 103] 4 2 = [[97, 98, 99], c]
     \<and> 4 < int (length c) \<and> int (length c) \<le> 4 + 2 + 2"
proof (intro exI conjI)
  let ?c = "[98, 99, 10, 10, 100, 101, 102, 103 :: nat]"
  show eq: "split_text [97, 98, 99, 10, 10, 100, 101, 102, 103] 4 2 = [[97, 98, 99], ?c]"
    by code_simp
  show "4 < int (length ?c)" by simp
  have "?c \<in> set (split_text [97, 98, 99, 10, 10, 100, 101, 102, 103] 4 2)"
    unfolding eq by simp
  then have "strip ?c \<noteq> [] \<and> int (length ?c) \<le> 4 + 2 + 2"
    by (rule split_text_bound [THEN bspec, rotated 2]) simp_all
  then show "int (length ?c) \<le> 4 + 2 + 2" ..
qed

lemma paragraphs_stripped: "p \<in> set (paragraphs_of s) \<Longrightarrow> p \<noteq> [] \<and> stripped p"
  by (auto simp: paragraphs_of_def stripped_strip)

lemma stripped_join2:
  "stripped s \<Longrightarrow> stripped t \<Longrightarrow> s \<noteq> [] \<Longrightarrow> t \<noteq> [] \<Longrightarrow> stripped (s @ nl2 @ t)"
  by (simp add: stripped_def)

text \<open>\<open>x\<close> lies in a closed chunk or in the one being filled.\<close>

definition held :: "ustr \<Rightarrow> ustr list \<times> ustr \<Rightarrow> bool" where
  "held x st \<longleftrightarrow> (\<exists>c \<in> insert (snd st) (set (fst st)). sublist x c)"

definition open_chunk_ok :: "ustr list \<times> ustr \<Rightarrow> bool" where
  "open_chunk_ok st \<longleftrightarrow> stripped (snd st)"

lemma stripped_Nil: "stripped []"
  by (simp add: stripped_def)

lemma open_chunk_ok_step: "stripped p \<Longrightarrow> open_chunk_ok (split_step cs ov st p)"
  by (cases st) (auto simp: split_step_def open_chunk_ok_def stripped_strip stripped_Nil Let_def)

lemma sublist_strip_merge:
  assumes "stripped current" "stripped p" "p \<noteq> []" "x \<noteq> []" "sublist x current"
  shows "sublist x (strip (current @ nl2 @ p))"
proof -
  have "current \<noteq> []" using assms(4,5) by auto
  then have "strip (current @ nl2 @ p) = current @ nl2 @ p"
    using assms by (intro strip_id stripped_join2)
  then show ?thesis using assms(5) by (simp add: sublist_append)
qed

lemma held_step:
  assumes "open_chunk_ok st" "stripped p" "p \<noteq> []" "x \<noteq> []" "held x st"
  shows "held x (split_step cs ov st p)"
proof -
  obtain chunks current where st: "st = (chunks, current)" by (cases st)
  have cur: "stripped current" using assms(1) by (simp add: st open_chunk_ok_def)
  show ?thesis
    using refl [of "split_step cs ov (chunks, current) p"]
  proof (cases rule: split_step_cases)
    case long
    with assms(4,5) show ?thesis by (auto simp: st held_def)
  next
    case merged
    with assms sublist_strip_merge [OF cur assms(2-4)] show ?thesis by (auto simp: st held_def)
  next
    case closed
    with assms(5) show ?thesis by (auto simp: st held_def)
  qed
qed

lemma held_self:
  assumes "open_chunk_ok st" "stripped p" "p \<noteq> []" "int (length p) \<le> cs"
  shows "held p (split_step cs ov st p)"
proof -
  obtain chunks current where st: "st = (chunks, current)" by (cases st)
  have suff: "sublist p (strip (s @ nl2 @ p))" for s
    using strip_append_stripped [OF assms(3,2), of "s @ nl2"] by (simp add: suffix_imp_sublist)
  show ?thesis
    using refl [of "split_step cs ov (chunks, current) p"]
    by (cases rule: split_step_cases) (use assms(4) suff in \<open>auto simp: st held_def\<close>)
qed

lemma chunks_grow: "set (fst st) \<subseteq> set (fst (split_step cs ov st p))"
  by (cases st) (auto simp: split_step_def Let_def)

lemma chunks_grow_fold: "set (fst st) \<subseteq> set (fst (foldl (split_step cs ov) st ps))"
proof (induction ps arbitrary: st)
  case (Cons p ps)
  show ?case by (simp add: subset_trans [OF chunks_grow Cons.IH])
qed simp

lemma held_fold:
  assumes "open_chunk_ok st" "\<forall>p \<in> set ps. p \<noteq> [] \<and> stripped p" "x \<noteq> []" "held x st"
  shows "held x (foldl (split_step cs ov) st ps)"
  using assms
  by (induction ps arbitrary: st) (auto simp: open_chunk_ok_step held_step)

lemma held_member:
  assumes "open_chunk_ok st" "\<forall>p \<in> set ps. p \<noteq> [] \<and> stripped p" "p \<in> set ps"
    "int (length p) \<le> cs"
  shows "held p (foldl (split_step cs ov) st ps)"
  using assms
proof (induction ps arbitrary: st)
  case (Cons q ps)
  let ?st = "split_step cs ov st q"
  have ok: "open_chunk_ok ?st" using Cons.prems(2) by (simp add: open_chunk_ok_step)
  show ?case
  proof (cases "p = q")
    case True
    then have "held p ?st" using Cons.prems by (simp add: held_self)
    then show ?thesis using held_fold [OF ok] Cons.prems(2,3) by auto
  next
    case False
    then show ?thesis using Cons.IH [OF ok] Cons.prems by auto
  qed
qed simp

lemma windows_member:
  assumes "p \<in> set ps" "int (length p) > cs" "w \<in> set (windows cs ov p)"
  shows "w \<in> set (fst (foldl (split_step cs ov) st ps))"
  using assms
proof (induction ps arbitrary: st)
  case (Cons q ps)
  show ?case
  proof (cases "p = q")
    case True
    then have "w \<in> set (fst (split_step cs ov st q))"
      using Cons.prems by (cases st) (auto simp: split_step_def)
    then show ?thesis using chunks_grow_fold [of "split_step cs ov st q" cs ov ps] by auto
  next
    case False
    then show ?thesis using Cons by auto
  qed
qed simp

definition visible :: "ustr \<Rightarrow> ustr" where
  "visible s = filter (\<lambda>c. \<not> is_space c) s"

lemma visible_append: "visible (s @ t) = visible s @ visible t"
  by (simp add: visible_def)

lemma visible_dropWhile: "visible (dropWhile is_space s) = visible s"
  by (induction s) (auto simp: visible_def)

lemma visible_rev: "visible (rev s) = rev (visible s)"
  by (simp add: visible_def rev_filter)

lemma visible_strip: "visible (strip s) = visible s"
  by (simp add: strip_def rstrip_def lstrip_def visible_rev visible_dropWhile)

lemma visible_Nil_iff: "visible s = [] \<longleftrightarrow> strip s = []"
  by (simp add: visible_def strip_Nil_iff filter_empty_conv)

lemma visible_drop_nl: "visible (dropWhile (\<lambda>d. d = 10) s) = visible s"
  by (induction s) (auto simp: visible_def is_space_def)

lemma visible_split_blank: "visible (concat (split_blank cur s)) = visible (cur @ s)"
proof (induction cur s rule: split_blank.induct)
  case (2 cur c s)
  have nl: "visible [10] = []" by (simp add: visible_def is_space_def)
  show ?case
  proof (cases "c = 10 \<and> s \<noteq> [] \<and> hd s = 10")
    case True
    then have "visible (concat (split_blank cur (c # s))) = visible cur @ visible s"
      using 2 by (simp add: visible_append visible_drop_nl)
    also have "\<dots> = visible (cur @ c # s)"
      using True visible_append [of "[10]" s] by (simp add: visible_append nl)
    finally show ?thesis .
  next
    case False
    then have "split_blank cur (c # s) = split_blank (cur @ [c]) s"
      by (subst split_blank.simps(2)) (rule if_not_P)
    then show ?thesis using 2(2) [OF False] by simp
  qed
qed simp

lemma visible_concat_strip:
  "visible (concat (map strip (filter (\<lambda>p. strip p \<noteq> []) ps))) = visible (concat ps)"
  by (induction ps) (auto simp: visible_append visible_strip visible_Nil_iff)

lemma visible_paragraphs: "visible (concat (paragraphs_of s)) = visible s"
  by (simp add: paragraphs_of_def visible_concat_strip visible_split_blank)

lemma held_in_split_text:
  assumes "held x (foldl (split_step cs ov) ([], []) (paragraphs_of (clean_text text)))"
    and "visible x \<noteq> []"
  shows "\<exists>c \<in> set (split_text text cs ov). sublist x c"
proof -
  let ?st = "foldl (split_step cs ov) ([], []) (paragraphs_of (clean_text text))"
  have "clean_text text \<noteq> []"
  proof
    assume e: "clean_text text = []"
    then have "?st = ([], [])" by (simp add: paragraphs_of_def strip_Nil_iff)
    with assms show False by (simp add: held_def visible_def)
  qed
  obtain c where c: "c \<in> insert (snd ?st) (set (fst ?st))" "sublist x c"
    using assms(1) by (auto simp: held_def)
  have "visible c \<noteq> []"
    using assms(2) set_mono_sublist [OF c(2)] by (auto simp: visible_def filter_empty_conv)
  then have "strip c \<noteq> []" "c \<noteq> []" by (auto simp: visible_Nil_iff)
  then have "c \<in> set (split_text text cs ov)"
    using c(1) \<open>clean_text text \<noteq> []\<close> by (auto simp: mem_split_text Let_def)
  with c(2) show ?thesis by blast
qed

text \<open>
  C2: nothing visible is lost. The paragraphs of the cleaned text hold all its visible characters
  in order; a paragraph that fits lies whole in one chunk; a longer one is cut into windows whose
  first \<open>step\<close> characters concatenate to the paragraph, and every window that is not blank is a
  chunk.
\<close>

theorem split_text_covers:
  assumes "0 < chunk_size" "0 \<le> overlap"
  shows "visible (concat (paragraphs_of (clean_text text))) = visible (clean_text text)
    \<and> (\<forall>p \<in> set (paragraphs_of (clean_text text)).
        if int (length p) \<le> chunk_size
        then \<exists>c \<in> set (split_text text chunk_size overlap). sublist p c
        else concat (map (take (nat (max (chunk_size - overlap) 1)))
                (windows chunk_size overlap p)) = p
          \<and> (\<forall>w \<in> set (windows chunk_size overlap p). strip w \<noteq> [] \<longrightarrow>
                w \<in> set (split_text text chunk_size overlap)))"
proof (intro conjI ballI)
  let ?ps = "paragraphs_of (clean_text text)"
  let ?st = "foldl (split_step chunk_size overlap) ([], []) ?ps"
  have init: "open_chunk_ok ([], [])" by (simp add: open_chunk_ok_def stripped_Nil)
  have good: "\<forall>p \<in> set ?ps. p \<noteq> [] \<and> stripped p" by (auto dest: paragraphs_stripped)
  show "visible (concat ?ps) = visible (clean_text text)" by (rule visible_paragraphs)
  fix p assume p: "p \<in> set ?ps"
  then have "visible p \<noteq> []" using good by (auto simp: visible_Nil_iff strip_id)
  moreover have "w \<in> set (split_text text chunk_size overlap)"
    if "\<not> int (length p) \<le> chunk_size" "w \<in> set (windows chunk_size overlap p)" "strip w \<noteq> []"
    for w
  proof -
    have "w \<in> set (fst ?st)" using windows_member [OF p] that by simp
    moreover have "clean_text text \<noteq> []" using p by (auto simp: paragraphs_of_def strip_Nil_iff)
    ultimately show ?thesis using that(3) by (auto simp: mem_split_text Let_def)
  qed
  ultimately show "if int (length p) \<le> chunk_size
        then \<exists>c \<in> set (split_text text chunk_size overlap). sublist p c
        else concat (map (take (nat (max (chunk_size - overlap) 1)))
                (windows chunk_size overlap p)) = p
          \<and> (\<forall>w \<in> set (windows chunk_size overlap p). strip w \<noteq> [] \<longrightarrow>
                w \<in> set (split_text text chunk_size overlap))"
    using held_in_split_text [OF held_member [OF init good p]] windows_cover [OF assms(2,1)]
    by auto
qed

theorem split_text_covers_witness:
  "\<exists>c \<in> set (split_text [97, 98, 10, 10, 99] 4 2). sublist [97, 98] c"
proof -
  have "paragraphs_of (clean_text [97, 98, 10, 10, 99]) = [[97, 98], [99]]" by code_simp
  then show ?thesis
    using split_text_covers [of 4 2 "[97, 98, 10, 10, 99]"] by simp
qed

section \<open>Sections partition the lines\<close>

definition is_mark :: "ustr \<Rightarrow> bool" where
  "is_mark line \<longleftrightarrow> match_heading line \<noteq> None \<or> match_page line \<noteq> None"

definition section_ok :: "ustr list \<times> ustr list \<Rightarrow> bool" where
  "section_ok s \<longleftrightarrow> snd s \<noteq> [] \<and> list_all (\<lambda>l. \<not> is_mark l) (tl (snd s)) \<and> length (fst s) \<le> 6"

definition section_inv :: "ustr list \<Rightarrow> section_state \<Rightarrow> bool" where
  "section_inv done st \<longleftrightarrow>
     (case st of (sections, path, cur) \<Rightarrow>
        concat (map snd sections) @ cur = done \<and> list_all section_ok sections
        \<and> list_all (\<lambda>l. \<not> is_mark l) (tl cur) \<and> length path \<le> 6)"

lemma match_heading_level: "match_heading line = Some (level, title) \<Longrightarrow> 1 \<le> level \<and> level \<le> 6"
  by (auto simp: match_heading_def Let_def Suc_le_eq split: if_splits)

lemma section_inv_step:
  assumes "section_inv done st"
  shows "section_inv (done @ [line]) (section_step st line)"
proof -
  obtain sections path cur where st: "st = (sections, path, cur)" by (cases st)
  have inv: "concat (map snd sections) @ cur = done" "list_all section_ok sections"
    "list_all (\<lambda>l. \<not> is_mark l) (tl cur)" "length path \<le> 6"
    using assms by (auto simp: section_inv_def st)
  show ?thesis
  proof (cases "is_mark line")
    case True
    let ?path = "case match_page line of
        Some n \<Rightarrow> [txt_page_pre @ n @ txt_page_post]
      | None \<Rightarrow> (case match_heading line of
          Some (level, title) \<Rightarrow> take (level - 1) path @ [strip title] | None \<Rightarrow> path)"
    let ?sections = "if cur \<noteq> [] then sections @ [(path, cur)] else sections"
    have step: "section_step st line = (?sections, ?path, [line])"
      using True by (simp add: section_step_def st is_mark_def Let_def)
    have "length ?path \<le> 6"
      using match_heading_level [of line] inv(4)
      by (auto split: option.splits)
    moreover have "list_all section_ok ?sections"
      using inv by (auto simp: section_ok_def)
    ultimately show ?thesis
      unfolding section_inv_def step using inv(1) by auto
  next
    case False
    then have step: "section_step st line = (sections, path, cur @ [line])"
      by (simp add: section_step_def st is_mark_def Let_def)
    have "list_all (\<lambda>l. \<not> is_mark l) (tl (cur @ [line]))"
      using inv(3) False by (cases cur) auto
    then show ?thesis
      unfolding section_inv_def step using inv by auto
  qed
qed

lemma section_inv_foldl:
  "section_inv done st \<Longrightarrow> section_inv (done @ lines) (foldl section_step st lines)"
proof (induction lines arbitrary: "done" st)
  case (Cons line lines)
  then show ?case
    using Cons.IH [of "done @ [line]" "section_step st line"] section_inv_step by simp
qed simp

lemma sections_spec:
  "concat (map snd (sections_of lines)) = lines \<and> list_all section_ok (sections_of lines)"
proof -
  obtain sections path cur where st: "foldl section_step ([], [], []) lines = (sections, path, cur)"
    by (cases "foldl section_step ([], [], []) lines")
  have "section_inv [] ([], [], [])" by (simp add: section_inv_def)
  then have "section_inv lines (sections, path, cur)"
    using section_inv_foldl [of "[]" "([], [], [])" lines] by (simp add: st)
  then show ?thesis
    by (auto simp: sections_of_def st section_inv_def section_ok_def)
qed

text \<open>
  The sections of a text, joined, are its lines in order; every section has a line, only its
  first line can be a heading or a page mark, and no heading path is deeper than six levels.
\<close>

theorem sections_partition:
  "concat (map snd (sections_of lines)) = lines \<and> list_all section_ok (sections_of lines)"
  by (rule sections_spec)

text \<open>Headings nest: a deeper heading extends the path, and one of the same level replaces it.\<close>

lemma section_path_heading:
  assumes "match_heading line = Some (level, title)" "match_page line = None"
    "section_step (sections, path, cur) line = (sections', path', cur')"
  shows "path' = take (level - 1) path @ [strip title]" "cur' = [line]"
  using assms by (auto simp: section_step_def Let_def)

text \<open>Every child of a section is a chunk of the section's own cleaned text.\<close>

lemma split_parent_child_children:
  "s \<in> set (split_parent_child_text text cs ov) \<Longrightarrow>
   pc_children s = split_text (pc_parent_content s) cs ov \<and> pc_parent_content s \<noteq> []
     \<and> clean (pc_parent_content s) \<and> length (pc_heading_path s) \<le> 6"
  using sections_spec [of "splitlines (clean_text text)"]
  by (auto simp: split_parent_child_text_def Let_def clean_clean_text list_all_iff section_ok_def
      split: if_splits)

end
