(* ===== verification/Errors.thy ===== *)
theory Errors
  imports Messages
begin

text \<open>
  The exceptions of \<open>backend/common/exception/errors.py\<close> and those of the libraries that the
  modelled code raises or catches, as one datatype, and computations that end in an exception or
  in a value.
\<close>

section \<open>Exceptions\<close>

text \<open>
  The classes of \<open>errors.py\<close> come first. \<open>RequestError\<close>, \<open>CustomError\<close> and \<open>HTTPError\<close> carry
  their code; the others have a fixed one. \<open>data\<close>, \<open>background\<close> and \<open>headers\<close> are payloads that no
  modelled code reads back. Of the libraries: \<open>HTTPStatusError\<close>, \<open>TimeoutException\<close> and
  \<open>TransportError\<close> of httpx, \<open>SQLAlchemyError\<close> for any database error, the built-in
  \<open>OSError\<close> with its subclasses \<open>FileNotFoundError\<close> and \<open>ConnectionError\<close>, and any other
  exception by its class name.
\<close>

datatype exc =
    RequestError int ustr
  | ForbiddenError ustr
  | NotFoundError ustr
  | ServerError ustr
  | GatewayError ustr
  | AuthorizationError ustr
  | ConflictError ustr
  | CustomError int ustr
  | TokenError ustr
  | HTTPError int ustr
  | HTTPStatusError int
  | TimeoutException
  | TransportError
  | SQLAlchemyError
  | FileNotFoundError
  | ConnectionError
  | OSError
  | ValueError ustr
  | KeyError
  | TypeError
  | IndexError
  | AssertionError
  | OtherError ustr

text \<open>The HTTP status the exception handlers answer with.\<close>

fun exc_code :: "exc \<Rightarrow> int option" where
  "exc_code (RequestError c _) = Some c"
| "exc_code (ForbiddenError _) = Some 403"
| "exc_code (NotFoundError _) = Some 404"
| "exc_code (ServerError _) = Some 500"
| "exc_code (GatewayError _) = Some 502"
| "exc_code (AuthorizationError _) = Some 403"
| "exc_code (ConflictError _) = Some 409"
| "exc_code (CustomError c _) = Some c"
| "exc_code (TokenError _) = Some 401"
| "exc_code (HTTPError c _) = Some c"
| "exc_code _ = None"

text \<open>\<open>isinstance\<close> for the classes the code tests.\<close>

definition is_os_error :: "exc \<Rightarrow> bool" where
  "is_os_error e \<longleftrightarrow> e = OSError \<or> e = FileNotFoundError \<or> e = ConnectionError"

definition is_transport_error :: "exc \<Rightarrow> bool" where
  "is_transport_error e \<longleftrightarrow> e = TransportError \<or> e = TimeoutException"

text \<open>\<open>type(exc).__name__\<close>\<close>

fun exc_name :: "exc \<Rightarrow> ustr" where
  "exc_name (RequestError _ _) = asc ''RequestError''"
| "exc_name (ForbiddenError _) = asc ''ForbiddenError''"
| "exc_name (NotFoundError _) = asc ''NotFoundError''"
| "exc_name (ServerError _) = asc ''ServerError''"
| "exc_name (GatewayError _) = asc ''GatewayError''"
| "exc_name (AuthorizationError _) = asc ''AuthorizationError''"
| "exc_name (ConflictError _) = asc ''ConflictError''"
| "exc_name (CustomError _ _) = asc ''CustomError''"
| "exc_name (TokenError _) = asc ''TokenError''"
| "exc_name (HTTPError _ _) = asc ''HTTPError''"
| "exc_name (HTTPStatusError _) = asc ''HTTPStatusError''"
| "exc_name TimeoutException = asc ''TimeoutException''"
| "exc_name TransportError = asc ''TransportError''"
| "exc_name SQLAlchemyError = asc ''SQLAlchemyError''"
| "exc_name FileNotFoundError = asc ''FileNotFoundError''"
| "exc_name ConnectionError = asc ''ConnectionError''"
| "exc_name OSError = asc ''OSError''"
| "exc_name (ValueError _) = asc ''ValueError''"
| "exc_name KeyError = asc ''KeyError''"
| "exc_name TypeError = asc ''TypeError''"
| "exc_name IndexError = asc ''IndexError''"
| "exc_name AssertionError = asc ''AssertionError''"
| "exc_name (OtherError n) = n"

section \<open>Results\<close>

text \<open>\<open>Inl\<close> is the exception that ended the computation, \<open>Inr\<close> its value.\<close>

type_synonym 'a res = "exc + 'a"

fun rbind :: "'e + 'a \<Rightarrow> ('a \<Rightarrow> 'e + 'b) \<Rightarrow> 'e + 'b" where
  "rbind (Inl e) f = Inl e"
| "rbind (Inr x) f = f x"

fun rmap :: "('a \<Rightarrow> 'b) \<Rightarrow> 'e + 'a \<Rightarrow> 'e + 'b" where
  "rmap f (Inl e) = Inl e"
| "rmap f (Inr x) = Inr (f x)"

fun is_ok :: "'e + 'a \<Rightarrow> bool" where
  "is_ok (Inl e) = False"
| "is_ok (Inr x) = True"

text \<open>A loop that stops at the first exception.\<close>

fun traverse :: "('a \<Rightarrow> 'e + 'b) \<Rightarrow> 'a list \<Rightarrow> 'e + 'b list" where
  "traverse f [] = Inr []"
| "traverse f (x # xs) = rbind (f x) (\<lambda>y. rmap ((#) y) (traverse f xs))"

lemma rbind_Inr_iff: "rbind m f = Inr y \<longleftrightarrow> (\<exists>x. m = Inr x \<and> f x = Inr y)"
  by (cases m) auto

lemma rbind_Inl_iff: "rbind m f = Inl e \<longleftrightarrow> m = Inl e \<or> (\<exists>x. m = Inr x \<and> f x = Inl e)"
  by (cases m) auto

lemma rmap_Inr_iff: "rmap f m = Inr y \<longleftrightarrow> (\<exists>x. m = Inr x \<and> f x = y)"
  by (cases m) auto

lemma rmap_Inl_iff: "rmap f m = Inl e \<longleftrightarrow> m = Inl e"
  by (cases m) auto

lemma rbind_assoc: "rbind (rbind m f) g = rbind m (\<lambda>x. rbind (f x) g)"
  by (cases m) auto

lemma is_ok_iff: "is_ok m \<longleftrightarrow> (\<exists>x. m = Inr x)"
  by (cases m) auto

lemmas res_iffs = rbind_Inr_iff rbind_Inl_iff rmap_Inr_iff rmap_Inl_iff

lemma rbind_cong [fundef_cong]:
  "m = m' \<Longrightarrow> (\<And>x. m' = Inr x \<Longrightarrow> f x = g x) \<Longrightarrow> rbind m f = rbind m' g"
  by (cases m') auto

lemma traverse_length: "traverse f xs = Inr ys \<Longrightarrow> length ys = length xs"
  by (induction xs arbitrary: ys) (auto simp: res_iffs)

lemma traverse_nth: "traverse f xs = Inr ys \<Longrightarrow> i < length xs \<Longrightarrow> f (xs ! i) = Inr (ys ! i)"
  by (induction xs arbitrary: ys i) (auto simp: res_iffs nth_Cons split: nat.splits)

lemma traverse_list_all2:
  assumes "traverse f xs = Inr yss" "\<And>x ys. x \<in> set xs \<Longrightarrow> f x = Inr ys \<Longrightarrow> list_all2 P (g x) ys"
  shows "list_all2 P (concat (map g xs)) (concat yss)"
  using assms
proof (induction xs arbitrary: yss)
  case (Cons x xs)
  then obtain y ys where "f x = Inr y" "traverse f xs = Inr ys" "yss = y # ys"
    by (auto simp: res_iffs)
  with Cons show ?case by (auto intro!: list_all2_appendI)
qed simp

lemma traverse_Inl: "traverse f xs = Inl e \<Longrightarrow> \<exists>x \<in> set xs. f x = Inl e"
  by (induction xs) (auto simp: res_iffs)

end
