(* ===== verification/Lexical.thy ===== *)
theory Lexical
  imports Errors
begin

text \<open>
  \<open>backend/app/rag/lexical.py\<close>: exact identifier tokens, the text that is indexed, the bounded OR
  query for the full-text search, and weighted reciprocal rank fusion. The segmenter \<open>jieba.lcut\<close>
  and the Unicode tables behind \<open>isalnum\<close> and \<open>casefold\<close> are parameters.
\<close>

section \<open>Tokens\<close>

definition is_ascii_alnum :: "nat \<Rightarrow> bool" where
  "is_ascii_alnum c \<longleftrightarrow> 48 \<le> c \<and> c \<le> 57 \<or> 65 \<le> c \<and> c \<le> 90 \<or> 97 \<le> c \<and> c \<le> 122"

text \<open>\<open>[._:/-]\<close>\<close>

definition is_token_sep :: "nat \<Rightarrow> bool" where
  "is_token_sep c \<longleftrightarrow> c = 46 \<or> c = 95 \<or> c = 58 \<or> c = 47 \<or> c = 45"

text \<open>
  \<open>_EXACT_TOKEN_PATTERN.finditer\<close>: runs of letters and digits joined by single separators; both
  alternatives of the pattern together match the longest such chain.
\<close>

fun scan_tokens :: "ustr \<Rightarrow> ustr \<Rightarrow> ustr list" where
  "scan_tokens cur [] = (if cur = [] then [] else [cur])"
| "scan_tokens cur (c # s) =
     (if is_ascii_alnum c then scan_tokens (cur @ [c]) s
      else if cur \<noteq> [] \<and> is_token_sep c \<and> s \<noteq> [] \<and> is_ascii_alnum (hd s)
      then scan_tokens (cur @ [c]) s
      else (if cur = [] then scan_tokens [] s else cur # scan_tokens [] s))"

definition exact_matches :: "ustr \<Rightarrow> ustr list" where
  "exact_matches text = scan_tokens [] text"

text \<open>\<open>casefold\<close> on the ASCII tokens of the pattern.\<close>

definition lower_char :: "nat \<Rightarrow> nat" where
  "lower_char c = (if 65 \<le> c \<and> c \<le> 90 then c + 32 else c)"

definition ascii_lower :: "ustr \<Rightarrow> ustr" where
  "ascii_lower s = map lower_char s"

definition extract_exact_tokens :: "ustr \<Rightarrow> ustr list" where
  "extract_exact_tokens text = fromkeys (map ascii_lower (exact_matches text))"

definition tokenize_search_text :: "(ustr \<Rightarrow> ustr list) \<Rightarrow> ustr \<Rightarrow> ustr" where
  "tokenize_search_text jieba text =
     join [32] (map strip (filter (\<lambda>t. strip t \<noteq> []) (jieba text)) @ exact_matches text)"

section \<open>The full-text query\<close>

definition max_query_terms :: nat where
  "max_query_terms = 16"

fun select_terms ::
  "(nat \<Rightarrow> bool) \<Rightarrow> (ustr \<Rightarrow> ustr) \<Rightarrow> ustr list \<Rightarrow> ustr list \<Rightarrow> ustr list \<Rightarrow> ustr list" where
  "select_terms isalnum casefold terms seen [] = terms"
| "select_terms isalnum casefold terms seen (token # tokens) =
     (let safe_token = strip (filter (\<lambda>c. c \<noteq> 34) token);
          normalized = casefold safe_token
      in if \<not> list_ex isalnum safe_token
         then select_terms isalnum casefold terms seen tokens
         else if length safe_token = 1 \<and> 19968 \<le> hd safe_token \<and> hd safe_token \<le> 40959
         then select_terms isalnum casefold terms seen tokens
         else if safe_token = [] \<or> List.member seen normalized
         then select_terms isalnum casefold terms seen tokens
         else if length (terms @ [safe_token]) = max_query_terms then terms @ [safe_token]
         else select_terms isalnum casefold (terms @ [safe_token]) (normalized # seen) tokens)"

definition query_terms ::
  "(nat \<Rightarrow> bool) \<Rightarrow> (ustr \<Rightarrow> ustr) \<Rightarrow> (ustr \<Rightarrow> ustr list) \<Rightarrow> ustr \<Rightarrow> ustr list" where
  "query_terms isalnum casefold jieba text =
     select_terms isalnum casefold [] []
       (extract_exact_tokens text @ split_ws (tokenize_search_text jieba text))"

definition quoted :: "ustr \<Rightarrow> ustr" where
  "quoted term = [34] @ term @ [34]"

definition build_websearch_query ::
  "(nat \<Rightarrow> bool) \<Rightarrow> (ustr \<Rightarrow> ustr) \<Rightarrow> (ustr \<Rightarrow> ustr list) \<Rightarrow> ustr \<Rightarrow> ustr" where
  "build_websearch_query isalnum casefold jieba text =
     join (asc '' OR '') (map quoted (query_terms isalnum casefold jieba text))"

section \<open>Reciprocal rank fusion\<close>

text \<open>
  Floats are reals. \<open>scores\<close> is a dict, an association list in insertion order; \<open>AList.update\<close>
  keeps the place of a key that is already there. Dividing by \<open>rrf_k + rank = 0\<close> raises.
\<close>

fun rrf_add :: "real \<Rightarrow> int \<Rightarrow> int \<Rightarrow> (int \<times> real) list \<Rightarrow> int list \<Rightarrow> (int \<times> real) list res" where
  "rrf_add w k rank scores [] = Inr scores"
| "rrf_add w k rank scores (x # xs) =
     (if k + rank = 0 then Inl (OtherError (asc ''ZeroDivisionError''))
      else rrf_add w k (rank + 1)
             (AList.update x ((case map_of scores x of None \<Rightarrow> 0 | Some v \<Rightarrow> v)
                                + w / of_int (k + rank)) scores) xs)"

definition weighted_rrf_scores ::
  "int list \<Rightarrow> int list \<Rightarrow> int \<Rightarrow> real \<Rightarrow> real \<Rightarrow> (int \<times> real) list res" where
  "weighted_rrf_scores dense_ids lexical_ids rrf_k dense_weight lexical_weight =
     rbind (rrf_add dense_weight rrf_k 1 [] dense_ids)
       (\<lambda>scores. rrf_add lexical_weight rrf_k 1 scores lexical_ids)"

section \<open>Tokens are identifiers\<close>

definition token_char :: "nat \<Rightarrow> bool" where
  "token_char c \<longleftrightarrow> is_ascii_alnum c \<or> is_token_sep c"

definition token_shape :: "ustr \<Rightarrow> bool" where
  "token_shape t \<longleftrightarrow> t \<noteq> [] \<and> is_ascii_alnum (hd t) \<and> is_ascii_alnum (last t)
     \<and> list_all token_char t"

lemma scan_tokens_shape:
  assumes "cur \<noteq> [] \<Longrightarrow> is_ascii_alnum (hd cur) \<and> list_all token_char cur
      \<and> (is_ascii_alnum (last cur) \<or> s \<noteq> [] \<and> is_ascii_alnum (hd s))"
    and "t \<in> set (scan_tokens cur s)"
  shows "token_shape t"
  using assms
proof (induction cur s rule: scan_tokens.induct)
  case (1 cur)
  then show ?case by (auto simp: token_shape_def split: if_splits)
next
  case (2 cur c s)
  consider (alnum) "is_ascii_alnum c"
    | (sep) "\<not> is_ascii_alnum c" "cur \<noteq> [] \<and> is_token_sep c \<and> s \<noteq> [] \<and> is_ascii_alnum (hd s)"
    | (closes) "\<not> is_ascii_alnum c"
        "\<not> (cur \<noteq> [] \<and> is_token_sep c \<and> s \<noteq> [] \<and> is_ascii_alnum (hd s))"
    by blast
  then show ?case
  proof cases
    case alnum
    moreover have "t \<in> set (scan_tokens (cur @ [c]) s)" using 2(6) alnum by simp
    ultimately show ?thesis
      using 2(1) 2(5) by (cases "cur = []") (auto simp: token_char_def)
  next
    case sep
    moreover have "t \<in> set (scan_tokens (cur @ [c]) s)" using 2(6) sep by simp
    ultimately show ?thesis
      using 2(2) 2(5) by (auto simp: token_char_def)
  next
    case closes
    then have mem: "t \<in> set (if cur = [] then scan_tokens [] s else cur # scan_tokens [] s)"
      using 2(6) by (simp split: if_splits)
    show ?thesis
    proof (cases "cur \<noteq> [] \<and> t = cur")
      case True
      with closes 2(5) show ?thesis by (auto simp: token_shape_def)
    next
      case False
      with mem have "t \<in> set (scan_tokens [] s)" by (auto split: if_splits)
      then show ?thesis using 2(3) 2(4) closes by (cases "cur = []") auto
    qed
  qed
qed

lemma exact_matches_shape: "t \<in> set (exact_matches text) \<Longrightarrow> token_shape t"
  unfolding exact_matches_def by (rule scan_tokens_shape [where cur = "[]"]) simp_all

lemma lower_char_alnum: "is_ascii_alnum c \<Longrightarrow> is_ascii_alnum (lower_char c)"
  by (simp add: is_ascii_alnum_def lower_char_def)

lemma lower_char_sep: "is_token_sep c \<Longrightarrow> lower_char c = c"
  by (auto simp: is_token_sep_def lower_char_def)

lemma lower_char_token: "token_char c \<Longrightarrow> token_char (lower_char c)"
  by (auto simp: token_char_def lower_char_alnum lower_char_sep)

lemma ascii_lower_shape: "token_shape t \<Longrightarrow> token_shape (ascii_lower t)"
  unfolding token_shape_def ascii_lower_def
  by (simp add: hd_map last_map list_all_iff lower_char_alnum lower_char_token)

lemma ascii_lower_no_upper: "c \<in> set (ascii_lower t) \<Longrightarrow> \<not> (65 \<le> c \<and> c \<le> 90)"
  by (auto simp: ascii_lower_def lower_char_def)

lemma extract_exact_tokens_shape:
  "distinct (extract_exact_tokens text)
   \<and> (\<forall>t \<in> set (extract_exact_tokens text). token_shape t \<and> (\<forall>c \<in> set t. \<not> (65 \<le> c \<and> c \<le> 90)))"
  by (auto simp: extract_exact_tokens_def exact_matches_shape ascii_lower_shape
      dest: ascii_lower_no_upper)

section \<open>The query is bounded and cannot be escaped\<close>

text \<open>A term: not empty, no quotation mark, some letter or digit.\<close>

definition term_ok :: "(nat \<Rightarrow> bool) \<Rightarrow> ustr \<Rightarrow> bool" where
  "term_ok isalnum term \<longleftrightarrow> term \<noteq> [] \<and> 34 \<notin> set term \<and> stripped term \<and> list_ex isalnum term"

definition terms_inv :: "(nat \<Rightarrow> bool) \<Rightarrow> (ustr \<Rightarrow> ustr) \<Rightarrow> ustr list \<Rightarrow> bool" where
  "terms_inv isalnum casefold terms \<longleftrightarrow>
     list_all (term_ok isalnum) terms \<and> distinct (map casefold terms)"

lemma term_ok_safe:
  "list_ex isalnum (strip (filter (\<lambda>c. c \<noteq> 34) token)) \<Longrightarrow>
   term_ok isalnum (strip (filter (\<lambda>c. c \<noteq> 34) token))"
  using set_strip [of "filter (\<lambda>c. c \<noteq> 34) token"]
  by (auto simp: term_ok_def stripped_strip)

lemma select_terms_inv:
  assumes "terms_inv isalnum casefold terms" "set seen = set (map casefold terms)"
    "length terms < max_query_terms"
  shows "terms_inv isalnum casefold (select_terms isalnum casefold terms seen tokens)
    \<and> length (select_terms isalnum casefold terms seen tokens) \<le> max_query_terms"
  using assms
proof (induction tokens arbitrary: "terms" seen)
  case Nil
  then show ?case by simp
next
  case (Cons token tokens)
  let ?safe = "strip (filter (\<lambda>c. c \<noteq> 34) token)"
  show ?case
  proof (cases "\<not> list_ex isalnum ?safe \<or> (length ?safe = 1 \<and> 19968 \<le> hd ?safe \<and> hd ?safe \<le> 40959)
      \<or> ?safe = [] \<or> casefold ?safe \<in> set seen")
    case True
    then have "select_terms isalnum casefold terms seen (token # tokens)
        = select_terms isalnum casefold terms seen tokens"
      by (auto simp: Let_def)
    then show ?thesis using Cons by simp
  next
    case False
    have inv: "terms_inv isalnum casefold (terms @ [?safe])"
      using Cons.prems False term_ok_safe [of isalnum token] by (auto simp: terms_inv_def)
    show ?thesis
    proof (cases "length (terms @ [?safe]) = max_query_terms")
      case True
      with False have "select_terms isalnum casefold terms seen (token # tokens) = terms @ [?safe]"
        by (auto simp: Let_def)
      with inv True show ?thesis by simp
    next
      case more: False
      with False have "select_terms isalnum casefold terms seen (token # tokens)
          = select_terms isalnum casefold (terms @ [?safe]) (casefold ?safe # seen) tokens"
        by (auto simp: Let_def)
      moreover have "length (terms @ [?safe]) < max_query_terms"
        using more Cons.prems(3) by simp
      ultimately show ?thesis
        using Cons.IH [OF inv, of "casefold ?safe # seen"] Cons.prems(2) by simp
    qed
  qed
qed

text \<open>
  Whatever the question and the segmenter, the full-text query has at most 16 quoted terms; no
  term holds a quotation mark, so none can end its quotes, and no two are equal up to case.
\<close>

theorem websearch_query_terms:
  "\<exists>terms. build_websearch_query isalnum casefold jieba question
             = join (asc '' OR '') (map quoted terms)
    \<and> length terms \<le> 16 \<and> list_all (term_ok isalnum) terms \<and> distinct (map casefold terms)"
proof (intro exI conjI)
  let ?terms = "query_terms isalnum casefold jieba question"
  have "terms_inv isalnum casefold ?terms \<and> length ?terms \<le> max_query_terms"
    unfolding query_terms_def
    by (rule select_terms_inv) (simp_all add: terms_inv_def max_query_terms_def)
  then show "length ?terms \<le> 16" "list_all (term_ok isalnum) ?terms"
    "distinct (map casefold ?terms)"
    by (simp_all add: terms_inv_def max_query_terms_def)
qed (simp add: build_websearch_query_def)

section \<open>The value of a fused score\<close>

text \<open>What one ranking contributes to \<open>x\<close>: \<open>w / (k + rank)\<close> for every rank that holds \<open>x\<close>.\<close>

fun contribution :: "real \<Rightarrow> int \<Rightarrow> int \<Rightarrow> int list \<Rightarrow> int \<Rightarrow> real" where
  "contribution w k rank [] x = 0"
| "contribution w k rank (y # ys) x =
     (if y = x then w / of_int (k + rank) else 0) + contribution w k (rank + 1) ys x"

definition score_of :: "(int \<times> real) list \<Rightarrow> int \<Rightarrow> real" where
  "score_of scores x = (case map_of scores x of None \<Rightarrow> 0 | Some v \<Rightarrow> v)"

lemma rrf_add_spec:
  assumes "0 \<le> k" "1 \<le> rank" "distinct (map fst scores)"
  shows "\<exists>scores'. rrf_add w k rank scores xs = Inr scores'
    \<and> (\<forall>x. score_of scores' x = score_of scores x + contribution w k rank xs x)
    \<and> distinct (map fst scores') \<and> set (map fst scores') = set (map fst scores) \<union> set xs"
  using assms(2,3)
proof (induction xs arbitrary: rank scores)
  case Nil
  then show ?case by simp
next
  case (Cons y ys)
  let ?new = "AList.update y (score_of scores y + w / of_int (k + rank)) scores"
  have d: "distinct (map fst ?new)" by (rule distinct_update) (rule Cons.prems(2))
  have "map_of ?new = (map_of scores)(y \<mapsto> score_of scores y + w / of_int (k + rank))"
    by (rule update_conv')
  then have val: "score_of ?new x = score_of scores x + (if y = x then w / of_int (k + rank) else 0)"
    for x by (simp add: score_of_def)
  have keys: "set (map fst ?new) = insert y (set (map fst scores))"
    using dom_update [of y _ scores] by simp
  obtain scores' where s': "rrf_add w k (rank + 1) ?new ys = Inr scores'"
    "\<forall>x. score_of scores' x = score_of ?new x + contribution w k (rank + 1) ys x"
    "distinct (map fst scores')" "set (map fst scores') = set (map fst ?new) \<union> set ys"
    using Cons.IH [of "rank + 1" ?new] Cons.prems(1) d by auto
  have "rrf_add w k rank scores (y # ys) = Inr scores'"
    using s'(1) assms(1) Cons.prems(1) by (simp add: score_of_def)
  moreover have "set (map fst scores') = set (map fst scores) \<union> set (y # ys)"
    using s'(4) keys by auto
  ultimately show ?case using s'(2,3) val by auto
qed

lemma contribution_notin: "x \<notin> set xs \<Longrightarrow> contribution w k rank xs x = 0"
  by (induction xs arbitrary: rank) auto

lemma contribution_nth:
  "distinct xs \<Longrightarrow> i < length xs \<Longrightarrow>
   contribution w k rank xs (xs ! i) = w / of_int (k + rank + int i)"
proof (induction xs arbitrary: rank i)
  case (Cons y ys)
  then show ?case
    by (cases i) (auto simp: contribution_notin algebra_simps)
qed simp

lemma rrf_scores_spec:
  assumes "0 \<le> rrf_k"
  shows "\<exists>scores. weighted_rrf_scores dense_ids lexical_ids rrf_k dw lw = Inr scores
    \<and> distinct (map fst scores) \<and> set (map fst scores) = set dense_ids \<union> set lexical_ids
    \<and> (\<forall>x. score_of scores x
          = contribution dw rrf_k 1 dense_ids x + contribution lw rrf_k 1 lexical_ids x)"
proof -
  obtain s1 where s1: "rrf_add dw rrf_k 1 [] dense_ids = Inr s1" "distinct (map fst s1)"
    "set (map fst s1) = set dense_ids" "\<forall>x. score_of s1 x = contribution dw rrf_k 1 dense_ids x"
    using rrf_add_spec [OF assms, of 1 "[]" dw dense_ids] by (auto simp: score_of_def)
  obtain s2 where "rrf_add lw rrf_k 1 s1 lexical_ids = Inr s2" "distinct (map fst s2)"
    "set (map fst s2) = set (map fst s1) \<union> set lexical_ids"
    "\<forall>x. score_of s2 x = score_of s1 x + contribution lw rrf_k 1 lexical_ids x"
    using rrf_add_spec [OF assms, of 1 s1 lw lexical_ids] s1(2) by auto
  then show ?thesis using s1 by (auto simp: weighted_rrf_scores_def)
qed

lemma rrf_add_keys:
  "rrf_add w k rank scores xs = Inr scores' \<Longrightarrow> distinct (map fst scores) \<Longrightarrow>
   distinct (map fst scores') \<and> fst ` set scores' = fst ` set scores \<union> set xs"
proof (induction xs arbitrary: rank scores)
  case (Cons x xs)
  then show ?case
    using Cons.IH [OF _ distinct_update [OF Cons.prems(2)]] by (auto simp: dom_update split: if_splits)
qed simp

text \<open>
  For a smoothing constant that is not negative the fusion never fails; it scores exactly the
  candidates of the two rankings, each once, with the sum of \<open>weight / (k + rank)\<close> over the
  places where a ranking holds it.
\<close>

theorem weighted_rrf_scores_value:
  assumes "0 \<le> rrf_k"
  shows "\<exists>scores. weighted_rrf_scores dense_ids lexical_ids rrf_k dw lw = Inr scores
    \<and> distinct (map fst scores) \<and> set (map fst scores) = set dense_ids \<union> set lexical_ids
    \<and> (\<forall>x. score_of scores x
          = contribution dw rrf_k 1 dense_ids x + contribution lw rrf_k 1 lexical_ids x)"
  by (rule rrf_scores_spec [OF assms])

theorem weighted_rrf_scores_value_witness:
  "\<exists>scores. weighted_rrf_scores [7, 8] [8] 60 1 (1 / 2) = Inr scores
    \<and> score_of scores 8 = 1 / 62 + 1 / 122"
proof -
  obtain scores where "weighted_rrf_scores [7, 8] [8] 60 1 (1 / 2) = Inr scores"
    "\<forall>x. score_of scores x = contribution 1 60 1 [7, 8] x + contribution (1 / 2) 60 1 [8] x"
    using weighted_rrf_scores_value [of 60 "[7, 8]" "[8]" 1 "1 / 2"] by auto
  then show ?thesis by simp
qed

text \<open>
  A candidate that only the dense ranking holds, scores by its place there: an earlier place
  scores strictly higher.
\<close>

lemma rrf_dense_order:
  assumes "0 \<le> rrf_k" "0 < dw" "distinct dense_ids" "i < j" "j < length dense_ids"
    "dense_ids ! i \<notin> set lexical_ids" "dense_ids ! j \<notin> set lexical_ids"
    "weighted_rrf_scores dense_ids lexical_ids rrf_k dw lw = Inr scores"
  shows "score_of scores (dense_ids ! j) < score_of scores (dense_ids ! i)"
proof -
  have val: "score_of scores (dense_ids ! n) = dw / of_int (rrf_k + 1 + int n)"
    if "n < length dense_ids" "dense_ids ! n \<notin> set lexical_ids" for n
    using rrf_scores_spec [OF assms(1), of dense_ids lexical_ids dw lw] assms(3,8) that
    by (auto simp: contribution_nth contribution_notin)
  have "real_of_int (rrf_k + 1 + int i) < of_int (rrf_k + 1 + int j)"
    "0 < real_of_int (rrf_k + 1 + int i)"
    using assms(1,4) by auto
  then show ?thesis using val assms(2,4-7) by (simp add: divide_strict_left_mono)
qed

end
