(* ===== verification/RagContext.thy ===== *)
theory RagContext
  imports Errors Chunking
begin

text \<open>
  \<open>backend/app/rag/context.py\<close> and the source record of \<open>schema/query.py\<close>: the bounded context that is
  handed to the chat model, the scope check, and the treatment of citation marks in the answer.
\<close>

section \<open>Sources\<close>

text \<open>\<open>GetSourceDetail\<close>\<close>

record source_detail =
  sd_knowledge_base_id :: int
  sd_document_id :: int
  sd_document_name :: ustr
  sd_chunk_id :: int
  sd_chunk_index :: int
  sd_content :: ustr
  sd_score :: real
  sd_rerank_score :: "real option"
  sd_citation :: ustr

text \<open>\<open>ContextSelection\<close>\<close>

record context_selection =
  cs_context :: ustr
  cs_sources :: "source_detail list"

section \<open>The budget\<close>

definition char_units :: "nat \<Rightarrow> int" where
  "char_units c = (if 13312 \<le> c \<and> c \<le> 40959 then 4 else 1)"

definition estimate_token_units :: "ustr \<Rightarrow> int" where
  "estimate_token_units text = sum_list (map char_units text)"

fun take_units :: "int \<Rightarrow> int \<Rightarrow> ustr \<Rightarrow> ustr" where
  "take_units used available [] = []"
| "take_units used available (c # s) =
     (if used + char_units c > available then []
      else c # take_units (used + char_units c) available s)"

definition truncate_to_units :: "ustr \<Rightarrow> int \<Rightarrow> ustr" where
  "truncate_to_units text available_units = rstrip (take_units 0 available_units text)"

text \<open>The text one source adds: its mark, a blank, its content.\<close>

definition source_part :: "source_detail \<Rightarrow> ustr" where
  "source_part s = sd_citation s @ [32] @ sd_content s"

text \<open>
  The loop of \<open>build_bounded_context\<close>. \<open>continue\<close> goes on with the rest, \<open>break\<close> returns what was
  selected; a selected source is a copy whose content is the truncated one.
\<close>

fun select_sources ::
  "int \<Rightarrow> int \<Rightarrow> int \<Rightarrow> (int \<times> ustr) list \<Rightarrow> source_detail list \<Rightarrow> source_detail list
     \<Rightarrow> source_detail list" where
  "select_sources max_units max_sources used seen selected [] = selected"
| "select_sources max_units max_sources used seen selected (source # sources) =
     (if List.member seen (sd_document_id source, sd_content source)
         \<or> int (length selected) = max_sources
      then select_sources max_units max_sources used seen selected sources
      else
        let available = max_units - used - estimate_token_units (sd_citation source @ [32]) in
        if available \<le> 0 then selected
        else
          let content = truncate_to_units (sd_content source) available in
          if content = [] then selected
          else
            let chosen = source\<lparr>sd_content := content\<rparr>;
                used' = used + estimate_token_units (source_part chosen)
            in if used' \<ge> max_units then selected @ [chosen]
               else select_sources max_units max_sources used'
                      ((sd_document_id source, sd_content source) # seen)
                      (selected @ [chosen]) sources)"

definition build_bounded_context :: "source_detail list \<Rightarrow> int \<Rightarrow> int \<Rightarrow> context_selection res" where
  "build_bounded_context sources max_sources max_tokens =
     (if max_sources < 1 \<or> max_tokens < 1 then Inl (ValueError msg_context_budget)
      else
        let selected = select_sources (max_tokens * 4) max_sources 0 [] [] sources
        in Inr \<lparr>cs_context = join nl2 (map source_part selected), cs_sources = selected\<rparr>)"

section \<open>Scope and citations\<close>

definition scope_markers :: "ustr list" where
  "scope_markers = [marker_project, marker_system, marker_service, marker_kb, marker_ours]"

definition has_sufficient_scope_evidence :: "ustr \<Rightarrow> source_detail list \<Rightarrow> bool" where
  "has_sufficient_scope_evidence question sources =
     (let required = filter (\<lambda>m. contains m question) scope_markers
      in if required = [] then sources \<noteq> []
         else list_ex (\<lambda>m. list_ex (\<lambda>s. contains m (sd_content s)) sources) required)"

text \<open>\<open>\[S\d+\]\<close> at the front of a text: the match and what follows.\<close>

definition cite_at :: "ustr \<Rightarrow> (ustr \<times> ustr) option" where
  "cite_at s =
     (if prefix [91, 83] s
      then
        let digits = takeWhile is_decimal (drop 2 s); after = dropWhile is_decimal (drop 2 s)
        in if digits \<noteq> [] \<and> after \<noteq> [] \<and> hd after = 93
           then Some ([91, 83] @ digits @ [93], tl after) else None
      else None)"

datatype piece = Plain nat | Cite ustr

lemma cite_at_shorter: "cite_at s = Some (m, r) \<Longrightarrow> length r < length s"
proof -
  assume a: "cite_at s = Some (m, r)"
  then have r: "r = tl (dropWhile is_decimal (drop 2 s))" and p: "prefix [91, 83] s"
    by (auto simp: cite_at_def Let_def split: if_splits)
  have "length (dropWhile is_decimal (drop 2 s)) \<le> length (drop 2 s)" by (rule length_dropWhile_le)
  moreover have "2 \<le> length s" using p by (auto simp: prefix_def)
  ultimately show ?thesis using r by simp
qed

text \<open>The scan of \<open>_CITATION_PATTERN.sub\<close> and \<open>findall\<close>: matches from left to right.\<close>

function pieces :: "ustr \<Rightarrow> piece list" where
  "pieces [] = []"
| "pieces (c # s) =
     (case cite_at (c # s) of
        Some (m, r) \<Rightarrow> Cite m # pieces r
      | None \<Rightarrow> Plain c # pieces s)"
  by pat_completeness auto
termination
  by (relation "measure length") (auto dest: cite_at_shorter)

fun piece_text :: "piece \<Rightarrow> ustr" where
  "piece_text (Plain c) = [c]"
| "piece_text (Cite m) = m"

definition citations_of :: "ustr \<Rightarrow> ustr list" where
  "citations_of answer = concat (map (\<lambda>p. case p of Plain _ \<Rightarrow> [] | Cite m \<Rightarrow> [m]) (pieces answer))"

definition sanitize_answer_citations :: "ustr \<Rightarrow> source_detail list \<Rightarrow> ustr" where
  "sanitize_answer_citations answer sources =
     (let known = map sd_citation sources
      in concat (map (\<lambda>p. case p of Plain c \<Rightarrow> [c]
                           | Cite m \<Rightarrow> if List.member known m then m else []) (pieces answer)))"

text \<open>
  \<open>by_citation\<close> is a dict built from the sources in order, so the last source with a mark wins.
\<close>

definition extract_cited_chunk_ids :: "ustr \<Rightarrow> source_detail list \<Rightarrow> int list" where
  "extract_cited_chunk_ids answer sources =
     (let by_citation = map_of (rev (map (\<lambda>s. (sd_citation s, sd_chunk_id s)) sources))
      in fromkeys (concat (map (\<lambda>m. case by_citation m of Some i \<Rightarrow> [i] | None \<Rightarrow> [])
                     (citations_of answer))))"

section \<open>The context respects its budget\<close>

lemma char_units_pos: "1 \<le> char_units c"
  by (simp add: char_units_def)

lemma units_append [simp]:
  "estimate_token_units (s @ t) = estimate_token_units s + estimate_token_units t"
  by (simp add: estimate_token_units_def)

lemma units_nonneg: "0 \<le> estimate_token_units s"
proof -
  have "0 \<le> char_units c" for c using char_units_pos [of c] by simp
  then show ?thesis by (auto simp: estimate_token_units_def intro!: sum_list_nonneg)
qed

lemma units_Cons [simp]: "estimate_token_units (c # s) = char_units c + estimate_token_units s"
  by (simp add: estimate_token_units_def)

lemma units_Nil [simp]: "estimate_token_units [] = 0"
  by (simp add: estimate_token_units_def)

lemma units_prefix: "prefix s t \<Longrightarrow> estimate_token_units s \<le> estimate_token_units t"
  by (auto simp: prefix_def units_nonneg)

lemma take_units_prefix: "prefix (take_units used available s) s"
  by (induction s arbitrary: used) auto

lemma take_units_bound:
  "used \<le> available \<Longrightarrow> used + estimate_token_units (take_units used available s) \<le> available"
proof (induction s arbitrary: used)
  case (Cons c s)
  show ?case
  proof (cases "used + char_units c > available")
    case True
    with Cons.prems show ?thesis by simp
  next
    case False
    then show ?thesis using Cons.IH [of "used + char_units c"] by simp
  qed
qed simp

lemma truncate_prefix: "prefix (truncate_to_units s available) s"
  unfolding truncate_to_units_def by (meson prefix_order.order_trans rstrip_prefix take_units_prefix)

lemma truncate_bound:
  assumes "0 \<le> available"
  shows "estimate_token_units (truncate_to_units s available) \<le> available"
proof -
  have "estimate_token_units (truncate_to_units s available)
      \<le> estimate_token_units (take_units 0 available s)"
    unfolding truncate_to_units_def by (rule units_prefix [OF rstrip_prefix])
  with take_units_bound [OF assms, of s] show ?thesis by simp
qed

definition units_of_parts :: "source_detail list \<Rightarrow> int" where
  "units_of_parts ss = sum_list (map (\<lambda>s. estimate_token_units (source_part s)) ss)"

lemma units_of_parts_snoc:
  "units_of_parts (ss @ [s]) = units_of_parts ss + estimate_token_units (source_part s)"
  by (simp add: units_of_parts_def)

text \<open>\<open>t\<close> is \<open>s\<close> with a shorter, non-empty content.\<close>

definition truncated_from :: "source_detail \<Rightarrow> source_detail \<Rightarrow> bool" where
  "truncated_from t s \<longleftrightarrow> sd_content t \<noteq> [] \<and> prefix (sd_content t) (sd_content s)
     \<and> t = s\<lparr>sd_content := sd_content t\<rparr>"

definition source_key :: "source_detail \<Rightarrow> int \<times> ustr" where
  "source_key s = (sd_document_id s, sd_content s)"

text \<open>The invariant of the loop over the sources already visited.\<close>

definition selection_inv ::
  "int \<Rightarrow> int \<Rightarrow> source_detail list \<Rightarrow> int \<Rightarrow> (int \<times> ustr) list \<Rightarrow> source_detail list \<Rightarrow> bool" where
  "selection_inv max_units max_sources visited used seen selected \<longleftrightarrow>
     used = units_of_parts selected \<and> used \<le> max_units \<and> int (length selected) \<le> max_sources
     \<and> (\<exists>chosen. subseq chosen visited \<and> list_all2 truncated_from selected chosen
          \<and> distinct (map source_key chosen) \<and> set seen = set (map source_key chosen))"

lemma selection_inv_more:
  assumes "selection_inv mu ms visited used seen selected"
  shows "selection_inv mu ms (visited @ rest) used seen selected"
proof -
  have "subseq chosen (visited @ rest)" if "subseq chosen visited" for chosen
    using that by (rule list_emb_prefix)
  then show ?thesis using assms unfolding selection_inv_def by blast
qed

lemma selection_inv_take:
  assumes "selection_inv mu ms visited used seen selected" "int (length selected) \<noteq> ms"
    "source_key s \<notin> set seen"
    "content = truncate_to_units (sd_content s) (mu - used - estimate_token_units (sd_citation s @ [32]))"
    "0 < mu - used - estimate_token_units (sd_citation s @ [32])" "content \<noteq> []"
  shows "selection_inv mu ms (visited @ [s])
    (used + estimate_token_units (source_part (s\<lparr>sd_content := content\<rparr>)))
    (source_key s # seen) (selected @ [s\<lparr>sd_content := content\<rparr>])"
proof -
  obtain chosen where c: "subseq chosen visited" "list_all2 truncated_from selected chosen"
    "distinct (map source_key chosen)" "set seen = set (map source_key chosen)"
    using assms(1) by (auto simp: selection_inv_def)
  have "truncated_from (s\<lparr>sd_content := content\<rparr>) s"
    using assms(4,6) by (simp add: truncated_from_def truncate_prefix)
  then have "list_all2 truncated_from (selected @ [s\<lparr>sd_content := content\<rparr>]) (chosen @ [s])"
    using c(2) by (simp add: list_all2_appendI)
  moreover have "subseq (chosen @ [s]) (visited @ [s])"
    using c(1) by (simp add: list_emb_append_mono)
  moreover have "distinct (map source_key (chosen @ [s]))"
    "set (source_key s # seen) = set (map source_key (chosen @ [s]))"
    using c(3,4) assms(3) by auto
  ultimately have ex: "\<exists>chosen. subseq chosen (visited @ [s])
      \<and> list_all2 truncated_from (selected @ [s\<lparr>sd_content := content\<rparr>]) chosen
      \<and> distinct (map source_key chosen) \<and> set (source_key s # seen) = set (map source_key chosen)"
    by blast
  have "estimate_token_units content
      \<le> mu - used - estimate_token_units (sd_citation s @ [32])"
    unfolding assms(4) by (rule truncate_bound) (use assms(5) in simp)
  then have "used + estimate_token_units (source_part (s\<lparr>sd_content := content\<rparr>)) \<le> mu"
    by (simp add: source_part_def)
  then show ?thesis
    using assms(1,2) ex unfolding selection_inv_def by (simp add: units_of_parts_snoc)
qed

lemma select_sources_inv:
  assumes "selection_inv mu ms visited used seen selected"
  shows "\<exists>used' seen'. selection_inv mu ms (visited @ sources) used' seen'
    (select_sources mu ms used seen selected sources)"
  using assms
proof (induction mu ms used seen selected sources arbitrary: visited
    rule: select_sources.induct)
  case (1 mu ms used seen selected)
  then show ?case by auto
next
  case (2 mu ms used seen selected s sources)
  let ?avail = "mu - used - estimate_token_units (sd_citation s @ [32])"
  let ?content = "truncate_to_units (sd_content s) ?avail"
  let ?chosen = "s\<lparr>sd_content := ?content\<rparr>"
  let ?used = "used + estimate_token_units (source_part ?chosen)"
  let ?skip = "List.member seen (sd_document_id s, sd_content s) \<or> int (length selected) = ms"
  note inv = 2(3)
  show ?case
  proof (cases "?skip")
    case True
    then have "select_sources mu ms used seen selected (s # sources)
        = select_sources mu ms used seen selected sources"
      by (simp only: select_sources.simps if_True)
    with 2(1) [OF True selection_inv_more [OF inv, of "[s]"]] show ?thesis by simp
  next
    case go: False
    show ?thesis
    proof (cases "?avail \<le> 0 \<or> ?content = []")
      case True
      with go have "select_sources mu ms used seen selected (s # sources) = selected"
        by (auto simp: Let_def)
      with selection_inv_more [OF inv] show ?thesis by auto
    next
      case False
      have inv': "selection_inv mu ms (visited @ [s]) ?used (source_key s # seen)
          (selected @ [?chosen])"
        by (rule selection_inv_take [OF inv]) (use go False in \<open>auto simp: source_key_def\<close>)
      show ?thesis
      proof (cases "?used \<ge> mu")
        case True
        with go False have "select_sources mu ms used seen selected (s # sources)
            = selected @ [?chosen]" by (auto simp: Let_def)
        with selection_inv_more [OF inv', of sources] show ?thesis by auto
      next
        case more: False
        with go False have eq: "select_sources mu ms used seen selected (s # sources)
            = select_sources mu ms ?used ((sd_document_id s, sd_content s) # seen)
                (selected @ [?chosen]) sources" by (auto simp: Let_def)
        have "\<exists>used' seen'. selection_inv mu ms ((visited @ [s]) @ sources) used' seen'
            (select_sources mu ms ?used ((sd_document_id s, sd_content s) # seen)
                (selected @ [?chosen]) sources)"
          by (rule 2(2)) (use go False more inv' in \<open>auto simp: source_key_def\<close>)
        with eq show ?thesis by simp
      qed
    qed
  qed
qed

lemma units_join:
  "estimate_token_units (join nl2 (map source_part ss))
     = units_of_parts ss + (if ss = [] then 0 else 2 * (int (length ss) - 1))"
proof (induction ss)
  case (Cons s ss)
  have "estimate_token_units nl2 = 2" by (simp add: nl2_def char_units_def)
  with Cons show ?case by (simp add: join_Cons units_of_parts_def algebra_simps)
qed (simp add: units_of_parts_def)

text \<open>
  C3: with positive budgets the selection succeeds. It keeps at most \<open>max_sources\<close> sources, in
  order, no two with the same document and content, each with a non-empty prefix of its content;
  the parts together stay within the token budget. The blank lines that join the parts are not
  counted, so the context itself can exceed the budget by two units for every source after the
  first.
\<close>

theorem bounded_context_budget:
  assumes "1 \<le> max_sources" "1 \<le> max_tokens"
  shows "\<exists>sel. build_bounded_context sources max_sources max_tokens = Inr sel
    \<and> cs_context sel = join nl2 (map source_part (cs_sources sel))
    \<and> int (length (cs_sources sel)) \<le> max_sources
    \<and> units_of_parts (cs_sources sel) \<le> 4 * max_tokens
    \<and> estimate_token_units (cs_context sel) \<le> 4 * max_tokens + 2 * (max_sources - 1)
    \<and> (\<exists>chosen. subseq chosen sources \<and> distinct (map source_key chosen)
          \<and> list_all2 truncated_from (cs_sources sel) chosen)"
proof -
  let ?selected = "select_sources (max_tokens * 4) max_sources 0 [] [] sources"
  have "\<exists>chosen. subseq chosen [] \<and> list_all2 truncated_from [] chosen
      \<and> distinct (map source_key chosen) \<and> set [] = set (map source_key chosen)"
    by (rule exI [of _ "[]"]) simp
  then have "selection_inv (max_tokens * 4) max_sources [] 0 [] []"
    using assms by (simp add: selection_inv_def units_of_parts_def)
  then obtain used seen where
    inv: "selection_inv (max_tokens * 4) max_sources sources used seen ?selected"
    using select_sources_inv [of _ _ "[]" 0 "[]" "[]" sources] by fastforce
  then have len: "int (length ?selected) \<le> max_sources"
    and units: "units_of_parts ?selected \<le> 4 * max_tokens"
    by (auto simp: selection_inv_def)
  have "estimate_token_units (join nl2 (map source_part ?selected))
      \<le> 4 * max_tokens + 2 * (max_sources - 1)"
    using units len assms(1) by (auto simp: units_join)
  then show ?thesis
    using assms len units inv
    by (auto simp: build_bounded_context_def selection_inv_def Let_def)
qed

definition sample_source :: "int \<Rightarrow> ustr \<Rightarrow> ustr \<Rightarrow> source_detail" where
  "sample_source i content citation =
     \<lparr>sd_knowledge_base_id = 1, sd_document_id = i, sd_document_name = [], sd_chunk_id = 10 + i,
      sd_chunk_index = 0, sd_content = content, sd_score = 0, sd_rerank_score = None,
      sd_citation = citation\<rparr>"

text \<open>Two sources, a budget of three tokens (twelve units), a context of fourteen.\<close>

theorem bounded_context_budget_witness:
  "\<exists>sel. build_bounded_context
           [sample_source 1 [97] (asc ''[S1]''), sample_source 2 [98] (asc ''[S2]'')] 8 3 = Inr sel
    \<and> units_of_parts (cs_sources sel) \<le> 12 \<and> estimate_token_units (cs_context sel) = 14"
proof -
  let ?ss = "[sample_source 1 [97] (asc ''[S1]''), sample_source 2 [98] (asc ''[S2]'')]"
  obtain sel where sel: "build_bounded_context ?ss 8 3 = Inr sel"
    "units_of_parts (cs_sources sel) \<le> 4 * 3"
    using bounded_context_budget [of 8 3 ?ss] by auto
  have "rmap (\<lambda>s. estimate_token_units (cs_context s)) (build_bounded_context ?ss 8 3) = Inr 14"
    by code_simp
  with sel show ?thesis by simp
qed

section \<open>Citations\<close>

definition wf_cite :: "ustr \<Rightarrow> bool" where
  "wf_cite m \<longleftrightarrow> (\<exists>d. d \<noteq> [] \<and> (\<forall>c \<in> set d. is_decimal c) \<and> m = [91, 83] @ d @ [93])"

lemma not_decimal_bracket: "\<not> is_decimal 93"
  by (simp add: is_decimal_def decimal_zeros_def)

lemma cite_at_wf: "wf_cite m \<Longrightarrow> cite_at (m @ r) = Some (m, r)"
proof -
  assume "wf_cite m"
  then obtain d where d: "d \<noteq> []" "\<forall>c \<in> set d. is_decimal c" "m = [91, 83] @ d @ [93]"
    by (auto simp: wf_cite_def)
  then have "takeWhile is_decimal (d @ [93] @ r) = d" "dropWhile is_decimal (d @ [93] @ r) = 93 # r"
    using not_decimal_bracket by auto
  then show ?thesis using d(1,3) by (simp add: cite_at_def)
qed

lemma cite_at_Some:
  assumes "cite_at s = Some (m, r)"
  shows "wf_cite m" "s = m @ r"
proof -
  let ?d = "takeWhile is_decimal (drop 2 s)" and ?a = "dropWhile is_decimal (drop 2 s)"
  have all: "prefix [91, 83] s \<and> (?d \<noteq> [] \<and> ?a \<noteq> [] \<and> hd ?a = 93)
      \<and> m = [91, 83] @ ?d @ [93] \<and> r = tl ?a"
    using assms unfolding cite_at_def Let_def
    by (simp only: option.simps prod.simps split: if_split_asm) blast
  then have p: "prefix [91, 83] s" and m: "m = [91, 83] @ ?d @ [93]" and ne: "?d \<noteq> []" by blast+
  have a: "?a = 93 # r" using all by (metis list.collapse)
  have "\<forall>c \<in> set ?d. is_decimal c" by (auto dest: set_takeWhileD)
  with m ne show "wf_cite m" unfolding wf_cite_def by blast
  have "s = [91, 83] @ drop 2 s" using p by (auto simp: prefix_def)
  also have "drop 2 s = ?d @ ?a" by simp
  finally show "s = m @ r" using m a by simp
qed

text \<open>The scan loses nothing, and every mark it finds is well formed.\<close>

lemma pieces_text: "concat (map piece_text (pieces s)) = s"
proof (induction s rule: pieces.induct)
  case (2 c s)
  then show ?case by (cases "cite_at (c # s)") (auto dest: cite_at_Some(2))
qed simp

lemma pieces_wf: "Cite m \<in> set (pieces s) \<Longrightarrow> wf_cite m"
proof (induction s rule: pieces.induct)
  case (2 c s)
  then show ?case by (cases "cite_at (c # s)") (auto dest: cite_at_Some(1))
qed simp

fun piece_ok :: "piece \<Rightarrow> bool" where
  "piece_ok (Plain c) \<longleftrightarrow> c \<noteq> 91"
| "piece_ok (Cite m) \<longleftrightarrow> wf_cite m"

lemma pieces_cite: "wf_cite m \<Longrightarrow> pieces (m @ r) = Cite m # pieces r"
proof -
  assume w: "wf_cite m"
  then obtain c m' where m: "m = c # m'" by (auto simp: wf_cite_def)
  have "cite_at (c # m' @ r) = Some (m, r)" using cite_at_wf [OF w] by (simp add: m)
  then show ?thesis by (simp add: m)
qed

lemma pieces_plain: "c \<noteq> 91 \<Longrightarrow> pieces (c # r) = Plain c # pieces r"
  by (simp add: cite_at_def)

lemma pieces_concat: "\<forall>p \<in> set ps. piece_ok p \<Longrightarrow> pieces (concat (map piece_text ps)) = ps"
proof (induction ps)
  case (Cons p ps)
  then show ?case by (cases p) (auto simp del: pieces.simps(2) simp: pieces_cite pieces_plain)
qed simp

definition kept :: "source_detail list \<Rightarrow> piece \<Rightarrow> bool" where
  "kept sources p = (case p of Plain c \<Rightarrow> True | Cite m \<Rightarrow> m \<in> set (map sd_citation sources))"

lemma kept_simps [simp]:
  "kept sources (Plain c)" "kept sources (Cite m) \<longleftrightarrow> m \<in> set (map sd_citation sources)"
  by (simp_all add: kept_def)

lemma sanitize_kept:
  "sanitize_answer_citations answer sources
     = concat (map piece_text (filter (kept sources) (pieces answer)))"
proof -
  have "concat (map (\<lambda>p. case p of Plain c \<Rightarrow> [c]
           | Cite m \<Rightarrow> if m \<in> sd_citation ` set sources then m else []) ps)
      = concat (map piece_text (filter (kept sources) ps))" for ps
    by (induction ps) (auto simp: kept_def split: piece.splits)
  then show ?thesis by (simp add: sanitize_answer_citations_def)
qed

text \<open>
  C4: when every opening bracket of the answer belongs to a citation mark, sanitizing removes
  exactly the marks that the server did not issue and keeps the others in order.
\<close>

theorem sanitize_keeps_issued:
  assumes "Plain 91 \<notin> set (pieces answer)"
  shows "citations_of (sanitize_answer_citations answer sources)
    = filter (\<lambda>m. m \<in> set (map sd_citation sources)) (citations_of answer)"
proof -
  let ?ps = "pieces answer"
  have "piece_ok p" if "p \<in> set ?ps" for p
  proof (cases p)
    case (Plain c)
    then have "c \<noteq> 91" using that assms by blast
    with Plain show ?thesis by simp
  next
    case (Cite m)
    then have "wf_cite m" using that pieces_wf by blast
    with Cite show ?thesis by simp
  qed
  then have "\<forall>p \<in> set (filter (kept sources) ?ps). piece_ok p" by simp
  from pieces_concat [OF this]
  have "pieces (sanitize_answer_citations answer sources) = filter (kept sources) ?ps"
    by (simp only: sanitize_kept)
  moreover have "concat (map (\<lambda>p. case p of Plain _ \<Rightarrow> [] | Cite m \<Rightarrow> [m]) (filter (kept sources) ps))
      = filter (\<lambda>m. m \<in> set (map sd_citation sources))
          (concat (map (\<lambda>p. case p of Plain _ \<Rightarrow> [] | Cite m \<Rightarrow> [m]) ps))" for ps
  proof (induction ps)
    case (Cons p ps)
    then show ?case by (cases p) simp_all
  qed simp
  ultimately show ?thesis by (simp add: citations_of_def)
qed

theorem sanitize_keeps_issued_witness:
  "citations_of (sanitize_answer_citations (asc ''x [S1] y [S9]'')
     [sample_source 1 [97] (asc ''[S1]'')]) = [asc ''[S1]'']"
proof -
  have "Plain 91 \<notin> set (pieces (asc ''x [S1] y [S9]''))" by code_simp
  from sanitize_keeps_issued [OF this, of "[sample_source 1 [97] (asc ''[S1]'')]"]
  have "citations_of (sanitize_answer_citations (asc ''x [S1] y [S9]'')
      [sample_source 1 [97] (asc ''[S1]'')])
    = filter (\<lambda>m. m \<in> set (map sd_citation [sample_source 1 [97] (asc ''[S1]'')]))
        (citations_of (asc ''x [S1] y [S9]''))" .
  also have "\<dots> = [asc ''[S1]'']" by code_simp
  finally show ?thesis .
qed

text \<open>
  In general it does not: removing an unknown mark can join the text around it to another. The only
  citation of \<open>[S[S9]8]\<close> is the inner mark; it is removed, and \<open>[S8]\<close>, which nobody issued, is one now.
\<close>

lemma sanitize_joins_mark:
  "citations_of (asc ''[S[S9]8]'') = [asc ''[S9]'']"
  "citations_of (sanitize_answer_citations (asc ''[S[S9]8]'') [sample_source 1 [97] (asc ''[S1]'')]) = [asc ''[S8]'']"
  by code_simp+

text \<open>The cited chunks are chunks of the sources, each once.\<close>

lemma extract_cited_subset:
  "distinct (extract_cited_chunk_ids answer sources)
   \<and> set (extract_cited_chunk_ids answer sources) \<subseteq> sd_chunk_id ` set sources"
proof -
  have "i \<in> sd_chunk_id ` set sources"
    if "map_of (rev (map (\<lambda>s. (sd_citation s, sd_chunk_id s)) sources)) m = Some i" for m i
    using map_of_SomeD [OF that] by auto
  then show ?thesis
    by (auto simp: extract_cited_chunk_ids_def Let_def split: option.splits)
qed

text \<open>The scope check never accepts an empty list of sources.\<close>

lemma scope_evidence_needs_source: "has_sufficient_scope_evidence question sources \<Longrightarrow> sources \<noteq> []"
  by (auto simp: has_sufficient_scope_evidence_def Let_def list_ex_iff split: if_splits)

end
