(* ===== verification/Indexing.thy ===== *)
theory Indexing
  imports Errors
begin

text \<open>
  \<open>backend/app/rag/indexing.py\<close>: which failures of an index task are retried, how long the task waits,
  and the summaries that are stored instead of the exception text.
\<close>

definition is_retryable_index_error :: "exc \<Rightarrow> bool" where
  "is_retryable_index_error e =
     (case e of
        HTTPStatusError status \<Rightarrow> status \<in> {401, 403, 408, 425, 429} \<or> 500 \<le> status
      | _ \<Rightarrow>
          if is_transport_error e \<or> e = SQLAlchemyError then True
          else is_os_error e \<and> e \<noteq> FileNotFoundError)"

definition index_retry_countdown :: "int \<Rightarrow> int \<Rightarrow> int res" where
  "index_retry_countdown retries max_seconds =
     (if retries < 0 then Inl (ValueError msg_retry_negative)
      else if max_seconds < 1 then Inl (ValueError msg_backoff_max)
      else Inr (min (2 ^ nat retries) max_seconds))"

definition safe_prefixes :: "ustr list" where
  "safe_prefixes = [prefix_pdf, msg_pdf_encrypted, msg_bad_type, msg_no_body, msg_vec_mismatch]"

definition sanitize_index_error :: "exc \<Rightarrow> ustr" where
  "sanitize_index_error e =
     (case e of
        HTTPStatusError status \<Rightarrow> msg_http_pre @ str_int status @ msg_http_post
      | TimeoutException \<Rightarrow> msg_model_timeout
      | TransportError \<Rightarrow> msg_model_conn
      | FileNotFoundError \<Rightarrow> msg_no_object
      | ValueError message \<Rightarrow>
          if list_ex (\<lambda>p. prefix p message) safe_prefixes then take 512 message
          else msg_not_indexable
      | SQLAlchemyError \<Rightarrow> msg_db_failed
      | OSError \<Rightarrow> msg_storage_failed
      | ConnectionError \<Rightarrow> msg_storage_failed
      | _ \<Rightarrow> msg_index_failed_pre @ exc_name e @ msg_http_post)"

definition sanitize_dispatch_error :: "exc \<Rightarrow> ustr" where
  "sanitize_dispatch_error e =
     (if is_os_error e then msg_dispatch_conn
      else case e of
        ValueError _ \<Rightarrow> msg_dispatch_value
      | _ \<Rightarrow> msg_dispatch_pre @ exc_name e @ msg_http_post)"

lemma index_retry_countdown_ok:
  assumes "0 \<le> retries" "1 \<le> max_seconds"
  shows "\<exists>s. index_retry_countdown retries max_seconds = Inr s \<and> 1 \<le> s \<and> s \<le> max_seconds"
proof -
  have "(1::int) \<le> 2 ^ nat retries" by simp
  then show ?thesis using assms by (simp add: index_retry_countdown_def)
qed

text \<open>The waiting time doubles until it reaches the cap, and never shrinks.\<close>

lemma index_retry_countdown_mono:
  assumes "0 \<le> r" "r \<le> r'" "1 \<le> m"
    "index_retry_countdown r m = Inr s" "index_retry_countdown r' m = Inr s'"
  shows "s \<le> s' \<and> s' \<le> 2 ^ nat (r' - r) * s"
proof -
  define a where "a = nat r"
  define d where "d = nat (r' - r)"
  have r': "nat r' = a + d" using assms(1,2) by (simp add: a_def d_def)
  have s: "s = min (2 ^ a) m" and s': "s' = min (2 ^ (a + d)) m"
    using assms by (auto simp: index_retry_countdown_def a_def r' [unfolded a_def])
  have "(1::int) \<le> 2 ^ d" by simp
  then have a_le: "(2::int) ^ a \<le> 2 ^ d * 2 ^ a" and m_le: "m \<le> 2 ^ d * m"
    using assms(3) by (simp_all add: mult_le_cancel_right1)
  have pw: "(2::int) ^ (a + d) = 2 ^ d * 2 ^ a" by (simp add: power_add)
  have "s \<le> s'" unfolding s s' pw by (rule min.mono [OF a_le order_refl])
  moreover have "s' \<le> 2 ^ d * s"
  proof (cases "2 ^ a \<le> m")
    case True
    then have "s = 2 ^ a" by (simp add: s)
    then show ?thesis by (simp add: s' pw)
  next
    case False
    then have "s = m" by (simp add: s)
    then show ?thesis using m_le by (simp add: s')
  qed
  ultimately show ?thesis unfolding d_def by simp
qed

text \<open>
  The summary of a failed index task never depends on the text of an exception, except for the
  validation messages the code itself wrote, which are cut at 512 characters.
\<close>

lemma sanitize_index_error_value:
  "sanitize_index_error (ValueError m) \<noteq> msg_not_indexable \<Longrightarrow>
   (\<exists>p \<in> set safe_prefixes. prefix p m) \<and> sanitize_index_error (ValueError m) = take 512 m"
  by (auto simp: sanitize_index_error_def list_ex_iff split: if_splits)

lemma sanitize_dispatch_error_value:
  "sanitize_dispatch_error (ValueError m) = msg_dispatch_value"
  by (simp add: sanitize_dispatch_error_def is_os_error_def)

end
