(* ===== verification/Adapters.thy ===== *)
theory Adapters
  imports Errors
begin

text \<open>
  The adapters of \<open>backend/app/rag/adapters/\<close> and the batching of \<open>document_service.py\<close> that calls
  them. A model service is an HTTP endpoint: a parameter that answers a request with the parsed
  JSON body or with an exception.
\<close>

section \<open>Embeddings\<close>

type_synonym embedding = "real list"

text \<open>
  The settings the embedding adapter reads. A URL or key that is \<open>None\<close> or empty counts as not
  configured, which is the truth test of the code.
\<close>

record embedding_settings =
  es_base_url :: "ustr option"
  es_api_key :: "ustr option"
  es_allow_fallback :: bool
  es_dimensions :: nat

definition truthy :: "ustr option \<Rightarrow> bool" where
  "truthy x = (case x of None \<Rightarrow> False | Some s \<Rightarrow> s \<noteq> [])"

text \<open>
  \<open>_local_embedding\<close>: the 32 bytes of the digest are added round-robin and the vector normalised;
  \<open>or 1.0\<close> replaces a zero norm.
\<close>

fun add_bytes :: "nat \<Rightarrow> real list \<Rightarrow> nat list \<Rightarrow> real list" where
  "add_bytes i values [] = values"
| "add_bytes i values (b # bs) =
     add_bytes (Suc i)
       (values[i mod length values := values ! (i mod length values) + (real b - 255 / 2) / (255 / 2)])
       bs"

definition local_embedding :: "(ustr \<Rightarrow> nat list) \<Rightarrow> nat \<Rightarrow> ustr \<Rightarrow> embedding" where
  "local_embedding sha256_digest dimensions text =
     (let values = add_bytes 0 (replicate dimensions 0) (sha256_digest text);
          s = sqrt (sum_list (map (\<lambda>v. v * v) values));
          norm = (if s = 0 then 1 else s)
      in map (\<lambda>v. v / norm) values)"

text \<open>
  One entry of the \<open>data\<close> array of the answer: its index (0 when missing) and its vector. \<open>post\<close> is
  the HTTP call with \<open>raise_for_status\<close> and the access to \<open>data\<close>.
\<close>

record embedding_item =
  ei_index :: int
  ei_embedding :: embedding

definition provider_embed ::
  "embedding_settings \<Rightarrow> (ustr \<Rightarrow> nat list) \<Rightarrow> (ustr list \<Rightarrow> embedding_item list res)
     \<Rightarrow> ustr list \<Rightarrow> embedding list res" where
  "provider_embed s sha256_digest post texts =
     (if \<not> truthy (es_base_url s) \<or> \<not> truthy (es_api_key s)
      then if \<not> es_allow_fallback s then Inl (ServerError msg_no_embedding)
           else if texts \<noteq> [] \<and> es_dimensions s = 0
           then Inl (OtherError (asc ''ZeroDivisionError''))
           else Inr (map (local_embedding sha256_digest (es_dimensions s)) texts)
      else
        rbind (post texts) (\<lambda>items.
          let vectors = map ei_embedding (sort_key ei_index items) in
          if length vectors \<noteq> length texts \<or> list_ex (\<lambda>v. length v \<noteq> es_dimensions s) vectors
          then Inl (ValueError msg_vec_mismatch) else Inr vectors))"

lemma length_add_bytes [simp]: "length (add_bytes i values bs) = length values"
  by (induction bs arbitrary: i "values") auto

lemma length_local_embedding [simp]: "length (local_embedding d n text) = n"
  by (simp add: local_embedding_def Let_def)

section \<open>Batches\<close>

text \<open>
  \<open>embed_batch\<close>: an HTTP 400 for a batch of several texts splits the batch in two. \<open>len // 2\<close> is
  positive and smaller than the length there, so the recursion ends; only for an empty batch,
  which the loop below never passes, would the code recurse until Python stops it.
\<close>

function embed_batch :: "(ustr list \<Rightarrow> embedding list res) \<Rightarrow> ustr list \<Rightarrow> embedding list res" where
  "embed_batch emb batch =
     (case emb batch of
        Inr vectors \<Rightarrow> Inr vectors
      | Inl e \<Rightarrow>
          if e \<noteq> HTTPStatusError 400 \<or> length batch = 1 then Inl e
          else if batch = [] then Inl (OtherError (asc ''RecursionError''))
          else rbind (embed_batch emb (take (length batch div 2) batch))
                 (\<lambda>xs. rmap ((@) xs) (embed_batch emb (drop (length batch div 2) batch))))"
  by pat_completeness auto
termination
  by (relation "measure (\<lambda>(emb, batch). length batch)") (auto simp: length_Suc_conv neq_Nil_conv)

declare embed_batch.simps [simp del]

text \<open>The outer loop over \<open>range(0, len(texts), batch_size)\<close>.\<close>

definition embed_texts_in_batches ::
  "(ustr list \<Rightarrow> embedding list res) \<Rightarrow> ustr list \<Rightarrow> int \<Rightarrow> embedding list res" where
  "embed_texts_in_batches emb texts batch_size =
     (if batch_size < 1 then Inl (ValueError msg_batch_size)
      else rmap concat
             (traverse (\<lambda>start. embed_batch emb
                          (slice texts (int start) (int start + batch_size)))
                (range0 (length texts) (nat batch_size))))"

text \<open>
  The interface the batching relies on: a service that, when it answers, gives one vector for each
  text, in order; \<open>fits t v\<close> says that \<open>v\<close> is a vector for \<open>t\<close>.
\<close>

locale embedder =
  fixes emb :: "ustr list \<Rightarrow> embedding list res"
    and fits :: "ustr \<Rightarrow> embedding \<Rightarrow> bool"
  assumes embed_fits: "emb texts = Inr vectors \<Longrightarrow> list_all2 fits texts vectors"
begin

lemma embed_batch_fits: "embed_batch emb batch = Inr vectors \<Longrightarrow> list_all2 fits batch vectors"
proof (induction batch arbitrary: vectors rule: measure_induct_rule [of length])
  case (less batch)
  let ?l = "take (length batch div 2) batch" and ?r = "drop (length batch div 2) batch"
  show ?case
  proof (cases "emb batch")
    case (Inr vs)
    then have "vectors = vs" using less.prems by (simp add: embed_batch.simps [of emb batch])
    with Inr show ?thesis using embed_fits by blast
  next
    case (Inl e)
    with less.prems have e: "\<not> (e \<noteq> HTTPStatusError 400 \<or> length batch = 1)" "batch \<noteq> []"
      and eq: "rbind (embed_batch emb ?l) (\<lambda>xs. rmap ((@) xs) (embed_batch emb ?r)) = Inr vectors"
      by (auto simp: embed_batch.simps [of emb batch] split: if_splits)
    have half: "length ?l < length batch" "length ?r < length batch"
      using e by (auto simp: length_Suc_conv neq_Nil_conv)
    from eq obtain xs ys where xy: "embed_batch emb ?l = Inr xs" "embed_batch emb ?r = Inr ys"
      "vectors = xs @ ys"
      by (auto simp: res_iffs)
    have "list_all2 fits ?l xs" "list_all2 fits ?r ys"
      using less.IH [OF _ xy(1)] less.IH [OF _ xy(2)] half by auto
    then have "list_all2 fits (?l @ ?r) (xs @ ys)" by (rule list_all2_appendI)
    then show ?thesis using xy(3) by simp
  qed
qed

lemma embed_texts_fits:
  assumes "embed_texts_in_batches emb texts batch_size = Inr vectors"
  shows "list_all2 fits texts vectors"
proof -
  have b: "1 \<le> batch_size" using assms by (simp add: embed_texts_in_batches_def split: if_splits)
  let ?n = "nat batch_size"
  let ?batch = "\<lambda>i. take ?n (drop i texts)"
  have slice: "slice texts (int i) (int i + batch_size) = ?batch i" for i
    using b by (simp add: slice_window)
  obtain vss where v: "traverse (\<lambda>i. embed_batch emb (?batch i)) (range0 (length texts) ?n) = Inr vss"
    "vectors = concat vss"
    using assms b by (auto simp: embed_texts_in_batches_def slice res_iffs)
  have "list_all2 fits (concat (map ?batch (range0 (length texts) ?n))) (concat vss)"
    by (rule traverse_list_all2 [OF v(1)]) (rule embed_batch_fits)
  then show ?thesis using b v(2) by (simp add: range0_concat)
qed

end

text \<open>
  An error that ends the batching was the service's answer to a part of the texts, and a 400 only
  for a single text: splitting never hides a text that the service refuses, and never fails
  because of the size of a batch.
\<close>

lemma embed_batch_error:
  "batch \<noteq> [] \<Longrightarrow> embed_batch emb batch = Inl e \<Longrightarrow>
   \<exists>part. part \<noteq> [] \<and> sublist part batch \<and> emb part = Inl e
     \<and> (e = HTTPStatusError 400 \<longrightarrow> length part = 1)"
proof (induction batch rule: measure_induct_rule [of length])
  case (less batch)
  let ?l = "take (length batch div 2) batch" and ?r = "drop (length batch div 2) batch"
  show ?case
  proof (cases "emb batch")
    case (Inr vs)
    then show ?thesis using less.prems by (simp add: embed_batch.simps [of emb batch])
  next
    case (Inl e')
    show ?thesis
    proof (cases "e' \<noteq> HTTPStatusError 400 \<or> length batch = 1")
      case True
      then have "e = e'" using less.prems Inl by (simp add: embed_batch.simps [of emb batch])
      then show ?thesis using less.prems(1) Inl True by (intro exI [of _ batch]) auto
    next
      case False
      have half: "length ?l < length batch" "length ?r < length batch" "?l \<noteq> []" "?r \<noteq> []"
        using False less.prems(1) by (auto simp: length_Suc_conv neq_Nil_conv)
      have sub: "sublist ?l batch" "sublist ?r batch"
        by (auto intro: prefix_imp_sublist suffix_imp_sublist take_is_prefix suffix_drop)
      have "embed_batch emb ?l = Inl e \<or> embed_batch emb ?r = Inl e"
        using less.prems Inl False
        by (auto simp: embed_batch.simps [of emb batch] res_iffs)
      then show ?thesis
      proof
        assume "embed_batch emb ?l = Inl e"
        from less.IH [OF half(1,3) this] sub(1) show ?thesis
          by (meson sublist_order.order_trans)
      next
        assume "embed_batch emb ?r = Inl e"
        from less.IH [OF half(2,4) this] sub(2) show ?thesis
          by (meson sublist_order.order_trans)
      qed
    qed
  qed
qed

lemma embed_texts_error:
  assumes "1 \<le> batch_size" "embed_texts_in_batches emb texts batch_size = Inl e"
  shows "\<exists>part. part \<noteq> [] \<and> sublist part texts \<and> emb part = Inl e
    \<and> (e = HTTPStatusError 400 \<longrightarrow> length part = 1)"
proof -
  let ?n = "nat batch_size"
  let ?batch = "\<lambda>i. take ?n (drop i texts)"
  have slice: "slice texts (int i) (int i + batch_size) = ?batch i" for i
    using assms(1) by (simp add: slice_window)
  obtain i where i: "i \<in> set (range0 (length texts) ?n)" "embed_batch emb (?batch i) = Inl e"
    using assms by (auto simp: embed_texts_in_batches_def slice res_iffs dest: traverse_Inl)
  have "i < length texts" using range0_less [OF i(1)] assms(1) by simp
  then have "?batch i \<noteq> []" using assms(1) by simp
  from embed_batch_error [OF this i(2)] obtain part where
    "part \<noteq> []" "sublist part (?batch i)" "emb part = Inl e"
    "e = HTTPStatusError 400 \<longrightarrow> length part = 1" by blast
  moreover have "sublist (?batch i) texts"
    by (meson prefix_imp_sublist sublist_order.order_trans suffix_drop suffix_imp_sublist
        take_is_prefix)
  ultimately show ?thesis by (meson sublist_order.order_trans)
qed

section \<open>The provider keeps the contract\<close>

lemma provider_embed_dimensions:
  "provider_embed s sha256_digest post texts = Inr vectors \<Longrightarrow>
   list_all2 (\<lambda>t v. length v = es_dimensions s) texts vectors"
proof -
  assume "provider_embed s sha256_digest post texts = Inr vectors"
  then have "length vectors = length texts \<and> (\<forall>v \<in> set vectors. length v = es_dimensions s)"
    by (auto simp: provider_embed_def Let_def res_iffs list_ex_iff split: if_splits)
  then show ?thesis by (simp add: list_all2_conv_all_nth)
qed

interpretation provider: embedder "provider_embed s sha256_digest post"
    "\<lambda>t v. length v = es_dimensions s"
  for s sha256_digest post
  by unfold_locales (rule provider_embed_dimensions)

text \<open>The fallback is a function of each text alone.\<close>

lemma provider_embed_fallback:
  assumes "\<not> truthy (es_base_url s) \<or> \<not> truthy (es_api_key s)"
    "provider_embed s sha256_digest post texts = Inr vectors"
  shows "list_all2 (\<lambda>t v. v = local_embedding sha256_digest (es_dimensions s) t) texts vectors"
  using assms by (auto simp: provider_embed_def list_all2_map2 list_all2_same split: if_splits)

text \<open>
  Batching through the provider either fails with an answer the provider gave for a non-empty
  part of the texts (a 400 only for a single text), or returns exactly one vector of the
  configured dimension for each text.
\<close>

theorem embed_batches_correct:
  assumes "1 \<le> batch_size"
  shows "case embed_texts_in_batches (provider_embed s sha256_digest post) texts batch_size of
      Inr vectors \<Rightarrow> length vectors = length texts \<and> list_all (\<lambda>v. length v = es_dimensions s) vectors
    | Inl e \<Rightarrow> \<exists>part. part \<noteq> [] \<and> sublist part texts
        \<and> provider_embed s sha256_digest post part = Inl e
        \<and> (e = HTTPStatusError 400 \<longrightarrow> length part = 1)"
proof (cases "embed_texts_in_batches (provider_embed s sha256_digest post) texts batch_size")
  case (Inl e)
  then show ?thesis using embed_texts_error [OF assms Inl] by simp
next
  case (Inr vectors)
  from provider.embed_texts_fits [OF Inr] show ?thesis
    by (auto simp: Inr list_all2_conv_all_nth list_all_length)
qed

text \<open>A service that refuses batches of more than one text: all five vectors come back.\<close>

definition picky_post :: "ustr list \<Rightarrow> embedding_item list res" where
  "picky_post texts =
     (if length texts = 1 then Inr (map (\<lambda>t. \<lparr>ei_index = 0, ei_embedding = [real (hd t)]\<rparr>) texts)
      else Inl (HTTPStatusError 400))"

definition picky_settings :: embedding_settings where
  "picky_settings = \<lparr>es_base_url = Some [104], es_api_key = Some [107], es_allow_fallback = False,
                     es_dimensions = 1\<rparr>"

theorem embed_batches_correct_witness:
  "embed_texts_in_batches (provider_embed picky_settings (\<lambda>_. []) picky_post)
     [[1], [2], [3], [4], [5]] 3 = Inr [[1], [2], [3], [4], [5]]
   \<and> length [[1], [2], [3], [4], [5 :: real]] = length [[1], [2], [3], [4], [5 :: nat]]"
proof -
  have ok: "embed_texts_in_batches (provider_embed picky_settings (\<lambda>_. []) picky_post)
     [[1], [2], [3], [4], [5]] 3 = Inr [[1], [2], [3], [4], [5]]"
    by (simp add: embed_texts_in_batches_def range0_def upt_rec slice_def slice_bound_def
        embed_batch.simps provider_embed_def picky_settings_def picky_post_def truthy_def)
  have "case embed_texts_in_batches (provider_embed picky_settings (\<lambda>_. []) picky_post)
      [[1], [2], [3], [4], [5]] 3 of
      Inr vectors \<Rightarrow> length vectors = length [[1], [2], [3], [4], [5 :: nat]]
        \<and> list_all (\<lambda>v. length v = es_dimensions picky_settings) vectors
    | Inl e \<Rightarrow> \<exists>part. part \<noteq> [] \<and> sublist part [[1], [2], [3], [4], [5]]
        \<and> provider_embed picky_settings (\<lambda>_. []) picky_post part = Inl e
        \<and> (e = HTTPStatusError 400 \<longrightarrow> length part = 1)"
    by (rule embed_batches_correct) simp
  with ok show ?thesis by simp
qed

end
