(* ===== verification/Providers.thy ===== *)
theory Providers
  imports Adapters
begin

text \<open>
  The chat, rerank and storage adapters of \<open>backend/app/rag/adapters/\<close>. The context variables that
  record the usage of the last call are returned beside the result, because they keep their value
  when the call raises.
\<close>

section \<open>Chat\<close>

record chat_usage =
  cu_called :: bool
  cu_succeeded :: bool
  cu_prompt_tokens :: int
  cu_completion_tokens :: int
  cu_total_tokens :: int

definition no_chat_usage :: chat_usage where
  "no_chat_usage = \<lparr>cu_called = False, cu_succeeded = False, cu_prompt_tokens = 0,
                    cu_completion_tokens = 0, cu_total_tokens = 0\<rparr>"

text \<open>\<open>get_chat_usage\<close> and \<open>reset_chat_usage\<close> on the value of the context variable.\<close>

definition get_chat_usage :: "chat_usage option \<Rightarrow> chat_usage" where
  "get_chat_usage var = (case var of Some u \<Rightarrow> u | None \<Rightarrow> no_chat_usage)"

definition reset_chat_usage :: "chat_usage option" where
  "reset_chat_usage = Some no_chat_usage"

record chat_settings =
  ch_base_url :: "ustr option"
  ch_api_key :: "ustr option"
  ch_allow_fallback :: bool

text \<open>
  The parts of the response body the code reads: the three token counts with their defaults, and
  for each choice the content of its message, \<open>None\<close> when message or content is missing or null.
\<close>

record chat_body =
  cb_prompt_tokens :: "int option"
  cb_completion_tokens :: "int option"
  cb_total_tokens :: "int option"
  cb_choices :: "ustr option list option"

definition or_zero :: "int option \<Rightarrow> int" where
  "or_zero x = (case x of Some n \<Rightarrow> n | None \<Rightarrow> 0)"

definition user_prompt :: "ustr \<Rightarrow> ustr \<Rightarrow> ustr" where
  "user_prompt question context = prompt_context_open @ context @ prompt_context_close @ question"

text \<open>\<open>complete\<close>; \<open>post\<close> is the HTTP call with \<open>raise_for_status\<close>, given system and user message.\<close>

definition chat_complete ::
  "chat_settings \<Rightarrow> (ustr \<Rightarrow> ustr \<Rightarrow> chat_body res) \<Rightarrow> ustr \<Rightarrow> ustr \<Rightarrow> ustr res \<times> chat_usage" where
  "chat_complete s post question context =
     (if \<not> truthy (ch_base_url s) \<or> \<not> truthy (ch_api_key s)
      then (if \<not> ch_allow_fallback s then Inl (ServerError msg_no_chat)
            else Inr (msg_chat_placeholder @ slice_to context 2000), no_chat_usage)
      else
        case post prompt_system (user_prompt question context) of
          Inl e \<Rightarrow> (Inl e, no_chat_usage\<lparr>cu_called := True\<rparr>)
        | Inr body \<Rightarrow>
            let usage = \<lparr>cu_called = True, cu_succeeded = True,
                         cu_prompt_tokens = or_zero (cb_prompt_tokens body),
                         cu_completion_tokens = or_zero (cb_completion_tokens body),
                         cu_total_tokens = or_zero (cb_total_tokens body)\<rparr>;
                choices = (case cb_choices body of Some cs \<Rightarrow> cs | None \<Rightarrow> [])
            in (case choices of
                  [] \<Rightarrow> Inl (ServerError msg_no_choices)
                | c # _ \<Rightarrow> (if truthy c then Inr (strip (the c)) else Inl (ServerError msg_empty_answer)),
                usage))"

section \<open>Rerank\<close>

record rerank_result =
  rr_index :: int
  rr_score :: real

record rerank_usage =
  ru_called :: bool
  ru_succeeded :: bool
  ru_total_tokens :: int

definition no_rerank_usage :: rerank_usage where
  "no_rerank_usage = \<lparr>ru_called = False, ru_succeeded = False, ru_total_tokens = 0\<rparr>"

definition get_rerank_usage :: "rerank_usage option \<Rightarrow> rerank_usage" where
  "get_rerank_usage var = (case var of Some u \<Rightarrow> u | None \<Rightarrow> no_rerank_usage)"

record rerank_settings =
  rs_enabled :: bool
  rs_dashscope :: bool
  rs_base_url :: "ustr option"
  rs_api_key :: "ustr option"
  rs_model :: "ustr option"
  rs_top_n :: int

text \<open>An item of the answer; a missing index is a \<open>KeyError\<close>, two missing scores a \<open>TypeError\<close>.\<close>

record rerank_item =
  ri_index :: "int option"
  ri_relevance_score :: "real option"
  ri_score :: "real option"

record rerank_body =
  rb_output_results :: "rerank_item list option"
  rb_results :: "rerank_item list option"
  rb_data :: "rerank_item list option"
  rb_total_tokens :: "int option"

definition rstrip_slash :: "ustr \<Rightarrow> ustr" where
  "rstrip_slash s = rev (dropWhile (\<lambda>c. c = 47) (rev s))"

definition dashscope_path :: ustr where
  "dashscope_path = asc ''/services/rerank/text-rerank/text-rerank''"

definition rerank_endpoint :: "bool \<Rightarrow> ustr \<Rightarrow> ustr" where
  "rerank_endpoint dashscope base_url =
     (let path = (if dashscope then dashscope_path else asc ''/reranks'')
      in if suffix path base_url then base_url else base_url @ path)"

definition parse_rerank_item :: "rerank_item \<Rightarrow> rerank_result res" where
  "parse_rerank_item item =
     (case ri_index item of
        None \<Rightarrow> Inl KeyError
      | Some i \<Rightarrow>
          (case (case ri_relevance_score item of Some r \<Rightarrow> Some r | None \<Rightarrow> ri_score item) of
             None \<Rightarrow> Inl TypeError
           | Some r \<Rightarrow> Inr \<lparr>rr_index = i, rr_score = r\<rparr>))"

definition rerank_items :: "bool \<Rightarrow> rerank_body \<Rightarrow> rerank_item list" where
  "rerank_items dashscope body =
     (if dashscope
      then (case rb_output_results body of Some rs \<Rightarrow> rs | None \<Rightarrow> [])
      else (case rb_results body of
              Some rs \<Rightarrow> rs
            | None \<Rightarrow> (case rb_data body of Some rs \<Rightarrow> rs | None \<Rightarrow> [])))"

text \<open>\<open>rerank\<close>; \<open>post\<close> gets the endpoint, the query, the documents and \<open>top_n\<close>.\<close>

definition rerank ::
  "rerank_settings \<Rightarrow> (ustr \<Rightarrow> ustr \<Rightarrow> ustr list \<Rightarrow> int \<Rightarrow> rerank_body res) \<Rightarrow> ustr \<Rightarrow> ustr list
     \<Rightarrow> rerank_result list res \<times> rerank_usage" where
  "rerank s post query documents =
     (if \<not> rs_enabled s then (Inr [], no_rerank_usage)
      else if \<not> truthy (rs_base_url s) \<or> \<not> truthy (rs_api_key s) \<or> \<not> truthy (rs_model s)
      then (Inl (ValueError msg_rerank_config), no_rerank_usage)
      else
        let base_url = rstrip_slash (the (rs_base_url s));
            top_n = min (int (length documents)) (rs_top_n s);
            endpoint = rerank_endpoint (rs_dashscope s) base_url;
            called = no_rerank_usage\<lparr>ru_called := True\<rparr>
        in case post endpoint query documents top_n of
             Inl e \<Rightarrow> (Inl e, called)
           | Inr body \<Rightarrow>
               (case traverse parse_rerank_item (rerank_items (rs_dashscope s) body) of
                  Inl e \<Rightarrow> (Inl e, called)
                | Inr parsed \<Rightarrow>
                    if list_ex (\<lambda>r. rr_index r < 0 \<or> int (length documents) \<le> rr_index r) parsed
                    then (Inl (ValueError msg_rerank_index), called)
                    else (Inr parsed, \<lparr>ru_called = True, ru_succeeded = True,
                                       ru_total_tokens = or_zero (rb_total_tokens body)\<rparr>)))"

section \<open>Storage\<close>

text \<open>\<open>LocalStorage\<close>: the files below the root directory, by key.\<close>

type_synonym bytes = "nat list"
type_synonym object_store = "(ustr \<times> bytes) list"

definition storage_put :: "ustr \<Rightarrow> bytes \<Rightarrow> object_store \<Rightarrow> object_store" where
  "storage_put key content st = AList.update key content st"

definition storage_get :: "ustr \<Rightarrow> object_store \<Rightarrow> bytes res" where
  "storage_get key st = (case map_of st key of Some b \<Rightarrow> Inr b | None \<Rightarrow> Inl FileNotFoundError)"

definition storage_delete :: "ustr \<Rightarrow> object_store \<Rightarrow> object_store" where
  "storage_delete key st = AList.delete key st"

text \<open>What the document service relies on.\<close>

locale object_storage =
  fixes put :: "'k \<Rightarrow> 'b \<Rightarrow> 'st \<Rightarrow> 'st"
    and get :: "'k \<Rightarrow> 'st \<Rightarrow> 'b res"
    and delete :: "'k \<Rightarrow> 'st \<Rightarrow> 'st"
  assumes get_put: "get k (put k' b st) = (if k = k' then Inr b else get k st)"
    and get_delete: "get k (delete k' st) = (if k = k' then Inl FileNotFoundError else get k st)"
begin

lemma get_after_put: "get k (put k b st) = Inr b"
  by (simp add: get_put)

lemma delete_frame: "k \<noteq> k' \<Longrightarrow> get k (delete k' st) = get k st"
  by (simp add: get_delete)

lemma put_frame: "k \<noteq> k' \<Longrightarrow> get k (put k' b st) = get k st"
  by (simp add: get_put)

text \<open>Deleting twice is the same as deleting once, so a repeated delivery does no harm.\<close>

lemma delete_idem: "get k (delete k' (delete k' st)) = get k (delete k' st)"
  by (simp add: get_delete)

end

interpretation local_storage: object_storage storage_put storage_get storage_delete
  by unfold_locales
    (auto simp: storage_put_def storage_get_def storage_delete_def update_conv' delete_conv'
      split: option.splits)

section \<open>Facts about the adapters\<close>

lemma chat_complete_usage:
  "snd (chat_complete s post q c) = u \<Longrightarrow> cu_succeeded u \<Longrightarrow> cu_called u"
  by (auto simp: chat_complete_def no_chat_usage_def Let_def split: if_splits sum.splits)

text \<open>An answer is never empty text taken from a missing candidate.\<close>

lemma chat_complete_answer:
  assumes "truthy (ch_base_url s)" "truthy (ch_api_key s)" "chat_complete s post q c = (Inr a, u)"
  shows "\<exists>body t ts. post prompt_system (user_prompt q c) = Inr body
    \<and> cb_choices body = Some (Some t # ts) \<and> t \<noteq> [] \<and> a = strip t"
  using assms
  by (auto simp: chat_complete_def Let_def truthy_def
      split: if_splits sum.splits option.splits list.splits)

text \<open>
  What the reranker returns are valid positions in the list of documents, and only a completed
  call counts as a success; when it is disabled no request is made and nothing is returned.
\<close>

theorem rerank_result_valid:
  assumes "rerank s post query documents = (Inr results, usage)"
  shows "(\<forall>r \<in> set results. 0 \<le> rr_index r \<and> rr_index r < int (length documents))
    \<and> (ru_succeeded usage \<longrightarrow> ru_called usage)
    \<and> (\<not> rs_enabled s \<longrightarrow> results = [] \<and> usage = no_rerank_usage)
    \<and> (rs_enabled s \<longrightarrow> ru_succeeded usage)"
  using assms
  by (auto simp: rerank_def Let_def no_rerank_usage_def list_ex_iff split: if_splits sum.splits)

definition sample_rerank_settings :: rerank_settings where
  "sample_rerank_settings = \<lparr>rs_enabled = True, rs_dashscope = False, rs_base_url = Some [104, 47],
     rs_api_key = Some [107], rs_model = Some [109], rs_top_n = 20\<rparr>"

definition sample_rerank_post :: "ustr \<Rightarrow> ustr \<Rightarrow> ustr list \<Rightarrow> int \<Rightarrow> rerank_body res" where
  "sample_rerank_post endpoint query documents top_n =
     Inr \<lparr>rb_output_results = None,
          rb_results = Some [\<lparr>ri_index = Some 1, ri_relevance_score = Some 1, ri_score = None\<rparr>],
          rb_data = None, rb_total_tokens = None\<rparr>"

theorem rerank_result_valid_witness:
  "\<exists>usage. rerank sample_rerank_settings sample_rerank_post [] [[97], [98]]
      = (Inr [\<lparr>rr_index = 1, rr_score = 1\<rparr>], usage) \<and> ru_succeeded usage"
proof -
  have eq: "rerank sample_rerank_settings sample_rerank_post [] [[97], [98]]
      = (Inr [\<lparr>rr_index = 1, rr_score = 1\<rparr>], \<lparr>ru_called = True, ru_succeeded = True, ru_total_tokens = 0\<rparr>)"
    by (simp add: rerank_def sample_rerank_settings_def sample_rerank_post_def truthy_def
        rerank_items_def parse_rerank_item_def or_zero_def no_rerank_usage_def)
  from rerank_result_valid [OF eq] have "ru_succeeded \<lparr>ru_called = True, ru_succeeded = True, ru_total_tokens = 0\<rparr>"
    by (simp add: sample_rerank_settings_def)
  with eq show ?thesis by blast
qed

end
