(* ===== verification/Parsers.thy ===== *)
theory Parsers
  imports Chunking Lexical Indexing Providers
begin

text \<open>
  \<open>backend/app/rag/parsers/text.py\<close>: from the bytes of an uploaded file to its cleaned text.
  \<open>bytes.decode('utf-8', errors='replace')\<close> is written out; the readers of \<open>docx\<close> and \<open>pypdf\<close>
  are parameters.
\<close>

section \<open>UTF-8\<close>

definition scalar :: "nat \<Rightarrow> bool" where
  "scalar c \<longleftrightarrow> c < 1114112 \<and> \<not> (55296 \<le> c \<and> c \<le> 57343)"

definition utf8_char :: "nat \<Rightarrow> bytes" where
  "utf8_char c =
     (if c < 128 then [c]
      else if c < 2048 then [192 + c div 64, 128 + c mod 64]
      else if c < 65536 then [224 + c div 4096, 128 + c div 64 mod 64, 128 + c mod 64]
      else [240 + c div 262144, 128 + c div 4096 mod 64, 128 + c div 64 mod 64, 128 + c mod 64])"

definition utf8 :: "ustr \<Rightarrow> bytes" where
  "utf8 s = concat (map utf8_char s)"

definition is_cont :: "nat \<Rightarrow> bool" where
  "is_cont x \<longleftrightarrow> 128 \<le> x \<and> x \<le> 191"

text \<open>The range of the second byte excludes overlong forms, surrogates and what is too large.\<close>

definition second_ok :: "nat \<Rightarrow> nat \<Rightarrow> bool" where
  "second_ok b x \<longleftrightarrow> is_cont x \<and> (b = 224 \<longrightarrow> 160 \<le> x) \<and> (b = 237 \<longrightarrow> x \<le> 159)
     \<and> (b = 240 \<longrightarrow> 144 \<le> x) \<and> (b = 244 \<longrightarrow> x \<le> 143)"

text \<open>
  One step of the decoder: the code point, or U+FFFD for a maximal ill-formed prefix, and how many
  bytes after the first it uses.
\<close>

definition utf8_step :: "nat \<Rightarrow> bytes \<Rightarrow> nat \<times> nat" where
  "utf8_step b bs =
     (if b < 128 then (b, 0)
      else if 194 \<le> b \<and> b \<le> 223 then
        (case bs of
          x # _ \<Rightarrow> if is_cont x then ((b - 192) * 64 + (x - 128), 1) else (65533, 0)
        | [] \<Rightarrow> (65533, 0))
      else if 224 \<le> b \<and> b \<le> 239 then
        (case bs of
          x # y # _ \<Rightarrow>
            if \<not> second_ok b x then (65533, 0)
            else if is_cont y then ((b - 224) * 4096 + (x - 128) * 64 + (y - 128), 2)
            else (65533, 1)
        | [x] \<Rightarrow> (65533, if second_ok b x then 1 else 0)
        | [] \<Rightarrow> (65533, 0))
      else if 240 \<le> b \<and> b \<le> 244 then
        (case bs of
          x # y # z # _ \<Rightarrow>
            if \<not> second_ok b x then (65533, 0)
            else if \<not> is_cont y then (65533, 1)
            else if is_cont z
            then ((b - 240) * 262144 + (x - 128) * 4096 + (y - 128) * 64 + (z - 128), 3)
            else (65533, 2)
        | [x, y] \<Rightarrow> (65533, if \<not> second_ok b x then 0 else if is_cont y then 2 else 1)
        | [x] \<Rightarrow> (65533, if second_ok b x then 1 else 0)
        | [] \<Rightarrow> (65533, 0))
      else (65533, 0))"

function decode_replace :: "bytes \<Rightarrow> ustr" where
  "decode_replace [] = []"
| "decode_replace (b # bs) =
     fst (utf8_step b bs) # decode_replace (drop (snd (utf8_step b bs)) bs)"
  by pat_completeness auto
termination by (relation "measure length") auto

section \<open>The parsers\<close>

definition supported_document_suffixes :: "ustr list" where
  "supported_document_suffixes = [asc ''txt'', asc ''md'', asc ''docx'', asc ''pdf'']"

text \<open>
  \<open>filename.rsplit('.', 1)[-1].lower()\<close>: what follows the last full stop, or the whole name. The
  result is only compared with the supported suffixes, for which lowering the ASCII letters is
  enough: no other character lowers to one of theirs.
\<close>

definition file_suffix :: "ustr \<Rightarrow> ustr" where
  "file_suffix filename = ascii_lower (rev (takeWhile (\<lambda>c. c \<noteq> 46) (rev filename)))"

text \<open>What \<open>PdfReader\<close> gives: whether the file is encrypted, and each page's \<open>extract_text()\<close>.\<close>

record pdf_file =
  pdf_is_encrypted :: bool
  pdf_pages :: "ustr res list"

text \<open>
  The libraries the parsers call, and which of pypdf's exception classes are \<open>PdfReadError\<close> or a subclass of it.
\<close>

record readers =
  read_docx :: "bytes \<Rightarrow> ustr list res"
  read_pdf :: "bytes \<Rightarrow> pdf_file res"
  pdf_read_class :: "ustr \<Rightarrow> bool"

record pdf_limits =
  pdf_max_pages :: int
  pdf_max_text_chars :: int

text \<open>\<open>except PdfReadError\<close>\<close>

definition pdf_read_error :: "readers \<Rightarrow> exc \<Rightarrow> bool" where
  "pdf_read_error rd e = (case e of OtherError c \<Rightarrow> pdf_read_class rd c | _ \<Rightarrow> False)"

text \<open>\<open>bytes.lstrip()\<close> removes ASCII white space.\<close>

definition bytes_lstrip :: "bytes \<Rightarrow> bytes" where
  "bytes_lstrip data = dropWhile (\<lambda>b. 9 \<le> b \<and> b \<le> 13 \<or> b = 32) data"

definition page_label :: "nat \<Rightarrow> ustr \<Rightarrow> ustr" where
  "page_label n text = txt_page_pre @ str_nat n @ txt_page_post @ [10] @ text"

text \<open>The loop over the pages; \<open>n\<close> is the page number and \<open>used\<close> the text length so far.\<close>

fun pdf_page_loop :: "int \<Rightarrow> nat \<Rightarrow> int \<Rightarrow> ustr list \<Rightarrow> ustr res list \<Rightarrow> ustr list res" where
  "pdf_page_loop max_chars n used acc [] = Inr acc"
| "pdf_page_loop max_chars n used acc (p # ps) =
     rbind p (\<lambda>raw. let text = strip raw in
       if text = [] then pdf_page_loop max_chars (n + 1) used acc ps
       else if used + int (length text) > max_chars
       then Inl (ValueError (msg_pdf_chars_pre @ str_int max_chars @ msg_pdf_chars_post))
       else pdf_page_loop max_chars (n + 1) (used + int (length text)) (acc @ [page_label n text]) ps)"

definition parse_pdf :: "readers \<Rightarrow> pdf_limits \<Rightarrow> bytes \<Rightarrow> ustr res" where
  "parse_pdf rd lims data =
     (if \<not> prefix (asc ''%PDF-'') (bytes_lstrip data) then Inl (ValueError msg_pdf_sig)
      else
        case rbind (read_pdf rd data) (\<lambda>reader.
            if pdf_is_encrypted reader then Inl (ValueError msg_pdf_encrypted)
            else if int (length (pdf_pages reader)) > pdf_max_pages lims
            then Inl (ValueError
              (msg_pdf_pages_pre @ str_int (pdf_max_pages lims) @ msg_pdf_pages_post))
            else pdf_page_loop (pdf_max_text_chars lims) 1 0 [] (pdf_pages reader)) of
          Inl e \<Rightarrow> Inl (if pdf_read_error rd e then ValueError msg_pdf_broken else e)
        | Inr pages \<Rightarrow>
            if pages = [] then Inl (ValueError msg_pdf_no_text) else Inr (join nl2 pages))"

definition parse_document :: "readers \<Rightarrow> pdf_limits \<Rightarrow> ustr \<Rightarrow> bytes \<Rightarrow> ustr res" where
  "parse_document rd lims filename data =
     (let suffix = file_suffix filename in
      rmap clean_text
        (if suffix = asc ''txt'' \<or> suffix = asc ''md'' then Inr (decode_replace data)
         else if suffix = asc ''docx''
         then rmap (\<lambda>items. join nl2 (filter (\<lambda>t. strip t \<noteq> []) items)) (read_docx rd data)
         else if suffix = asc ''pdf'' then parse_pdf rd lims data
         else Inl (ValueError msg_bad_type)))"

section \<open>Decoding gives back what was encoded\<close>

lemma utf8_step_char:
  assumes "scalar c" "utf8_char c = b # bs"
  shows "utf8_step b (bs @ rest) = (c, length bs)"
proof -
  have c: "c < 1114112" "\<not> (55296 \<le> c \<and> c \<le> 57343)" using assms(1) by (simp_all add: scalar_def)
  consider "c < 128" | "128 \<le> c" "c < 2048" | "2048 \<le> c" "c < 65536" | "65536 \<le> c" by linarith
  then show ?thesis
  proof cases
    case 1 then show ?thesis using assms(2) by (auto simp: utf8_char_def utf8_step_def)
  next
    case 2
    then have "b = 192 + c div 64" "bs = [128 + c mod 64]"
      using assms(2) by (auto simp: utf8_char_def)
    moreover have "2 \<le> c div 64" "c div 64 \<le> 31" "c mod 64 \<le> 63" using 2 by linarith+
    ultimately show ?thesis by (simp add: utf8_step_def is_cont_def)
  next
    case 3
    define d where "d = c div 64"
    have e: "c div 4096 = d div 64" by (simp add: d_def flip: div_mult2_eq)
    have bs: "b = 224 + d div 64" "bs = [128 + d mod 64, 128 + c mod 64]"
      using assms(2) 3 by (auto simp: utf8_char_def e d_def)
    have c_eq: "c = 64 * d + c mod 64" by (simp add: d_def)
    have "c mod 64 \<le> 63" by simp
    moreover have d: "32 \<le> d" "d \<le> 1023" "d < 864 \<or> 895 < d" using 3 c(2) c_eq by linarith+
    moreover have "d mod 64 \<le> 63" "d div 64 \<le> 15" using d by simp_all
    moreover have "d = 64 * (d div 64) + d mod 64" by simp
    then have "d div 64 * 4096 + d mod 64 * 64 + c mod 64 = c" using c_eq by linarith
    moreover note bs
    moreover have "d div 64 = 0 \<Longrightarrow> 32 \<le> d mod 64" using d by simp
    moreover have "d mod 64 \<le> 31" if "d div 64 = 13"
    proof -
      have "d = 832 + d mod 64" "d mod 64 \<le> 63" using div_mult_mod_eq [of d 64] that by simp_all
      then show ?thesis using d(3) by linarith
    qed
    ultimately show ?thesis by (auto simp: utf8_step_def second_ok_def is_cont_def)
  next
    case 4
    define d where "d = c div 64"
    define f where "f = d div 64"
    have e: "c div 4096 = f" "c div 262144 = f div 64" by (simp_all add: d_def f_def flip: div_mult2_eq)
    have bs: "b = 240 + f div 64" "bs = [128 + f mod 64, 128 + d mod 64, 128 + c mod 64]"
      using assms(2) 4 by (auto simp: utf8_char_def e d_def)
    have c_eq: "c = 64 * d + c mod 64" by (simp add: d_def)
    have d_eq: "d = 64 * f + d mod 64" by (simp add: f_def)
    have "c mod 64 \<le> 63" "d mod 64 \<le> 63" by simp_all
    moreover have f: "16 \<le> f" "f \<le> 271" using 4 c(1) c_eq d_eq by linarith+
    moreover have "f mod 64 \<le> 63" "f div 64 \<le> 4" using f by simp_all
    moreover have "f = 64 * (f div 64) + f mod 64" by simp
    then have "f div 64 * 262144 + f mod 64 * 4096 + d mod 64 * 64 + c mod 64 = c"
      using c_eq d_eq by linarith
    moreover note bs
    moreover have "f div 64 = 0 \<Longrightarrow> 16 \<le> f mod 64" using f by simp
    moreover have "f mod 64 \<le> 15" if "f div 64 = 4"
      using div_mult_mod_eq [of f 64] that f(2) by simp
    ultimately show ?thesis by (auto simp: utf8_step_def second_ok_def is_cont_def)
  qed
qed

lemma decode_utf8: "\<forall>c \<in> set s. scalar c \<Longrightarrow> decode_replace (utf8 s) = s"
proof (induction s)
  case (Cons c s)
  have "utf8_char c \<noteq> []" by (simp add: utf8_char_def)
  then obtain b bs where b: "utf8_char c = b # bs" by (cases "utf8_char c") auto
  have "utf8_step b (bs @ utf8 s) = (c, length bs)"
    by (rule utf8_step_char [OF _ b]) (use Cons.prems in simp)
  then show ?case using Cons by (simp add: utf8_def b)
qed (simp add: utf8_def)

text \<open>
  C6: a text or Markdown file is read back as what was written: parsing the UTF-8 bytes of a text
  gives the cleaned text. Bytes that are not UTF-8 never fail, whatever they are.
\<close>

theorem parse_text_roundtrip:
  assumes "file_suffix filename = asc ''txt'' \<or> file_suffix filename = asc ''md''"
  shows "(list_all scalar s \<longrightarrow> parse_document rd lims filename (utf8 s) = Inr (clean_text s))
    \<and> (\<exists>t. parse_document rd lims filename data = Inr t)"
  using assms decode_utf8 [of s] by (auto simp: parse_document_def Let_def list_all_iff)

text \<open>Readers for the examples: a file of three pages, the second of them blank.\<close>

definition sample_readers :: readers where
  "sample_readers = \<lparr>read_docx = (\<lambda>_. Inl (OtherError (asc ''PackageNotFoundError''))),
     read_pdf = (\<lambda>_. Inr \<lparr>pdf_is_encrypted = False, pdf_pages = map Inr [[97], [32], [98, 10]]\<rparr>),
     pdf_read_class = (\<lambda>c. c = asc ''PdfReadError'')\<rparr>"

definition sample_limits :: pdf_limits where
  "sample_limits = \<lparr>pdf_max_pages = 3, pdf_max_text_chars = 2\<rparr>"

theorem parse_text_roundtrip_witness:
  "parse_document sample_readers sample_limits (asc ''a.txt'') (utf8 [20320, 97, 128512])
     = Inr (clean_text [20320, 97, 128512])"
proof -
  have "file_suffix (asc ''a.txt'') = asc ''txt''" "list_all scalar [20320, 97, 128512]" by code_simp+
  then show ?thesis using parse_text_roundtrip [of "asc ''a.txt''" "[20320, 97, 128512]"] by blast
qed

section \<open>The pages of a PDF\<close>

fun labelled_pages :: "nat \<Rightarrow> ustr list \<Rightarrow> ustr list" where
  "labelled_pages n [] = []"
| "labelled_pages n (raw # raws) =
     (if strip raw = [] then [] else [page_label n (strip raw)]) @ labelled_pages (n + 1) raws"

definition text_size :: "ustr list \<Rightarrow> int" where
  "text_size raws = (\<Sum>raw\<leftarrow>raws. int (length (strip raw)))"

lemma text_size_nonneg: "0 \<le> text_size raws"
  unfolding text_size_def by (induction raws) auto

lemma pdf_page_loop_value:
  "used \<le> max_chars \<Longrightarrow> pdf_page_loop max_chars n used acc (map Inr raws) =
     (if used + text_size raws > max_chars
      then Inl (ValueError (msg_pdf_chars_pre @ str_int max_chars @ msg_pdf_chars_post))
      else Inr (acc @ labelled_pages n raws))"
proof (induction raws arbitrary: n used acc)
  case (Cons raw raws)
  show ?case
  proof (cases "used + int (length (strip raw)) > max_chars")
    case True
    then show ?thesis using Cons.prems text_size_nonneg [of raws] by (auto simp: Let_def text_size_def)
  next
    case False
    then show ?thesis using Cons.prems by (auto simp: Let_def Cons.IH) (auto simp: text_size_def)
  qed
qed (simp add: text_size_def)

lemma text_size_Cons: "text_size (raw # raws) = int (length (strip raw)) + text_size raws"
  by (simp add: text_size_def)

lemma labelled_pages_Nil: "labelled_pages n raws = [] \<longleftrightarrow> text_size raws = 0"
proof (induction raws arbitrary: n)
  case (Cons raw raws)
  then show ?case
    using text_size_nonneg [of raws] by (cases "strip raw") (simp_all add: text_size_Cons)
qed (simp add: text_size_def)

text \<open>
  C7: the result of the PDF parser, without its loop: the checks come in the order signature,
  encryption, number of pages, amount of text, presence of text; otherwise the text is the pages
  with visible text, in order, each under its own page number.
\<close>

theorem parse_pdf_value:
  assumes "read_pdf rd data = Inr \<lparr>pdf_is_encrypted = enc, pdf_pages = map Inr raws\<rparr>"
    "0 \<le> pdf_max_text_chars lims"
  shows "parse_pdf rd lims data =
    (if \<not> prefix (asc ''%PDF-'') (bytes_lstrip data) then Inl (ValueError msg_pdf_sig)
     else if enc then Inl (ValueError msg_pdf_encrypted)
     else if int (length raws) > pdf_max_pages lims
     then Inl (ValueError (msg_pdf_pages_pre @ str_int (pdf_max_pages lims) @ msg_pdf_pages_post))
     else if text_size raws > pdf_max_text_chars lims
     then Inl (ValueError
       (msg_pdf_chars_pre @ str_int (pdf_max_text_chars lims) @ msg_pdf_chars_post))
     else if text_size raws = 0 then Inl (ValueError msg_pdf_no_text)
     else Inr (join nl2 (labelled_pages 1 raws)))"
  using assms labelled_pages_Nil [of 1 raws]
  by (simp add: parse_pdf_def pdf_page_loop_value pdf_read_error_def)

theorem parse_pdf_value_witness:
  "parse_pdf sample_readers sample_limits (asc ''%PDF-'') = Inr (join nl2 [page_label 1 [97], page_label 3 [98]])"
proof -
  have r: "read_pdf sample_readers (asc ''%PDF-'') =
      Inr \<lparr>pdf_is_encrypted = False, pdf_pages = map Inr [[97], [32], [98, 10]]\<rparr>"
    by (simp add: sample_readers_def)
  have "labelled_pages 1 [[97], [32], [98, 10]] = [page_label 1 [97], page_label 3 [98]]"
    "prefix (asc ''%PDF-'') (bytes_lstrip (asc ''%PDF-''))" "text_size [[97], [32], [98, 10]] = 2"
    by code_simp+
  then show ?thesis using parse_pdf_value [OF r, of sample_limits] by (simp add: sample_limits_def)
qed

section \<open>Errors\<close>

lemma pdf_page_loop_error:
  "pdf_page_loop max_chars n used acc ps = Inl e \<Longrightarrow>
   Inl e \<in> set ps \<or> e = ValueError (msg_pdf_chars_pre @ str_int max_chars @ msg_pdf_chars_post)"
  by (induction ps arbitrary: n used acc) (auto simp: Let_def res_iffs split: if_splits)

text \<open>Readers that signal a bad file by an exception of their own, not by a bare \<open>ValueError\<close>.\<close>

definition readers_own_errors :: "readers \<Rightarrow> bool" where
  "readers_own_errors rd \<longleftrightarrow> (\<forall>data message.
     read_docx rd data \<noteq> Inl (ValueError message) \<and> read_pdf rd data \<noteq> Inl (ValueError message)
     \<and> (\<forall>reader. read_pdf rd data = Inr reader \<longrightarrow> Inl (ValueError message) \<notin> set (pdf_pages reader)))"

lemma parse_pdf_error:
  assumes "readers_own_errors rd" "parse_pdf rd lims data = Inl (ValueError message)"
  shows "\<exists>p \<in> set safe_prefixes. prefix p message"
proof -
  have pre: "prefix prefix_pdf msg_pdf_sig" "prefix prefix_pdf msg_pdf_pages_pre"
    "prefix prefix_pdf msg_pdf_chars_pre" "prefix prefix_pdf msg_pdf_broken"
    "prefix prefix_pdf msg_pdf_no_text"
    by code_simp+
  have "message = msg_pdf_encrypted \<or> prefix prefix_pdf message"
    using assms pre
    by (auto simp: parse_pdf_def readers_own_errors_def res_iffs
        split: if_splits sum.splits dest!: pdf_page_loop_error
        intro: prefix_order.trans [OF _ prefixI [OF refl]])
  then show ?thesis by (auto simp: safe_prefixes_def)
qed

text \<open>
  The messages the parser writes are the ones the error policy lets through. When the readers
  raise no bare \<open>ValueError\<close>, a \<open>ValueError\<close> of the parser is reported as it is, cut at 512
  characters, and never replaced by the catch-all message.
\<close>

theorem parse_errors_shown:
  assumes "readers_own_errors rd" "parse_document rd lims filename data = Inl (ValueError message)"
  shows "sanitize_index_error (ValueError message) = take 512 message"
proof -
  have "\<exists>p \<in> set safe_prefixes. prefix p message"
    using assms parse_pdf_error [OF assms(1), of lims data message]
    by (auto simp: parse_document_def Let_def res_iffs readers_own_errors_def safe_prefixes_def
        split: if_splits)
  then show ?thesis by (auto simp: sanitize_index_error_def list_ex_iff)
qed

theorem parse_errors_shown_witness:
  "parse_document sample_readers sample_limits (asc ''a.pdf'') [1, 2] = Inl (ValueError msg_pdf_sig)
   \<and> sanitize_index_error (ValueError msg_pdf_sig) = msg_pdf_sig"
proof
  have own: "readers_own_errors sample_readers"
    by (auto simp: readers_own_errors_def sample_readers_def)
  show e: "parse_document sample_readers sample_limits (asc ''a.pdf'') [1, 2]
      = Inl (ValueError msg_pdf_sig)"
    by code_simp
  show "sanitize_index_error (ValueError msg_pdf_sig) = msg_pdf_sig"
    using parse_errors_shown [OF own e] by (simp add: msg_pdf_sig_def)
qed

end
