(* ===== verification/RagDb.thy ===== *)
theory RagDb
  imports Errors
begin

text \<open>
  The tables of \<open>backend/app/rag/model\<close>, the enumerations of \<open>enums.py\<close> and the queries of
  \<open>crud/crud_rag.py\<close>. A table is the list of its rows in an order the code may not rely on, with
  the next value of its key sequence; the unique constraints and column widths of the models are
  checked where a row is written. A transaction is a function on the database that ends in an
  exception, and then changes nothing, or in the new database and a value. Transactions are
  serialised: the row locks of the code (\<open>with_for_update\<close>) do this for the tasks of one document; the
  requests take none, and theory \<open>Races\<close> says what that may cost.
\<close>

section \<open>Enumerations\<close>

datatype document_status = PENDING | PROCESSING | READY | FAILED | DELETING

datatype outbox_status = Outbox_PENDING | Outbox_DISPATCHED | Outbox_FAILED | Outbox_DEAD

datatype query_mode = Mode_basic | Mode_agentic | Mode_auto

fun status_value :: "document_status \<Rightarrow> ustr" where
  "status_value PENDING = asc ''PENDING''"
| "status_value PROCESSING = asc ''PROCESSING''"
| "status_value READY = asc ''READY''"
| "status_value FAILED = asc ''FAILED''"
| "status_value DELETING = asc ''DELETING''"

section \<open>Rows\<close>

text \<open>
  Every row has \<open>deleted\<close>: 0 while it is live, its own id after a logical deletion. Creation and
  update times are kept for the documents only: no code reads those of the other tables.
\<close>

record knowledge_base =
  kb_id :: int
  kb_owner_id :: int
  kb_name :: ustr
  kb_description :: "ustr option"
  kb_is_public :: bool
  kb_document_count :: int
  kb_chunk_count :: int
  kb_deleted :: int

record document =
  doc_id :: int
  doc_kb_id :: int
  doc_filename :: ustr
  doc_file_type :: ustr
  doc_storage_key :: ustr
  doc_file_size :: int
  doc_content_hash :: ustr
  doc_mime_type :: "ustr option"
  doc_parsed_content :: "ustr option"
  doc_status :: document_status
  doc_error_message :: "ustr option"
  doc_chunk_count :: int
  doc_index_version :: int
  doc_index_profile_id :: "int option"
  doc_created_time :: int
  doc_updated_time :: "int option"
  doc_deleted :: int

record chunk =
  ch_id :: int
  ch_kb_id :: int
  ch_document_id :: int
  ch_chunk_index :: int
  ch_content :: ustr
  ch_contextual_content :: ustr
  ch_search_text :: ustr
  ch_exact_tokens :: "ustr list"
  ch_content_hash :: ustr
  ch_char_count :: int
  ch_token_count :: int
  ch_embedding :: "real list option"
  ch_index_version :: int
  ch_parent_chunk_id :: "int option"
  ch_is_parent :: bool
  ch_heading_path :: "ustr list"
  ch_deleted :: int

text \<open>
  The payload of an event is the JSON object \<open>json.loads\<close> reads from the column: its integer
  fields, or \<open>None\<close> for a text that is not such an object.
\<close>

type_synonym payload = "(ustr \<times> int) list"

record outbox_event =
  ev_id :: int
  ev_type :: ustr
  ev_aggregate_id :: int
  ev_payload :: "payload option"
  ev_dedupe_key :: ustr
  ev_status :: outbox_status
  ev_dispatch_attempts :: int
  ev_last_error :: "ustr option"
  ev_dispatched_time :: "int option"

record index_profile =
  ip_id :: int
  ip_profile_hash :: ustr
  ip_parser_name :: ustr
  ip_parser_version :: ustr
  ip_chunker_name :: ustr
  ip_chunker_version :: ustr
  ip_chunk_size :: int
  ip_chunk_overlap :: int
  ip_tokenizer_name :: ustr
  ip_tokenizer_version :: ustr
  ip_embedding_model :: ustr
  ip_embedding_dimensions :: int
  ip_lexical_config :: ustr
  ip_embedding_instruction :: "ustr option"

record query_log =
  ql_id :: int
  ql_owner_id :: int
  ql_knowledge_base_ids :: "int list"
  ql_requested_mode :: query_mode
  ql_effective_mode :: query_mode
  ql_status :: ustr
  ql_retrieval_rounds :: int
  ql_tool_calls :: int
  ql_source_count :: int
  ql_latency_ms :: int
  ql_trace_id :: "ustr option"

record rag_db =
  t_kbs :: "knowledge_base list"
  t_documents :: "document list"
  t_chunks :: "chunk list"
  t_events :: "outbox_event list"
  t_profiles :: "index_profile list"
  t_logs :: "query_log list"
  next_kb :: int
  next_document :: int
  next_chunk :: int
  next_event :: int
  next_profile :: int
  next_log :: int

definition empty_db :: rag_db where
  "empty_db = \<lparr>t_kbs = [], t_documents = [], t_chunks = [], t_events = [], t_profiles = [],
     t_logs = [], next_kb = 1, next_document = 1, next_chunk = 1, next_event = 1, next_profile = 1,
     next_log = 1\<rparr>"

section \<open>Writing rows\<close>

text \<open>
  Replacing the row with the same key. SQLAlchemy writes a changed object only, and sets its
  \<open>updated_time\<close> (\<open>onupdate\<close>) when it does.
\<close>

definition replace_row :: "('r \<Rightarrow> int) \<Rightarrow> 'r \<Rightarrow> 'r list \<Rightarrow> 'r list" where
  "replace_row key r rows = map (\<lambda>x. if key x = key r then r else x) rows"

definition touched :: "int \<Rightarrow> document \<Rightarrow> document \<Rightarrow> document" where
  "touched now old new = (if new = old then old else new\<lparr>doc_updated_time := Some now\<rparr>)"

definition save_document :: "int \<Rightarrow> document \<Rightarrow> document \<Rightarrow> rag_db \<Rightarrow> rag_db" where
  "save_document now old new db =
     db\<lparr>t_documents := replace_row doc_id (touched now old new) (t_documents db)\<rparr>"

definition fits :: "nat \<Rightarrow> ustr \<Rightarrow> bool" where
  "fits n s \<longleftrightarrow> length s \<le> n"

text \<open>\<open>uq_rag_kb_owner_name_deleted\<close> and the column widths of the knowledge base.\<close>

definition kb_row_ok :: "knowledge_base \<Rightarrow> rag_db \<Rightarrow> bool" where
  "kb_row_ok kb db \<longleftrightarrow>
     \<not> list_ex (\<lambda>x. kb_id x \<noteq> kb_id kb \<and> kb_owner_id x = kb_owner_id kb \<and> kb_name x = kb_name kb
         \<and> kb_deleted x = kb_deleted kb) (t_kbs db)
     \<and> fits 128 (kb_name kb) \<and> (case kb_description kb of None \<Rightarrow> True | Some d \<Rightarrow> fits 512 d)"

definition insert_kb :: "knowledge_base \<Rightarrow> rag_db \<Rightarrow> (rag_db \<times> knowledge_base) res" where
  "insert_kb kb db =
     (let kb = kb\<lparr>kb_id := next_kb db\<rparr> in
      if kb_row_ok kb db
      then Inr (db\<lparr>t_kbs := t_kbs db @ [kb], next_kb := next_kb db + 1\<rparr>, kb)
      else Inl SQLAlchemyError)"

definition save_kb :: "knowledge_base \<Rightarrow> rag_db \<Rightarrow> rag_db res" where
  "save_kb kb db =
     (if kb_row_ok kb db then Inr (db\<lparr>t_kbs := replace_row kb_id kb (t_kbs db)\<rparr>)
      else Inl SQLAlchemyError)"

text \<open>\<open>storage_key\<close> is unique over all rows, deleted or not.\<close>

definition document_row_ok :: "document \<Rightarrow> rag_db \<Rightarrow> bool" where
  "document_row_ok d db \<longleftrightarrow>
     \<not> list_ex (\<lambda>x. doc_storage_key x = doc_storage_key d) (t_documents db)
     \<and> fits 256 (doc_filename d) \<and> fits 16 (doc_file_type d) \<and> fits 512 (doc_storage_key d)
     \<and> fits 64 (doc_content_hash d)
     \<and> (case doc_mime_type d of None \<Rightarrow> True | Some m \<Rightarrow> fits 128 m)"

definition insert_document :: "document \<Rightarrow> rag_db \<Rightarrow> (rag_db \<times> document) res" where
  "insert_document d db =
     (let d = d\<lparr>doc_id := next_document db\<rparr> in
      if document_row_ok d db
      then Inr (db\<lparr>t_documents := t_documents db @ [d], next_document := next_document db + 1\<rparr>, d)
      else Inl SQLAlchemyError)"

text \<open>\<open>uq_rag_chunk_version_index\<close>\<close>

definition insert_chunk :: "chunk \<Rightarrow> rag_db \<Rightarrow> (rag_db \<times> chunk) res" where
  "insert_chunk c db =
     (let c = c\<lparr>ch_id := next_chunk db\<rparr> in
      if list_ex (\<lambda>x. ch_document_id x = ch_document_id c \<and> ch_index_version x = ch_index_version c
           \<and> ch_chunk_index x = ch_chunk_index c) (t_chunks db)
      then Inl SQLAlchemyError
      else Inr (db\<lparr>t_chunks := t_chunks db @ [c], next_chunk := next_chunk db + 1\<rparr>, c))"

definition delete_chunks_of :: "int \<Rightarrow> rag_db \<Rightarrow> rag_db" where
  "delete_chunks_of document_id db =
     db\<lparr>t_chunks := filter (\<lambda>c. ch_document_id c \<noteq> document_id) (t_chunks db)\<rparr>"

definition delete_document_row :: "int \<Rightarrow> rag_db \<Rightarrow> rag_db" where
  "delete_document_row pk db =
     db\<lparr>t_documents := filter (\<lambda>d. doc_id d \<noteq> pk) (t_documents db)\<rparr>"

text \<open>\<open>uq_rag_outbox_dedupe\<close>\<close>

definition insert_event :: "outbox_event \<Rightarrow> rag_db \<Rightarrow> (rag_db \<times> outbox_event) res" where
  "insert_event e db =
     (let e = e\<lparr>ev_id := next_event db\<rparr> in
      if list_ex (\<lambda>x. ev_type x = ev_type e \<and> ev_aggregate_id x = ev_aggregate_id e
           \<and> ev_dedupe_key x = ev_dedupe_key e) (t_events db)
      then Inl SQLAlchemyError
      else Inr (db\<lparr>t_events := t_events db @ [e], next_event := next_event db + 1\<rparr>, e))"

definition save_event :: "outbox_event \<Rightarrow> rag_db \<Rightarrow> rag_db" where
  "save_event e db = db\<lparr>t_events := replace_row ev_id e (t_events db)\<rparr>"

text \<open>\<open>uq_rag_index_profile_hash\<close>\<close>

definition insert_profile :: "index_profile \<Rightarrow> rag_db \<Rightarrow> (rag_db \<times> index_profile) res" where
  "insert_profile p db =
     (let p = p\<lparr>ip_id := next_profile db\<rparr> in
      if list_ex (\<lambda>x. ip_profile_hash x = ip_profile_hash p) (t_profiles db)
         \<or> \<not> fits 256 (ip_embedding_model p)
      then Inl SQLAlchemyError
      else Inr (db\<lparr>t_profiles := t_profiles db @ [p], next_profile := next_profile db + 1\<rparr>, p))"

definition insert_log :: "query_log \<Rightarrow> rag_db \<Rightarrow> rag_db" where
  "insert_log l db =
     db\<lparr>t_logs := t_logs db @ [l\<lparr>ql_id := next_log db\<rparr>], next_log := next_log db + 1\<rparr>"

section \<open>The queries of \<open>crud_rag.py\<close>\<close>

text \<open>\<open>CRUDKnowledgeBase\<close>: who may read or write a knowledge base.\<close>

definition kb_visible :: "int \<Rightarrow> bool \<Rightarrow> bool \<Rightarrow> knowledge_base \<Rightarrow> bool" where
  "kb_visible user_id is_admin write kb \<longleftrightarrow>
     is_admin \<or> kb_owner_id kb = user_id \<or> \<not> write \<and> kb_is_public kb"

definition get_authorized :: "int \<Rightarrow> int \<Rightarrow> bool \<Rightarrow> bool \<Rightarrow> rag_db \<Rightarrow> knowledge_base option" where
  "get_authorized pk user_id is_admin write db =
     find (\<lambda>kb. kb_id kb = pk \<and> kb_deleted kb = 0 \<and> kb_visible user_id is_admin write kb) (t_kbs db)"

definition get_all_authorized :: "int \<Rightarrow> bool \<Rightarrow> rag_db \<Rightarrow> knowledge_base list" where
  "get_all_authorized user_id is_admin db =
     sort_key (\<lambda>kb. - kb_id kb)
       (filter (\<lambda>kb. kb_deleted kb = 0 \<and> kb_visible user_id is_admin False kb) (t_kbs db))"

text \<open>\<open>CRUDDocument\<close>; \<open>get_live_for_update\<close> is \<open>get_live\<close> under the row lock.\<close>

definition get_live :: "int \<Rightarrow> rag_db \<Rightarrow> document option" where
  "get_live pk db = find (\<lambda>d. doc_id d = pk \<and> doc_deleted d = 0) (t_documents db)"

definition get_in_kb :: "int \<Rightarrow> int \<Rightarrow> rag_db \<Rightarrow> document option" where
  "get_in_kb pk knowledge_base_id db =
     find (\<lambda>d. doc_id d = pk \<and> doc_kb_id d = knowledge_base_id \<and> doc_deleted d = 0)
       (t_documents db)"

definition get_documents :: "int \<Rightarrow> rag_db \<Rightarrow> document list" where
  "get_documents knowledge_base_id db =
     sort_key (\<lambda>d. - doc_id d)
       (filter (\<lambda>d. doc_kb_id d = knowledge_base_id \<and> doc_deleted d = 0) (t_documents db))"

definition get_ids_by_status :: "document_status \<Rightarrow> rag_db \<Rightarrow> int list" where
  "get_ids_by_status status db =
     map doc_id (filter (\<lambda>d. doc_status d = status \<and> doc_deleted d = 0) (t_documents db))"

definition last_activity :: "document \<Rightarrow> int" where
  "last_activity d = (case doc_updated_time d of None \<Rightarrow> doc_created_time d | Some t \<Rightarrow> t)"

text \<open>\<open>order_by(last_activity, Document.id)\<close> as two stable sorts.\<close>

definition get_stale_index_documents :: "int \<Rightarrow> nat \<Rightarrow> rag_db \<Rightarrow> document list" where
  "get_stale_index_documents stale_before limit db =
     take limit (sort_key last_activity (sort_key doc_id
       (filter (\<lambda>d. (doc_status d = PENDING \<or> doc_status d = PROCESSING) \<and> doc_deleted d = 0
          \<and> last_activity d < stale_before) (t_documents db))))"

text \<open>\<open>CRUDChunk\<close>\<close>

definition get_chunk_list :: "int \<Rightarrow> rag_db \<Rightarrow> chunk list" where
  "get_chunk_list document_id db =
     sort_key ch_chunk_index
       (filter (\<lambda>c. ch_document_id c = document_id \<and> ch_deleted c = 0) (t_chunks db))"

end
