(* ===== verification/Outbox.thy ===== *)
theory Outbox
  imports RagDb Indexing
begin

text \<open>
  \<open>service/outbox_service.py\<close> and \<open>service/index_profile_service.py\<close>: events written in the
  transaction that needs them, the claim of a batch of events, the record of a delivery, and the
  snapshot of the settings a document is indexed under.
\<close>

section \<open>Events\<close>

definition INDEX_DOCUMENT_EVENT :: ustr where
  "INDEX_DOCUMENT_EVENT = asc ''rag.document.index.requested''"

definition DELETE_DOCUMENT_EVENT :: ustr where
  "DELETE_DOCUMENT_EVENT = asc ''rag.document.delete.requested''"

text \<open>An \<open>OutboxEvent\<close> with its default column values.\<close>

definition new_event :: "ustr \<Rightarrow> int \<Rightarrow> payload \<Rightarrow> ustr \<Rightarrow> outbox_event" where
  "new_event event_type aggregate_id payload dedupe_key =
     \<lparr>ev_id = 0, ev_type = event_type, ev_aggregate_id = aggregate_id, ev_payload = Some payload,
      ev_dedupe_key = dedupe_key, ev_status = Outbox_PENDING, ev_dispatch_attempts = 0,
      ev_last_error = None, ev_dispatched_time = None\<rparr>"

definition find_event :: "ustr \<Rightarrow> int \<Rightarrow> ustr \<Rightarrow> rag_db \<Rightarrow> outbox_event option" where
  "find_event event_type aggregate_id dedupe_key db =
     find (\<lambda>e. ev_type e = event_type \<and> ev_aggregate_id e = aggregate_id
       \<and> ev_dedupe_key e = dedupe_key) (t_events db)"

definition enqueue_document_index :: "int \<Rightarrow> int \<Rightarrow> rag_db \<Rightarrow> (rag_db \<times> outbox_event) res" where
  "enqueue_document_index document_id index_version db =
     (let dedupe_key = str_int document_id @ [58] @ str_int index_version in
      case find_event INDEX_DOCUMENT_EVENT document_id dedupe_key db of
        Some event \<Rightarrow> Inr (db, event)
      | None \<Rightarrow> insert_event (new_event INDEX_DOCUMENT_EVENT document_id
          [(asc ''document_id'', document_id), (asc ''index_version'', index_version)]
          dedupe_key) db)"

definition enqueue_document_delete :: "int \<Rightarrow> rag_db \<Rightarrow> (rag_db \<times> outbox_event) res" where
  "enqueue_document_delete document_id db =
     (let dedupe_key = str_int document_id in
      case find_event DELETE_DOCUMENT_EVENT document_id dedupe_key db of
        Some event \<Rightarrow> Inr (db, event)
      | None \<Rightarrow> insert_event (new_event DELETE_DOCUMENT_EVENT document_id
          [(asc ''document_id'', document_id)] dedupe_key) db)"

definition claimable :: "outbox_event \<Rightarrow> bool" where
  "claimable e \<longleftrightarrow> ev_status e = Outbox_PENDING \<or> ev_status e = Outbox_FAILED"

definition claim_pending_events :: "nat \<Rightarrow> rag_db \<Rightarrow> outbox_event list" where
  "claim_pending_events limit db = take limit (sort_key ev_id (filter claimable (t_events db)))"

definition mark_dispatched :: "int \<Rightarrow> outbox_event \<Rightarrow> outbox_event" where
  "mark_dispatched now event =
     event\<lparr>ev_status := Outbox_DISPATCHED, ev_dispatch_attempts := ev_dispatch_attempts event + 1,
       ev_last_error := None, ev_dispatched_time := Some now\<rparr>"

definition mark_failed :: "exc \<Rightarrow> int \<Rightarrow> outbox_event \<Rightarrow> outbox_event" where
  "mark_failed e max_attempts event =
     (let attempts = ev_dispatch_attempts event + 1 in
      event\<lparr>ev_dispatch_attempts := attempts,
        ev_status := (if attempts \<ge> max_attempts then Outbox_DEAD else Outbox_FAILED),
        ev_last_error := Some (take 512 (sanitize_dispatch_error e))\<rparr>)"

section \<open>Index profiles\<close>

datatype json_value = JInt int | JStr ustr | JNull

text \<open>\<open>json.dumps\<close> of a string with \<open>ensure_ascii=False\<close>\<close>

definition hex_digit :: "nat \<Rightarrow> nat" where
  "hex_digit n = (if n < 10 then 48 + n else 87 + n)"

definition json_escape_char :: "nat \<Rightarrow> ustr" where
  "json_escape_char c =
     (if c = 34 then [92, 34] else if c = 92 then [92, 92]
      else if c = 10 then [92, 110] else if c = 13 then [92, 114] else if c = 9 then [92, 116]
      else if c = 12 then [92, 102] else if c = 8 then [92, 98]
      else if c < 32 then [92, 117, 48, 48, hex_digit (c div 16), hex_digit (c mod 16)]
      else [c])"

fun json_value_text :: "json_value \<Rightarrow> ustr" where
  "json_value_text (JInt i) = str_int i"
| "json_value_text (JStr s) = [34] @ concat (map json_escape_char s) @ [34]"
| "json_value_text JNull = asc ''null''"

definition json_dumps :: "(ustr \<times> json_value) list \<Rightarrow> ustr" where
  "json_dumps obj =
     [123] @ join (asc '', '')
       (map (\<lambda>(k, v). json_value_text (JStr k) @ asc '': '' @ json_value_text v) obj) @ [125]"

record index_settings =
  RAG_CHUNK_SIZE :: int
  RAG_CHUNK_OVERLAP :: int
  RAG_EMBEDDING_MODEL :: ustr
  RAG_EMBEDDING_DIMENSIONS :: int

text \<open>\<open>build_index_profile_payload\<close>, as the row it becomes.\<close>

definition build_index_profile :: "index_settings \<Rightarrow> index_profile" where
  "build_index_profile s =
     \<lparr>ip_id = 0, ip_profile_hash = [],
      ip_parser_name = asc ''rag.text.parse_document'', ip_parser_version = asc ''2'',
      ip_chunker_name = asc ''rag.chunking.split_text'', ip_chunker_version = asc ''2-parent-child'',
      ip_chunk_size = RAG_CHUNK_SIZE s, ip_chunk_overlap = RAG_CHUNK_OVERLAP s,
      ip_tokenizer_name = asc ''jieba'', ip_tokenizer_version = asc ''0.42.1-exact-array-v3'',
      ip_embedding_model = RAG_EMBEDDING_MODEL s,
      ip_embedding_dimensions = RAG_EMBEDDING_DIMENSIONS s,
      ip_lexical_config = asc ''postgresql-simple-jieba-websearch-or-exact-array-weighted-rrf-v3'',
      ip_embedding_instruction = None\<rparr>"

text \<open>The fields in the order of \<open>sort_keys=True\<close>.\<close>

definition profile_fields :: "index_profile \<Rightarrow> (ustr \<times> json_value) list" where
  "profile_fields p =
     [(asc ''chunk_overlap'', JInt (ip_chunk_overlap p)),
      (asc ''chunk_size'', JInt (ip_chunk_size p)),
      (asc ''chunker_name'', JStr (ip_chunker_name p)),
      (asc ''chunker_version'', JStr (ip_chunker_version p)),
      (asc ''embedding_dimensions'', JInt (ip_embedding_dimensions p)),
      (asc ''embedding_instruction'',
        (case ip_embedding_instruction p of None \<Rightarrow> JNull | Some i \<Rightarrow> JStr i)),
      (asc ''embedding_model'', JStr (ip_embedding_model p)),
      (asc ''lexical_config'', JStr (ip_lexical_config p)),
      (asc ''parser_name'', JStr (ip_parser_name p)),
      (asc ''parser_version'', JStr (ip_parser_version p)),
      (asc ''tokenizer_name'', JStr (ip_tokenizer_name p)),
      (asc ''tokenizer_version'', JStr (ip_tokenizer_version p))]"

text \<open>\<open>sha256\<close> is the hexadecimal digest of the UTF-8 encoding of a text.\<close>

definition get_or_create_index_profile ::
  "(ustr \<Rightarrow> ustr) \<Rightarrow> index_settings \<Rightarrow> rag_db \<Rightarrow> (rag_db \<times> index_profile) res" where
  "get_or_create_index_profile sha256 s db =
     (let payload = build_index_profile s;
          profile_hash = sha256 (json_dumps (profile_fields payload)) in
      case find (\<lambda>p. ip_profile_hash p = profile_hash) (t_profiles db) of
        Some profile \<Rightarrow> Inr (db, profile)
      | None \<Rightarrow> insert_profile (payload\<lparr>ip_profile_hash := profile_hash\<rparr>) db)"

end
