(* ===== verification/Knowledge.thy ===== *)
theory Knowledge
  imports Outbox
begin

text \<open>
  \<open>service/knowledge_base_service.py\<close>: knowledge bases and who may use them.
\<close>

definition kb_get :: "int \<Rightarrow> int \<Rightarrow> bool \<Rightarrow> bool \<Rightarrow> rag_db \<Rightarrow> knowledge_base res" where
  "kb_get pk user_id is_admin write db =
     (case get_authorized pk user_id is_admin write db of
        None \<Rightarrow> Inl (NotFoundError msg_kb_not_found)
      | Some data \<Rightarrow> Inr data)"

definition kb_get_all :: "int \<Rightarrow> bool \<Rightarrow> rag_db \<Rightarrow> knowledge_base list" where
  "kb_get_all user_id is_admin db = get_all_authorized user_id is_admin db"

record create_kb_param =
  ckb_name :: ustr
  ckb_description :: "ustr option"
  ckb_is_public :: bool

definition kb_create :: "int \<Rightarrow> create_kb_param \<Rightarrow> rag_db \<Rightarrow> (rag_db \<times> knowledge_base) res" where
  "kb_create user_id obj db =
     insert_kb \<lparr>kb_id = 0, kb_owner_id = user_id, kb_name = strip (ckb_name obj),
       kb_description = ckb_description obj, kb_is_public = ckb_is_public obj,
       kb_document_count = 0, kb_chunk_count = 0, kb_deleted = 0\<rparr> db"

text \<open>
  The fields of an update: \<open>None\<close> when the request does not set it, \<open>Some None\<close> for an explicit
  \<open>null\<close>. \<open>name\<close> and \<open>is_public\<close> are not nullable, so a \<open>null\<close> there fails when the row is written.
\<close>

record update_kb_param =
  ukb_name :: "ustr option option"
  ukb_description :: "ustr option option"
  ukb_is_public :: "bool option option"

definition set_name :: "ustr option option \<Rightarrow> knowledge_base \<Rightarrow> knowledge_base res" where
  "set_name v kb =
     (case v of None \<Rightarrow> Inr kb | Some None \<Rightarrow> Inl SQLAlchemyError
      | Some (Some n) \<Rightarrow> Inr (kb\<lparr>kb_name := (if n = [] then n else strip n)\<rparr>))"

definition set_description :: "ustr option option \<Rightarrow> knowledge_base \<Rightarrow> knowledge_base res" where
  "set_description v kb =
     (case v of None \<Rightarrow> Inr kb | Some d \<Rightarrow> Inr (kb\<lparr>kb_description := d\<rparr>))"

definition set_is_public :: "bool option option \<Rightarrow> knowledge_base \<Rightarrow> knowledge_base res" where
  "set_is_public v kb =
     (case v of None \<Rightarrow> Inr kb | Some None \<Rightarrow> Inl SQLAlchemyError
      | Some (Some b) \<Rightarrow> Inr (kb\<lparr>kb_is_public := b\<rparr>))"

definition kb_update ::
  "int \<Rightarrow> int \<Rightarrow> bool \<Rightarrow> update_kb_param \<Rightarrow> rag_db \<Rightarrow> (rag_db \<times> knowledge_base) res" where
  "kb_update pk user_id is_admin obj db =
     rbind (kb_get pk user_id is_admin True db) (\<lambda>data.
     rbind (set_name (ukb_name obj) data) (\<lambda>data.
     rbind (set_description (ukb_description obj) data) (\<lambda>data.
     rbind (set_is_public (ukb_is_public obj) data) (\<lambda>data.
     rmap (\<lambda>db. (db, data)) (save_kb data db)))))"

fun request_deletions :: "int \<Rightarrow> document list \<Rightarrow> rag_db \<Rightarrow> rag_db res" where
  "request_deletions now [] db = Inr db"
| "request_deletions now (d # ds) db =
     rbind (enqueue_document_delete (doc_id d) (save_document now d (d\<lparr>doc_status := DELETING\<rparr>) db))
       (\<lambda>(db, _). request_deletions now ds db)"

text \<open>The documents are selected without locks; \<open>Races\<close> shows which may be missed.\<close>

definition kb_delete :: "int \<Rightarrow> int \<Rightarrow> int \<Rightarrow> bool \<Rightarrow> rag_db \<Rightarrow> rag_db res" where
  "kb_delete now pk user_id is_admin db =
     rbind (kb_get pk user_id is_admin True db) (\<lambda>data.
     rbind (save_kb (data\<lparr>kb_deleted := kb_id data\<rparr>) db) (\<lambda>db.
     request_deletions now
       (filter (\<lambda>d. doc_kb_id d = kb_id data \<and> doc_deleted d = 0) (t_documents db)) db))"

end
