(* ===== verification/Documents.thy ===== *)
theory Documents
  imports Knowledge Parsers Adapters
begin

text \<open>
  \<open>service/document_service.py\<close>: upload, indexing, claims, failures, recovery, retry and deletion
  of documents. What the service calls outside \<open>src/\<close> (readers, segmenter, hashes) is a parameter;
  the embedding provider is one as well, so that its model of theory \<open>Adapters\<close> can be put in.
\<close>

record rag_settings = index_settings +
  RAG_EMBEDDING_BATCH_SIZE :: int
  RAG_MAX_FILE_SIZE :: int
  RAG_PDF_LIMITS :: pdf_limits
  RAG_INDEX_MAX_RETRIES :: int
  RAG_INDEX_RETRY_BACKOFF_MAX_SECONDS :: int
  RAG_INDEX_STALE_SECONDS :: int
  RAG_OUTBOX_MAX_DISPATCH_ATTEMPTS :: int

record deps =
  dep_sha256 :: "bytes \<Rightarrow> ustr"
  dep_readers :: readers
  dep_jieba :: "ustr \<Rightarrow> ustr list"
  dep_embed :: "ustr list \<Rightarrow> embedding list res"

text \<open>\<open>hashlib.sha256(text.encode()).hexdigest()\<close>\<close>

definition sha256_text :: "deps \<Rightarrow> ustr \<Rightarrow> ustr" where
  "sha256_text D s = dep_sha256 D (utf8 s)"

section \<open>Upload\<close>

definition upload_suffix :: "ustr \<Rightarrow> ustr" where
  "upload_suffix filename = (if 46 \<in> set filename then file_suffix filename else [])"

definition storage_key_of :: "int \<Rightarrow> ustr \<Rightarrow> ustr \<Rightarrow> ustr" where
  "storage_key_of kb digest sfx = str_int kb @ [47] @ digest @ [46] @ sfx"

text \<open>A \<open>Document\<close> with its default column values.\<close>

definition new_document ::
  "int \<Rightarrow> int \<Rightarrow> ustr \<Rightarrow> ustr \<Rightarrow> ustr option \<Rightarrow> ustr \<Rightarrow> int \<Rightarrow> ustr \<Rightarrow> int \<Rightarrow> document" where
  "new_document now kb filename sfx mime_type storage_key bytes_count digest profile =
     \<lparr>doc_id = 0, doc_kb_id = kb, doc_filename = filename, doc_file_type = sfx,
      doc_storage_key = storage_key, doc_file_size = bytes_count, doc_content_hash = digest,
      doc_mime_type = mime_type, doc_parsed_content = None, doc_status = PENDING,
      doc_error_message = None, doc_chunk_count = 0, doc_index_version = 1,
      doc_index_profile_id = Some profile, doc_created_time = now, doc_updated_time = None,
      doc_deleted = 0\<rparr>"

text \<open>
  The object is stored before the rows are written, and stays when the transaction fails: the
  result is the new store next to the outcome of the transaction.
\<close>

definition doc_create ::
  "deps \<Rightarrow> rag_settings \<Rightarrow> int \<Rightarrow> int \<Rightarrow> int \<Rightarrow> bool \<Rightarrow> ustr \<Rightarrow> bytes \<Rightarrow> ustr option
    \<Rightarrow> rag_db \<Rightarrow> object_store \<Rightarrow> object_store \<times> (rag_db \<times> document) res" where
  "doc_create D s now knowledge_base_id user_id is_admin filename content mime_type db store =
     (case kb_get knowledge_base_id user_id is_admin True db of
        Inl e \<Rightarrow> (store, Inl e)
      | Inr kb \<Rightarrow>
          let sfx = upload_suffix filename in
          if sfx \<notin> set supported_document_suffixes
          then (store, Inl (RequestError 400 msg_suffix))
          else if int (length content) > RAG_MAX_FILE_SIZE s
          then (store, Inl (RequestError 400
            (msg_too_large_pre @ str_int (RAG_MAX_FILE_SIZE s div 1024 div 1024) @ asc ''MB'')))
          else
            let digest = dep_sha256 D content;
                storage_key = storage_key_of (kb_id kb) digest sfx in
            (storage_put storage_key content store,
             rbind (get_or_create_index_profile (sha256_text D) (index_settings.truncate s) db)
               (\<lambda>(db, profile).
             rbind (insert_document (new_document now (kb_id kb) filename sfx mime_type
                 storage_key (int (length content)) digest (ip_id profile)) db) (\<lambda>(db, data).
             rmap (\<lambda>(db, _). (db, data))
               (enqueue_document_index (doc_id data) (doc_index_version data) db)))))"

section \<open>Indexing\<close>

definition token_count :: "ustr \<Rightarrow> int" where
  "token_count s = max (int (length s) div 4) 1"

definition parent_chunk :: "deps \<Rightarrow> document \<Rightarrow> nat \<Rightarrow> parent_child_chunks \<Rightarrow> chunk" where
  "parent_chunk D d parent_index p =
     \<lparr>ch_id = 0, ch_kb_id = doc_kb_id d, ch_document_id = doc_id d,
      ch_chunk_index = - int parent_index, ch_content = pc_parent_content p,
      ch_contextual_content =
        contextualize_chunk (doc_filename d) (pc_heading_path p) (pc_parent_content p),
      ch_search_text = [], ch_exact_tokens = [],
      ch_content_hash = sha256_text D (pc_parent_content p),
      ch_char_count = int (length (pc_parent_content p)),
      ch_token_count = token_count (pc_parent_content p), ch_embedding = None,
      ch_index_version = doc_index_version d, ch_parent_chunk_id = None, ch_is_parent = True,
      ch_heading_path = pc_heading_path p, ch_deleted = 0\<rparr>"

text \<open>A child with the id of its parent, its number, its contextual text and its vector.\<close>

definition child_chunk ::
  "deps \<Rightarrow> document \<Rightarrow> int \<Rightarrow> parent_child_chunks \<Rightarrow> nat \<Rightarrow> ustr \<Rightarrow> ustr \<Rightarrow> embedding \<Rightarrow> chunk" where
  "child_chunk D d parent_id p index piece contextualized vector =
     \<lparr>ch_id = 0, ch_kb_id = doc_kb_id d, ch_document_id = doc_id d,
      ch_chunk_index = int index, ch_content = piece,
      ch_contextual_content = contextualize_chunk (doc_filename d) (pc_heading_path p) piece,
      ch_search_text = tokenize_search_text (dep_jieba D) contextualized,
      ch_exact_tokens = extract_exact_tokens contextualized,
      ch_content_hash = sha256_text D piece, ch_char_count = int (length piece),
      ch_token_count = token_count piece, ch_embedding = Some vector,
      ch_index_version = doc_index_version d, ch_parent_chunk_id = Some parent_id,
      ch_is_parent = False, ch_heading_path = pc_heading_path p, ch_deleted = 0\<rparr>"

fun insert_chunks :: "chunk list \<Rightarrow> rag_db \<Rightarrow> (rag_db \<times> int list) res" where
  "insert_chunks [] db = Inr (db, [])"
| "insert_chunks (c # cs) db =
     rbind (insert_chunk c db) (\<lambda>(db, c).
     rmap (\<lambda>(db, pks). (db, ch_id c # pks)) (insert_chunks cs db))"

text \<open>\<open>zip(children, vectors, strict=True)\<close>\<close>

definition zip_strict :: "'a list \<Rightarrow> 'b list \<Rightarrow> ('a \<times> 'b) list res" where
  "zip_strict xs ys =
     (if length xs = length ys then Inr (zip xs ys)
      else Inl (ValueError (if length ys < length xs
        then asc ''zip() argument 2 is shorter than argument 1''
        else asc ''zip() argument 2 is longer than argument 1'')))"

text \<open>The children with the position of their parent, which stands for its identity.\<close>

definition children_of ::
  "parent_child_chunks list \<Rightarrow> ((nat \<times> parent_child_chunks) \<times> ustr) list" where
  "children_of parents =
     concat (map (\<lambda>(i, p). map (\<lambda>c. ((i, p), c)) (pc_children p)) (enumerate 0 parents))"

definition index_content ::
  "deps \<Rightarrow> rag_settings \<Rightarrow> int \<Rightarrow> document \<Rightarrow> bytes \<Rightarrow> rag_db \<Rightarrow> (rag_db \<times> document) res" where
  "index_content D s now d content db =
     rbind (parse_document (dep_readers D) (RAG_PDF_LIMITS s) (doc_filename d) content) (\<lambda>text.
     let parents = split_parent_child_text text (RAG_CHUNK_SIZE s) (RAG_CHUNK_OVERLAP s);
         children = children_of parents;
         contextualized = map (\<lambda>((i, p), child).
           contextualize_chunk (doc_filename d) (pc_heading_path p) child) children in
     if parents = [] then Inl (ValueError msg_no_body)
     else
       rbind (embed_texts_in_batches (dep_embed D) contextualized (RAG_EMBEDDING_BATCH_SIZE s))
         (\<lambda>vectors.
       rbind (insert_chunks (map (\<lambda>(i, p). parent_chunk D d i p) (enumerate 1 parents))
           (delete_chunks_of (doc_id d) db)) (\<lambda>(db, parent_ids).
       rbind (zip_strict (zip children contextualized) vectors) (\<lambda>rows.
       rbind (insert_chunks (map (\<lambda>(index, (((i, p), piece), ctx), vector).
           child_chunk D d (parent_ids ! i) p index piece ctx vector) (enumerate 0 rows)) db)
         (\<lambda>(db, _).
       let d' = d\<lparr>doc_parsed_content := Some text, doc_chunk_count := int (length children),
             doc_status := READY, doc_error_message := None\<rparr> in
       Inr (save_document now d d' db, d'))))))"

definition claim_index ::
  "int \<Rightarrow> int \<Rightarrow> int option \<Rightarrow> rag_db \<Rightarrow> rag_db \<times> ustr \<times> int option" where
  "claim_index now document_id index_version db =
     (case get_live document_id db of
        None \<Rightarrow> (db, asc ''document_not_found'', None)
      | Some d \<Rightarrow>
          let effective = doc_index_version d in
          if index_version \<noteq> None \<and> index_version \<noteq> Some effective
          then (db, asc ''stale_index_request'', Some effective)
          else case doc_status d of
            READY \<Rightarrow> (db, asc ''already_ready'', Some effective)
          | PROCESSING \<Rightarrow> (db, asc ''already_processing'', Some effective)
          | DELETING \<Rightarrow> (db, asc ''delete_requested'', Some effective)
          | FAILED \<Rightarrow> (db, asc ''index_failed'', Some effective)
          | PENDING \<Rightarrow>
              (save_document now d (d\<lparr>doc_status := PROCESSING, doc_error_message := None\<rparr>) db,
               asc ''claimed'', Some effective))"

text \<open>
  The column is a \<open>String\<close>, so the status of a row that was just loaded is a plain \<open>str\<close>: equal to
  the members of the enumeration, but without their \<open>value\<close>. The report for a document that is no
  longer PROCESSING therefore ends in an \<open>AttributeError\<close>.
\<close>

definition index_claimed_document ::
  "deps \<Rightarrow> rag_settings \<Rightarrow> int \<Rightarrow> int \<Rightarrow> int \<Rightarrow> object_store \<Rightarrow> rag_db \<Rightarrow> (rag_db \<times> ustr) res" where
  "index_claimed_document D s now document_id index_version store db =
     (case get_live document_id db of
        None \<Rightarrow> Inr (db, asc ''document_not_found'')
      | Some d \<Rightarrow>
          if doc_index_version d \<noteq> index_version then Inr (db, asc ''stale_index_request'')
          else if doc_status d \<noteq> PROCESSING then Inl (OtherError (asc ''AttributeError''))
          else
            rbind (storage_get (doc_storage_key d) store) (\<lambda>content.
            rmap (\<lambda>(db, d'). (db, status_value (doc_status d')))
              (index_content D s now d content db)))"

definition mark_index_failure ::
  "int \<Rightarrow> int \<Rightarrow> int \<Rightarrow> document_status \<Rightarrow> ustr \<Rightarrow> rag_db \<Rightarrow> (rag_db \<times> bool) res" where
  "mark_index_failure now document_id index_version status error_message db =
     (if status \<noteq> PENDING \<and> status \<noteq> FAILED then Inl (ValueError msg_index_status)
      else case get_live document_id db of
        None \<Rightarrow> Inr (db, False)
      | Some d \<Rightarrow>
          if doc_index_version d \<noteq> index_version then Inr (db, False)
          else if doc_status d = READY \<or> doc_status d = DELETING then Inr (db, False)
          else Inr (save_document now d
            (d\<lparr>doc_status := status, doc_error_message := Some (take 512 error_message)\<rparr>) db, True))"

fun recover_documents :: "int \<Rightarrow> document list \<Rightarrow> rag_db \<Rightarrow> rag_db" where
  "recover_documents now [] db = db"
| "recover_documents now (d # ds) db =
     recover_documents now ds (save_document now d
       (d\<lparr>doc_status := PENDING, doc_error_message := Some msg_stale_requeued,
          doc_updated_time := Some now\<rparr>) db)"

definition recover_stale_indexes ::
  "int \<Rightarrow> int \<Rightarrow> nat \<Rightarrow> rag_db \<Rightarrow> rag_db \<times> (int \<times> int) list" where
  "recover_stale_indexes now stale_before limit db =
     (let documents = get_stale_index_documents stale_before limit db in
      (recover_documents now documents db,
       map (\<lambda>d. (doc_id d, doc_index_version d)) documents))"

definition get_deleting_document_ids :: "rag_db \<Rightarrow> int list" where
  "get_deleting_document_ids db = get_ids_by_status DELETING db"

section \<open>Reading, retry and deletion\<close>

definition doc_get :: "int \<Rightarrow> int \<Rightarrow> int \<Rightarrow> bool \<Rightarrow> bool \<Rightarrow> rag_db \<Rightarrow> document res" where
  "doc_get knowledge_base_id pk user_id is_admin write db =
     rbind (kb_get knowledge_base_id user_id is_admin write db) (\<lambda>_.
       case get_in_kb pk knowledge_base_id db of
         None \<Rightarrow> Inl (NotFoundError msg_doc_not_found)
       | Some data \<Rightarrow> Inr data)"

definition doc_get_list :: "int \<Rightarrow> int \<Rightarrow> bool \<Rightarrow> rag_db \<Rightarrow> document list res" where
  "doc_get_list knowledge_base_id user_id is_admin db =
     rmap (\<lambda>_. get_documents knowledge_base_id db) (kb_get knowledge_base_id user_id is_admin False db)"

definition doc_get_chunks :: "int \<Rightarrow> int \<Rightarrow> int \<Rightarrow> bool \<Rightarrow> rag_db \<Rightarrow> chunk list res" where
  "doc_get_chunks knowledge_base_id pk user_id is_admin db =
     rmap (\<lambda>_. get_chunk_list pk db) (doc_get knowledge_base_id pk user_id is_admin False db)"

text \<open>The row is read without a lock; \<open>Races\<close> shows what may come before the writes.\<close>

definition doc_retry ::
  "deps \<Rightarrow> rag_settings \<Rightarrow> int \<Rightarrow> int \<Rightarrow> int \<Rightarrow> int \<Rightarrow> bool \<Rightarrow> rag_db \<Rightarrow> (rag_db \<times> document) res" where
  "doc_retry D s now knowledge_base_id pk user_id is_admin db =
     rbind (doc_get knowledge_base_id pk user_id is_admin True db) (\<lambda>data.
     rbind (get_or_create_index_profile (sha256_text D) (index_settings.truncate s) db)
       (\<lambda>(db, profile).
     let data' = data\<lparr>doc_status := PENDING, doc_error_message := None,
           doc_index_version := doc_index_version data + 1,
           doc_index_profile_id := Some (ip_id profile)\<rparr> in
     rmap (\<lambda>(db, _). (db, touched now data data'))
       (enqueue_document_index (doc_id data') (doc_index_version data')
         (save_document now data data' db))))"

definition doc_delete :: "int \<Rightarrow> int \<Rightarrow> int \<Rightarrow> int \<Rightarrow> bool \<Rightarrow> rag_db \<Rightarrow> rag_db res" where
  "doc_delete now knowledge_base_id pk user_id is_admin db =
     rbind (doc_get knowledge_base_id pk user_id is_admin True db) (\<lambda>data.
     rmap fst (enqueue_document_delete (doc_id data)
       (save_document now data (data\<lparr>doc_status := DELETING\<rparr>) db)))"

end
