(* ===== verification/Tasks.thy ===== *)
theory Tasks
  imports Documents
begin

text \<open>
  \<open>backend/app/task/tasks/rag/tasks.py\<close>: the Celery tasks. A task reads its time once; what the
  broker and the file system answer is a parameter of the step that talks to them.
\<close>

text \<open>A message on the broker: the arguments of the call, and the retries so far.\<close>

datatype task = IndexTask int "int option" nat | DeleteTask int nat

datatype task_outcome = Returned ustr | Retried int task | Raised exc

section \<open>Dispatching events\<close>

definition json_field :: "ustr \<Rightarrow> payload \<Rightarrow> int res" where
  "json_field k p = (case map_of p k of None \<Rightarrow> Inl KeyError | Some v \<Rightarrow> Inr v)"

text \<open>The call \<open>_dispatch_event\<close> makes for an event.\<close>

definition event_task :: "outbox_event \<Rightarrow> task res" where
  "event_task event =
     (case ev_payload event of
        None \<Rightarrow> Inl (ValueError (asc ''Expecting value''))
      | Some payload \<Rightarrow>
          if ev_type event = INDEX_DOCUMENT_EVENT then
            rbind (json_field (asc ''document_id'') payload) (\<lambda>d.
            rmap (\<lambda>v. IndexTask d (Some v) 0) (json_field (asc ''index_version'') payload))
          else if ev_type event = DELETE_DOCUMENT_EVENT then
            rmap (\<lambda>d. DeleteTask d 0) (json_field (asc ''document_id'') payload)
          else Inl (ValueError (msg_event_type_pre @ ev_type event)))"

text \<open>\<open>publish t\<close> is the exception \<open>delay\<close> raises, if any.\<close>

definition dispatch_event ::
  "(task \<Rightarrow> exc option) \<Rightarrow> int \<Rightarrow> int \<Rightarrow> outbox_event \<Rightarrow> outbox_event \<times> task list" where
  "dispatch_event publish now max_attempts event =
     (case rbind (event_task event)
         (\<lambda>t. case publish t of None \<Rightarrow> Inr t | Some e \<Rightarrow> Inl e) of
        Inr t \<Rightarrow> (mark_dispatched now event, [t])
      | Inl e \<Rightarrow> (mark_failed e max_attempts event, []))"

definition dispatch_outbox ::
  "(task \<Rightarrow> exc option) \<Rightarrow> rag_settings \<Rightarrow> int \<Rightarrow> nat \<Rightarrow> rag_db \<Rightarrow> rag_db \<times> task list \<times> ustr" where
  "dispatch_outbox publish s now limit db =
     (let results = map (dispatch_event publish now (RAG_OUTBOX_MAX_DISPATCH_ATTEMPTS s))
            (claim_pending_events limit db);
          events = map fst results in
      (fold save_event events db, concat (map snd results),
       asc ''dispatched='' @
         str_nat (length (filter (\<lambda>e. ev_status e = Outbox_DISPATCHED) events))))"

section \<open>The index task\<close>

text \<open>
  The part after an exception of the second transaction. \<open>index_version\<close> is the argument of the
  task, which a retry passes on; \<open>effective\<close> is the version it claimed.
\<close>

definition index_failure ::
  "rag_settings \<Rightarrow> int \<Rightarrow> int \<Rightarrow> int option \<Rightarrow> int \<Rightarrow> nat \<Rightarrow> exc \<Rightarrow> rag_db \<Rightarrow> rag_db \<times> task_outcome" where
  "index_failure s now document_id index_version effective retries e db =
     (let retryable = is_retryable_index_error e;
          should_retry = retryable \<and> int retries < RAG_INDEX_MAX_RETRIES s;
          failure_status = (if should_retry then PENDING else FAILED) in
      case mark_index_failure now document_id effective failure_status (sanitize_index_error e) db of
        Inl e' \<Rightarrow> (db, Raised e')
      | Inr (db, _) \<Rightarrow>
          (db,
           if should_retry then
             (case index_retry_countdown (int retries) (RAG_INDEX_RETRY_BACKOFF_MAX_SECONDS s) of
                Inl e' \<Rightarrow> Raised e'
              | Inr countdown \<Rightarrow>
                  Retried countdown (IndexTask document_id index_version (retries + 1)))
           else if retryable then Raised e
           else Returned (status_value FAILED)))"

text \<open>The whole task when nothing runs between its transactions.\<close>

definition index_document ::
  "deps \<Rightarrow> rag_settings \<Rightarrow> int \<Rightarrow> int \<Rightarrow> int option \<Rightarrow> nat \<Rightarrow> object_store \<Rightarrow> rag_db
    \<Rightarrow> rag_db \<times> task_outcome" where
  "index_document D s now document_id index_version retries store db =
     (case claim_index now document_id index_version db of
        (db, claim_result, effective_version) \<Rightarrow>
          case effective_version of
            None \<Rightarrow> (db, Returned claim_result)
          | Some effective \<Rightarrow>
              if claim_result \<noteq> asc ''claimed'' then (db, Returned claim_result)
              else case index_claimed_document D s now document_id effective store db of
                Inr (db, status) \<Rightarrow> (db, Returned status)
              | Inl e \<Rightarrow> index_failure s now document_id index_version effective retries e db)"

section \<open>The delete task\<close>

text \<open>
  What may go wrong: the removal of the file raises its exception, or the file is gone and a statement, the commit or the
  worker itself fails, which rolls the transaction back.
\<close>

datatype delete_fault = Unlink_fails exc | Commit_fails exc

definition delete_document ::
  "delete_fault option \<Rightarrow> int \<Rightarrow> object_store \<Rightarrow> rag_db \<Rightarrow> object_store \<times> (rag_db \<times> ustr) res" where
  "delete_document fault document_id store db =
     (case get_live document_id db of
        None \<Rightarrow> (store, Inr (db, asc ''document_not_found''))
      | Some d \<Rightarrow>
          if doc_status d \<noteq> DELETING then (store, Inr (db, asc ''delete_not_requested''))
          else case fault of
            Some (Unlink_fails e) \<Rightarrow> (store, Inl e)
          | Some (Commit_fails e) \<Rightarrow> (storage_delete (doc_storage_key d) store, Inl e)
          | None \<Rightarrow>
              (storage_delete (doc_storage_key d) store,
               Inr (delete_document_row (doc_id d) (delete_chunks_of (doc_id d) db),
                 asc ''deleted'')))"

text \<open>\<open>autoretry_for=(OSError,)\<close> with \<open>max_retries=3\<close>; after any other failure the message is lost.\<close>

definition delete_retry :: "exc \<Rightarrow> int \<Rightarrow> nat \<Rightarrow> task list" where
  "delete_retry e document_id retries =
     (if is_os_error e \<and> retries < 3 then [DeleteTask document_id (retries + 1)] else [])"

section \<open>The repair task\<close>

definition repair_stuck_document ::
  "rag_settings \<Rightarrow> int \<Rightarrow> rag_db \<Rightarrow> rag_db \<times> task list \<times> ustr" where
  "repair_stuck_document s now db =
     (case recover_stale_indexes now (now - RAG_INDEX_STALE_SECONDS s) 100 db of
        (db, recovered) \<Rightarrow>
          let deleting = get_deleting_document_ids db in
          (db,
           map (\<lambda>(d, v). IndexTask d (Some v) 0) recovered @ map (\<lambda>d. DeleteTask d 0) deleting,
           asc ''requeued_indexes='' @ str_nat (length recovered) @ asc '',requeued_deletions='' @
             str_nat (length deleting)))"

end
