(* ===== verification/Lifecycle.thy ===== *)
theory Lifecycle
  imports Tasks
begin

text \<open>
  The RAG service as a state machine: requests of users, dispatchers, workers and the repair task
  act in any order on the database, the object store and the broker. A request or a task
  transaction is one step. An index task has two transactions, so other steps may run while a
  worker is between them; a worker may also stop at any moment, and its message is then delivered
  again (\<open>acks_late\<close>, \<open>reject_on_worker_lost\<close>).
\<close>

section \<open>States and steps\<close>

text \<open>
  A worker that has claimed a document: its id, the version it claimed, and the argument and the
  retries of its task; \<open>Failing\<close> after its second transaction ended in an exception.
\<close>

datatype worker =
    Indexing int int "int option" nat
  | Failing int int "int option" nat exc

record world =
  w_db :: rag_db
  w_store :: object_store
  w_queue :: "task list"
  w_workers :: "worker list"

text \<open>The caller of a request: \<open>request.user.id\<close> and \<open>request.user.is_superuser\<close>.\<close>

record caller =
  user_id :: int
  is_superuser :: bool

text \<open>
  The steps. A step carries what it reads from its surroundings: the time, the request, the
  answers of the broker (\<open>publish\<close>), of the embedding provider (\<open>emb\<close>), what goes wrong in a deletion
  (\<open>fault\<close>), and which message or worker it takes. \<open>DispatchLost\<close> is a dispatcher that is stopped
  after it published and before it committed.
\<close>

datatype action =
    CreateKb caller create_kb_param
  | UpdateKb caller int update_kb_param
  | DeleteKb int caller int
  | Upload int caller int ustr bytes "ustr option"
  | Retry int caller int int
  | Delete int caller int int
  | Dispatch "task \<Rightarrow> exc option" int nat
  | DispatchLost "task \<Rightarrow> exc option" int nat
  | StartTask nat int "delete_fault option"
  | IndexStep nat int "ustr list \<Rightarrow> embedding list res"
  | FailStep nat int
  | CrashWorker nat
  | Repair int nat

definition drop_nth :: "nat \<Rightarrow> 'a list \<Rightarrow> 'a list" where
  "drop_nth n xs = take n xs @ drop (Suc n) xs"

text \<open>A transaction commits its database, or leaves the old one.\<close>

definition commit :: "(rag_db \<times> 'a) res \<Rightarrow> world \<Rightarrow> world" where
  "commit r w = (case r of Inl e \<Rightarrow> w | Inr (db, _) \<Rightarrow> w\<lparr>w_db := db\<rparr>)"

definition start_task :: "deps \<Rightarrow> rag_settings \<Rightarrow> int \<Rightarrow> delete_fault option \<Rightarrow> task \<Rightarrow> world \<Rightarrow> world" where
  "start_task D s now fault t w =
     (case t of
        DeleteTask d retries \<Rightarrow>
          (case delete_document fault d (w_store w) (w_db w) of
             (store, Inr (db, _)) \<Rightarrow> w\<lparr>w_db := db, w_store := store\<rparr>
           | (store, Inl e) \<Rightarrow>
               w\<lparr>w_store := store, w_queue := w_queue w @ delete_retry e d retries\<rparr>)
      | IndexTask d v retries \<Rightarrow>
          (case claim_index now d v (w_db w) of
             (db, claim_result, effective) \<Rightarrow>
               (case effective of
                  Some eff \<Rightarrow>
                    if claim_result = asc ''claimed''
                    then w\<lparr>w_db := db, w_workers := w_workers w @ [Indexing d eff v retries]\<rparr>
                    else w\<lparr>w_db := db\<rparr>
                | None \<Rightarrow> w\<lparr>w_db := db\<rparr>)))"

definition requeue :: "task_outcome \<Rightarrow> task list" where
  "requeue r = (case r of Retried _ t \<Rightarrow> [t] | _ \<Rightarrow> [])"

fun perform :: "deps \<Rightarrow> rag_settings \<Rightarrow> action \<Rightarrow> world \<Rightarrow> world" where
  "perform D s (CreateKb u obj) w = commit (kb_create (user_id u) obj (w_db w)) w"
| "perform D s (UpdateKb u kb obj) w =
     commit (kb_update kb (user_id u) (is_superuser u) obj (w_db w)) w"
| "perform D s (DeleteKb now u kb) w =
     commit (rmap (\<lambda>db. (db, ())) (kb_delete now kb (user_id u) (is_superuser u) (w_db w))) w"
| "perform D s (Upload now u kb filename content mime) w =
     (case doc_create D s now kb (user_id u) (is_superuser u) filename content mime (w_db w)
         (w_store w) of
        (store, r) \<Rightarrow> commit r (w\<lparr>w_store := store\<rparr>))"
| "perform D s (Retry now u kb d) w =
     commit (doc_retry D s now kb d (user_id u) (is_superuser u) (w_db w)) w"
| "perform D s (Delete now u kb d) w =
     commit (rmap (\<lambda>db. (db, ())) (doc_delete now kb d (user_id u) (is_superuser u) (w_db w))) w"
| "perform D s (Dispatch publish now limit) w =
     (case dispatch_outbox publish s now limit (w_db w) of
        (db, tasks, _) \<Rightarrow> w\<lparr>w_db := db, w_queue := w_queue w @ tasks\<rparr>)"
| "perform D s (DispatchLost publish now limit) w =
     (case dispatch_outbox publish s now limit (w_db w) of
        (db, tasks, _) \<Rightarrow> w\<lparr>w_queue := w_queue w @ tasks\<rparr>)"
| "perform D s (StartTask n now fault) w =
     (if n < length (w_queue w)
      then start_task D s now fault (w_queue w ! n) (w\<lparr>w_queue := drop_nth n (w_queue w)\<rparr>)
      else w)"
| "perform D s (IndexStep n now emb) w =
     (if n < length (w_workers w) then
        (case w_workers w ! n of
           Indexing d eff v retries \<Rightarrow>
             (case index_claimed_document (D\<lparr>dep_embed := emb\<rparr>) s now d eff (w_store w) (w_db w) of
                Inr (db, _) \<Rightarrow> w\<lparr>w_db := db, w_workers := drop_nth n (w_workers w)\<rparr>
              | Inl e \<Rightarrow> w\<lparr>w_workers := (w_workers w)[n := Failing d eff v retries e]\<rparr>)
         | Failing _ _ _ _ _ \<Rightarrow> w)
      else w)"
| "perform D s (FailStep n now) w =
     (if n < length (w_workers w) then
        (case w_workers w ! n of
           Failing d eff v retries e \<Rightarrow>
             (case index_failure s now d v eff retries e (w_db w) of
                (db, outcome) \<Rightarrow>
                  w\<lparr>w_db := db, w_workers := drop_nth n (w_workers w),
                    w_queue := w_queue w @ requeue outcome\<rparr>)
         | Indexing _ _ _ _ \<Rightarrow> w)
      else w)"
| "perform D s (CrashWorker n) w =
     (if n < length (w_workers w) then
        (case w_workers w ! n of
           Indexing d eff v retries \<Rightarrow>
             w\<lparr>w_workers := drop_nth n (w_workers w), w_queue := w_queue w @ [IndexTask d v retries]\<rparr>
         | Failing d eff v retries e \<Rightarrow>
             w\<lparr>w_workers := drop_nth n (w_workers w), w_queue := w_queue w @ [IndexTask d v retries]\<rparr>)
      else w)"
| "perform D s (Repair now sent) w =
     (case repair_stuck_document s now (w_db w) of
        (db, tasks, _) \<Rightarrow> w\<lparr>w_db := db, w_queue := w_queue w @ take sent tasks\<rparr>)"

definition init_world :: world where
  "init_world = \<lparr>w_db = empty_db, w_store = [], w_queue = [], w_workers = []\<rparr>"

inductive reachable :: "deps \<Rightarrow> rag_settings \<Rightarrow> world \<Rightarrow> bool" for D s where
  initial: "reachable D s init_world"
| step: "reachable D s w \<Longrightarrow> reachable D s (perform D s a w)"

end
