(* ===== verification/Invariants.thy ===== *)
theory Invariants
  imports Lifecycle
begin

text \<open>
  What every reachable database satisfies, and the effect of each operation on it.
\<close>

section \<open>Effects of the primitive operations\<close>

lemma save_document_frame [simp]:
  "t_kbs (save_document now d d' db) = t_kbs db"
  "t_chunks (save_document now d d' db) = t_chunks db"
  "t_events (save_document now d d' db) = t_events db"
  "t_profiles (save_document now d d' db) = t_profiles db"
  "next_document (save_document now d d' db) = next_document db"
  "next_event (save_document now d d' db) = next_event db"
  "next_kb (save_document now d d' db) = next_kb db"
  by (simp_all add: save_document_def)

text \<open>What of a document no operation changes, and what an update may change besides.\<close>

definition same_identity :: "document \<Rightarrow> document \<Rightarrow> bool" where
  "same_identity d d' \<longleftrightarrow> doc_id d' = doc_id d \<and> doc_kb_id d' = doc_kb_id d
     \<and> doc_storage_key d' = doc_storage_key d \<and> doc_content_hash d' = doc_content_hash d
     \<and> doc_file_type d' = doc_file_type d \<and> doc_deleted d' = doc_deleted d"

lemma touched_sel [simp]:
  "doc_id (touched now d d') = doc_id d'" "doc_kb_id (touched now d d') = doc_kb_id d'"
  "doc_storage_key (touched now d d') = doc_storage_key d'"
  "doc_content_hash (touched now d d') = doc_content_hash d'"
  "doc_file_type (touched now d d') = doc_file_type d'"
  "doc_deleted (touched now d d') = doc_deleted d'" "doc_status (touched now d d') = doc_status d'"
  "doc_index_version (touched now d d') = doc_index_version d'"
  "doc_chunk_count (touched now d d') = doc_chunk_count d'"
  by (simp_all add: touched_def)

lemma same_identity_touched [simp]: "same_identity d (touched now d d') \<longleftrightarrow> same_identity d d'"
  by (simp add: same_identity_def)

lemma same_identity_refl [simp]: "same_identity d d"
  by (simp add: same_identity_def)

lemma mem_replace_row:
  assumes "distinct (map key rows)" "r \<in> set rows" "key r' = key r"
  shows "x \<in> set (replace_row key r' rows) \<longleftrightarrow> x = r' \<or> x \<in> set rows \<and> x \<noteq> r"
  using assms unfolding replace_row_def
  by (auto simp: distinct_map inj_on_def image_iff)

lemma map_key_replace_row [simp]: "map key (replace_row key r' rows) = map key rows"
  by (auto simp: replace_row_def)

lemma mem_save_document:
  assumes "distinct (map doc_id (t_documents db))" "d \<in> set (t_documents db)" "doc_id d' = doc_id d"
  shows "x \<in> set (t_documents (save_document now d d' db)) \<longleftrightarrow>
    x = touched now d d' \<or> x \<in> set (t_documents db) \<and> x \<noteq> d"
  using mem_replace_row [OF assms(1,2), of "touched now d d'"] assms(3)
  by (simp add: save_document_def)

lemma ids_save_document [simp]:
  "map doc_id (t_documents (save_document now d d' db)) = map doc_id (t_documents db)"
  by (simp add: save_document_def)

lemma get_live_SomeD: "get_live pk db = Some d \<Longrightarrow> d \<in> set (t_documents db) \<and> doc_id d = pk \<and> doc_deleted d = 0"
  by (auto simp: get_live_def find_Some_iff)

lemma get_in_kb_SomeD:
  "get_in_kb pk kb db = Some d \<Longrightarrow>
   d \<in> set (t_documents db) \<and> doc_id d = pk \<and> doc_kb_id d = kb \<and> doc_deleted d = 0"
  by (auto simp: get_in_kb_def find_Some_iff)

lemma get_authorized_SomeD:
  "get_authorized pk u adm wr db = Some kb \<Longrightarrow>
   kb \<in> set (t_kbs db) \<and> kb_id kb = pk \<and> kb_deleted kb = 0 \<and> kb_visible u adm wr kb"
  by (auto simp: get_authorized_def find_Some_iff)

lemma kb_get_InrD:
  "kb_get pk u adm wr db = Inr kb \<Longrightarrow>
   kb \<in> set (t_kbs db) \<and> kb_id kb = pk \<and> kb_deleted kb = 0 \<and> kb_visible u adm wr kb"
  by (auto simp: kb_get_def dest: get_authorized_SomeD split: option.splits)

lemma doc_get_InrD:
  "doc_get kb pk u adm wr db = Inr d \<Longrightarrow>
   d \<in> set (t_documents db) \<and> doc_id d = pk \<and> doc_kb_id d = kb \<and> doc_deleted d = 0
   \<and> (\<exists>k \<in> set (t_kbs db). kb_id k = kb \<and> kb_deleted k = 0 \<and> kb_visible u adm wr k)"
  by (auto simp: doc_get_def res_iffs dest!: kb_get_InrD get_in_kb_SomeD split: option.splits)

section \<open>Events\<close>

definition index_event :: "int \<Rightarrow> int \<Rightarrow> outbox_event \<Rightarrow> bool" where
  "index_event d v e \<longleftrightarrow> ev_type e = INDEX_DOCUMENT_EVENT \<and> ev_aggregate_id e = d
     \<and> ev_dedupe_key e = str_int d @ [58] @ str_int v
     \<and> ev_payload e = Some [(asc ''document_id'', d), (asc ''index_version'', v)]"

definition delete_event :: "int \<Rightarrow> outbox_event \<Rightarrow> bool" where
  "delete_event d e \<longleftrightarrow> ev_type e = DELETE_DOCUMENT_EVENT \<and> ev_aggregate_id e = d
     \<and> ev_dedupe_key e = str_int d \<and> ev_payload e = Some [(asc ''document_id'', d)]"

text \<open>How often an event was tried agrees with its status.\<close>

definition attempts_ok :: "int \<Rightarrow> outbox_event \<Rightarrow> bool" where
  "attempts_ok max_attempts e \<longleftrightarrow>
     (case ev_status e of
        Outbox_PENDING \<Rightarrow> ev_dispatch_attempts e = 0
      | Outbox_FAILED \<Rightarrow> 1 \<le> ev_dispatch_attempts e \<and> ev_dispatch_attempts e < max_attempts
      | Outbox_DEAD \<Rightarrow> ev_dispatch_attempts e = max 1 max_attempts
      | Outbox_DISPATCHED \<Rightarrow> 1 \<le> ev_dispatch_attempts e \<and> ev_dispatch_attempts e \<le> max 1 max_attempts)"

definition events_ok :: "int \<Rightarrow> rag_db \<Rightarrow> bool" where
  "events_ok max_attempts db \<longleftrightarrow> distinct (map ev_id (t_events db))
     \<and> (\<forall>e \<in> set (t_events db). ev_id e < next_event db
          \<and> ((\<exists>d v. index_event d v e) \<or> (\<exists>d. delete_event d e)) \<and> attempts_ok max_attempts e)"

lemma event_types_differ [simp]:
  "INDEX_DOCUMENT_EVENT \<noteq> DELETE_DOCUMENT_EVENT" "DELETE_DOCUMENT_EVENT \<noteq> INDEX_DOCUMENT_EVENT"
  by code_simp+

lemma index_event_inj: "index_event d v e \<Longrightarrow> index_event d' v' e \<Longrightarrow> d = d' \<and> v = v'"
  by (auto simp: index_event_def)

text \<open>
  Asking for an event never fails: it is there already, or it is inserted, and nothing else of the
  database changes.
\<close>

lemma enqueue_document_index_effect:
  assumes "events_ok m db"
  shows "\<exists>evs e n. enqueue_document_index d v db
      = Inr (db\<lparr>t_events := t_events db @ evs, next_event := n\<rparr>, e)
    \<and> events_ok m (db\<lparr>t_events := t_events db @ evs, next_event := n\<rparr>)
    \<and> (\<exists>e \<in> set (t_events db @ evs). index_event d v e) \<and> set evs \<subseteq> {e. index_event d v e}"
proof (cases "find_event INDEX_DOCUMENT_EVENT d (str_int d @ [58] @ str_int v) db")
  case None
  then have "\<not> list_ex (\<lambda>x. ev_type x = INDEX_DOCUMENT_EVENT \<and> ev_aggregate_id x = d
      \<and> ev_dedupe_key x = str_int d @ [58] @ str_int v) (t_events db)"
    by (auto simp: find_event_def find_None_iff list_ex_iff)
  with None assms show ?thesis
    by (fastforce simp: enqueue_document_index_def insert_event_def Let_def new_event_def
        events_ok_def index_event_def attempts_ok_def)
next
  case (Some e)
  then have e: "e \<in> set (t_events db)" "ev_type e = INDEX_DOCUMENT_EVENT" "ev_aggregate_id e = d"
    "ev_dedupe_key e = str_int d @ [58] @ str_int v"
    by (auto simp: find_event_def find_Some_iff)
  then have "index_event d v e"
    using assms by (auto simp: events_ok_def index_event_def delete_event_def str_int_inj)
  with Some e(1) assms show ?thesis
    by (intro exI [of _ "[]"] exI [of _ e] exI [of _ "next_event db"])
      (auto simp: enqueue_document_index_def)
qed

lemma enqueue_document_delete_effect:
  assumes "events_ok m db"
  shows "\<exists>evs e n. enqueue_document_delete d db
      = Inr (db\<lparr>t_events := t_events db @ evs, next_event := n\<rparr>, e)
    \<and> events_ok m (db\<lparr>t_events := t_events db @ evs, next_event := n\<rparr>)
    \<and> (\<exists>e \<in> set (t_events db @ evs). delete_event d e) \<and> set evs \<subseteq> {e. delete_event d e}"
proof (cases "find_event DELETE_DOCUMENT_EVENT d (str_int d) db")
  case None
  then have "\<not> list_ex (\<lambda>x. ev_type x = DELETE_DOCUMENT_EVENT \<and> ev_aggregate_id x = d
      \<and> ev_dedupe_key x = str_int d) (t_events db)"
    by (auto simp: find_event_def find_None_iff list_ex_iff)
  with None assms show ?thesis
    by (fastforce simp: enqueue_document_delete_def insert_event_def Let_def new_event_def
        events_ok_def delete_event_def attempts_ok_def)
next
  case (Some e)
  then have e: "e \<in> set (t_events db)" "ev_type e = DELETE_DOCUMENT_EVENT" "ev_aggregate_id e = d"
    "ev_dedupe_key e = str_int d"
    by (auto simp: find_event_def find_Some_iff)
  then have "delete_event d e"
    using assms by (auto simp: events_ok_def index_event_def delete_event_def)
  with Some e(1) assms show ?thesis
    by (intro exI [of _ "[]"] exI [of _ e] exI [of _ "next_event db"])
      (auto simp: enqueue_document_delete_def)
qed

section \<open>The invariant of the tables\<close>

definition docs_ok :: "rag_db \<Rightarrow> bool" where
  "docs_ok db \<longleftrightarrow> distinct (map doc_id (t_documents db))
     \<and> (\<forall>d \<in> set (t_documents db). doc_id d < next_document db \<and> doc_deleted d = 0)"

definition kbs_ok :: "rag_db \<Rightarrow> bool" where
  "kbs_ok db \<longleftrightarrow> distinct (map kb_id (t_kbs db)) \<and> 0 < next_kb db
     \<and> (\<forall>kb \<in> set (t_kbs db). 0 < kb_id kb \<and> kb_id kb < next_kb db
          \<and> (kb_deleted kb = 0 \<or> kb_deleted kb = kb_id kb))"

text \<open>
  A chunk belongs to a document that exists; to the current version of one that is READY; and every
  child chunk has its vector.
\<close>

definition chunk_of :: "document \<Rightarrow> chunk \<Rightarrow> bool" where
  "chunk_of d c \<longleftrightarrow> ch_document_id c = doc_id d \<and> ch_kb_id c = doc_kb_id d \<and> ch_deleted c = 0
     \<and> ch_index_version c \<le> doc_index_version d \<and> (ch_is_parent c \<or> ch_embedding c \<noteq> None)
     \<and> (doc_status d = READY \<longrightarrow> ch_index_version c = doc_index_version d)"

definition chunks_ok :: "rag_db \<Rightarrow> bool" where
  "chunks_ok db \<longleftrightarrow> (\<forall>c \<in> set (t_chunks db). \<exists>d \<in> set (t_documents db). chunk_of d c)"

definition children :: "int \<Rightarrow> rag_db \<Rightarrow> chunk list" where
  "children pk db = filter (\<lambda>c. ch_document_id c = pk \<and> \<not> ch_is_parent c) (t_chunks db)"

definition ready_ok :: "rag_db \<Rightarrow> bool" where
  "ready_ok db \<longleftrightarrow> (\<forall>d \<in> set (t_documents db). doc_status d = READY \<longrightarrow>
     int (length (children (doc_id d) db)) = doc_chunk_count d)"

text \<open>Every document has its knowledge base; the documents of a deleted one are DELETING.\<close>

definition homed_ok :: "rag_db \<Rightarrow> bool" where
  "homed_ok db \<longleftrightarrow> (\<forall>d \<in> set (t_documents db). \<exists>kb \<in> set (t_kbs db).
     kb_id kb = doc_kb_id d \<and> (kb_deleted kb \<noteq> 0 \<longrightarrow> doc_status d = DELETING))"

definition db_inv :: "rag_db \<Rightarrow> bool" where
  "db_inv db \<longleftrightarrow> docs_ok db \<and> kbs_ok db \<and> chunks_ok db \<and> ready_ok db \<and> homed_ok db"

lemma db_inv_events [simp]:
  "db_inv (db\<lparr>t_events := es, next_event := n\<rparr>) = db_inv db"
  "db_inv (db\<lparr>t_events := es\<rparr>) = db_inv db"
  by (simp_all add: db_inv_def docs_ok_def kbs_ok_def chunks_ok_def ready_ok_def homed_ok_def children_def)

lemma db_inv_profiles [simp]: "db_inv (db\<lparr>t_profiles := ps, next_profile := n\<rparr>) = db_inv db"
  by (simp add: db_inv_def docs_ok_def kbs_ok_def chunks_ok_def ready_ok_def homed_ok_def children_def)

lemma same_doc: "docs_ok db \<Longrightarrow> d \<in> set (t_documents db) \<Longrightarrow> x \<in> set (t_documents db)
    \<Longrightarrow> doc_id x = doc_id d \<Longrightarrow> x = d"
  by (auto simp: docs_ok_def distinct_map inj_on_def)

lemma same_kb: "kbs_ok db \<Longrightarrow> k \<in> set (t_kbs db) \<Longrightarrow> x \<in> set (t_kbs db)
    \<Longrightarrow> kb_id x = kb_id k \<Longrightarrow> x = k"
  by (auto simp: kbs_ok_def distinct_map inj_on_def)

lemma children_save_document [simp]: "children pk (save_document now d d' db) = children pk db"
  by (simp add: children_def)

lemma docs_ok_save:
  assumes "docs_ok db" "d \<in> set (t_documents db)" "same_identity d d'"
  shows "docs_ok (save_document now d d' db)"
  using assms mem_save_document [of db d d' _ now]
  by (auto simp: docs_ok_def same_identity_def)

text \<open>
  The lemma for every operation that writes one row of the documents: the row keeps its identity,
  does not become READY (or stays what it was), and respects a deleted knowledge base.
\<close>

lemma db_inv_save:
  assumes inv: "db_inv db" and d: "d \<in> set (t_documents db)" "same_identity d d'"
    and version: "doc_index_version d \<le> doc_index_version d'"
    and ready: "doc_status d' = READY \<Longrightarrow> doc_status d = READY
      \<and> doc_index_version d' = doc_index_version d \<and> doc_chunk_count d' = doc_chunk_count d"
    and homed: "doc_status d' = DELETING \<or> doc_status d \<noteq> DELETING
      \<or> (\<exists>kb \<in> set (t_kbs db). kb_id kb = doc_kb_id d \<and> kb_deleted kb = 0)"
  shows "db_inv (save_document now d d' db)"
proof -
  have ok: "docs_ok db" "kbs_ok db" "chunks_ok db" "ready_ok db" "homed_ok db"
    using inv by (simp_all add: db_inv_def)
  have ident: "doc_id d' = doc_id d" "doc_kb_id d' = doc_kb_id d" using d(2) by (simp_all add: same_identity_def)
  have mem: "x \<in> set (t_documents (save_document now d d' db)) \<longleftrightarrow>
      x = touched now d d' \<or> x \<in> set (t_documents db) \<and> x \<noteq> d" for x
    using mem_save_document [of db d d' x now] ok(1) d ident by (simp add: docs_ok_def)
  have "chunks_ok (save_document now d d' db)"
    unfolding chunks_ok_def
  proof
    fix c assume "c \<in> set (t_chunks (save_document now d d' db))"
    then obtain x where x: "x \<in> set (t_documents db)" "chunk_of x c"
      using ok(3) by (auto simp: chunks_ok_def)
    show "\<exists>x \<in> set (t_documents (save_document now d d' db)). chunk_of x c"
    proof (cases "x = d")
      case True
      then have "chunk_of (touched now d d') c"
        using x(2) version ready ident by (auto simp: chunk_of_def)
      then show ?thesis unfolding Bex_def mem by blast
    next
      case False then show ?thesis using x unfolding Bex_def mem by blast
    qed
  qed
  moreover have "ready_ok (save_document now d d' db)"
    using ok(4) d(1) ready ident by (auto simp: ready_ok_def Ball_def mem)
  moreover have "homed_ok (save_document now d d' db)"
    unfolding homed_ok_def
  proof
    fix x assume x: "x \<in> set (t_documents (save_document now d d' db))"
    obtain kb where kb: "kb \<in> set (t_kbs db)" "kb_id kb = doc_kb_id d"
      "kb_deleted kb \<noteq> 0 \<Longrightarrow> doc_status d = DELETING"
      using ok(5) d(1) by (auto simp: homed_ok_def)
    have "doc_status d' = DELETING" if "kb_deleted kb \<noteq> 0"
      using homed
    proof (elim disjE bexE conjE)
      fix k assume "k \<in> set (t_kbs db)" "kb_id k = doc_kb_id d" "kb_deleted k = 0"
      then show ?thesis using same_kb [OF ok(2) kb(1), of k] kb(2) that by simp
    qed (use kb(3) that in simp_all)
    then show "\<exists>k \<in> set (t_kbs (save_document now d d' db)). kb_id k = doc_kb_id x
        \<and> (kb_deleted k \<noteq> 0 \<longrightarrow> doc_status x = DELETING)"
      using x kb ok(5) ident by (cases "x = touched now d d'") (auto simp: mem homed_ok_def)
  qed
  ultimately show ?thesis
    using ok docs_ok_save [OF ok(1) d] by (simp add: db_inv_def kbs_ok_def)
qed

section \<open>Chunks of an index run\<close>

lemma insert_chunks_effect:
  "insert_chunks cs db = Inr (db', pks) \<Longrightarrow>
   \<exists>n. db' = db\<lparr>t_chunks := t_chunks db @ map2 (\<lambda>c i. c\<lparr>ch_id := i\<rparr>) cs pks, next_chunk := n\<rparr>
     \<and> length pks = length cs"
proof (induction cs arbitrary: db db' pks)
  case Nil
  then show ?case by (intro exI [of _ "next_chunk db'"]) auto
next
  case (Cons c cs)
  then obtain db1 c1 ids1 where 1: "insert_chunk c db = Inr (db1, c1)"
    "insert_chunks cs db1 = Inr (db', ids1)" "pks = ch_id c1 # ids1"
    by (auto simp: res_iffs)
  then have "db1 = db\<lparr>t_chunks := t_chunks db @ [c\<lparr>ch_id := next_chunk db\<rparr>], next_chunk := next_chunk db + 1\<rparr>"
    "c1 = c\<lparr>ch_id := next_chunk db\<rparr>"
    by (auto simp: insert_chunk_def Let_def split: if_splits)
  with Cons.IH [OF 1(2)] 1(3) show ?case by auto
qed

text \<open>
  A successful index run replaces the chunks of its document: parents first, then the children in
  their order; it touches no other chunk and no other document.
\<close>

lemma map2_ids:
  assumes "length pks = length cs" "\<And>c i. f (c\<lparr>ch_id := i\<rparr>) = f c"
  shows "map f (map2 (\<lambda>c i. c\<lparr>ch_id := i\<rparr>) cs pks) = map f cs"
  using assms by (auto simp: list_eq_iff_nth_eq)

lemma length_filter_second:
  "\<forall>x \<in> set xs. P x \<Longrightarrow> \<forall>y \<in> set ys. \<not> P y \<Longrightarrow> length (filter (\<lambda>x. \<not> P x) (xs @ ys)) = length ys"
  by (simp add: filter_id_conv [THEN iffD2] filter_empty_conv)

lemma index_content_effect:
  assumes "index_content D s now d content db = Inr (db', d')"
  shows "\<exists>new n tx. db' = save_document now d d'
        (db\<lparr>t_chunks := filter (\<lambda>c. ch_document_id c \<noteq> doc_id d) (t_chunks db) @ new, next_chunk := n\<rparr>)
    \<and> (\<forall>c \<in> set new. ch_document_id c = doc_id d \<and> ch_kb_id c = doc_kb_id d
          \<and> ch_index_version c = doc_index_version d \<and> ch_deleted c = 0
          \<and> (ch_is_parent c \<or> ch_embedding c \<noteq> None))
    \<and> int (length (filter (\<lambda>c. \<not> ch_is_parent c) new)) = doc_chunk_count d'
    \<and> (\<exists>k. d' = d\<lparr>doc_parsed_content := Some tx, doc_chunk_count := k, doc_status := READY,
          doc_error_message := None\<rparr>)"
proof -
  obtain tx vectors db1 ids1 rows db2 ids2 where
    tx: "parse_document (dep_readers D) (RAG_PDF_LIMITS s) (doc_filename d) content = Inr tx" and
    par: "insert_chunks (map (\<lambda>(i, p). parent_chunk D d i p)
        (enumerate 1 (split_parent_child_text tx (RAG_CHUNK_SIZE s) (RAG_CHUNK_OVERLAP s))))
        (delete_chunks_of (doc_id d) db) = Inr (db1, ids1)" and
    zip: "zip_strict (zip (children_of (split_parent_child_text tx (RAG_CHUNK_SIZE s) (RAG_CHUNK_OVERLAP s)))
        (map (\<lambda>((i, p), child). contextualize_chunk (doc_filename d) (pc_heading_path p) child)
          (children_of (split_parent_child_text tx (RAG_CHUNK_SIZE s) (RAG_CHUNK_OVERLAP s)))))
        vectors = Inr rows" and
    chd: "insert_chunks (map (\<lambda>(index, (((i, p), piece), ctx), vector).
        child_chunk D d (ids1 ! i) p index piece ctx vector) (enumerate 0 rows)) db1 = Inr (db2, ids2)" and
    d': "d' = d\<lparr>doc_parsed_content := Some tx, doc_chunk_count := int (length (children_of
        (split_parent_child_text tx (RAG_CHUNK_SIZE s) (RAG_CHUNK_OVERLAP s)))),
        doc_status := READY, doc_error_message := None\<rparr>" and
    db': "db' = save_document now d d' db2"
    using assms by (auto simp: index_content_def Let_def res_iffs split: if_splits)
  let ?ps = "map (\<lambda>(i, p). parent_chunk D d i p)
    (enumerate 1 (split_parent_child_text tx (RAG_CHUNK_SIZE s) (RAG_CHUNK_OVERLAP s)))"
  let ?cs = "map (\<lambda>(index, (((i, p), piece), ctx), vector).
    child_chunk D d (ids1 ! i) p index piece ctx vector) (enumerate 0 rows)"
  let ?new = "map2 (\<lambda>c i. c\<lparr>ch_id := i\<rparr>) ?ps ids1 @ map2 (\<lambda>c i. c\<lparr>ch_id := i\<rparr>) ?cs ids2"
  from insert_chunks_effect [OF par] obtain n1 where
    db1: "db1 = (delete_chunks_of (doc_id d) db)\<lparr>t_chunks := t_chunks (delete_chunks_of (doc_id d) db)
        @ map2 (\<lambda>c i. c\<lparr>ch_id := i\<rparr>) ?ps ids1, next_chunk := n1\<rparr>"
    and l1: "length ids1 = length ?ps"
    by auto
  from insert_chunks_effect [OF chd] obtain n2 where
    db2: "db2 = db1\<lparr>t_chunks := t_chunks db1 @ map2 (\<lambda>c i. c\<lparr>ch_id := i\<rparr>) ?cs ids2, next_chunk := n2\<rparr>"
    and l2: "length ids2 = length ?cs"
    by auto
  have "db2 = db\<lparr>t_chunks := filter (\<lambda>c. ch_document_id c \<noteq> doc_id d) (t_chunks db) @ ?new, next_chunk := n2\<rparr>"
    by (simp add: db1 db2 delete_chunks_of_def)
  moreover have "\<forall>c \<in> set ?new. ch_document_id c = doc_id d \<and> ch_kb_id c = doc_kb_id d
      \<and> ch_index_version c = doc_index_version d \<and> ch_deleted c = 0
      \<and> (ch_is_parent c \<or> ch_embedding c \<noteq> None)"
    by (fastforce dest!: set_zip_leftD simp: parent_chunk_def child_chunk_def split: prod.splits)
  moreover have "length (filter (\<lambda>c. \<not> ch_is_parent c) ?new) = length rows"
  proof -
    have "\<forall>c \<in> set (map2 (\<lambda>c i. c\<lparr>ch_id := i\<rparr>) ?ps ids1). ch_is_parent c"
      by (auto dest!: set_zip_leftD simp: parent_chunk_def)
    moreover have "\<forall>c \<in> set (map2 (\<lambda>c i. c\<lparr>ch_id := i\<rparr>) ?cs ids2). \<not> ch_is_parent c"
      by (fastforce dest!: set_zip_leftD simp: child_chunk_def split: prod.splits)
    ultimately have "length (filter (\<lambda>c. \<not> ch_is_parent c) ?new)
        = length (map2 (\<lambda>c i. c\<lparr>ch_id := i\<rparr>) ?cs ids2)"
      by (rule length_filter_second)
    then show ?thesis using l2 by simp
  qed
  moreover have "int (length rows) = doc_chunk_count d'"
    using zip by (auto simp: d' zip_strict_def split: if_splits)
  ultimately show ?thesis
    unfolding db' by (intro exI [of _ ?new] exI [of _ n2] exI [of _ tx]) (auto simp: d')
qed

lemma mem_save_document_chunks:
  "set (t_documents (save_document now d d' (db\<lparr>t_chunks := cs, next_chunk := n\<rparr>)))
   = set (t_documents (save_document now d d' db))"
  by (simp add: save_document_def)

lemma db_inv_index:
  assumes inv: "db_inv db" and d: "d \<in> set (t_documents db)" "doc_status d = PROCESSING"
    and run: "index_content D s now d content db = Inr (db', d')"
  shows "db_inv db' \<and> same_identity d d' \<and> doc_index_version d' = doc_index_version d \<and> doc_status d' = READY"
proof -
  have ok: "docs_ok db" "kbs_ok db" "chunks_ok db" "ready_ok db" "homed_ok db"
    using inv by (simp_all add: db_inv_def)
  obtain new n tx k where db': "db' = save_document now d d'
      (db\<lparr>t_chunks := filter (\<lambda>c. ch_document_id c \<noteq> doc_id d) (t_chunks db) @ new, next_chunk := n\<rparr>)"
    and new: "\<forall>c \<in> set new. ch_document_id c = doc_id d \<and> ch_kb_id c = doc_kb_id d
      \<and> ch_index_version c = doc_index_version d \<and> ch_deleted c = 0
      \<and> (ch_is_parent c \<or> ch_embedding c \<noteq> None)"
    and count: "int (length (filter (\<lambda>c. \<not> ch_is_parent c) new)) = doc_chunk_count d'"
    and d': "d' = d\<lparr>doc_parsed_content := Some tx, doc_chunk_count := k, doc_status := READY,
      doc_error_message := None\<rparr>"
    using index_content_effect [OF run] by blast
  have ident: "same_identity d d'" "doc_index_version d' = doc_index_version d" "doc_status d' = READY"
    "doc_id d' = doc_id d" "doc_kb_id d' = doc_kb_id d"
    by (simp_all add: d' same_identity_def)
  have mem: "x \<in> set (t_documents db') \<longleftrightarrow>
      x = touched now d d' \<or> x \<in> set (t_documents db) \<and> x \<noteq> d" for x
    using mem_save_document [of db d d' x now] ok(1) d ident
    by (simp add: db' mem_save_document_chunks docs_ok_def)
  have others: "doc_id x \<noteq> doc_id d" if "x \<in> set (t_documents db)" "x \<noteq> d" for x
    using same_doc [OF ok(1) d(1) that(1)] that(2) by auto
  have chunks: "t_chunks db' = filter (\<lambda>c. ch_document_id c \<noteq> doc_id d) (t_chunks db) @ new"
    by (simp add: db')
  have "docs_ok db'"
    using docs_ok_save [OF ok(1) d(1) ident(1), of now] by (simp add: db' docs_ok_def save_document_def)
  moreover have "chunks_ok db'"
    unfolding chunks_ok_def
  proof
    fix c assume "c \<in> set (t_chunks db')"
    then consider "c \<in> set new" | "c \<in> set (t_chunks db)" "ch_document_id c \<noteq> doc_id d"
      by (auto simp: chunks)
    then show "\<exists>x \<in> set (t_documents db'). chunk_of x c"
    proof cases
      case 1
      then have "chunk_of (touched now d d') c" using new ident by (simp add: chunk_of_def)
      then show ?thesis unfolding Bex_def mem by blast
    next
      case 2
      then obtain x where x: "x \<in> set (t_documents db)" "chunk_of x c"
        using ok(3) by (auto simp: chunks_ok_def)
      with 2(2) have "x \<noteq> d" by (auto simp: chunk_of_def)
      with x show ?thesis unfolding Bex_def mem by blast
    qed
  qed
  moreover have "ready_ok db'"
    unfolding ready_ok_def
  proof (intro ballI impI)
    fix x assume x: "x \<in> set (t_documents db')" "doc_status x = READY"
    have "filter (\<lambda>c. ch_document_id c = doc_id d \<and> \<not> ch_is_parent c) new = filter (\<lambda>c. \<not> ch_is_parent c) new"
      using new by (auto intro: filter_cong)
    then have here: "children (doc_id d) db' = filter (\<lambda>c. \<not> ch_is_parent c) new"
      by (auto simp: children_def chunks filter_empty_conv)
    have there: "children (doc_id x) db' = children (doc_id x) db" if "doc_id x \<noteq> doc_id d"
      using that new by (auto simp: children_def chunks filter_empty_conv intro: filter_cong)
    show "int (length (children (doc_id x) db')) = doc_chunk_count x"
    proof (cases "x = touched now d d'")
      case True then show ?thesis using here count ident by simp
    next
      case False
      then have "x \<in> set (t_documents db)" "x \<noteq> d" using x(1) mem by auto
      then show ?thesis using there others x(2) ok(4) by (simp add: ready_ok_def)
    qed
  qed
  moreover have "homed_ok db'"
    unfolding homed_ok_def
  proof
    fix x assume x: "x \<in> set (t_documents db')"
    have kbs: "t_kbs db' = t_kbs db" by (simp add: db')
    obtain y where y: "y \<in> set (t_documents db)" "doc_kb_id y = doc_kb_id x"
      "doc_status y = DELETING \<Longrightarrow> doc_status x = DELETING"
    proof (cases "x = touched now d d'")
      case True then show ?thesis using that [of d] d ident by simp
    next
      case False then show ?thesis using that [of x] x mem by simp
    qed
    then obtain kb where "kb \<in> set (t_kbs db)" "kb_id kb = doc_kb_id x"
      "kb_deleted kb \<noteq> 0 \<Longrightarrow> doc_status y = DELETING"
      using bspec [OF ok(5) [unfolded homed_ok_def] y(1)] y(2) by auto
    then show "\<exists>kb \<in> set (t_kbs db'). kb_id kb = doc_kb_id x
        \<and> (kb_deleted kb \<noteq> 0 \<longrightarrow> doc_status x = DELETING)"
      using y(3) unfolding kbs by blast
  qed
  moreover have "kbs_ok db'" using ok(2) by (simp add: db' kbs_ok_def)
  ultimately show ?thesis using ident by (simp add: db_inv_def)
qed

section \<open>Requests\<close>

text \<open>
  Every document has an event for its current version, and one that is DELETING an event for its
  deletion; no event names a version its document has not reached.
\<close>

definition requested_ok :: "rag_db \<Rightarrow> bool" where
  "requested_ok db \<longleftrightarrow> (\<forall>d \<in> set (t_documents db).
     (\<exists>e \<in> set (t_events db). index_event (doc_id d) (doc_index_version d) e)
     \<and> (doc_status d = DELETING \<longrightarrow> (\<exists>e \<in> set (t_events db). delete_event (doc_id d) e)))"

definition not_ahead :: "rag_db \<Rightarrow> int \<Rightarrow> int \<Rightarrow> bool" where
  "not_ahead db pk v \<longleftrightarrow> pk < next_document db
     \<and> (\<forall>d \<in> set (t_documents db). doc_id d = pk \<longrightarrow> v \<le> doc_index_version d)"

definition versions_ok :: "rag_db \<Rightarrow> bool" where
  "versions_ok db \<longleftrightarrow> (\<forall>e \<in> set (t_events db). \<forall>pk v. index_event pk v e \<longrightarrow> not_ahead db pk v)"

definition tables_ok :: "int \<Rightarrow> rag_db \<Rightarrow> bool" where
  "tables_ok m db \<longleftrightarrow> db_inv db \<and> events_ok m db \<and> requested_ok db \<and> versions_ok db"

lemma events_ok_frame [simp]:
  "events_ok m (save_document now d d' db) = events_ok m db"
  "events_ok m (db\<lparr>t_profiles := ps, next_profile := np\<rparr>) = events_ok m db"
  by (simp_all add: events_ok_def)

lemma save_document_events:
  "save_document now d d' (db\<lparr>t_events := es, next_event := n\<rparr>)
   = (save_document now d d' db)\<lparr>t_events := es, next_event := n\<rparr>"
  by (simp add: save_document_def)

lemma tables_ok_save_events:
  assumes inv: "tables_ok m db" and d: "d \<in> set (t_documents db)" "same_identity d d'"
    and version: "doc_index_version d \<le> doc_index_version d'"
    and ready: "doc_status d' = READY \<Longrightarrow> doc_status d = READY
      \<and> doc_index_version d' = doc_index_version d \<and> doc_chunk_count d' = doc_chunk_count d"
    and homed: "doc_status d' = DELETING \<or> doc_status d \<noteq> DELETING
      \<or> (\<exists>kb \<in> set (t_kbs db). kb_id kb = doc_kb_id d \<and> kb_deleted kb = 0)"
    and events: "events_ok m (db\<lparr>t_events := t_events db @ evs, next_event := n\<rparr>)"
    and evs: "\<forall>e \<in> set evs. index_event (doc_id d) (doc_index_version d') e \<or> delete_event (doc_id d) e"
    and indexed: "\<exists>e \<in> set (t_events db @ evs). index_event (doc_id d) (doc_index_version d') e"
    and deleted: "doc_status d' = DELETING \<Longrightarrow> \<exists>e \<in> set (t_events db @ evs). delete_event (doc_id d) e"
  shows "tables_ok m (save_document now d d' (db\<lparr>t_events := t_events db @ evs, next_event := n\<rparr>))"
proof -
  let ?db = "save_document now d d' (db\<lparr>t_events := t_events db @ evs, next_event := n\<rparr>)"
  have ok: "docs_ok db" "db_inv db" "requested_ok db" "versions_ok db"
    using inv by (simp_all add: tables_ok_def db_inv_def)
  have ident: "doc_id d' = doc_id d" using d(2) by (simp add: same_identity_def)
  have mem: "x \<in> set (t_documents ?db) \<longleftrightarrow>
      x = touched now d d' \<or> x \<in> set (t_documents db) \<and> x \<noteq> d" for x
    using mem_save_document [of db d d' x now] ok(1) d ident
    by (simp add: save_document_events docs_ok_def)
  have "db_inv ?db"
    using db_inv_save [OF ok(2) d version ready homed, of now] by (simp add: save_document_events)
  moreover have "events_ok m ?db" using events by simp
  moreover have "requested_ok ?db"
    using ok(3) indexed deleted ident by (auto simp: requested_ok_def Ball_def mem)
  moreover have "versions_ok ?db"
    unfolding versions_ok_def
  proof (intro ballI allI impI)
    fix e pk v assume e: "e \<in> set (t_events ?db)" "index_event pk v e"
    show "not_ahead ?db pk v"
    proof (cases "e \<in> set (t_events db)")
      case True
      then have "not_ahead db pk v" using ok(4) e(2) by (simp add: versions_ok_def)
      then show ?thesis using d(1) version ident by (auto simp: not_ahead_def mem Ball_def)
    next
      case False
      then have "index_event (doc_id d) (doc_index_version d') e \<or> delete_event (doc_id d) e"
        using e(1) evs by simp
      then have "pk = doc_id d \<and> v = doc_index_version d'"
        using e(2) by (auto dest: index_event_inj simp: index_event_def delete_event_def)
      then show ?thesis
        using d(1) ok(1) same_doc [OF ok(1) d(1)] by (auto simp: not_ahead_def mem Ball_def docs_ok_def ident)
    qed
  qed
  ultimately show ?thesis by (simp add: tables_ok_def)
qed

lemma tables_ok_save:
  assumes inv: "tables_ok m db" and d: "d \<in> set (t_documents db)" "same_identity d d'"
    and "doc_index_version d' = doc_index_version d"
    and "doc_status d' = READY \<Longrightarrow> doc_status d = READY \<and> doc_chunk_count d' = doc_chunk_count d"
    and "doc_status d' \<noteq> DELETING" "doc_status d \<noteq> DELETING"
  shows "tables_ok m (save_document now d d' db)"
proof -
  have "requested_ok db" "events_ok m db" using inv by (simp_all add: tables_ok_def)
  then show ?thesis
    using tables_ok_save_events [OF inv d, where evs = "[]" and n = "next_event db" and now = now] assms
    by (auto simp: requested_ok_def)
qed

end
