(* ===== verification/LifecycleOps.thy ===== *)
theory LifecycleOps
  imports Invariants
begin

text \<open>
  Every operation keeps the invariant \<open>tables_ok\<close> of the tables. Each lemma is about one
  transaction of the services or of the tasks.
\<close>

section \<open>Index profiles\<close>

lemma profile_effect:
  "get_or_create_index_profile sha s db = Inr (db', p) \<Longrightarrow>
   \<exists>ps n. db' = db\<lparr>t_profiles := t_profiles db @ ps, next_profile := n\<rparr> \<and> p \<in> set (t_profiles db @ ps)"
  by (force simp: get_or_create_index_profile_def insert_profile_def Let_def find_Some_iff
      split: option.splits if_splits intro: exI [of _ "[]"] exI [of _ "next_profile db"])

lemma tables_ok_profiles [simp]:
  "tables_ok m (db\<lparr>t_profiles := ps, next_profile := n\<rparr>) = tables_ok m db"
  by (simp add: tables_ok_def requested_ok_def versions_ok_def not_ahead_def)

section \<open>Knowledge bases\<close>

lemma tables_ok_kb_create:
  assumes "tables_ok m db" "kb_create u obj db = Inr (db', kb)"
  shows "tables_ok m db'"
proof -
  let ?kb = "\<lparr>kb_id = next_kb db, kb_owner_id = u, kb_name = strip (ckb_name obj),
       kb_description = ckb_description obj, kb_is_public = ckb_is_public obj,
       kb_document_count = 0, kb_chunk_count = 0, kb_deleted = 0\<rparr>"
  have db': "db' = db\<lparr>t_kbs := t_kbs db @ [?kb], next_kb := next_kb db + 1\<rparr>"
    using assms(2) by (auto simp: kb_create_def insert_kb_def Let_def split: if_splits)
  have "kbs_ok db \<Longrightarrow> kbs_ok db'" by (fastforce simp: db' kbs_ok_def)
  moreover have "homed_ok db \<Longrightarrow> homed_ok db'" by (fastforce simp: db' homed_ok_def)
  ultimately show ?thesis
    using assms(1)
    by (simp add: tables_ok_def db_inv_def db' docs_ok_def chunks_ok_def ready_ok_def children_def
        events_ok_def requested_ok_def versions_ok_def not_ahead_def)
qed

text \<open>Writing a row of the knowledge bases that keeps its key.\<close>

lemma tables_ok_save_kb:
  assumes inv: "tables_ok m db" and k: "k \<in> set (t_kbs db)" "kb_id k' = kb_id k"
    and del: "kb_deleted k' = kb_deleted k \<or> kb_deleted k' = kb_id k \<and>
      (\<forall>d \<in> set (t_documents db). doc_kb_id d = kb_id k \<longrightarrow> doc_status d = DELETING)"
    and save: "save_kb k' db = Inr db'"
  shows "tables_ok m db'"
proof -
  have db': "db' = db\<lparr>t_kbs := replace_row kb_id k' (t_kbs db)\<rparr>"
    using save by (auto simp: save_kb_def split: if_splits)
  have ok: "kbs_ok db" "homed_ok db" using inv by (simp_all add: tables_ok_def db_inv_def)
  have mem: "x \<in> set (t_kbs db') \<longleftrightarrow> x = k' \<or> x \<in> set (t_kbs db) \<and> x \<noteq> k" for x
    using mem_replace_row [of kb_id "t_kbs db" k k' x] ok(1) k by (simp add: db' kbs_ok_def)
  have "kbs_ok db'"
    using ok(1) k del by (auto simp: kbs_ok_def Ball_def mem) (simp_all add: db')
  moreover have "homed_ok db'"
    unfolding homed_ok_def
  proof
    fix d assume d: "d \<in> set (t_documents db')"
    then have d': "d \<in> set (t_documents db)" by (simp add: db')
    then obtain x where x: "x \<in> set (t_kbs db)" "kb_id x = doc_kb_id d"
      "kb_deleted x \<noteq> 0 \<longrightarrow> doc_status d = DELETING"
      using bspec [OF ok(2) [unfolded homed_ok_def] d'] by auto
    show "\<exists>x \<in> set (t_kbs db'). kb_id x = doc_kb_id d \<and> (kb_deleted x \<noteq> 0 \<longrightarrow> doc_status d = DELETING)"
    proof (cases "x = k")
      case True
      then have "kb_id k' = doc_kb_id d \<and> (kb_deleted k' \<noteq> 0 \<longrightarrow> doc_status d = DELETING)"
        using x(2,3) k(2) del d' by auto
      then show ?thesis unfolding Bex_def mem by blast
    next
      case False then show ?thesis using x unfolding Bex_def mem by blast
    qed
  qed
  ultimately show ?thesis
    using inv
    by (simp add: tables_ok_def db_inv_def db' docs_ok_def chunks_ok_def ready_ok_def children_def
        events_ok_def requested_ok_def versions_ok_def not_ahead_def)
qed

lemma kb_setters:
  "set_name n k = Inr k' \<Longrightarrow> kb_id k' = kb_id k \<and> kb_deleted k' = kb_deleted k \<and> kb_owner_id k' = kb_owner_id k"
  "set_description d k = Inr k' \<Longrightarrow> kb_id k' = kb_id k \<and> kb_deleted k' = kb_deleted k \<and> kb_owner_id k' = kb_owner_id k"
  "set_is_public b k = Inr k' \<Longrightarrow> kb_id k' = kb_id k \<and> kb_deleted k' = kb_deleted k \<and> kb_owner_id k' = kb_owner_id k"
  by (auto simp: set_name_def set_description_def set_is_public_def split: option.splits)

lemma tables_ok_kb_update:
  assumes "tables_ok m db" "kb_update pk u adm obj db = Inr (db', kb)"
  shows "tables_ok m db'"
proof -
  obtain k k' where k: "kb_get pk u adm True db = Inr k" "save_kb k' db = Inr db'"
    "kb_id k' = kb_id k" "kb_deleted k' = kb_deleted k"
    using assms(2)
    by (auto simp: kb_update_def res_iffs dest!: kb_setters)
  show ?thesis
    using tables_ok_save_kb [OF assms(1) _ k(3) _ k(2)] kb_get_InrD [OF k(1)] k(4) by simp
qed

text \<open>
  Asking for the deletion of documents: they become DELETING, each with its event, and nothing else
  of the documents changes.
\<close>

lemma request_deletions_effect:
  "tables_ok m db \<Longrightarrow> distinct (map doc_id ds) \<Longrightarrow> set ds \<subseteq> set (t_documents db) \<Longrightarrow>
   \<exists>db'. request_deletions now ds db = Inr db' \<and> tables_ok m db' \<and> t_kbs db' = t_kbs db
     \<and> (\<exists>evs. t_events db' = t_events db @ evs)
     \<and> (\<forall>x. x \<in> set (t_documents db') \<longleftrightarrow>
          x \<in> (\<lambda>d. touched now d (d\<lparr>doc_status := DELETING\<rparr>)) ` set ds \<or> x \<in> set (t_documents db) - set ds)"
proof (induction ds arbitrary: db)
  case (Cons d ds)
  let ?d = "d\<lparr>doc_status := DELETING\<rparr>"
  let ?db = "save_document now d ?d db"
  have d: "d \<in> set (t_documents db)" "same_identity d ?d"
    using Cons.prems(3) by (simp_all add: same_identity_def)
  have ok: "docs_ok db" "requested_ok db" "events_ok m ?db"
    using Cons.prems(1) by (simp_all add: tables_ok_def db_inv_def)
  obtain evs e n where eq: "enqueue_document_delete (doc_id d) ?db
      = Inr (?db\<lparr>t_events := t_events db @ evs, next_event := n\<rparr>, e)"
    and evs: "events_ok m (?db\<lparr>t_events := t_events db @ evs, next_event := n\<rparr>)"
      "\<exists>e \<in> set (t_events db @ evs). delete_event (doc_id d) e"
      "set evs \<subseteq> {e. delete_event (doc_id d) e}"
    using enqueue_document_delete_effect [OF ok(3), of "doc_id d"] by auto
  let ?db1 = "?db\<lparr>t_events := t_events db @ evs, next_event := n\<rparr>"
  have indexed: "\<exists>e \<in> set (t_events db @ evs). index_event (doc_id d) (doc_index_version d) e"
    using ok(2) d(1) by (fastforce simp: requested_ok_def)
  have ev_ok: "events_ok m (db\<lparr>t_events := t_events db @ evs, next_event := n\<rparr>)"
    using evs(1) by (simp add: events_ok_def)
  have ok1: "tables_ok m ?db1"
    unfolding save_document_events [symmetric]
    by (rule tables_ok_save_events [OF Cons.prems(1) d]) (use ev_ok evs indexed in auto)
  have mem: "x \<in> set (t_documents ?db) \<longleftrightarrow> x = touched now d ?d \<or> x \<in> set (t_documents db) \<and> x \<noteq> d" for x
    using mem_save_document [of db d ?d x now] ok(1) d by (simp add: docs_ok_def)
  have sub: "set ds \<subseteq> set (t_documents ?db1)"
    using Cons.prems(2,3) by (auto simp: mem)
  obtain db' where db': "request_deletions now ds ?db1 = Inr db'" "tables_ok m db'"
    "t_kbs db' = t_kbs ?db1" "\<exists>evs. t_events db' = t_events ?db1 @ evs"
    "\<And>x. x \<in> set (t_documents db') \<longleftrightarrow>
        x \<in> (\<lambda>d. touched now d (d\<lparr>doc_status := DELETING\<rparr>)) ` set ds \<or> x \<in> set (t_documents ?db1) - set ds"
    using Cons.IH [OF ok1 _ sub] Cons.prems(2) by auto
  have "touched now d ?d \<notin> set ds"
  proof
    assume "touched now d ?d \<in> set ds"
    then have "doc_id (touched now d ?d) \<in> doc_id ` set ds" by (rule imageI)
    then show False using Cons.prems(2) by simp
  qed
  then have "x \<in> set (t_documents db') \<longleftrightarrow>
      x \<in> (\<lambda>d. touched now d (d\<lparr>doc_status := DELETING\<rparr>)) ` set (d # ds)
        \<or> x \<in> set (t_documents db) - set (d # ds)" for x
    unfolding db'(5) by (auto simp: mem)
  then show ?case using db'(1-4) eq by auto
qed auto

lemma request_deletions_kbs:
  "request_deletions now ds (db\<lparr>t_kbs := ks\<rparr>) = rmap (\<lambda>db. db\<lparr>t_kbs := ks\<rparr>) (request_deletions now ds db)"
proof (induction ds arbitrary: db)
  case (Cons d ds)
  have save: "save_document now d d' (db\<lparr>t_kbs := ks\<rparr>) = (save_document now d d' db)\<lparr>t_kbs := ks\<rparr>" for d'
    by (simp add: save_document_def)
  have enq: "enqueue_document_delete i (db\<lparr>t_kbs := ks\<rparr>)
      = rmap (\<lambda>(db, e). (db\<lparr>t_kbs := ks\<rparr>, e)) (enqueue_document_delete i db)" for i db
    by (simp add: enqueue_document_delete_def find_event_def insert_event_def Let_def split: option.splits)
  show ?case
    by (cases "enqueue_document_delete (doc_id d) (save_document now d (d\<lparr>doc_status := DELETING\<rparr>) db)")
      (auto simp: save enq Cons.IH)
qed simp

lemma tables_ok_kb_delete:
  assumes inv: "tables_ok m db" and run: "kb_delete now pk u adm db = Inr db'"
  shows "tables_ok m db'"
proof -
  obtain k where k: "kb_get pk u adm True db = Inr k"
    using run by (auto simp: kb_delete_def res_iffs)
  let ?k = "k\<lparr>kb_deleted := kb_id k\<rparr>"
  let ?ks = "replace_row kb_id ?k (t_kbs db)"
  let ?ds = "filter (\<lambda>d. doc_kb_id d = kb_id k \<and> doc_deleted d = 0) (t_documents db)"
  have ok: "docs_ok db" using inv by (simp add: tables_ok_def db_inv_def)
  have row: "kb_row_ok ?k db" and req: "request_deletions now ?ds (db\<lparr>t_kbs := ?ks\<rparr>) = Inr db'"
    using run k by (auto simp: kb_delete_def save_kb_def split: if_splits)
  have "distinct (map doc_id ?ds)" using ok by (auto simp: docs_ok_def distinct_map inj_on_def)
  from request_deletions_effect [OF inv this, of now] obtain db1 where
    db1: "request_deletions now ?ds db = Inr db1" "tables_ok m db1" "t_kbs db1 = t_kbs db"
    "\<And>x. x \<in> set (t_documents db1) \<longleftrightarrow>
      x \<in> (\<lambda>d. touched now d (d\<lparr>doc_status := DELETING\<rparr>)) ` set ?ds \<or> x \<in> set (t_documents db) - set ?ds"
    by auto
  have db': "db' = db1\<lparr>t_kbs := ?ks\<rparr>" using req db1(1) by (simp add: request_deletions_kbs)
  have "doc_status d = DELETING" if "d \<in> set (t_documents db1)" "doc_kb_id d = kb_id k" for d
    using that ok unfolding db1(4) by (auto simp: docs_ok_def)
  moreover have "save_kb ?k db1 = Inr db'"
    using row by (simp add: save_kb_def kb_row_ok_def db1(3) db')
  ultimately show ?thesis
    using tables_ok_save_kb [OF db1(2), of k ?k db'] kb_get_InrD [OF k] db1(3) by simp
qed

section \<open>Documents\<close>

text \<open>A new document with its first event.\<close>

lemma tables_ok_insert_document:
  assumes inv: "tables_ok m db" and d: "doc_id d = next_document db" "doc_deleted d = 0"
    "doc_status d = PENDING"
    and kb: "kb \<in> set (t_kbs db)" "kb_id kb = doc_kb_id d" "kb_deleted kb = 0"
    and events: "events_ok m (db\<lparr>t_events := t_events db @ evs, next_event := n\<rparr>)"
    and evs: "set evs \<subseteq> {e. index_event (doc_id d) (doc_index_version d) e}"
    and indexed: "\<exists>e \<in> set (t_events db @ evs). index_event (doc_id d) (doc_index_version d) e"
  shows "tables_ok m (db\<lparr>t_documents := t_documents db @ [d], next_document := next_document db + 1,
      t_events := t_events db @ evs, next_event := n\<rparr>)" (is "tables_ok m ?db")
proof -
  have ok: "docs_ok db" "kbs_ok db" "chunks_ok db" "ready_ok db" "homed_ok db" "requested_ok db"
    "versions_ok db"
    using inv by (simp_all add: tables_ok_def db_inv_def)
  have "docs_ok ?db" using ok(1) d by (auto simp: docs_ok_def)
  moreover have "chunks_ok ?db" using ok(3) by (auto simp: chunks_ok_def)
  moreover have "ready_ok ?db" using ok(4) d by (simp add: ready_ok_def children_def)
  moreover have "homed_ok ?db" using ok(5) kb by (fastforce simp: homed_ok_def)
  moreover have "requested_ok ?db" using ok(6) indexed d(3) by (fastforce simp: requested_ok_def)
  moreover have "versions_ok ?db"
    unfolding versions_ok_def
  proof (intro ballI allI impI)
    fix e pk v assume e: "e \<in> set (t_events ?db)" "index_event pk v e"
    show "not_ahead ?db pk v"
    proof (cases "e \<in> set (t_events db)")
      case True
      then have "not_ahead db pk v" using ok(7) e(2) by (simp add: versions_ok_def)
      then show ?thesis using d(1) by (auto simp: not_ahead_def)
    next
      case False
      then have "pk = doc_id d \<and> v = doc_index_version d"
        using e evs by (auto dest: index_event_inj)
      then show ?thesis using ok(1) d(1) by (auto simp: not_ahead_def docs_ok_def)
    qed
  qed
  ultimately show ?thesis
    using ok(2) events by (simp add: tables_ok_def db_inv_def kbs_ok_def events_ok_def)
qed

text \<open>What a successful upload does, with the key of its object.\<close>

lemma doc_create_effect:
  assumes inv: "tables_ok m db"
    and run: "doc_create D s now kb u adm filename content mime db store = (store', Inr (db', d))"
  obtains k ps np evs n where "kb_get kb u adm True db = Inr k"
    "store' = storage_put (doc_storage_key d) content store"
    "d = (new_document now kb filename (upload_suffix filename) mime
        (storage_key_of kb (dep_sha256 D content) (upload_suffix filename))
        (int (length content)) (dep_sha256 D content) (the (doc_index_profile_id d)))
        \<lparr>doc_id := next_document db\<rparr>"
    "db' = db\<lparr>t_profiles := ps, next_profile := np, t_documents := t_documents db @ [d],
      next_document := next_document db + 1, t_events := t_events db @ evs, next_event := n\<rparr>"
    "upload_suffix filename \<in> set supported_document_suffixes"
    "document_row_ok d db"
    "tables_ok m db'"
proof -
  obtain k p db1 where k: "kb_get kb u adm True db = Inr k"
    and p: "get_or_create_index_profile (sha256_text D) (index_settings.truncate s) db = Inr (db1, p)"
    and enq: "rbind (insert_document (new_document now (kb_id k) filename (upload_suffix filename) mime
        (storage_key_of (kb_id k) (dep_sha256 D content) (upload_suffix filename))
        (int (length content)) (dep_sha256 D content) (ip_id p)) db1) (\<lambda>(db, data).
      rmap (\<lambda>(db, _). (db, data))
        (enqueue_document_index (doc_id data) (doc_index_version data) db)) = Inr (db', d)"
    and store: "store' = storage_put
        (storage_key_of (kb_id k) (dep_sha256 D content) (upload_suffix filename)) content store"
    and sfx: "upload_suffix filename \<in> set supported_document_suffixes"
    using run by (auto simp: doc_create_def Let_def res_iffs split: sum.splits if_splits)
  obtain ps np where db1: "db1 = db\<lparr>t_profiles := ps, next_profile := np\<rparr>"
    using profile_effect [OF p] by auto
  have inv1: "tables_ok m db1" using inv by (simp add: db1)
  have kb: "k \<in> set (t_kbs db1)" "kb_deleted k = 0" "kb_id k = kb"
    using kb_get_InrD [OF k] by (simp_all add: db1)
  define d1 where "d1 = (new_document now kb filename (upload_suffix filename) mime
        (storage_key_of kb (dep_sha256 D content) (upload_suffix filename))
        (int (length content)) (dep_sha256 D content) (ip_id p))\<lparr>doc_id := next_document db1\<rparr>"
  let ?db = "db1\<lparr>t_documents := t_documents db1 @ [d1], next_document := next_document db1 + 1\<rparr>"
  have row: "document_row_ok d1 db1"
    and enq': "rmap (\<lambda>(db, _). (db, d1)) (enqueue_document_index (doc_id d1) (doc_index_version d1) ?db)
      = Inr (db', d)"
    using enq by (auto simp: insert_document_def Let_def res_iffs kb(3) simp flip: d1_def split: if_splits)
  have "events_ok m ?db" using inv1 by (simp add: tables_ok_def events_ok_def)
  from enqueue_document_index_effect [OF this, of "doc_id d1" "doc_index_version d1"]
  obtain evs e n where evs: "enqueue_document_index (doc_id d1) (doc_index_version d1) ?db
      = Inr (?db\<lparr>t_events := t_events db1 @ evs, next_event := n\<rparr>, e)"
    "events_ok m (?db\<lparr>t_events := t_events db1 @ evs, next_event := n\<rparr>)"
    "\<exists>e \<in> set (t_events db1 @ evs). index_event (doc_id d1) (doc_index_version d1) e"
    "set evs \<subseteq> {e. index_event (doc_id d1) (doc_index_version d1) e}"
    by auto
  have new: "doc_id d1 = next_document db1" "doc_deleted d1 = 0" "doc_status d1 = PENDING"
    "doc_kb_id d1 = kb" "the (doc_index_profile_id d1) = ip_id p"
    "doc_storage_key d1 = storage_key_of kb (dep_sha256 D content) (upload_suffix filename)"
    by (simp_all add: d1_def new_document_def)
  have ev_ok: "events_ok m (db1\<lparr>t_events := t_events db1 @ evs, next_event := n\<rparr>)"
    using evs(2) by (simp add: events_ok_def)
  have ok: "tables_ok m (?db\<lparr>t_events := t_events db1 @ evs, next_event := n\<rparr>)"
    using tables_ok_insert_document [OF inv1 new(1-3) kb(1) _ kb(2) ev_ok evs(4,3)] new(4) kb(3) by simp
  have eqs: "db' = ?db\<lparr>t_events := t_events db1 @ evs, next_event := n\<rparr>" "d = d1"
    using enq' unfolding evs(1) by auto
  show thesis
    by (rule that [OF k, where ps = ps and np = np and evs = evs and n = n])
      (use store ok row sfx kb(3) new in \<open>simp_all add: eqs db1 document_row_ok_def d1_def [unfolded db1, simplified]\<close>)
qed

lemma tables_ok_doc_retry:
  assumes inv: "tables_ok m db" and run: "doc_retry D s now kb pk u adm db = Inr (db', d')"
  shows "tables_ok m db'"
proof -
  obtain d db1 p where d: "doc_get kb pk u adm True db = Inr d"
    and p: "get_or_create_index_profile (sha256_text D) (index_settings.truncate s) db = Inr (db1, p)"
    using run by (auto simp: doc_retry_def Let_def res_iffs)
  let ?d = "d\<lparr>doc_status := PENDING, doc_error_message := None,
    doc_index_version := doc_index_version d + 1, doc_index_profile_id := Some (ip_id p)\<rparr>"
  let ?db = "save_document now d ?d db1"
  have inv1: "tables_ok m db1" using profile_effect [OF p] inv by auto
  have mem: "d \<in> set (t_documents db1)" "same_identity d ?d"
    "\<exists>k \<in> set (t_kbs db1). kb_id k = doc_kb_id d \<and> kb_deleted k = 0"
    using doc_get_InrD [OF d] profile_effect [OF p] by (auto simp: same_identity_def)
  have "events_ok m ?db" using inv1 by (simp add: tables_ok_def)
  from enqueue_document_index_effect [OF this, of "doc_id ?d" "doc_index_version ?d"]
  obtain evs e n where evs: "enqueue_document_index (doc_id ?d) (doc_index_version ?d) ?db
      = Inr (?db\<lparr>t_events := t_events db1 @ evs, next_event := n\<rparr>, e)"
    "events_ok m (?db\<lparr>t_events := t_events db1 @ evs, next_event := n\<rparr>)"
    "\<exists>e \<in> set (t_events db1 @ evs). index_event (doc_id ?d) (doc_index_version ?d) e"
    "set evs \<subseteq> {e. index_event (doc_id ?d) (doc_index_version ?d) e}"
    by auto
  have ev_ok: "events_ok m (db1\<lparr>t_events := t_events db1 @ evs, next_event := n\<rparr>)"
    using evs(2) by (simp add: events_ok_def)
  have "tables_ok m (?db\<lparr>t_events := t_events db1 @ evs, next_event := n\<rparr>)"
    unfolding save_document_events [symmetric]
    by (rule tables_ok_save_events [OF inv1 mem(1,2)]) (use ev_ok evs mem(3) in auto)
  moreover have "db' = ?db\<lparr>t_events := t_events db1 @ evs, next_event := n\<rparr>"
    using run d p evs(1) by (simp add: doc_retry_def Let_def)
  ultimately show ?thesis by simp
qed

lemma tables_ok_doc_delete:
  assumes inv: "tables_ok m db" and run: "doc_delete now kb pk u adm db = Inr db'"
  shows "tables_ok m db'"
proof -
  obtain d where d: "doc_get kb pk u adm True db = Inr d"
    using run by (auto simp: doc_delete_def res_iffs)
  have mem: "set [d] \<subseteq> set (t_documents db)" using doc_get_InrD [OF d] by simp
  obtain db1 where "request_deletions now [d] db = Inr db1" "tables_ok m db1"
    using request_deletions_effect [OF inv _ mem, of now] by auto
  then show ?thesis
    using run d by (auto simp: doc_delete_def res_iffs)
qed

section \<open>Tasks\<close>

lemma claim_index_cases:
  assumes "claim_index now pk v db = (db', r, eff)"
  obtains (claimed) d where "get_live pk db = Some d" "doc_status d = PENDING"
      "db' = save_document now d (d\<lparr>doc_status := PROCESSING, doc_error_message := None\<rparr>) db"
      "r = asc ''claimed''" "eff = Some (doc_index_version d)" "v = None \<or> v = eff"
  | (refused) "db' = db" "r \<noteq> asc ''claimed''"
proof (cases "get_live pk db")
  case None
  then have "db' = db \<and> r \<noteq> asc ''claimed''" using assms by (auto simp: claim_index_def asc_def)
  then show thesis using refused by blast
next
  case (Some d)
  show thesis
  proof (cases "(v = None \<or> v = Some (doc_index_version d)) \<and> doc_status d = PENDING")
    case True
    then show thesis using claimed [OF Some] assms Some by (auto simp: claim_index_def Let_def)
  next
    case False
    then have "db' = db \<and> r \<noteq> asc ''claimed''"
      using assms Some
      by (cases "doc_status d") (auto simp: claim_index_def Let_def asc_def split: if_splits)
    then show thesis using refused by blast
  qed
qed

lemma tables_ok_claim_index:
  assumes "tables_ok m db" "claim_index now pk v db = (db', r, eff)"
  shows "tables_ok m db'"
  using assms(2)
proof (cases rule: claim_index_cases)
  case (claimed d)
  show ?thesis
    unfolding claimed(3)
    by (rule tables_ok_save [OF assms(1)])
      (use get_live_SomeD [OF claimed(1)] claimed(2) in \<open>auto simp: same_identity_def\<close>)
qed (use assms in simp)

lemma tables_ok_index:
  assumes inv: "tables_ok m db" and d: "d \<in> set (t_documents db)" "doc_status d = PROCESSING"
    and run: "index_content D s now d content db = Inr (db', d')"
  shows "tables_ok m db'"
proof -
  have ok: "db_inv db" "events_ok m db" "requested_ok db" "versions_ok db" "docs_ok db"
    using inv by (simp_all add: tables_ok_def db_inv_def)
  have idx: "db_inv db'" "same_identity d d'" "doc_index_version d' = doc_index_version d"
    "doc_status d' = READY"
    using db_inv_index [OF ok(1) d run] by simp_all
  obtain cs n where db': "db' = save_document now d d' (db\<lparr>t_chunks := cs, next_chunk := n\<rparr>)"
    using index_content_effect [OF run] by blast
  have mem: "x \<in> set (t_documents db') \<longleftrightarrow>
      x = touched now d d' \<or> x \<in> set (t_documents db) \<and> x \<noteq> d" for x
    using mem_save_document [of db d d' x now] ok(5) d(1) idx(2)
    by (simp add: db' mem_save_document_chunks docs_ok_def same_identity_def)
  have frame: "t_events db' = t_events db" "next_event db' = next_event db"
    "next_document db' = next_document db"
    by (simp_all add: db' save_document_def)
  have ids: "doc_id d' = doc_id d" using idx(2) by (simp add: same_identity_def)
  have "requested_ok db'"
    using ok(3) d(1) idx(3,4) ids by (auto simp: requested_ok_def Ball_def mem frame)
  moreover have "versions_ok db'"
    using ok(4) d(1) idx(3) ids by (auto simp: versions_ok_def not_ahead_def Ball_def mem frame)
  ultimately show ?thesis using ok(2) idx(1) by (simp add: tables_ok_def events_ok_def frame)
qed

lemma index_claimed_cases:
  assumes "index_claimed_document D s now pk v store db = Inr (db', r)"
  obtains (indexed) d content d' where "get_live pk db = Some d" "doc_index_version d = v"
      "doc_status d = PROCESSING" "storage_get (doc_storage_key d) store = Inr content"
      "index_content D s now d content db = Inr (db', d')" "r = status_value (doc_status d')"
  | (skipped) "db' = db"
  using assms
  by (auto simp: index_claimed_document_def res_iffs split: option.splits if_splits)

lemma tables_ok_index_claimed:
  assumes "tables_ok m db" "index_claimed_document D s now pk v store db = Inr (db', r)"
  shows "tables_ok m db'"
  using assms(2)
proof (cases rule: index_claimed_cases)
  case (indexed d content d')
  show ?thesis
    by (rule tables_ok_index [OF assms(1) _ indexed(3,5)]) (use get_live_SomeD [OF indexed(1)] in simp)
qed (use assms in simp)

lemma mark_index_failure_cases:
  assumes "mark_index_failure now pk v st msg db = Inr (db', b)"
  obtains (marked) d where "get_live pk db = Some d" "doc_index_version d = v"
      "doc_status d \<noteq> READY" "doc_status d \<noteq> DELETING" "st = PENDING \<or> st = FAILED"
      "db' = save_document now d
        (d\<lparr>doc_status := st, doc_error_message := Some (take 512 msg)\<rparr>) db" "b"
  | (kept) "db' = db" "\<not> b"
  using assms by (auto simp: mark_index_failure_def split: option.splits if_splits)

lemma tables_ok_mark_index_failure:
  assumes "tables_ok m db" "mark_index_failure now pk v st msg db = Inr (db', b)"
  shows "tables_ok m db'"
  using assms(2)
proof (cases rule: mark_index_failure_cases)
  case (marked d)
  show ?thesis
    unfolding marked(6)
    by (rule tables_ok_save [OF assms(1)])
      (use get_live_SomeD [OF marked(1)] marked(3-5) in \<open>auto simp: same_identity_def\<close>)
qed (use assms in simp)

lemma index_failure_db:
  obtains b st where "st = PENDING \<or> st = FAILED"
    "mark_index_failure now pk eff st (sanitize_index_error e) db = Inr (fst (index_failure s now pk v eff retries e db), b)"
proof -
  define st where "st = (if is_retryable_index_error e \<and> int retries < RAG_INDEX_MAX_RETRIES s then PENDING else FAILED)"
  then have st: "st = PENDING \<or> st = FAILED" by simp
  then have "is_ok (mark_index_failure now pk eff st (sanitize_index_error e) db)"
    by (auto simp: mark_index_failure_def split: option.splits)
  then obtain db' b where "mark_index_failure now pk eff st (sanitize_index_error e) db = Inr (db', b)"
    by (auto simp: is_ok_iff)
  then show thesis
    using that [OF st] by (simp add: index_failure_def Let_def flip: st_def)
qed

lemma tables_ok_index_failure:
  assumes "tables_ok m db"
  shows "tables_ok m (fst (index_failure s now pk v eff retries e db))"
  by (rule index_failure_db) (rule tables_ok_mark_index_failure [OF assms])

text \<open>Recovery: only documents that are PENDING or PROCESSING are touched, and become PENDING.\<close>

definition recovered :: "int \<Rightarrow> document \<Rightarrow> document" where
  "recovered now d = touched now d (d\<lparr>doc_status := PENDING,
     doc_error_message := Some msg_stale_requeued, doc_updated_time := Some now\<rparr>)"

lemma recover_documents_effect:
  "tables_ok m db \<Longrightarrow> distinct (map doc_id ds) \<Longrightarrow> set ds \<subseteq> set (t_documents db) \<Longrightarrow>
   \<forall>d \<in> set ds. doc_status d = PENDING \<or> doc_status d = PROCESSING \<Longrightarrow>
   tables_ok m (recover_documents now ds db) \<and> t_events (recover_documents now ds db) = t_events db
     \<and> next_document (recover_documents now ds db) = next_document db
     \<and> (\<forall>x. x \<in> set (t_documents (recover_documents now ds db)) \<longleftrightarrow>
          x \<in> recovered now ` set ds \<or> x \<in> set (t_documents db) - set ds)"
proof (induction ds arbitrary: db)
  case (Cons d ds)
  let ?d = "d\<lparr>doc_status := PENDING, doc_error_message := Some msg_stale_requeued,
    doc_updated_time := Some now\<rparr>"
  let ?db = "save_document now d ?d db"
  have d: "d \<in> set (t_documents db)" "same_identity d ?d"
    using Cons.prems(3) by (simp_all add: same_identity_def)
  have ok: "docs_ok db" using Cons.prems(1) by (simp add: tables_ok_def db_inv_def)
  have ok1: "tables_ok m ?db"
    by (rule tables_ok_save [OF Cons.prems(1) d]) (use Cons.prems(4) in auto)
  have mem: "x \<in> set (t_documents ?db) \<longleftrightarrow> x = recovered now d \<or> x \<in> set (t_documents db) \<and> x \<noteq> d" for x
    using mem_save_document [of db d ?d x now] ok d by (simp add: docs_ok_def recovered_def)
  have sub: "set ds \<subseteq> set (t_documents ?db)" using Cons.prems(2,3) by (auto simp: mem)
  have "recovered now d \<notin> set ds"
  proof
    assume "recovered now d \<in> set ds"
    then have "doc_id (recovered now d) \<in> doc_id ` set ds" by (rule imageI)
    then show False using Cons.prems(2) by (simp add: recovered_def)
  qed
  then show ?case
    using Cons.IH [OF ok1 _ sub] Cons.prems(2,4) by (auto simp: mem)
qed auto

lemma stale_documents:
  assumes "docs_ok db"
  shows "distinct (map doc_id (get_stale_index_documents t n db))
    \<and> set (get_stale_index_documents t n db) \<subseteq> set (t_documents db)
    \<and> (\<forall>d \<in> set (get_stale_index_documents t n db). doc_status d = PENDING \<or> doc_status d = PROCESSING)"
proof -
  let ?l = "sort_key last_activity (sort_key doc_id
    (filter (\<lambda>d. (doc_status d = PENDING \<or> doc_status d = PROCESSING) \<and> doc_deleted d = 0
      \<and> last_activity d < t) (t_documents db)))"
  have "inj_on doc_id (set (t_documents db))" "distinct (t_documents db)"
    using assms by (simp_all add: docs_ok_def distinct_map)
  then have "distinct (map doc_id ?l)" by (auto simp: distinct_map inj_on_def)
  then have "distinct (map doc_id (take n ?l))" by (simp add: take_map [symmetric])
  then show ?thesis
    by (auto simp: get_stale_index_documents_def dest!: in_set_takeD)
qed

lemma tables_ok_repair:
  assumes "tables_ok m db" "repair_stuck_document s now db = (db', ts, r)"
  shows "tables_ok m db'"
proof -
  have "docs_ok db" using assms(1) by (simp add: tables_ok_def db_inv_def)
  then show ?thesis
    using recover_documents_effect [OF assms(1)] stale_documents assms(2)
    by (auto simp: repair_stuck_document_def recover_stale_indexes_def Let_def)
qed

text \<open>A round of the dispatcher rewrites the events it claimed, each by its own outcome.\<close>

lemma fold_save_event:
  assumes "\<And>e. ev_id (f e) = ev_id e"
  shows "distinct (map ev_id (t_events db)) \<Longrightarrow> distinct (map ev_id es) \<Longrightarrow> set es \<subseteq> set (t_events db) \<Longrightarrow>
    fold save_event (map f es) db
      = db\<lparr>t_events := map (\<lambda>x. if x \<in> set es then f x else x) (t_events db)\<rparr>"
proof (induction es arbitrary: db)
  case (Cons e es)
  let ?db = "save_event (f e) db"
  have inj: "x = e" if "x \<in> set (t_events db)" "ev_id x = ev_id e" for x
    using that Cons.prems by (auto simp: distinct_map inj_on_def)
  have ev: "t_events ?db = map (\<lambda>x. if x = e then f e else x) (t_events db)"
    using inj assms by (auto simp: save_event_def replace_row_def)
  have ids: "map ev_id (t_events ?db) = map ev_id (t_events db)" using assms by (auto simp: ev)
  have sub: "set es \<subseteq> set (t_events ?db)"
    using Cons.prems by (fastforce simp: ev image_iff)
  have "f e \<notin> set es"
  proof
    assume "f e \<in> set es"
    then have "ev_id (f e) \<in> ev_id ` set es" by (rule imageI)
    then show False using Cons.prems(2) assms by simp
  qed
  moreover have "e \<notin> set es" using Cons.prems(2) by auto
  moreover have "distinct (map ev_id (t_events ?db))" using Cons.prems(1) ids by metis
  ultimately have "fold save_event (map f (e # es)) db = ?db\<lparr>t_events :=
      map (\<lambda>x. if x \<in> set (e # es) then f x else x) (t_events db)\<rparr>"
    using Cons.IH [of ?db] Cons.prems(2) sub by (auto simp: ev)
  moreover have "?db\<lparr>t_events := X\<rparr> = db\<lparr>t_events := X\<rparr>" for X by (simp add: save_event_def)
  ultimately show ?case by simp
qed simp

definition outcome_of :: "(task \<Rightarrow> exc option) \<Rightarrow> rag_settings \<Rightarrow> int \<Rightarrow> outbox_event \<Rightarrow> outbox_event" where
  "outcome_of publish s now e =
     fst (dispatch_event publish now (RAG_OUTBOX_MAX_DISPATCH_ATTEMPTS s) e)"

lemma outcome_of_cases:
  obtains (ok) t where "event_task e = Inr t" "publish t = None"
      "outcome_of publish s now e = mark_dispatched now e"
      "snd (dispatch_event publish now (RAG_OUTBOX_MAX_DISPATCH_ATTEMPTS s) e) = [t]"
  | (failed) x where
      "outcome_of publish s now e = mark_failed x (RAG_OUTBOX_MAX_DISPATCH_ATTEMPTS s) e"
      "snd (dispatch_event publish now (RAG_OUTBOX_MAX_DISPATCH_ATTEMPTS s) e) = []"
  by (cases "event_task e"; cases "publish (projr (event_task e))")
    (auto simp: outcome_of_def dispatch_event_def)

lemma outcome_of_sel [simp]:
  "ev_id (outcome_of publish s now e) = ev_id e" "ev_type (outcome_of publish s now e) = ev_type e"
  "index_event d v (outcome_of publish s now e) = index_event d v e"
  "delete_event d (outcome_of publish s now e) = delete_event d e"
  by (cases rule: outcome_of_cases [of e publish s now];
      simp add: mark_dispatched_def mark_failed_def Let_def index_event_def delete_event_def)+

lemma outcome_attempts:
  assumes "claimable e" "attempts_ok (RAG_OUTBOX_MAX_DISPATCH_ATTEMPTS s) e"
  shows "attempts_ok (RAG_OUTBOX_MAX_DISPATCH_ATTEMPTS s) (outcome_of publish s now e)"
  using assms
  by (cases rule: outcome_of_cases [of e publish s now])
    (auto simp: claimable_def attempts_ok_def mark_dispatched_def mark_failed_def Let_def)

lemma claimed_events:
  assumes "distinct (map ev_id (t_events db))"
  shows "distinct (map ev_id (claim_pending_events limit db))"
    "set (claim_pending_events limit db) \<subseteq> set (t_events db)"
    "\<forall>e \<in> set (claim_pending_events limit db). claimable e"
proof -
  let ?l = "sort_key ev_id (filter claimable (t_events db))"
  have "inj_on ev_id (set (t_events db))" "distinct (t_events db)"
    using assms by (simp_all add: distinct_map)
  then have "distinct (map ev_id ?l)" by (auto simp: distinct_map inj_on_def)
  then have "distinct (map ev_id (take limit ?l))" by (simp add: take_map [symmetric])
  then show "distinct (map ev_id (claim_pending_events limit db))"
    "set (claim_pending_events limit db) \<subseteq> set (t_events db)"
    "\<forall>e \<in> set (claim_pending_events limit db). claimable e"
    by (auto simp: claim_pending_events_def dest!: in_set_takeD)
qed

lemma dispatch_outbox_effect:
  assumes "events_ok m db" "dispatch_outbox publish s now limit db = (db', ts, r)"
  shows "db' = db\<lparr>t_events := map (\<lambda>x. if x \<in> set (claim_pending_events limit db)
      then outcome_of publish s now x else x) (t_events db)\<rparr>"
    "set ts = {t. \<exists>e \<in> set (claim_pending_events limit db). event_task e = Inr t \<and> publish t = None}"
proof -
  have d: "distinct (map ev_id (t_events db))" using assms(1) by (simp add: events_ok_def)
  have "(\<lambda>x. fst (dispatch_event publish now (RAG_OUTBOX_MAX_DISPATCH_ATTEMPTS s) x))
      = outcome_of publish s now"
    by (simp add: fun_eq_iff outcome_of_def)
  then have "db' = fold save_event (map (outcome_of publish s now) (claim_pending_events limit db)) db"
    using assms(2) by (simp add: dispatch_outbox_def Let_def comp_def)
  then show "db' = db\<lparr>t_events := map (\<lambda>x. if x \<in> set (claim_pending_events limit db)
      then outcome_of publish s now x else x) (t_events db)\<rparr>"
    using fold_save_event [of "outcome_of publish s now" db "claim_pending_events limit db"]
      claimed_events [OF d, of limit] d
    by simp
  have "ts = concat (map (\<lambda>e. snd (dispatch_event publish now (RAG_OUTBOX_MAX_DISPATCH_ATTEMPTS s) e))
      (claim_pending_events limit db))"
    using assms(2) by (auto simp: dispatch_outbox_def Let_def comp_def)
  moreover have "t \<in> set (snd (dispatch_event publish now (RAG_OUTBOX_MAX_DISPATCH_ATTEMPTS s) e))
      \<longleftrightarrow> event_task e = Inr t \<and> publish t = None" for t e
    by (cases "event_task e"; cases "publish (projr (event_task e))") (auto simp: dispatch_event_def)
  ultimately show "set ts = {t. \<exists>e \<in> set (claim_pending_events limit db). event_task e = Inr t \<and> publish t = None}"
    by (simp add: set_eq_iff)
qed

lemma tables_ok_dispatch:
  assumes inv: "tables_ok (RAG_OUTBOX_MAX_DISPATCH_ATTEMPTS s) db"
    and run: "dispatch_outbox publish s now limit db = (db', ts, r)"
  shows "tables_ok (RAG_OUTBOX_MAX_DISPATCH_ATTEMPTS s) db'"
proof -
  let ?m = "RAG_OUTBOX_MAX_DISPATCH_ATTEMPTS s"
  define f where "f x = (if x \<in> set (claim_pending_events limit db) then outcome_of publish s now x else x)" for x
  have ok: "events_ok ?m db" "requested_ok db" "versions_ok db" "db_inv db"
    using inv by (simp_all add: tables_ok_def)
  have db': "db' = db\<lparr>t_events := map f (t_events db)\<rparr>"
    using dispatch_outbox_effect(1) [OF ok(1) run] by (simp add: f_def [abs_def])
  have d: "distinct (map ev_id (t_events db))" using ok(1) by (simp add: events_ok_def)
  have sel: "ev_id (f x) = ev_id x" "index_event pk v (f x) = index_event pk v x"
    "delete_event pk (f x) = delete_event pk x" for x pk v
    by (simp_all add: f_def)
  have att: "attempts_ok ?m (f e)" if "e \<in> set (t_events db)" for e
    using that ok(1) claimed_events(3) [OF d, of limit] by (simp add: events_ok_def outcome_attempts f_def)
  have "map ev_id (map f (t_events db)) = map ev_id (t_events db)" by (simp add: sel)
  then have "events_ok ?m db'"
    using ok(1) att by (simp add: events_ok_def db' sel del: map_map)
  moreover have "requested_ok db'" using ok(2) by (simp add: requested_ok_def db' sel)
  moreover have "versions_ok db'" using ok(3) by (simp add: versions_ok_def not_ahead_def db' sel)
  ultimately show ?thesis using ok(4) by (simp add: tables_ok_def db')
qed

lemma tables_ok_delete_document:
  assumes inv: "tables_ok m db" and run: "delete_document fault pk store db = (store', Inr (db', r))"
  shows "tables_ok m db'"
proof (cases "db' = db")
  case False
  then obtain d where d: "get_live pk db = Some d"
    and db': "db' = delete_document_row (doc_id d) (delete_chunks_of (doc_id d) db)"
    using run by (auto simp: delete_document_def split: option.splits if_splits delete_fault.splits)
  have mem: "t_documents db' = filter (\<lambda>x. doc_id x \<noteq> doc_id d) (t_documents db)"
    "t_chunks db' = filter (\<lambda>c. ch_document_id c \<noteq> doc_id d) (t_chunks db)"
    "t_events db' = t_events db" "t_kbs db' = t_kbs db" "next_document db' = next_document db"
    "next_event db' = next_event db" "next_kb db' = next_kb db"
    by (simp_all add: db' delete_document_row_def delete_chunks_of_def)
  have kept: "children (doc_id x) db' = children (doc_id x) db" if "doc_id x \<noteq> doc_id d" for x
    using that by (auto simp: children_def mem intro!: filter_cong)
  have "docs_ok db \<Longrightarrow> docs_ok db'" by (auto simp: docs_ok_def mem distinct_map inj_on_def)
  moreover have "chunks_ok db \<Longrightarrow> chunks_ok db'" by (fastforce simp: chunks_ok_def mem chunk_of_def)
  moreover have "ready_ok db \<Longrightarrow> ready_ok db'" by (auto simp: ready_ok_def mem kept)
  ultimately show ?thesis
    using inv by (simp add: tables_ok_def db_inv_def kbs_ok_def homed_ok_def events_ok_def
        requested_ok_def versions_ok_def not_ahead_def mem)
qed (use inv in simp)

section \<open>Every reachable state\<close>

lemma commit_cases:
  obtains "commit r w = w" | db x where "r = Inr (db, x)" "commit r w = w\<lparr>w_db := db\<rparr>"
  by (cases r) (auto simp: commit_def)

lemma tables_ok_commit:
  assumes "tables_ok m (w_db w)" "\<And>db x. r = Inr (db, x) \<Longrightarrow> tables_ok m db"
  shows "tables_ok m (w_db (commit r w))"
  using assms by (cases rule: commit_cases [of r w]) auto

lemma tables_ok_start_task:
  assumes "tables_ok m (w_db w)"
  shows "tables_ok m (w_db (start_task D s now fault t w))"
proof (cases t)
  case (IndexTask d v retries)
  then show ?thesis
    using tables_ok_claim_index [OF assms]
    by (auto simp: start_task_def split: prod.splits option.splits)
next
  case (DeleteTask d retries)
  then show ?thesis
    using tables_ok_delete_document [OF assms] assms
    by (auto simp: start_task_def split: prod.splits sum.splits)
qed

lemma tables_ok_perform:
  assumes inv: "tables_ok (RAG_OUTBOX_MAX_DISPATCH_ATTEMPTS s) (w_db w)"
  shows "tables_ok (RAG_OUTBOX_MAX_DISPATCH_ATTEMPTS s) (w_db (perform D s a w))"
proof (cases a)
  case (CreateKb u obj)
  show ?thesis
    unfolding CreateKb perform.simps by (rule tables_ok_commit [OF inv tables_ok_kb_create [OF inv]])
next
  case (UpdateKb u kb obj)
  show ?thesis
    unfolding UpdateKb perform.simps by (rule tables_ok_commit [OF inv tables_ok_kb_update [OF inv]])
next
  case (DeleteKb now u kb)
  show ?thesis
    unfolding DeleteKb perform.simps
    by (rule tables_ok_commit [OF inv]) (auto simp: res_iffs intro: tables_ok_kb_delete [OF inv])
next
  case (Upload now u kb filename content mime)
  obtain store r where run: "doc_create D s now kb (user_id u) (is_superuser u) filename content mime
      (w_db w) (w_store w) = (store, r)" by fastforce
  have "tables_ok (RAG_OUTBOX_MAX_DISPATCH_ATTEMPTS s) (w_db (commit r (w\<lparr>w_store := store\<rparr>)))"
  proof (rule tables_ok_commit)
    fix db d assume "r = Inr (db, d)"
    with run show "tables_ok (RAG_OUTBOX_MAX_DISPATCH_ATTEMPTS s) db"
      by (auto elim: doc_create_effect [OF inv])
  qed (use inv in simp)
  then show ?thesis by (simp add: Upload run)
next
  case (Retry now u kb d)
  show ?thesis
    unfolding Retry perform.simps by (rule tables_ok_commit [OF inv tables_ok_doc_retry [OF inv]])
next
  case (Delete now u kb d)
  show ?thesis
    unfolding Delete perform.simps
    by (rule tables_ok_commit [OF inv]) (auto simp: res_iffs intro: tables_ok_doc_delete [OF inv])
next
  case (Dispatch publish now limit)
  then show ?thesis using tables_ok_dispatch [OF inv] by (auto split: prod.split)
next
  case (DispatchLost publish now limit)
  then show ?thesis using inv by (auto split: prod.split)
next
  case (StartTask n now fault)
  then show ?thesis using inv tables_ok_start_task by simp
next
  case (IndexStep n now emb)
  then show ?thesis
    using inv tables_ok_index_claimed [OF inv] by (auto split: worker.split sum.split)
next
  case (FailStep n now)
  then show ?thesis
    using inv tables_ok_index_failure [OF inv] by (auto split: worker.split simp: case_prod_beta)
next
  case (CrashWorker n)
  then show ?thesis using inv by (auto split: worker.split)
next
  case (Repair now sent)
  then show ?thesis using tables_ok_repair [OF inv] by (auto split: prod.split)
qed

lemma reachable_tables_ok:
  "reachable D s w \<Longrightarrow> tables_ok (RAG_OUTBOX_MAX_DISPATCH_ATTEMPTS s) (w_db w)"
proof (induction rule: reachable.induct)
  case initial
  then show ?case
    by (simp add: init_world_def empty_db_def tables_ok_def db_inv_def docs_ok_def kbs_ok_def
        chunks_ok_def ready_ok_def homed_ok_def events_ok_def requested_ok_def versions_ok_def)
qed (rule tables_ok_perform)

end
