(* ===== verification/LifecycleMoves.thy ===== *)
theory LifecycleMoves
  imports LifecycleOps
begin

text \<open>
  How a document moves: the steps between its states, who removes it, and what happens to the
  events. Every lemma compares the tables before and after one step.
\<close>

section \<open>Moves of a document\<close>

definition status_move :: "document_status \<Rightarrow> document_status \<Rightarrow> bool" where
  "status_move a b \<longleftrightarrow> a = b \<or> b = DELETING \<or> a = PENDING \<and> b = PROCESSING
     \<or> a = PROCESSING \<and> b = READY \<or> a \<notin> {READY, DELETING} \<and> b \<in> {PENDING, FAILED}"

text \<open>At the same version by the status machine, or to PENDING at the next version.\<close>

definition moves :: "document \<Rightarrow> document \<Rightarrow> bool" where
  "moves d d' \<longleftrightarrow> same_identity d d' \<and>
     (doc_index_version d' = doc_index_version d \<and> status_move (doc_status d) (doc_status d')
      \<or> doc_index_version d' = doc_index_version d + 1 \<and> doc_status d' = PENDING)"

definition keeps :: "rag_db \<Rightarrow> rag_db \<Rightarrow> bool" where
  "keeps db db' \<longleftrightarrow> (\<forall>d \<in> set (t_documents db). \<exists>d' \<in> set (t_documents db'). moves d d')
     \<and> (\<forall>d' \<in> set (t_documents db'). \<exists>d \<in> set (t_documents db). moves d d')"

lemma moves_refl [simp]: "moves d d"
  by (simp add: moves_def status_move_def)

lemma moves_touched [simp]: "moves d (touched now d d') \<longleftrightarrow> moves d d'"
  by (simp add: moves_def)

lemma keeps_same: "t_documents db' = t_documents db \<Longrightarrow> keeps db db'"
  unfolding keeps_def by (metis moves_refl)

lemma tables_docs_ok [dest]: "tables_ok m db \<Longrightarrow> docs_ok db"
  by (simp add: tables_ok_def db_inv_def)

lemma keeps_image:
  assumes "\<And>x. x \<in> set (t_documents db') \<longleftrightarrow> x \<in> f ` set ds \<or> x \<in> set (t_documents db) - set ds"
    "set ds \<subseteq> set (t_documents db)" "\<And>d. d \<in> set ds \<Longrightarrow> moves d (f d)"
  shows "keeps db db'"
  unfolding keeps_def
proof (intro conjI ballI)
  fix d assume d: "d \<in> set (t_documents db)"
  show "\<exists>d' \<in> set (t_documents db'). moves d d'"
  proof (cases "d \<in> set ds")
    case True then show ?thesis using assms(1) [of "f d"] assms(3) by blast
  next
    case False then show ?thesis using assms(1) [of d] d moves_refl by blast
  qed
next
  fix d' assume "d' \<in> set (t_documents db')"
  then show "\<exists>d \<in> set (t_documents db). moves d d'"
    unfolding assms(1) using assms(2,3) moves_refl by blast
qed

lemma keeps_save:
  assumes "docs_ok db" "d \<in> set (t_documents db)" "moves d d'"
    "t_documents db' = t_documents (save_document now d d' db)"
  shows "keeps db db'"
proof (rule keeps_image [where f = "\<lambda>_. touched now d d'" and ds = "[d]"])
  have "doc_id d' = doc_id d" using assms(3) by (simp add: moves_def same_identity_def)
  then show "x \<in> set (t_documents db') \<longleftrightarrow>
      x \<in> (\<lambda>_. touched now d d') ` set [d] \<or> x \<in> set (t_documents db) - set [d]" for x
    using mem_save_document [of db d d' x now] assms(1,2,4) by (simp add: docs_ok_def)
qed (use assms in simp_all)

lemma keeps_kb_delete:
  assumes "tables_ok m db" "kb_delete now pk u adm db = Inr db'"
  shows "keeps db db'"
proof -
  obtain k where k: "kb_get pk u adm True db = Inr k"
    using assms(2) by (auto simp: kb_delete_def res_iffs)
  let ?ds = "filter (\<lambda>d. doc_kb_id d = kb_id k \<and> doc_deleted d = 0) (t_documents db)"
  have "distinct (map doc_id ?ds)"
    using assms(1) by (auto simp: docs_ok_def distinct_map inj_on_def dest!: tables_docs_ok)
  from request_deletions_effect [OF assms(1) this, of now] obtain db1 where
    db1: "request_deletions now ?ds db = Inr db1" "\<And>x. x \<in> set (t_documents db1) \<longleftrightarrow>
      x \<in> (\<lambda>d. touched now d (d\<lparr>doc_status := DELETING\<rparr>)) ` set ?ds \<or> x \<in> set (t_documents db) - set ?ds"
    by auto
  have "t_documents db' = t_documents db1"
    using assms(2) k db1(1)
    by (auto simp: kb_delete_def save_kb_def request_deletions_kbs split: if_splits)
  then show ?thesis
    using keeps_image [of db' _ ?ds db] db1(2)
    by (auto simp: moves_def same_identity_def status_move_def)
qed

lemma keeps_doc_delete:
  assumes "tables_ok m db" "doc_delete now kb pk u adm db = Inr db'"
  shows "keeps db db'"
proof -
  obtain d where d: "doc_get kb pk u adm True db = Inr d"
    using assms(2) by (auto simp: doc_delete_def res_iffs)
  have mem: "set [d] \<subseteq> set (t_documents db)" using doc_get_InrD [OF d] by simp
  obtain db1 where db1: "request_deletions now [d] db = Inr db1" "\<And>x. x \<in> set (t_documents db1) \<longleftrightarrow>
      x \<in> (\<lambda>d. touched now d (d\<lparr>doc_status := DELETING\<rparr>)) ` set [d] \<or> x \<in> set (t_documents db) - set [d]"
    using request_deletions_effect [OF assms(1) _ mem, of now] by auto
  have "db' = db1" using assms(2) d db1(1) by (auto simp: doc_delete_def res_iffs)
  then show ?thesis
    using keeps_image [of db1 _ "[d]" db] db1(2) mem
    by (simp add: moves_def same_identity_def status_move_def)
qed

lemma keeps_doc_retry:
  assumes "tables_ok m db" "doc_retry D s now kb pk u adm db = Inr (db', d')"
  shows "keeps db db'"
proof -
  obtain d db1 p where d: "doc_get kb pk u adm True db = Inr d"
    and p: "get_or_create_index_profile (sha256_text D) (index_settings.truncate s) db = Inr (db1, p)"
    using assms(2) by (auto simp: doc_retry_def Let_def res_iffs)
  let ?d = "d\<lparr>doc_status := PENDING, doc_error_message := None,
    doc_index_version := doc_index_version d + 1, doc_index_profile_id := Some (ip_id p)\<rparr>"
  have db1: "tables_ok m db1" "t_documents db1 = t_documents db"
    using profile_effect [OF p] assms(1) by auto
  have "events_ok m (save_document now d ?d db1)" using db1(1) by (simp add: tables_ok_def)
  from enqueue_document_index_effect [OF this, of "doc_id ?d" "doc_index_version ?d"]
  have "t_documents db' = t_documents (save_document now d ?d db1)"
    using assms(2) d p by (auto simp: doc_retry_def Let_def)
  then have "t_documents db' = t_documents (save_document now d ?d db)"
    using db1(2) by (simp add: save_document_def)
  then show ?thesis
    using keeps_save [of db d ?d db' now] doc_get_InrD [OF d] assms(1)
    by (auto simp: moves_def same_identity_def)
qed

lemma keeps_claim_index:
  assumes "docs_ok db" "claim_index now pk v db = (db', r, eff)"
  shows "keeps db db'"
  using assms(2)
proof (cases rule: claim_index_cases)
  case (claimed d)
  show ?thesis
    by (rule keeps_save [OF assms(1), where d = d and now = now])
      (use claimed get_live_SomeD [OF claimed(1)]
        in \<open>auto simp: moves_def same_identity_def status_move_def\<close>)
qed (simp add: keeps_same)

lemma keeps_index_claimed:
  assumes "db_inv db" "index_claimed_document D s now pk v store db = Inr (db', r)"
  shows "keeps db db'"
  using assms(2)
proof (cases rule: index_claimed_cases)
  case (indexed d content d')
  have d: "d \<in> set (t_documents db)" using get_live_SomeD [OF indexed(1)] by simp
  obtain cs n where "db' = save_document now d d' (db\<lparr>t_chunks := cs, next_chunk := n\<rparr>)"
    using index_content_effect [OF indexed(5)] by blast
  then have "t_documents db' = t_documents (save_document now d d' db)" by (simp add: save_document_def)
  moreover have "moves d d'"
    using db_inv_index [OF assms(1) d indexed(3,5)] indexed(3) by (simp add: moves_def status_move_def)
  moreover have "docs_ok db" using assms(1) by (simp add: db_inv_def)
  ultimately show ?thesis using keeps_save d by blast
qed (simp add: keeps_same)

lemma keeps_index_failure:
  assumes "docs_ok db"
  shows "keeps db (fst (index_failure s now pk v eff retries e db))"
proof (rule index_failure_db)
  fix b st assume st: "st = PENDING \<or> st = FAILED"
    and run: "mark_index_failure now pk eff st (sanitize_index_error e) db
      = Inr (fst (index_failure s now pk v eff retries e db), b)"
  from run show ?thesis
  proof (cases rule: mark_index_failure_cases)
    case (marked d)
    show ?thesis
      unfolding marked(6)
      by (rule keeps_save [OF assms, where d = d and now = now])
        (use marked get_live_SomeD [OF marked(1)]
          in \<open>auto simp: moves_def same_identity_def status_move_def\<close>)
  qed (simp add: keeps_same)
qed

lemma keeps_repair:
  assumes "tables_ok m db" "repair_stuck_document s now db = (db', ts, r)"
  shows "keeps db db'"
proof -
  let ?ds = "get_stale_index_documents (now - RAG_INDEX_STALE_SECONDS s) 100 db"
  have ds: "distinct (map doc_id ?ds)" "set ?ds \<subseteq> set (t_documents db)"
    "\<forall>d \<in> set ?ds. doc_status d = PENDING \<or> doc_status d = PROCESSING"
    using stale_documents assms(1) by blast+
  have "db' = recover_documents now ?ds db"
    using assms(2) by (auto simp: repair_stuck_document_def recover_stale_indexes_def Let_def)
  then have "x \<in> set (t_documents db') \<longleftrightarrow> x \<in> recovered now ` set ?ds \<or> x \<in> set (t_documents db) - set ?ds"
    for x
    using recover_documents_effect [OF assms(1) ds, of now] by simp
  moreover have "moves d (recovered now d)" if "d \<in> set ?ds" for d
    using that ds(3) by (auto simp: moves_def same_identity_def status_move_def recovered_def)
  ultimately show ?thesis using keeps_image ds(2) by blast
qed

section \<open>One step\<close>

lemma keeps_commit: "(\<And>db x. r = Inr (db, x) \<Longrightarrow> keeps (w_db w) db) \<Longrightarrow> keeps (w_db w) (w_db (commit r w))"
  by (cases rule: commit_cases [of r w]) (auto simp: keeps_same)

text \<open>The step that removes a document.\<close>

definition removes :: "action \<Rightarrow> world \<Rightarrow> document \<Rightarrow> bool" where
  "removes a w d \<longleftrightarrow> (\<exists>n now retries. a = StartTask n now None \<and> n < length (w_queue w)
     \<and> w_queue w ! n = DeleteTask (doc_id d) retries \<and> doc_status d = DELETING)"

text \<open>The steps that add or remove a row.\<close>

fun grows_or_shrinks :: "action \<Rightarrow> world \<Rightarrow> bool" where
  "grows_or_shrinks (Upload _ _ _ _ _ _) w = True"
| "grows_or_shrinks (StartTask n _ _) w =
     (n < length (w_queue w) \<and> (case w_queue w ! n of DeleteTask _ _ \<Rightarrow> True | _ \<Rightarrow> False))"
| "grows_or_shrinks _ w = False"

lemma perform_keeps_db:
  assumes inv: "tables_ok (RAG_OUTBOX_MAX_DISPATCH_ATTEMPTS s) (w_db w)"
    and a: "\<not> grows_or_shrinks a w"
  shows "keeps (w_db w) (w_db (perform D s a w))"
proof -
  have ok: "docs_ok (w_db w)" "db_inv (w_db w)" using inv by (simp_all add: tables_ok_def db_inv_def)
  show ?thesis
  proof (cases a)
    case (CreateKb u obj)
    show ?thesis
      unfolding CreateKb perform.simps
      by (rule keeps_commit, rule keeps_same)
        (auto simp: kb_create_def insert_kb_def Let_def split: if_splits)
  next
    case (UpdateKb u kb obj)
    show ?thesis
      unfolding UpdateKb perform.simps
      by (rule keeps_commit, rule keeps_same)
        (auto simp: kb_update_def save_kb_def res_iffs split: if_splits)
  next
    case (DeleteKb now u kb)
    show ?thesis
      unfolding DeleteKb perform.simps
      by (rule keeps_commit) (auto simp: res_iffs intro: keeps_kb_delete [OF inv])
  next
    case (Upload now u kb filename content mime)
    then show ?thesis using a by simp
  next
    case (Retry now u kb i)
    show ?thesis
      unfolding Retry perform.simps by (rule keeps_commit) (rule keeps_doc_retry [OF inv])
  next
    case (Delete now u kb i)
    show ?thesis
      unfolding Delete perform.simps
      by (rule keeps_commit) (auto simp: res_iffs intro: keeps_doc_delete [OF inv])
  next
    case (Dispatch publish now limit)
    have "events_ok (RAG_OUTBOX_MAX_DISPATCH_ATTEMPTS s) (w_db w)" using inv by (simp add: tables_ok_def)
    then have "t_documents db' = t_documents (w_db w)"
      if "dispatch_outbox publish s now limit (w_db w) = (db', ts, r)" for db' ts r
      using dispatch_outbox_effect(1) [OF _ that] by simp
    then show ?thesis by (auto simp: Dispatch intro!: keeps_same split: prod.split)
  next
    case (DispatchLost publish now limit)
    then show ?thesis by (auto intro!: keeps_same split: prod.split)
  next
    case (StartTask n now fault)
    show ?thesis
    proof (cases "n < length (w_queue w)")
      case True
      then obtain i v retries where "w_queue w ! n = IndexTask i v retries"
        using a by (cases "w_queue w ! n") (auto simp: StartTask)
      then show ?thesis
        using True keeps_claim_index [OF ok(1), of now i v]
        by (auto simp: StartTask start_task_def split: prod.splits option.splits)
    qed (simp add: StartTask keeps_same)
  next
    case (IndexStep n now emb)
    then show ?thesis
      using keeps_index_claimed [OF ok(2), of "D\<lparr>dep_embed := emb\<rparr>" s now]
      by (auto simp: keeps_same split: worker.split sum.split)
  next
    case (FailStep n now)
    then show ?thesis
      using keeps_index_failure [OF ok(1), of s now]
      by (auto simp: keeps_same case_prod_beta split: worker.split)
  next
    case (CrashWorker n)
    then show ?thesis by (auto simp: keeps_same split: worker.split)
  next
    case (Repair now sent)
    then show ?thesis using keeps_repair [OF inv, of s now] by (auto split: prod.split)
  qed
qed

lemma perform_delete_task:
  assumes "docs_ok (w_db w)" "n < length (w_queue w)" "w_queue w ! n = DeleteTask i retries"
    "w' = perform D s (StartTask n now fault) w"
  obtains (kept) "w_db w' = w_db w" "w_store w' = w_store w"
      "\<And>d. d \<in> set (t_documents (w_db w)) \<Longrightarrow> doc_id d = i \<Longrightarrow> doc_status d \<noteq> DELETING \<or> fault \<noteq> None"
  | (gone) d where "d \<in> set (t_documents (w_db w))" "doc_id d = i" "doc_status d = DELETING"
      "fault = None" "w_db w' = delete_document_row i (delete_chunks_of i (w_db w))"
      "w_store w' = storage_delete (doc_storage_key d) (w_store w)"
  | (cut) d e where "d \<in> set (t_documents (w_db w))" "doc_id d = i" "doc_status d = DELETING"
      "fault = Some (Commit_fails e)" "w_db w' = w_db w"
      "w_store w' = storage_delete (doc_storage_key d) (w_store w)"
proof (cases "get_live i (w_db w)")
  case None
  then have "doc_id d \<noteq> i" if "d \<in> set (t_documents (w_db w))" for d
    using that assms(1) by (auto simp: get_live_def find_None_iff docs_ok_def)
  then show thesis
    using kept assms None by (auto simp: start_task_def delete_document_def)
next
  case (Some d)
  note d = get_live_SomeD [OF Some]
  consider (go) "doc_status d = DELETING" "fault = None"
    | (stop) e where "doc_status d = DELETING" "fault = Some (Commit_fails e)"
    | (stay) "doc_status d \<noteq> DELETING \<or> (\<exists>e. fault = Some (Unlink_fails e))"
    by (metis delete_fault.exhaust option.exhaust)
  then show thesis
  proof cases
    case go
    then show thesis
      using gone [of d] assms Some d by (auto simp: start_task_def delete_document_def)
  next
    case (stop e)
    then show thesis
      using cut [of d e] assms Some d by (auto simp: start_task_def delete_document_def)
  next
    case stay
    then have "doc_status x \<noteq> DELETING \<or> fault \<noteq> None"
      if "x \<in> set (t_documents (w_db w))" "doc_id x = i" for x
      using that d same_doc [OF assms(1), of d x] by auto
    then show thesis
      using kept assms Some stay
      by (auto simp: start_task_def delete_document_def)
  qed
qed

lemma perform_keeps:
  assumes inv: "tables_ok (RAG_OUTBOX_MAX_DISPATCH_ATTEMPTS s) (w_db w)"
    and d: "d \<in> set (t_documents (w_db w))" "\<not> removes a w d"
  shows "\<exists>d' \<in> set (t_documents (w_db (perform D s a w))). moves d d'"
proof (cases "grows_or_shrinks a w")
  case False
  then show ?thesis using perform_keeps_db [OF inv] d(1) by (auto simp: keeps_def)
next
  case True
  have ok: "docs_ok (w_db w)" using inv by (simp add: tables_ok_def db_inv_def)
  have "d \<in> set (t_documents (w_db (perform D s a w)))"
  proof (cases a)
    case (Upload now u kb filename content mime)
    obtain store r where run: "doc_create D s now kb (user_id u) (is_superuser u) filename content mime
        (w_db w) (w_store w) = (store, r)" by fastforce
    show ?thesis
    proof (cases r)
      case (Inr x)
      then obtain db d' where "r = Inr (db, d')" by (cases x) simp
      with run have "d \<in> set (t_documents db)"
        using d(1) by (auto elim: doc_create_effect [OF inv])
      then show ?thesis using \<open>r = Inr (db, d')\<close> by (simp add: Upload run commit_def)
    qed (use d(1) in \<open>simp add: Upload run commit_def\<close>)
  next
    case (StartTask n now fault)
    then obtain i retries where n: "n < length (w_queue w)" "w_queue w ! n = DeleteTask i retries"
      using True by (auto split: task.splits)
    show ?thesis
      using ok n refl
    proof (cases rule: perform_delete_task [where D = D and s = s and now = now and fault = fault])
      case kept then show ?thesis using d(1) by (simp add: StartTask)
    next
      case (cut x e) then show ?thesis using d(1) by (simp add: StartTask)
    next
      case (gone x)
      then have "d \<noteq> x" using d(2) n by (auto simp: StartTask removes_def)
      then have "doc_id d \<noteq> i" using same_doc [OF ok gone(1) d(1)] gone(2) by auto
      then show ?thesis using d(1) gone(5) by (simp add: StartTask delete_document_row_def delete_chunks_of_def)
    qed
  qed (use True in simp_all)
  then show ?thesis using moves_refl by blast
qed

section \<open>Events\<close>

text \<open>
  What a step does to an event: nothing, or one attempt to deliver it. An event is never removed,
  and its message never changes.
\<close>

definition event_move :: "outbox_event \<Rightarrow> outbox_event \<Rightarrow> bool" where
  "event_move e e' \<longleftrightarrow> e' = e \<or> claimable e \<and> ev_id e' = ev_id e \<and> ev_type e' = ev_type e
     \<and> ev_aggregate_id e' = ev_aggregate_id e \<and> ev_dedupe_key e' = ev_dedupe_key e
     \<and> ev_payload e' = ev_payload e \<and> ev_dispatch_attempts e' = ev_dispatch_attempts e + 1"

definition events_kept :: "rag_db \<Rightarrow> rag_db \<Rightarrow> bool" where
  "events_kept db db' \<longleftrightarrow> (\<forall>e \<in> set (t_events db). \<exists>e' \<in> set (t_events db'). event_move e e')"

lemma event_move_refl [simp]: "event_move e e"
  by (simp add: event_move_def)

lemma events_kept_mono: "set (t_events db) \<subseteq> set (t_events db') \<Longrightarrow> events_kept db db'"
  unfolding events_kept_def using event_move_refl by blast

lemma events_kept_same: "t_events db' = t_events db \<Longrightarrow> events_kept db db'"
  by (simp add: events_kept_mono)

lemma event_move_outcome: "claimable e \<Longrightarrow> event_move e (outcome_of publish s now e)"
  by (cases rule: outcome_of_cases [of e publish s now])
    (auto simp: event_move_def mark_dispatched_def mark_failed_def Let_def)

lemma events_kept_dispatch:
  assumes "events_ok m db" "dispatch_outbox publish s now limit db = (db', ts, r)"
  shows "events_kept db db'"
proof -
  have d: "distinct (map ev_id (t_events db))" using assms(1) by (simp add: events_ok_def)
  show ?thesis
    unfolding events_kept_def
  proof
    fix e assume e: "e \<in> set (t_events db)"
    let ?e = "if e \<in> set (claim_pending_events limit db) then outcome_of publish s now e else e"
    have "?e \<in> set (t_events db')"
      using e by (simp add: dispatch_outbox_effect(1) [OF assms])
    moreover have "event_move e ?e"
      using event_move_outcome claimed_events(3) [OF d, of limit] by simp
    ultimately show "\<exists>e' \<in> set (t_events db'). event_move e e'" by blast
  qed
qed

lemma events_kept_kb_delete:
  assumes "tables_ok m db" "kb_delete now pk u adm db = Inr db'"
  shows "events_kept db db'"
proof -
  obtain k where k: "kb_get pk u adm True db = Inr k"
    using assms(2) by (auto simp: kb_delete_def res_iffs)
  let ?ds = "filter (\<lambda>d. doc_kb_id d = kb_id k \<and> doc_deleted d = 0) (t_documents db)"
  have "distinct (map doc_id ?ds)"
    using assms(1) by (auto simp: docs_ok_def distinct_map inj_on_def dest!: tables_docs_ok)
  from request_deletions_effect [OF assms(1) this, of now] obtain db1 evs where
    db1: "request_deletions now ?ds db = Inr db1" "t_events db1 = t_events db @ evs"
    by auto
  have "t_events db' = t_events db1"
    using assms(2) k db1(1)
    by (auto simp: kb_delete_def save_kb_def request_deletions_kbs split: if_splits)
  then show ?thesis using db1(2) by (simp add: events_kept_mono)
qed

lemma events_kept_doc_delete:
  assumes "tables_ok m db" "doc_delete now kb pk u adm db = Inr db'"
  shows "events_kept db db'"
proof -
  obtain d where d: "doc_get kb pk u adm True db = Inr d"
    using assms(2) by (auto simp: doc_delete_def res_iffs)
  have mem: "set [d] \<subseteq> set (t_documents db)" using doc_get_InrD [OF d] by simp
  obtain db1 evs where db1: "request_deletions now [d] db = Inr db1" "t_events db1 = t_events db @ evs"
    using request_deletions_effect [OF assms(1) _ mem, of now] by auto
  have "db' = db1" using assms(2) d db1(1) by (auto simp: doc_delete_def res_iffs)
  then show ?thesis using db1(2) by (simp add: events_kept_mono)
qed

lemma events_kept_doc_retry:
  assumes "tables_ok m db" "doc_retry D s now kb pk u adm db = Inr (db', d')"
  shows "events_kept db db'"
proof -
  obtain d db1 p where d: "doc_get kb pk u adm True db = Inr d"
    and p: "get_or_create_index_profile (sha256_text D) (index_settings.truncate s) db = Inr (db1, p)"
    using assms(2) by (auto simp: doc_retry_def Let_def res_iffs)
  let ?d = "d\<lparr>doc_status := PENDING, doc_error_message := None,
    doc_index_version := doc_index_version d + 1, doc_index_profile_id := Some (ip_id p)\<rparr>"
  have db1: "tables_ok m db1" "t_events db1 = t_events db"
    using profile_effect [OF p] assms(1) by auto
  have "events_ok m (save_document now d ?d db1)" using db1(1) by (simp add: tables_ok_def)
  from enqueue_document_index_effect [OF this, of "doc_id ?d" "doc_index_version ?d"]
  have "\<exists>evs. t_events db' = t_events db1 @ evs"
    using assms(2) d p by (auto simp: doc_retry_def Let_def)
  then show ?thesis using db1(2) by (auto intro: events_kept_mono)
qed

lemma events_kept_claim_index:
  "claim_index now pk v db = (db', r, eff) \<Longrightarrow> t_events db' = t_events db"
  by (cases rule: claim_index_cases, assumption) auto

lemma events_kept_index_claimed:
  assumes "index_claimed_document D s now pk v store db = Inr (db', r)"
  shows "t_events db' = t_events db"
  using assms
proof (cases rule: index_claimed_cases)
  case (indexed d content d')
  then show ?thesis using index_content_effect [OF indexed(5)] by auto
qed simp

lemma events_kept_index_failure: "t_events (fst (index_failure s now pk v eff retries e db)) = t_events db"
proof (rule index_failure_db)
  fix b st assume "mark_index_failure now pk eff st (sanitize_index_error e) db
      = Inr (fst (index_failure s now pk v eff retries e db), b)"
  then show ?thesis by (cases rule: mark_index_failure_cases) auto
qed

lemma events_kept_repair:
  assumes "tables_ok m db" "repair_stuck_document s now db = (db', ts, r)"
  shows "t_events db' = t_events db"
proof -
  let ?ds = "get_stale_index_documents (now - RAG_INDEX_STALE_SECONDS s) 100 db"
  have ds: "distinct (map doc_id ?ds)" "set ?ds \<subseteq> set (t_documents db)"
    "\<forall>d \<in> set ?ds. doc_status d = PENDING \<or> doc_status d = PROCESSING"
    using stale_documents assms(1) by blast+
  have "db' = recover_documents now ?ds db"
    using assms(2) by (auto simp: repair_stuck_document_def recover_stale_indexes_def Let_def)
  then show ?thesis using recover_documents_effect [OF assms(1) ds, of now] by simp
qed

lemma events_kept_commit:
  "(\<And>db x. r = Inr (db, x) \<Longrightarrow> events_kept (w_db w) db) \<Longrightarrow> events_kept (w_db w) (w_db (commit r w))"
  by (cases rule: commit_cases [of r w]) (auto simp: events_kept_same)

lemma perform_events:
  assumes inv: "tables_ok (RAG_OUTBOX_MAX_DISPATCH_ATTEMPTS s) (w_db w)"
  shows "events_kept (w_db w) (w_db (perform D s a w))"
proof (cases a)
  case (CreateKb u obj)
  show ?thesis
    unfolding CreateKb perform.simps
    by (rule events_kept_commit, rule events_kept_same)
      (auto simp: kb_create_def insert_kb_def Let_def split: if_splits)
next
  case (UpdateKb u kb obj)
  show ?thesis
    unfolding UpdateKb perform.simps
    by (rule events_kept_commit, rule events_kept_same)
      (auto simp: kb_update_def save_kb_def res_iffs split: if_splits)
next
  case (DeleteKb now u kb)
  show ?thesis
    unfolding DeleteKb perform.simps
    by (rule events_kept_commit) (auto simp: res_iffs intro: events_kept_kb_delete [OF inv])
next
  case (Upload now u kb filename content mime)
  obtain store r where run: "doc_create D s now kb (user_id u) (is_superuser u) filename content mime
      (w_db w) (w_store w) = (store, r)" by fastforce
  have "events_kept (w_db w) db" if "r = Inr (db, x)" for db x
    using run unfolding that
    by (rule doc_create_effect [OF inv]) (auto intro: events_kept_mono)
  then show ?thesis
    unfolding Upload perform.simps run prod.case
    using events_kept_commit [of r "w\<lparr>w_store := store\<rparr>"] by simp
next
  case (Retry now u kb i)
  show ?thesis
    unfolding Retry perform.simps by (rule events_kept_commit) (rule events_kept_doc_retry [OF inv])
next
  case (Delete now u kb i)
  show ?thesis
    unfolding Delete perform.simps
    by (rule events_kept_commit) (auto simp: res_iffs intro: events_kept_doc_delete [OF inv])
next
  case (Dispatch publish now limit)
  have "events_ok (RAG_OUTBOX_MAX_DISPATCH_ATTEMPTS s) (w_db w)" using inv by (simp add: tables_ok_def)
  from events_kept_dispatch [OF this] show ?thesis by (auto simp: Dispatch split: prod.split)
next
  case (DispatchLost publish now limit)
  then show ?thesis by (auto intro!: events_kept_same split: prod.split)
next
  case (StartTask n now fault)
  have "events_kept (w_db w) (w_db (start_task D s now fault t w'))" if "w_db w' = w_db w" for t w'
  proof (cases t)
    case (IndexTask i v retries)
    then show ?thesis
      using that events_kept_claim_index [of now i v "w_db w"]
      by (auto simp: start_task_def intro!: events_kept_same split: prod.splits option.splits)
  next
    case (DeleteTask i retries)
    then show ?thesis
      using that
      by (auto simp: start_task_def delete_document_def delete_document_row_def delete_chunks_of_def
          intro!: events_kept_same split: option.splits delete_fault.split)
  qed
  then show ?thesis by (simp add: StartTask events_kept_same)
next
  case (IndexStep n now emb)
  then show ?thesis
    using events_kept_index_claimed [of "D\<lparr>dep_embed := emb\<rparr>" s now]
    by (auto intro!: events_kept_same split: worker.split sum.split)
next
  case (FailStep n now)
  then show ?thesis
    using events_kept_index_failure [of s now]
    by (auto simp: case_prod_beta intro!: events_kept_same split: worker.split)
next
  case (CrashWorker n)
  then show ?thesis by (auto intro!: events_kept_same split: worker.split)
next
  case (Repair now sent)
  then show ?thesis
    using events_kept_repair [OF inv, of s now] by (auto intro!: events_kept_same split: prod.split)
qed

end
