(* ===== verification/LifecycleProps.thy ===== *)
theory LifecycleProps
  imports LifecycleMoves
begin

text \<open>
  The properties of the document lifecycle, over every sequence of steps, and a concrete run for
  their examples.
\<close>

section \<open>A concrete run\<close>

definition sample_deps :: deps where
  "sample_deps = \<lparr>dep_sha256 = (\<lambda>_. replicate 64 48), dep_readers = sample_readers,
     dep_jieba = (\<lambda>s. [s]), dep_embed = (\<lambda>ts. Inr (map (\<lambda>_. [0]) ts))\<rparr>"

definition sample_settings :: rag_settings where
  "sample_settings = \<lparr>RAG_CHUNK_SIZE = 600, RAG_CHUNK_OVERLAP = 80, RAG_EMBEDDING_MODEL = asc ''m'',
     RAG_EMBEDDING_DIMENSIONS = 1, RAG_EMBEDDING_BATCH_SIZE = 10, RAG_MAX_FILE_SIZE = 1048576,
     RAG_PDF_LIMITS = sample_limits, RAG_INDEX_MAX_RETRIES = 3,
     RAG_INDEX_RETRY_BACKOFF_MAX_SECONDS = 60, RAG_INDEX_STALE_SECONDS = 900,
     RAG_OUTBOX_MAX_DISPATCH_ATTEMPTS = 10\<rparr>"

definition sample_owner :: caller where
  "sample_owner = \<lparr>user_id = 7, is_superuser = False\<rparr>"

definition sample_embed :: "ustr list \<Rightarrow> embedding list res" where
  "sample_embed ts = Inr (map (\<lambda>_. [0]) ts)"

definition run :: "action list \<Rightarrow> world" where
  "run acts = fold (perform sample_deps sample_settings) acts init_world"

text \<open>A knowledge base, an upload, its dispatch, the claim and the index transaction.\<close>

definition upload_acts :: "action list" where
  "upload_acts =
    [CreateKb sample_owner \<lparr>ckb_name = asc ''kb'', ckb_description = None, ckb_is_public = False\<rparr>,
     Upload 0 sample_owner 1 (asc ''a.txt'') (asc ''hi'') None, Dispatch (\<lambda>_. None) 1 100]"

definition index_acts :: "action list" where
  "index_acts = upload_acts @ [StartTask 0 2 None, IndexStep 0 3 sample_embed]"

lemma reachable_run: "reachable sample_deps sample_settings (run acts)"
proof -
  have "reachable sample_deps sample_settings w \<Longrightarrow>
      reachable sample_deps sample_settings (fold (perform sample_deps sample_settings) acts w)" for w
    by (induction acts arbitrary: w) (auto intro: reachable.step)
  then show ?thesis by (simp add: run_def reachable.initial)
qed

lemma map_eq_singletonD: "map f xs = [y] \<Longrightarrow> \<exists>x. xs = [x] \<and> f x = y"
  by (cases xs) auto

lemma get_live_mem:
  assumes "docs_ok db" "d \<in> set (t_documents db)"
  shows "get_live (doc_id d) db = Some d"
proof (cases "get_live (doc_id d) db")
  case None
  then show ?thesis using assms by (auto simp: get_live_def find_None_iff docs_ok_def)
next
  case (Some x)
  then show ?thesis using get_live_SomeD [OF Some] same_doc [OF assms] by simp
qed

section \<open>What a READY document holds\<close>

text \<open>
  C8: in every reachable state a READY document has as many child chunks as it says, and all its
  chunks carry its knowledge base and its current index version: a reader never sees a mixture of
  two versions, whatever runs, retries, crashes and redeliveries came before.
\<close>

theorem ready_documents_complete:
  assumes "reachable D s w" "d \<in> set (t_documents (w_db w))" "doc_status d = READY"
  shows "int (length (children (doc_id d) (w_db w))) = doc_chunk_count d
    \<and> (\<forall>c \<in> set (t_chunks (w_db w)). ch_document_id c = doc_id d \<longrightarrow>
         ch_kb_id c = doc_kb_id d \<and> ch_index_version c = doc_index_version d)"
proof -
  have ok: "docs_ok (w_db w)" "chunks_ok (w_db w)" "ready_ok (w_db w)"
    using reachable_tables_ok [OF assms(1)] by (simp_all add: tables_ok_def db_inv_def)
  have "ch_kb_id c = doc_kb_id d \<and> ch_index_version c = doc_index_version d"
    if c: "c \<in> set (t_chunks (w_db w))" "ch_document_id c = doc_id d" for c
  proof -
    obtain x where x: "x \<in> set (t_documents (w_db w))" "chunk_of x c"
      by (rule bexE [OF bspec [OF ok(2) [unfolded chunks_ok_def] c(1)]])
    have "doc_id x = doc_id d" using x(2) unfolding chunk_of_def c(2) by (metis)
    then have "x = d" by (rule same_doc [OF ok(1) assms(2) x(1)])
    then show ?thesis using x(2) assms(3) by (simp add: chunk_of_def)
  qed
  then show ?thesis using ok(3) assms(2,3) by (simp add: ready_ok_def)
qed

theorem ready_documents_complete_witness:
  "\<exists>d. t_documents (w_db (run index_acts)) = [d] \<and> doc_status d = READY
     \<and> int (length (children (doc_id d) (w_db (run index_acts)))) = doc_chunk_count d"
proof -
  have "map doc_status (t_documents (w_db (run index_acts))) = [READY]" by code_simp
  then obtain d where d: "t_documents (w_db (run index_acts)) = [d]" "doc_status d = READY"
    using map_eq_singletonD by blast
  then show ?thesis
    using ready_documents_complete [OF reachable_run [of index_acts], of d] by simp
qed

section \<open>Deleted knowledge bases\<close>

text \<open>
  C9: when requests take effect one after the other, as the steps of this state machine do, the documents of a
  deleted knowledge base are DELETING in every reachable state, and their deletion has been requested in the
  outbox: no worker that is late, fails or is redelivered, no repair and no later request brings one back. The code does not
  enforce that order: theory \<open>Races\<close> shows what an upload or a retry leaves that read before the deletion
  of its knowledge base was committed and wrote afterwards.
\<close>

theorem deleted_kb_documents:
  assumes "reachable D s w" "kb \<in> set (t_kbs (w_db w))" "kb_deleted kb \<noteq> 0"
    "d \<in> set (t_documents (w_db w))" "doc_kb_id d = kb_id kb"
  shows "doc_status d = DELETING \<and> (\<exists>e \<in> set (t_events (w_db w)). delete_event (doc_id d) e)"
proof -
  have ok: "kbs_ok (w_db w)" "homed_ok (w_db w)" "requested_ok (w_db w)"
    using reachable_tables_ok [OF assms(1)] by (simp_all add: tables_ok_def db_inv_def)
  obtain k where k: "k \<in> set (t_kbs (w_db w))" "kb_id k = doc_kb_id d"
    "kb_deleted k \<noteq> 0 \<longrightarrow> doc_status d = DELETING"
    using bspec [OF ok(2) [unfolded homed_ok_def] assms(4)] by auto
  then have "k = kb" using same_kb [OF ok(1) assms(2), of k] assms(5) by simp
  then show ?thesis using k assms(3,4) ok(3) by (auto simp: requested_ok_def)
qed

theorem deleted_kb_documents_witness:
  "\<exists>d. t_documents (w_db (run (index_acts @ [DeleteKb 9 sample_owner 1]))) = [d]
     \<and> doc_status d = DELETING"
proof -
  let ?w = "run (index_acts @ [DeleteKb 9 sample_owner 1])"
  have "map doc_kb_id (t_documents (w_db ?w)) = [1]"
    "map (\<lambda>kb. (kb_id kb, kb_deleted kb)) (t_kbs (w_db ?w)) = [(1, 1)]" by code_simp+
  then obtain d kb where "t_documents (w_db ?w) = [d]" "doc_kb_id d = 1"
    "t_kbs (w_db ?w) = [kb]" "kb_id kb = 1" "kb_deleted kb = 1"
    by (blast dest: map_eq_singletonD)
  then show ?thesis
    using deleted_kb_documents [OF reachable_run [of "index_acts @ [DeleteKb 9 sample_owner 1]"], of kb d]
    by simp
qed

section \<open>The state machine of a document\<close>

text \<open>
  C10: one step changes a document only along the state machine: at the same version to DELETING,
  from PENDING to PROCESSING, from PROCESSING to READY, or between PENDING, PROCESSING and FAILED
  when a run fails or is repaired; at the next version to PENDING. READY is left for DELETING or the
  next version only. A document disappears in one way: a delete message is handled while it is
  DELETING, and then its chunks are gone with it.
\<close>

theorem document_moves:
  assumes "reachable D s w" "d \<in> set (t_documents (w_db w))"
  shows "(\<exists>d' \<in> set (t_documents (w_db (perform D s a w))). moves d d')
    \<or> removes a w d \<and> (\<forall>c \<in> set (t_chunks (w_db (perform D s a w))). ch_document_id c \<noteq> doc_id d)"
proof (cases "removes a w d")
  case False
  then show ?thesis using perform_keeps [OF reachable_tables_ok [OF assms(1)] assms(2)] by blast
next
  case True
  have ok: "docs_ok (w_db w)" using reachable_tables_ok [OF assms(1)] by blast
  then have live: "get_live (doc_id d) (w_db w) = Some d" by (rule get_live_mem [OF _ assms(2)])
  show ?thesis
    using True live
    by (auto simp: removes_def start_task_def delete_document_def delete_document_row_def
        delete_chunks_of_def)
qed

theorem document_moves_witness:
  "\<exists>d d'. t_documents (w_db (run index_acts)) = [d]
     \<and> t_documents (w_db (perform sample_deps sample_settings (Retry 9 sample_owner 1 1) (run index_acts))) = [d']
     \<and> moves d d' \<and> doc_status d = READY \<and> doc_status d' = PENDING \<and> doc_index_version d' = 2"
proof -
  let ?w = "perform sample_deps sample_settings (Retry 9 sample_owner 1 1) (run index_acts)"
  have "map doc_status (t_documents (w_db (run index_acts))) = [READY]"
    "map (\<lambda>d. (doc_status d, doc_index_version d)) (t_documents (w_db ?w)) = [(PENDING, 2)]" by code_simp+
  then obtain d d' where d: "t_documents (w_db (run index_acts)) = [d]" "doc_status d = READY"
    "t_documents (w_db ?w) = [d']" "doc_status d' = PENDING" "doc_index_version d' = 2"
    by (blast dest: map_eq_singletonD)
  then show ?thesis
    using document_moves [OF reachable_run [of index_acts], of d "Retry 9 sample_owner 1 1"]
    by (simp add: removes_def)
qed

section \<open>The outbox\<close>

text \<open>
  C11: an event of the outbox is never removed and its message never changes; one step makes at most
  one attempt to deliver it. An event that was delivered, or that is DEAD, stays as it is. The number
  of attempts is bounded by the configured maximum (by one, when that is smaller) and agrees with the
  status in every reachable state, so an event that cannot be delivered leaves the queue.
\<close>

theorem outbox_events:
  assumes "reachable D s w" "e \<in> set (t_events (w_db w))"
  shows "attempts_ok (RAG_OUTBOX_MAX_DISPATCH_ATTEMPTS s) e
    \<and> ev_dispatch_attempts e \<le> max 1 (RAG_OUTBOX_MAX_DISPATCH_ATTEMPTS s)
    \<and> (\<exists>e' \<in> set (t_events (w_db (perform D s a w))). event_move e e'
         \<and> (ev_status e = Outbox_DISPATCHED \<or> ev_status e = Outbox_DEAD \<longrightarrow> e' = e))"
proof -
  have inv: "tables_ok (RAG_OUTBOX_MAX_DISPATCH_ATTEMPTS s) (w_db w)"
    by (rule reachable_tables_ok [OF assms(1)])
  then have "attempts_ok (RAG_OUTBOX_MAX_DISPATCH_ATTEMPTS s) e"
    using assms(2) by (simp add: tables_ok_def events_ok_def)
  moreover from this have "ev_dispatch_attempts e \<le> max 1 (RAG_OUTBOX_MAX_DISPATCH_ATTEMPTS s)"
    by (auto simp: attempts_ok_def split: outbox_status.splits)
  moreover obtain e' where "e' \<in> set (t_events (w_db (perform D s a w)))" "event_move e e'"
    using perform_events [OF inv, of D a] assms(2) by (auto simp: events_kept_def)
  moreover from this(2) have "ev_status e = Outbox_DISPATCHED \<or> ev_status e = Outbox_DEAD \<longrightarrow> e' = e"
    by (auto simp: event_move_def claimable_def)
  ultimately show ?thesis by blast
qed

theorem outbox_events_witness:
  "\<exists>e. t_events (w_db (run upload_acts)) = [e] \<and> ev_status e = Outbox_DISPATCHED
     \<and> e \<in> set (t_events (w_db (perform sample_deps sample_settings (Retry 9 sample_owner 1 1) (run upload_acts))))"
proof -
  have "map ev_status (t_events (w_db (run upload_acts))) = [Outbox_DISPATCHED]" by code_simp
  then obtain e where e: "t_events (w_db (run upload_acts)) = [e]" "ev_status e = Outbox_DISPATCHED"
    by (blast dest: map_eq_singletonD)
  then show ?thesis
    using outbox_events [OF reachable_run [of upload_acts], of e "Retry 9 sample_owner 1 1"] by auto
qed

end
