(* ===== verification/LifecycleLive.thy ===== *)
theory LifecycleLive
  imports LifecycleProps
begin

text \<open>
  Messages, stored objects, deletion, access and the outcome of an index task.
\<close>

section \<open>Every message has its event\<close>

definition backed :: "rag_db \<Rightarrow> task \<Rightarrow> bool" where
  "backed db t = (case t of
     IndexTask d v _ \<Rightarrow> (\<exists>n. v = Some n \<and> (\<exists>e \<in> set (t_events db). index_event d n e))
   | DeleteTask d _ \<Rightarrow> \<exists>e \<in> set (t_events db). delete_event d e)"

fun worker_backed :: "rag_db \<Rightarrow> worker \<Rightarrow> bool" where
  "worker_backed db (Indexing d eff v _) = (v = Some eff \<and> (\<exists>e \<in> set (t_events db). index_event d eff e))"
| "worker_backed db (Failing d eff v _ _) = (v = Some eff \<and> (\<exists>e \<in> set (t_events db). index_event d eff e))"

definition messages_ok :: "world \<Rightarrow> bool" where
  "messages_ok w \<longleftrightarrow> (\<forall>t \<in> set (w_queue w). backed (w_db w) t)
     \<and> (\<forall>x \<in> set (w_workers w). worker_backed (w_db w) x)"

lemma event_move_kinds:
  assumes "event_move e e'"
  shows "index_event d v e \<Longrightarrow> index_event d v e'" "delete_event d e \<Longrightarrow> delete_event d e'"
  using assms by (auto simp: event_move_def index_event_def delete_event_def)

lemma backed_kept: "events_kept db db' \<Longrightarrow> backed db t \<Longrightarrow> backed db' t"
  unfolding backed_def events_kept_def by (cases t) (fastforce dest: event_move_kinds)+

lemma worker_backed_kept: "events_kept db db' \<Longrightarrow> worker_backed db x \<Longrightarrow> worker_backed db' x"
  unfolding events_kept_def by (cases x) (fastforce dest: event_move_kinds)+

lemma event_task_backed:
  assumes "events_ok m db" "e \<in> set (t_events db)" "event_task e = Inr t"
  shows "backed db t"
proof -
  have "(\<exists>d v. index_event d v e) \<or> (\<exists>d. delete_event d e)"
    using assms(1,2) by (auto simp: events_ok_def)
  then show ?thesis
  proof (elim disjE exE)
    fix d v assume e: "index_event d v e"
    then have "t = IndexTask d (Some v) 0"
      using assms(3) by (auto simp: index_event_def event_task_def json_field_def asc_def)
    then show ?thesis using e assms(2) by (auto simp: backed_def)
  next
    fix d assume e: "delete_event d e"
    then have "t = DeleteTask d 0"
      using assms(3) by (auto simp: delete_event_def event_task_def json_field_def asc_def)
    then show ?thesis using e assms(2) by (auto simp: backed_def)
  qed
qed

lemma dispatch_backed:
  assumes "events_ok m db" "dispatch_outbox publish s now limit db = (db', ts, r)" "t \<in> set ts"
  shows "backed db t"
proof -
  have d: "distinct (map ev_id (t_events db))" using assms(1) by (simp add: events_ok_def)
  show ?thesis
    using dispatch_outbox_effect(2) [OF assms(1,2)] assms(3) claimed_events(2) [OF d, of limit]
      event_task_backed [OF assms(1)]
    by auto
qed

lemma repair_backed:
  assumes "tables_ok m db" "repair_stuck_document s now db = (db', ts, r)" "t \<in> set ts"
  shows "backed db t"
proof -
  let ?ds = "get_stale_index_documents (now - RAG_INDEX_STALE_SECONDS s) 100 db"
  have ds: "distinct (map doc_id ?ds)" "set ?ds \<subseteq> set (t_documents db)"
    "\<forall>d \<in> set ?ds. doc_status d = PENDING \<or> doc_status d = PROCESSING"
    using stale_documents assms(1) by blast+
  have req: "requested_ok db" using assms(1) by (simp add: tables_ok_def)
  let ?db = "recover_documents now ?ds db"
  have t: "t \<in> (\<lambda>d. IndexTask (doc_id d) (Some (doc_index_version d)) 0) ` set ?ds
      \<or> t \<in> (\<lambda>d. DeleteTask d 0) ` set (get_deleting_document_ids ?db)"
    using assms(2,3)
    by (auto simp: repair_stuck_document_def recover_stale_indexes_def Let_def)
  then show ?thesis
  proof
    assume "t \<in> (\<lambda>d. IndexTask (doc_id d) (Some (doc_index_version d)) 0) ` set ?ds"
    then show ?thesis using ds(2) req by (auto simp: backed_def requested_ok_def)
  next
    assume "t \<in> (\<lambda>d. DeleteTask d 0) ` set (get_deleting_document_ids ?db)"
    then obtain x where x: "x \<in> set (t_documents ?db)" "doc_status x = DELETING" "t = DeleteTask (doc_id x) 0"
      by (auto simp: get_deleting_document_ids_def get_ids_by_status_def)
    have "x \<in> recovered now ` set ?ds \<or> x \<in> set (t_documents db)"
      using recover_documents_effect [OF assms(1) ds, of now] x(1) by blast
    then have "x \<in> set (t_documents db)" using x(2) by (auto simp: recovered_def)
    then show ?thesis using x req by (auto simp: backed_def requested_ok_def)
  qed
qed

lemma set_drop_nth: "set (drop_nth n xs) \<subseteq> set xs"
  by (auto simp: drop_nth_def dest: in_set_takeD in_set_dropD)

text \<open>What a step adds to the broker and to the workers.\<close>

lemma perform_messages:
  assumes inv: "tables_ok (RAG_OUTBOX_MAX_DISPATCH_ATTEMPTS s) (w_db w)" and msg: "messages_ok w"
  shows "(\<forall>t \<in> set (w_queue (perform D s a w)). backed (w_db w) t)
    \<and> (\<forall>x \<in> set (w_workers (perform D s a w)). worker_backed (w_db w) x)"
proof -
  have ev: "events_ok (RAG_OUTBOX_MAX_DISPATCH_ATTEMPTS s) (w_db w)" using inv by (simp add: tables_ok_def)
  have q: "backed (w_db w) t" if "t \<in> set (w_queue w)" for t using msg that by (simp add: messages_ok_def)
  have k: "worker_backed (w_db w) x" if "x \<in> set (w_workers w)" for x using msg that by (simp add: messages_ok_def)
  note sub = set_drop_nth [THEN subsetD]
  have frame: "w_queue (commit r w') = w_queue w'" "w_workers (commit r w') = w_workers w'"
    for r :: "(rag_db \<times> 'x) res" and w'
    by (simp_all add: commit_def split: sum.split)
  show ?thesis
  proof (cases a)
    case (Dispatch publish now limit)
    then show ?thesis using q k dispatch_backed [OF ev, of publish s now limit] by (auto split: prod.splits)
  next
    case (DispatchLost publish now limit)
    then show ?thesis using q k dispatch_backed [OF ev, of publish s now limit] by (auto split: prod.splits)
  next
    case (StartTask n now fault)
    show ?thesis
    proof (cases "n < length (w_queue w)")
      case True
      let ?w = "w\<lparr>w_queue := drop_nth n (w_queue w)\<rparr>"
      have t: "backed (w_db w) (w_queue w ! n)" using True q by simp
      show ?thesis
      proof (cases "w_queue w ! n")
        case (IndexTask d v retries)
        obtain db r eff where cl: "claim_index now d v (w_db w) = (db, r, eff)" by (metis prod_cases3)
        have "worker_backed (w_db w) (Indexing d x v retries)" if "r = asc ''claimed''" "eff = Some x" for x
          using cl
        proof (cases rule: claim_index_cases)
          case (claimed y) then show ?thesis using that t IndexTask by (auto simp: backed_def)
        qed (use that in simp)
        then show ?thesis
          using True q k cl by (auto simp: StartTask start_task_def IndexTask dest!: sub split: option.splits)
      next
        case (DeleteTask d retries)
        then have "backed (w_db w) (DeleteTask d (retries + 1))" using t by (simp add: backed_def)
        then show ?thesis
          using True q k
          by (auto simp: StartTask start_task_def DeleteTask delete_retry_def dest!: sub split: prod.splits sum.splits if_splits)
      qed
    qed (use q k in \<open>simp add: StartTask\<close>)
  next
    case (IndexStep n now emb)
    show ?thesis
    proof (cases "n < length (w_workers w)")
      case True
      then have "worker_backed (w_db w) (w_workers w ! n)" using k by simp
      then show ?thesis
        using True q k
        by (cases "w_workers w ! n")
          (auto simp: IndexStep split: sum.split dest!: sub set_update_subset_insert [THEN subsetD])
    qed (use q k in \<open>simp add: IndexStep\<close>)
  next
    case (FailStep n now)
    show ?thesis
    proof (cases "n < length (w_workers w)")
      case True
      then have b: "worker_backed (w_db w) (w_workers w ! n)" using k by simp
      have "backed (w_db w) t"
        if "w_workers w ! n = Failing d eff v retries e"
          "t \<in> set (requeue (snd (index_failure s now d v eff retries e (w_db w))))" for t d eff v retries e
        using that b
        by (auto simp: index_failure_def requeue_def Let_def backed_def
            split: sum.splits if_splits prod.splits task_outcome.splits)
      then show ?thesis
        using True q k
        by (cases "w_workers w ! n") (auto simp: FailStep case_prod_beta dest!: sub)
    qed (use q k in \<open>simp add: FailStep\<close>)
  next
    case (CrashWorker n)
    show ?thesis
    proof (cases "n < length (w_workers w)")
      case True
      then have b: "worker_backed (w_db w) (w_workers w ! n)" using k by simp
      then show ?thesis
        using True q k by (cases "w_workers w ! n") (auto simp: CrashWorker backed_def dest!: sub)
    qed (use q k in \<open>simp add: CrashWorker\<close>)
  next
    case (Repair now sent)
    then show ?thesis
      using q k repair_backed [OF inv, of s now] by (auto split: prod.splits dest: in_set_takeD)
  qed (use q k in \<open>auto simp: frame split: prod.split\<close>)
qed

lemma reachable_messages_ok: "reachable D s w \<Longrightarrow> messages_ok w"
proof (induction rule: reachable.induct)
  case initial then show ?case by (simp add: messages_ok_def init_world_def)
next
  case (step w a)
  have inv: "tables_ok (RAG_OUTBOX_MAX_DISPATCH_ATTEMPTS s) (w_db w)"
    by (rule reachable_tables_ok [OF step.hyps])
  show ?case
    using perform_messages [OF inv step.IH] perform_events [OF inv, of D a]
      backed_kept worker_backed_kept
    unfolding messages_ok_def by blast
qed

text \<open>
  no task without a committed request. Every message on the broker, and every worker, is the
  message of an event of the outbox, also after lost commits, crashes, redeliveries and repairs;
  and no index message names a version that its document has not reached.
\<close>

theorem messages_have_events:
  assumes "reachable D s w" "t \<in> set (w_queue w)"
  shows "(case t of
      IndexTask i v _ \<Rightarrow> \<exists>n. v = Some n \<and> (\<exists>e \<in> set (t_events (w_db w)). index_event i n e)
        \<and> (\<forall>d \<in> set (t_documents (w_db w)). doc_id d = i \<longrightarrow> n \<le> doc_index_version d)
    | DeleteTask i _ \<Rightarrow> \<exists>e \<in> set (t_events (w_db w)). delete_event i e)"
proof -
  have "backed (w_db w) t" using reachable_messages_ok [OF assms(1)] assms(2) by (simp add: messages_ok_def)
  moreover have "versions_ok (w_db w)" using reachable_tables_ok [OF assms(1)] by (simp add: tables_ok_def)
  ultimately show ?thesis by (auto simp: backed_def versions_ok_def not_ahead_def split: task.splits)
qed

theorem messages_have_events_witness:
  "w_queue (run upload_acts) = [IndexTask 1 (Some 1) 0]
   \<and> (\<exists>e. t_events (w_db (run upload_acts)) = [e] \<and> index_event 1 1 e)"
proof -
  have q: "w_queue (run upload_acts) = [IndexTask 1 (Some 1) 0]"
    and "map ev_status (t_events (w_db (run upload_acts))) = [Outbox_DISPATCHED]" by code_simp+
  then obtain e where "t_events (w_db (run upload_acts)) = [e]" by (blast dest: map_eq_singletonD)
  then show ?thesis
    using messages_have_events [OF reachable_run [of upload_acts], of "IndexTask 1 (Some 1) 0"] q by auto
qed

section \<open>Stored objects\<close>

lemma str_int_no_slash: "47 \<notin> set (str_int i)"
  using str_int_chars by fastforce

lemma storage_key_inj:
  assumes "storage_key_of kb h t = storage_key_of kb' h' t'" "length h = length h'"
  shows "h = h'"
  using assms by (simp add: storage_key_of_def append_sep_inj str_int_no_slash)

text \<open>\<open>hexdigest\<close> of SHA-256 has 64 characters.\<close>

definition digest_ok :: "deps \<Rightarrow> bool" where
  "digest_ok D \<longleftrightarrow> (\<forall>content. length (dep_sha256 D content) = 64)"

definition object_of :: "deps \<Rightarrow> object_store \<Rightarrow> document \<Rightarrow> bool" where
  "object_of D store d \<longleftrightarrow> (\<exists>kb t. doc_storage_key d = storage_key_of kb (doc_content_hash d) t)
     \<and> (\<exists>content. storage_get (doc_storage_key d) store = Inr content
          \<and> dep_sha256 D content = doc_content_hash d)"

text \<open>The deletion of a document was asked for, by its own request or with its knowledge base.\<close>

definition deletion_requested :: "rag_db \<Rightarrow> document \<Rightarrow> bool" where
  "deletion_requested db d \<longleftrightarrow> (\<exists>e \<in> set (t_events db). delete_event (doc_id d) e)"

lemma deletion_requested_kept:
  assumes "events_kept db db'" "deletion_requested db d" "doc_id d' = doc_id d"
  shows "deletion_requested db' d'"
proof -
  obtain e where e: "e \<in> set (t_events db)" "delete_event (doc_id d) e"
    using assms(2) by (auto simp: deletion_requested_def)
  then obtain e' where "e' \<in> set (t_events db')" "event_move e e'" using assms(1) by (auto simp: events_kept_def)
  moreover from this(2) e(2) have "delete_event (doc_id d') e'"
    using assms(3) by (auto simp: event_move_def delete_event_def)
  ultimately show ?thesis by (auto simp: deletion_requested_def)
qed

definition stored_ok :: "deps \<Rightarrow> world \<Rightarrow> bool" where
  "stored_ok D w \<longleftrightarrow> inj_on doc_storage_key (set (t_documents (w_db w)))
     \<and> (\<forall>d \<in> set (t_documents (w_db w)). deletion_requested (w_db w) d \<or> object_of D (w_store w) d)"

lemma object_of_identity: "same_identity d d' \<Longrightarrow> object_of D store d' = object_of D store d"
  by (simp add: object_of_def same_identity_def)

text \<open>
  An upload writes under a key made of the digest of its content, so it can only overwrite an object
  with the same digest.
\<close>

lemma object_of_put:
  assumes "digest_ok D" "object_of D store d"
  shows "object_of D (storage_put (storage_key_of kb (dep_sha256 D content) t) content store) d"
proof (cases "doc_storage_key d = storage_key_of kb (dep_sha256 D content) t")
  case True
  moreover obtain kb' t' c where "doc_storage_key d = storage_key_of kb' (doc_content_hash d) t'"
    "dep_sha256 D c = doc_content_hash d"
    using assms(2) by (auto simp: object_of_def)
  moreover from this have "length (doc_content_hash d) = length (dep_sha256 D content)"
    using assms(1) unfolding digest_ok_def by metis
  ultimately have "doc_content_hash d = dep_sha256 D content" using storage_key_inj by metis
  then show ?thesis
    using assms(2) True by (auto simp: object_of_def storage_get_def storage_put_def update_conv')
next
  case False
  then show ?thesis
    using assms(2) by (auto simp: object_of_def storage_get_def storage_put_def update_conv')
qed

lemma stored_ok_keeps:
  assumes st: "stored_ok D w" and "keeps (w_db w) (w_db w')" "docs_ok (w_db w')" "w_store w' = w_store w"
    and ev: "events_kept (w_db w) (w_db w')"
  shows "stored_ok D w'"
proof -
  have orig: "\<exists>d \<in> set (t_documents (w_db w)). same_identity d x" if "x \<in> set (t_documents (w_db w'))" for x
    using assms(2) that by (auto simp: keeps_def moves_def)
  have "inj_on doc_storage_key (set (t_documents (w_db w')))"
  proof
    fix x y assume xy: "x \<in> set (t_documents (w_db w'))" "y \<in> set (t_documents (w_db w'))"
      "doc_storage_key x = doc_storage_key y"
    obtain a b where ab: "a \<in> set (t_documents (w_db w))" "same_identity a x"
      "b \<in> set (t_documents (w_db w))" "same_identity b y"
      using orig xy(1,2) by metis
    then have "a = b" using st xy(3) by (simp add: stored_ok_def same_identity_def inj_on_def)
    then show "x = y" using same_doc [OF assms(3) xy(2,1)] ab by (simp add: same_identity_def)
  qed
  moreover have "deletion_requested (w_db w') x \<or> object_of D (w_store w') x" if x: "x \<in> set (t_documents (w_db w'))" for x
  proof -
    obtain d where d: "d \<in> set (t_documents (w_db w))" "same_identity d x" using orig [OF x] by blast
    have "doc_id x = doc_id d" using d(2) by (simp add: same_identity_def)
    then show ?thesis
      using d st object_of_identity deletion_requested_kept [OF ev, of d x] by (auto simp: stored_ok_def assms(4))
  qed
  ultimately show ?thesis by (simp add: stored_ok_def)
qed

lemma perform_store_same:
  assumes "\<not> grows_or_shrinks a w"
  shows "w_store (perform D s a w) = w_store w"
proof (cases a)
  case (StartTask n now fault)
  then show ?thesis
    using assms by (auto simp: start_task_def split: task.split prod.split option.split)
qed (use assms in \<open>auto simp: commit_def split: sum.split prod.split worker.split\<close>)

text \<open>Removing the object of one document leaves those of the others.\<close>

lemma others:
  assumes "stored_ok D w" "x \<in> set (t_documents (w_db w))" "d \<in> set (t_documents (w_db w))" "doc_id d \<noteq> doc_id x"
  shows "deletion_requested (w_db w) d \<or> object_of D (storage_delete (doc_storage_key x) (w_store w)) d"
proof -
  have "doc_storage_key d \<noteq> doc_storage_key x"
    using assms by (auto simp: stored_ok_def inj_on_def)
  then show ?thesis
    using assms(1,3) by (auto simp: stored_ok_def object_of_def storage_get_def storage_delete_def delete_conv')
qed

lemma perform_stored_ok:
  assumes D: "digest_ok D" and inv: "tables_ok (RAG_OUTBOX_MAX_DISPATCH_ATTEMPTS s) (w_db w)"
    and st: "stored_ok D w"
  shows "stored_ok D (perform D s a w)"
proof (cases "grows_or_shrinks a w")
  case False
  show ?thesis
    by (rule stored_ok_keeps [OF st perform_keeps_db [OF inv False] _ perform_store_same [OF False]])
      (use tables_ok_perform [OF inv, of D a] perform_events [OF inv, of D a] in blast)+
next
  case True
  have ok: "docs_ok (w_db w)" using inv by (simp add: tables_ok_def db_inv_def)
  show ?thesis
  proof (cases a)
    case (Upload now u kb filename content mime)
    obtain store r where run: "doc_create D s now kb (user_id u) (is_superuser u) filename content mime
        (w_db w) (w_store w) = (store, r)" by fastforce
    have "store = w_store w \<or> (\<exists>kb t. store = storage_put
        (storage_key_of kb (dep_sha256 D content) t) content (w_store w))"
      using run by (auto simp: doc_create_def Let_def split: sum.splits if_splits)
    then have old: "object_of D store d" if "object_of D (w_store w) d" for d
      using object_of_put [OF D that] that by auto
    show ?thesis
    proof (cases r)
      case (Inl e)
      then show ?thesis using st old by (auto simp: Upload run commit_def stored_ok_def)
    next
      case (Inr x)
      then obtain db d where r: "r = Inr (db, d)" by (cases x) simp
      show ?thesis
        using run unfolding r
      proof (rule doc_create_effect [OF inv])
        fix ps np evs n
        assume store: "store = storage_put (doc_storage_key d) content (w_store w)"
          and d: "d = (new_document now kb filename (upload_suffix filename) mime
            (storage_key_of kb (dep_sha256 D content) (upload_suffix filename))
            (int (length content)) (dep_sha256 D content) (the (doc_index_profile_id d)))
            \<lparr>doc_id := next_document (w_db w)\<rparr>"
          and db: "db = (w_db w)\<lparr>t_profiles := ps, next_profile := np,
            t_documents := t_documents (w_db w) @ [d], next_document := next_document (w_db w) + 1,
            t_events := t_events (w_db w) @ evs, next_event := n\<rparr>"
          and row: "document_row_ok d (w_db w)"
        have key: "doc_storage_key d = storage_key_of kb (dep_sha256 D content) (upload_suffix filename)"
          "doc_content_hash d = dep_sha256 D content"
          by (subst d, simp add: new_document_def)+
        then have "object_of D store d"
          by (auto simp: object_of_def store storage_get_def storage_put_def update_conv')
        moreover have "\<forall>x \<in> set (t_documents (w_db w)). doc_storage_key x \<noteq> doc_storage_key d"
          using row by (simp add: document_row_ok_def list_ex_iff)
        ultimately show ?thesis
          using st old by (auto simp: Upload run r commit_def stored_ok_def db inj_on_def deletion_requested_def)
      qed
    qed
  next
    case (StartTask n now fault)
    then obtain i retries where n: "n < length (w_queue w)" "w_queue w ! n = DeleteTask i retries"
      using True by (auto split: task.splits)
    show ?thesis
      using ok n refl
    proof (cases rule: perform_delete_task [where D = D and s = s and now = now and fault = fault])
      case kept then show ?thesis using st by (simp add: StartTask stored_ok_def)
    next
      case (gone x)
      have "deletion_requested (w_db w) d \<or> object_of D (storage_delete (doc_storage_key x) (w_store w)) d"
        if "d \<in> set (t_documents (w_db w))" "doc_id d \<noteq> i" for d
        using others [OF st gone(1)] that gone(2) by simp
      then show ?thesis
        using st gone(5,6)
        by (auto simp: StartTask stored_ok_def delete_document_row_def delete_chunks_of_def inj_on_def
            deletion_requested_def)
    next
      case (cut x e)
      have "deletion_requested (w_db w) d" if "d \<in> set (t_documents (w_db w))" "doc_id d = i" for d
        using same_doc [OF ok cut(1) that(1)] that cut(2,3) inv
        by (auto simp: tables_ok_def requested_ok_def deletion_requested_def)
      moreover have "deletion_requested (w_db w) d \<or> object_of D (storage_delete (doc_storage_key x) (w_store w)) d"
        if "d \<in> set (t_documents (w_db w))" "doc_id d \<noteq> i" for d
        using others [OF st cut(1)] that cut(2) by simp
      ultimately show ?thesis
        using st cut(5,6) unfolding StartTask stored_ok_def by metis
    qed
  qed (use True in simp_all)
qed

lemma reachable_stored_ok: "digest_ok D \<Longrightarrow> reachable D s w \<Longrightarrow> stored_ok D w"
proof (rotate_tac, induction rule: reachable.induct)
  case initial then show ?case by (simp add: stored_ok_def init_world_def empty_db_def)
next
  case (step w a) then show ?case using perform_stored_ok reachable_tables_ok by blast
qed

text \<open>
  C12: the object of a document whose deletion nobody asked for is in the store, and its digest is the one
  the document records, in every reachable state (requests taking effect one after the other): uploads that fail
  after they stored their file, uploads of the same content, and deletions of other documents, also those that
  fail after they removed their file, never damage it.
\<close>

theorem objects_present:
  assumes "digest_ok D" "reachable D s w" "d \<in> set (t_documents (w_db w))" "\<not> deletion_requested (w_db w) d"
  shows "\<exists>content. storage_get (doc_storage_key d) (w_store w) = Inr content
    \<and> dep_sha256 D content = doc_content_hash d"
  using reachable_stored_ok [OF assms(1,2)] assms(3,4) by (auto simp: stored_ok_def object_of_def)

theorem objects_present_witness:
  "\<exists>d content. t_documents (w_db (run (index_acts @ [Upload 5 sample_owner 1 (asc ''b.txt'') (asc ''yo'') None]))) = [d]
     \<and> storage_get (doc_storage_key d)
         (w_store (run (index_acts @ [Upload 5 sample_owner 1 (asc ''b.txt'') (asc ''yo'') None]))) = Inr content"
proof -
  let ?acts = "index_acts @ [Upload 5 sample_owner 1 (asc ''b.txt'') (asc ''yo'') None]"
  have "map doc_status (t_documents (w_db (run ?acts))) = [READY]" by code_simp
  then obtain d where d: "t_documents (w_db (run ?acts)) = [d]" by (blast dest: map_eq_singletonD)
  have "map ev_type (t_events (w_db (run ?acts))) = [INDEX_DOCUMENT_EVENT]" by code_simp
  moreover have "INDEX_DOCUMENT_EVENT \<noteq> DELETE_DOCUMENT_EVENT" by code_simp
  ultimately have "\<not> deletion_requested (w_db (run ?acts)) d"
    by (auto simp: deletion_requested_def delete_event_def dest!: map_eq_singletonD)
  moreover have "digest_ok sample_deps" by (simp add: digest_ok_def sample_deps_def)
  ultimately show ?thesis using objects_present [OF _ reachable_run [of ?acts], of d] d by auto
qed

text \<open>
  The condition is needed: a deletion whose commit fails leaves its row without an object, and a retry of the document,
  which the service accepts, makes it PENDING again; indexing it can then only fail.
\<close>

definition cut_acts :: "action list" where
  "cut_acts = index_acts @ [Delete 9 sample_owner 1 1, Dispatch (\<lambda>_. None) 10 100,
     StartTask 0 11 (Some (Commit_fails SQLAlchemyError)), Retry 12 sample_owner 1 1]"

lemma deletion_cut_short:
  "map doc_status (t_documents (w_db (run cut_acts))) = [PENDING] \<and> w_store (run cut_acts) = []"
  by code_simp

section \<open>A requested deletion is carried out\<close>

text \<open>
  C13: whatever happened to its messages before, a document that is DELETING is removed by the next
  repair round and the delete message it sends, when the file can be removed: its row, its chunks
  and its object are gone.
\<close>

theorem deletion_completes:
  assumes "digest_ok D" "reachable D s w" "d \<in> set (t_documents (w_db w))" "doc_status d = DELETING"
  shows "\<exists>sent n. let w1 = perform D s (Repair now sent) w; w2 = perform D s (StartTask n later None) w1 in
      w_queue w1 ! n = DeleteTask (doc_id d) 0
    \<and> doc_id d \<notin> doc_id ` set (t_documents (w_db w2))
    \<and> doc_id d \<notin> ch_document_id ` set (t_chunks (w_db w2))
    \<and> storage_get (doc_storage_key d) (w_store w2) = Inl FileNotFoundError"
proof -
  let ?ds = "get_stale_index_documents (now - RAG_INDEX_STALE_SECONDS s) 100 (w_db w)"
  have inv: "tables_ok (RAG_OUTBOX_MAX_DISPATCH_ATTEMPTS s) (w_db w)"
    by (rule reachable_tables_ok [OF assms(2)])
  have ds: "distinct (map doc_id ?ds)" "set ?ds \<subseteq> set (t_documents (w_db w))"
    "\<forall>d \<in> set ?ds. doc_status d = PENDING \<or> doc_status d = PROCESSING"
    using stale_documents inv by blast+
  let ?db = "recover_documents now ?ds (w_db w)"
  have keep: "tables_ok (RAG_OUTBOX_MAX_DISPATCH_ATTEMPTS s) ?db" "d \<in> set (t_documents ?db)"
    using recover_documents_effect [OF inv ds, of now] assms(3,4) ds(3) by auto
  obtain ts r where rep: "repair_stuck_document s now (w_db w) = (?db, ts, r)"
    "DeleteTask (doc_id d) 0 \<in> set ts"
    using keep(2) assms(4) tables_docs_ok [OF keep(1)]
    by (force simp: repair_stuck_document_def recover_stale_indexes_def Let_def
        get_deleting_document_ids_def get_ids_by_status_def docs_ok_def)
  let ?w1 = "perform D s (Repair now (length ts)) w"
  have w1: "w_db ?w1 = ?db" "w_queue ?w1 = w_queue w @ ts" "w_store ?w1 = w_store w"
    by (simp_all add: rep)
  obtain n where n: "n < length (w_queue ?w1)" "w_queue ?w1 ! n = DeleteTask (doc_id d) 0"
    using rep(2) unfolding w1(2) by (metis in_set_conv_nth UnCI set_append)
  have ok1: "docs_ok (w_db ?w1)" using keep(1) w1(1) by auto
  let ?w2 = "perform D s (StartTask n later None) ?w1"
  have "w_db ?w2 = delete_document_row (doc_id d) (delete_chunks_of (doc_id d) ?db)
      \<and> w_store ?w2 = storage_delete (doc_storage_key d) (w_store w)"
    using ok1 n refl
  proof (cases rule: perform_delete_task [where D = D and s = s and now = later and fault = None])
    case kept
    then show ?thesis using keep(2) assms(4) w1(1) by auto
  next
    case (gone x)
    then have "x = d" using same_doc [OF ok1, of d x] keep(2) w1(1) by simp
    then show ?thesis using gone(5,6) w1 by simp
  next
    case (cut x e)
    then show ?thesis by simp
  qed
  then have "doc_id d \<notin> doc_id ` set (t_documents (w_db ?w2))"
    "doc_id d \<notin> ch_document_id ` set (t_chunks (w_db ?w2))"
    "storage_get (doc_storage_key d) (w_store ?w2) = Inl FileNotFoundError"
    by (auto simp: delete_document_row_def delete_chunks_of_def storage_get_def storage_delete_def delete_conv')
  then show ?thesis using n(2) unfolding Let_def by blast
qed

theorem deletion_completes_witness:
  "\<exists>d. t_documents (w_db (run (index_acts @ [DeleteKb 9 sample_owner 1]))) = [d]
     \<and> (\<exists>sent n. doc_id d \<notin> doc_id ` set (t_documents (w_db (perform sample_deps sample_settings (StartTask n 11 None)
          (perform sample_deps sample_settings (Repair 10 sent) (run (index_acts @ [DeleteKb 9 sample_owner 1])))))))"
proof -
  let ?w = "run (index_acts @ [DeleteKb 9 sample_owner 1])"
  have "map doc_status (t_documents (w_db ?w)) = [DELETING]" by code_simp
  then obtain d where d: "t_documents (w_db ?w) = [d]" "doc_status d = DELETING"
    by (blast dest: map_eq_singletonD)
  have "digest_ok sample_deps" by (simp add: digest_ok_def sample_deps_def)
  from deletion_completes [OF this reachable_run [of "index_acts @ [DeleteKb 9 sample_owner 1]"], of d 10 11] d
  show ?thesis unfolding Let_def by (auto simp del: perform.simps)
qed

section \<open>Access\<close>

text \<open>
  The interface between the services and the lookup that checks the caller: a lookup that succeeds
  means that the caller was granted the access it asked for, and what is granted for writing is
  granted for reading.
\<close>

locale access_gate =
  fixes lookup :: "'key \<Rightarrow> 'caller \<Rightarrow> bool \<Rightarrow> 'db \<Rightarrow> 'row res"
    and granted :: "'key \<Rightarrow> 'caller \<Rightarrow> bool \<Rightarrow> 'db \<Rightarrow> bool"
  assumes lookup_granted: "lookup k u write db = Inr r \<Longrightarrow> granted k u write db"
    and write_read: "granted k u True db \<Longrightarrow> granted k u False db"
begin

lemma guarded: "rbind (lookup k u write db) f = Inr x \<Longrightarrow> granted k u write db"
  by (auto simp: res_iffs dest: lookup_granted)

lemma guarded_map: "rmap f (lookup k u write db) = Inr x \<Longrightarrow> granted k u write db"
  by (auto simp: res_iffs dest: lookup_granted)

lemma guarded_read: "rbind (lookup k u write db) f = Inr x \<Longrightarrow> granted k u False db"
  by (cases "write") (auto dest: guarded write_read)

end

definition kb_lookup :: "int \<Rightarrow> caller \<Rightarrow> bool \<Rightarrow> rag_db \<Rightarrow> knowledge_base res" where
  "kb_lookup k u write db = kb_get k (user_id u) (is_superuser u) write db"

definition kb_granted :: "int \<Rightarrow> caller \<Rightarrow> bool \<Rightarrow> rag_db \<Rightarrow> bool" where
  "kb_granted k u write db \<longleftrightarrow> (\<exists>kb \<in> set (t_kbs db). kb_id kb = k \<and> kb_deleted kb = 0
     \<and> (is_superuser u \<or> kb_owner_id kb = user_id u \<or> \<not> write \<and> kb_is_public kb))"

lemma kb_lookup_granted: "kb_lookup k u write db = Inr r \<Longrightarrow> kb_granted k u write db"
  unfolding kb_lookup_def kb_granted_def kb_visible_def [symmetric]
  by (drule kb_get_InrD) blast

interpretation gate: access_gate kb_lookup kb_granted
  by unfold_locales (auto simp: kb_granted_def dest: kb_lookup_granted)

lemma doc_get_granted:
  assumes "doc_get kb d (user_id u) (is_superuser u) write db = Inr x"
  shows "kb_granted kb u write db"
  using assms by (auto simp: doc_get_def kb_lookup_def [symmetric] intro: gate.guarded)

text \<open>
  C14: only a superuser or the owner of a knowledge base that is not deleted changes anything in the
  database through it, its documents, uploads, retries or deletions; documents and chunks are only
  listed to a caller who may read the knowledge base, and the listed documents are its own.
\<close>

theorem access_control:
  "((\<exists>obj now filename content mime i. a = UpdateKb u kb obj \<or> a = DeleteKb now u kb
        \<or> a = Upload now u kb filename content mime \<or> a = Retry now u kb i \<or> a = Delete now u kb i)
      \<and> w_db (perform D s a w) \<noteq> w_db w \<longrightarrow> kb_granted kb u True (w_db w))
    \<and> (\<forall>ds. doc_get_list kb (user_id u) (is_superuser u) db = Inr ds \<longrightarrow>
         kb_granted kb u False db \<and> (\<forall>d \<in> set ds. d \<in> set (t_documents db) \<and> doc_kb_id d = kb))
    \<and> (\<forall>cs i. doc_get_chunks kb i (user_id u) (is_superuser u) db = Inr cs \<longrightarrow>
         kb_granted kb u False db \<and> (\<exists>d \<in> set (t_documents db). doc_id d = i \<and> doc_kb_id d = kb))"
proof (intro conjI allI impI)
  assume "(\<exists>obj now filename content mime i. a = UpdateKb u kb obj \<or> a = DeleteKb now u kb
        \<or> a = Upload now u kb filename content mime \<or> a = Retry now u kb i \<or> a = Delete now u kb i)
      \<and> w_db (perform D s a w) \<noteq> w_db w"
  then obtain obj now filename content mime i where a: "a = UpdateKb u kb obj \<or> a = DeleteKb now u kb
        \<or> a = Upload now u kb filename content mime \<or> a = Retry now u kb i \<or> a = Delete now u kb i"
    and change: "w_db (perform D s a w) \<noteq> w_db w" by blast
  note simps = commit_def kb_lookup_def [symmetric] rbind_Inr_iff rmap_Inr_iff
  from a show "kb_granted kb u True (w_db w)"
  proof (elim disjE)
    assume "a = Upload now u kb filename content mime"
    then have "is_ok (kb_lookup kb u True (w_db w))"
      using change by (auto simp: doc_create_def kb_lookup_def commit_def split: sum.splits)
    then show ?thesis using gate.lookup_granted by (auto simp: is_ok_iff)
  next
    assume "a = Retry now u kb i"
    then obtain x where "doc_get kb i (user_id u) (is_superuser u) True (w_db w) = Inr x"
      using change by (auto simp: doc_retry_def commit_def res_iffs split: sum.splits)
    then show ?thesis by (rule doc_get_granted)
  next
    assume "a = Delete now u kb i"
    then obtain x where "doc_get kb i (user_id u) (is_superuser u) True (w_db w) = Inr x"
      using change by (auto simp: doc_delete_def commit_def res_iffs split: sum.splits)
    then show ?thesis by (rule doc_get_granted)
  qed (use change in \<open>auto simp: simps kb_update_def kb_delete_def split: sum.splits
        dest: gate.lookup_granted\<close>)
next
  fix ds assume l: "doc_get_list kb (user_id u) (is_superuser u) db = Inr ds"
  then show "kb_granted kb u False db"
    by (auto simp: doc_get_list_def kb_lookup_def [symmetric] intro: gate.guarded_map)
  show "\<forall>d \<in> set ds. d \<in> set (t_documents db) \<and> doc_kb_id d = kb"
    using l by (auto simp: doc_get_list_def res_iffs get_documents_def)
next
  fix cs i assume "doc_get_chunks kb i (user_id u) (is_superuser u) db = Inr cs"
  then obtain x where x: "doc_get kb i (user_id u) (is_superuser u) False db = Inr x"
    by (auto simp: doc_get_chunks_def res_iffs)
  then show "kb_granted kb u False db" by (rule doc_get_granted)
  show "\<exists>d \<in> set (t_documents db). doc_id d = i \<and> doc_kb_id d = kb"
    using doc_get_InrD [OF x] by auto
qed

theorem access_control_witness:
  "kb_granted 1 sample_owner True (w_db (run index_acts))"
proof -
  let ?a = "Delete 9 sample_owner 1 1"
  have "map doc_status (t_documents (w_db (perform sample_deps sample_settings ?a (run index_acts)))) = [DELETING]"
    "map doc_status (t_documents (w_db (run index_acts))) = [READY]" by code_simp+
  then have "w_db (perform sample_deps sample_settings ?a (run index_acts)) \<noteq> w_db (run index_acts)" by auto
  then show ?thesis using access_control [of ?a sample_owner 1] by blast
qed

section \<open>The index task\<close>

text \<open>
  a document whose status changed while its worker was between its two transactions is not
  reported as such: the report of the second transaction raises \<open>AttributeError\<close>, and the error
  path then sets a document that was recovered to PENDING to FAILED, although it is queued again;
  the message that is queued for it is then refused.
\<close>

theorem recovered_document_fails:
  assumes "get_live i db = Some d" "doc_status d = PENDING" "docs_ok db"
  shows "index_claimed_document D s now i (doc_index_version d) store db
      = Inl (OtherError (asc ''AttributeError''))
    \<and> (case index_failure s now i v (doc_index_version d) retries (OtherError (asc ''AttributeError'')) db of
        (db', outcome) \<Rightarrow> outcome = Returned (asc ''FAILED'')
          \<and> (\<exists>d'. get_live i db' = Some d' \<and> doc_status d' = FAILED)
          \<and> claim_index later i (Some (doc_index_version d)) db'
            = (db', asc ''index_failed'', Some (doc_index_version d)))"
proof -
  note d = get_live_SomeD [OF assms(1)]
  let ?e = "OtherError (asc ''AttributeError'')"
  let ?d = "d\<lparr>doc_status := FAILED, doc_error_message := Some (take 512 (sanitize_index_error ?e))\<rparr>"
  let ?db = "save_document now d ?d db"
  have retry: "\<not> is_retryable_index_error ?e"
    by (simp add: is_retryable_index_error_def is_transport_error_def is_os_error_def)
  have fail: "index_failure s now i v (doc_index_version d) retries ?e db = (?db, Returned (asc ''FAILED''))"
    using assms(1,2) retry by (simp add: index_failure_def mark_index_failure_def)
  have ident: "same_identity d ?d" by (simp add: same_identity_def)
  have mem: "touched now d ?d \<in> set (t_documents ?db)"
    using mem_save_document [of db d ?d _ now] assms(3) d by (simp add: docs_ok_def)
  have "get_live (doc_id (touched now d ?d)) ?db = Some (touched now d ?d)"
    using get_live_mem [OF _ mem] docs_ok_save [OF assms(3) _ ident, of now] d by blast
  then have "get_live i ?db = Some (touched now d ?d)" using d by simp
  then show ?thesis
    using assms(1,2) fail by (simp add: index_claimed_document_def claim_index_def)
qed

theorem recovered_document_fails_witness:
  "\<exists>d. t_documents (w_db (run (upload_acts @ [StartTask 0 2 None, Repair 2000 5]))) = [d]
     \<and> doc_status d = PENDING
     \<and> index_claimed_document sample_deps sample_settings 2001 1 (doc_index_version d) []
         (w_db (run (upload_acts @ [StartTask 0 2 None, Repair 2000 5])))
       = Inl (OtherError (asc ''AttributeError''))"
proof -
  let ?acts = "upload_acts @ [StartTask 0 2 None, Repair 2000 5]"
  have "map (\<lambda>d. (doc_status d, doc_id d)) (t_documents (w_db (run ?acts))) = [(PENDING, 1)]" by code_simp
  then obtain d where d: "t_documents (w_db (run ?acts)) = [d]" "doc_status d = PENDING" "doc_id d = 1"
    by (blast dest: map_eq_singletonD)
  have ok: "docs_ok (w_db (run ?acts))" using reachable_tables_ok [OF reachable_run [of ?acts]] by blast
  have "get_live 1 (w_db (run ?acts)) = Some d" using get_live_mem [OF ok, of d] d by simp
  from recovered_document_fails [OF this d(2) ok, of sample_deps sample_settings 2001 "[]"] d
  show ?thesis by blast
qed





end
