(* ===== verification/Query.thy ===== *)
theory Query
  imports RagDb RagContext Lexical Providers
begin

text \<open>
  \<open>backend/app/rag/service/query_service.py\<close> with the state graph of \<open>agent/graph.py\<close> and the
  parameters and results of \<open>schema/query.py\<close>: which chunks a question may see, the two candidate
  rankings and their fusion, the optional reranking, the sources that are returned, and the answer
  with its log row. PostgreSQL's distance, match and rank functions, the embedding, rerank and chat
  services, the clock and the trace id are parameters; floats are reals.
\<close>

section \<open>Parameters and settings\<close>

text \<open>\<open>RetrieveParam\<close> and \<open>AnswerParam\<close>, which extends it; \<open>param_ok\<close> is what Pydantic checks.\<close>

record retrieve_param =
  rp_question :: ustr
  rp_knowledge_base_ids :: "int list"
  rp_top_k :: int

record answer_param = retrieve_param +
  ap_mode :: query_mode

definition param_ok :: "'a retrieve_param_scheme \<Rightarrow> bool" where
  "param_ok p \<longleftrightarrow> 1 \<le> length (rp_question p) \<and> length (rp_question p) \<le> 4000
     \<and> 1 \<le> length (rp_knowledge_base_ids p) \<and> length (rp_knowledge_base_ids p) \<le> 50
     \<and> 1 \<le> rp_top_k p \<and> rp_top_k p \<le> 20"

text \<open>\<open>GetAnswerDetail\<close>\<close>

record answer_detail =
  ad_answer :: ustr
  ad_sources :: "source_detail list"
  ad_requested_mode :: query_mode
  ad_effective_mode :: query_mode
  ad_status :: ustr
  ad_retrieval_rounds :: int
  ad_stop_reason :: ustr
  ad_trace_id :: "ustr option"

record query_settings =
  qs_dense_candidate_k :: int
  qs_lexical_candidate_k :: int
  qs_rrf_k :: int
  qs_dense_weight :: real
  qs_lexical_weight :: real
  qs_parent_context :: bool
  qs_final_context_k :: int
  qs_context_max_tokens :: int
  qs_agent_max_rounds :: int
  qs_agent_max_calls :: int

text \<open>
  \<open>cosine_distance\<close>, the match of the text index against a web search query, \<open>ts_rank_cd\<close>, and the
  functions behind \<open>build_websearch_query\<close>.
\<close>

record search_engine =
  se_cosine_distance :: "embedding \<Rightarrow> embedding \<Rightarrow> real"
  se_ts_match :: "ustr \<Rightarrow> ustr \<Rightarrow> bool"
  se_ts_rank :: "ustr \<Rightarrow> ustr \<Rightarrow> real"
  se_isalnum :: "nat \<Rightarrow> bool"
  se_casefold :: "ustr \<Rightarrow> ustr"
  se_jieba :: "ustr \<Rightarrow> ustr list"

section \<open>Which chunks a question may see\<close>

definition accessible_kb_ids :: "int \<Rightarrow> bool \<Rightarrow> int list \<Rightarrow> rag_db \<Rightarrow> int list res" where
  "accessible_kb_ids user_id is_admin requested db =
     (let ids = map kb_id (filter (\<lambda>kb. List.member requested (kb_id kb) \<and> kb_deleted kb = 0
                  \<and> (is_admin \<or> kb_owner_id kb = user_id \<or> kb_is_public kb)) (t_kbs db))
      in if ids = [] then Inl (NotFoundError msg_no_kb) else Inr ids)"

text \<open>The joined selection both candidate queries start from: a chunk and its document's name.\<close>

definition base_rows :: "int list \<Rightarrow> rag_db \<Rightarrow> (chunk \<times> ustr) list" where
  "base_rows ids db =
     concat (map (\<lambda>c. map (\<lambda>d. (c, doc_filename d))
       (filter (\<lambda>d. doc_id d = ch_document_id c \<and> List.member ids (ch_kb_id c) \<and> ch_deleted c = 0
          \<and> \<not> ch_is_parent c \<and> doc_status d = READY \<and> doc_deleted d = 0) (t_documents db)))
       (t_chunks db))"

text \<open>A negative \<open>LIMIT\<close> is an error of the database.\<close>

definition sql_limit :: "int \<Rightarrow> 'a list \<Rightarrow> 'a list res" where
  "sql_limit k xs = (if k < 0 then Inl SQLAlchemyError else Inr (take (nat k) xs))"

text \<open>
  Ascending order puts the rows without a value last; descending order of values that are all
  present keeps the order of equal ones, which the database leaves open.
\<close>

definition order_nulls_last :: "('a \<Rightarrow> real option) \<Rightarrow> 'a list \<Rightarrow> 'a list" where
  "order_nulls_last f xs =
     sort_key (\<lambda>x. the (f x)) (filter (\<lambda>x. f x \<noteq> None) xs) @ filter (\<lambda>x. f x = None) xs"

definition chunk_distance :: "search_engine \<Rightarrow> embedding \<Rightarrow> chunk \<Rightarrow> real option" where
  "chunk_distance E vector c = map_option (\<lambda>e. se_cosine_distance E e vector) (ch_embedding c)"

definition dense_rows ::
  "search_engine \<Rightarrow> int \<Rightarrow> embedding \<Rightarrow> (chunk \<times> ustr) list \<Rightarrow> (chunk \<times> ustr) list res" where
  "dense_rows E k vector base = sql_limit k (order_nulls_last (\<lambda>r. chunk_distance E vector (fst r)) base)"

definition exact_match :: "ustr list \<Rightarrow> chunk \<Rightarrow> bool" where
  "exact_match tokens c \<longleftrightarrow> list_ex (\<lambda>t. List.member tokens t) (ch_exact_tokens c)"

definition lexical_condition :: "search_engine \<Rightarrow> ustr \<Rightarrow> ustr list \<Rightarrow> chunk \<Rightarrow> bool" where
  "lexical_condition E tsquery tokens c \<longleftrightarrow>
     se_ts_match E (ch_search_text c) tsquery \<or> tokens \<noteq> [] \<and> exact_match tokens c"

definition lexical_rank :: "search_engine \<Rightarrow> ustr \<Rightarrow> ustr list \<Rightarrow> chunk \<Rightarrow> real" where
  "lexical_rank E tsquery tokens c =
     se_ts_rank E (ch_search_text c) tsquery + (if tokens \<noteq> [] \<and> exact_match tokens c then 10 else 0)"

definition lexical_rows ::
  "search_engine \<Rightarrow> int \<Rightarrow> ustr \<Rightarrow> (chunk \<times> ustr) list \<Rightarrow> (chunk \<times> ustr) list res" where
  "lexical_rows E k question base =
     (let tsquery = build_websearch_query (se_isalnum E) (se_casefold E) (se_jieba E) question;
          tokens = extract_exact_tokens question
      in sql_limit k (sorted_desc (\<lambda>r. lexical_rank E tsquery tokens (fst r))
           (filter (\<lambda>r. lexical_condition E tsquery tokens (fst r)) base)))"

section \<open>Merging and ordering\<close>

record merged_result =
  mr_chunk :: chunk
  mr_name :: ustr
  mr_score :: real
  mr_dense :: real
  mr_rerank :: "real option"

type_synonym merged = "(int \<times> merged_result) list"

text \<open>The loop over the dense rows; \<open>float(None)\<close> raises a \<open>TypeError\<close>.\<close>

fun merge_dense :: "search_engine \<Rightarrow> embedding \<Rightarrow> merged \<Rightarrow> (chunk \<times> ustr) list \<Rightarrow> merged res" where
  "merge_dense E vector merged [] = Inr merged"
| "merge_dense E vector merged ((c, name) # rows) =
     (case chunk_distance E vector c of
        None \<Rightarrow> Inl TypeError
      | Some v \<Rightarrow> merge_dense E vector
          (AList.update (ch_id c)
             \<lparr>mr_chunk = c, mr_name = name, mr_score = 0, mr_dense = max 0 (1 - v), mr_rerank = None\<rparr>
             merged) rows)"

fun merge_lexical :: "merged \<Rightarrow> (chunk \<times> ustr) list \<Rightarrow> merged" where
  "merge_lexical merged [] = merged"
| "merge_lexical merged ((c, name) # rows) =
     merge_lexical
       (if map_of merged (ch_id c) = None
        then merged @ [(ch_id c, \<lparr>mr_chunk = c, mr_name = name, mr_score = 0, mr_dense = 0,
                                  mr_rerank = None\<rparr>)]
        else merged) rows"

fun set_scores :: "merged \<Rightarrow> (int \<times> real) list \<Rightarrow> merged res" where
  "set_scores merged [] = Inr merged"
| "set_scores merged ((i, score) # scores) =
     (case map_of merged i of
        None \<Rightarrow> Inl KeyError
      | Some r \<Rightarrow> set_scores (AList.update i (r\<lparr>mr_score := score\<rparr>) merged) scores)"

text \<open>The candidates of both rankings in the order of their fused score.\<close>

definition fused ::
  "search_engine \<Rightarrow> query_settings \<Rightarrow> embedding \<Rightarrow> (chunk \<times> ustr) list \<Rightarrow> (chunk \<times> ustr) list
     \<Rightarrow> merged_result list res" where
  "fused E s vector dense lexical =
     rbind (merge_dense E vector [] dense) (\<lambda>merged.
     rbind (weighted_rrf_scores (map (ch_id \<circ> fst) dense) (map (ch_id \<circ> fst) lexical) (qs_rrf_k s)
              (qs_dense_weight s) (qs_lexical_weight s)) (\<lambda>scores.
     rmap (\<lambda>merged. sorted_desc mr_score (map snd merged))
       (set_scores (merge_lexical merged lexical) scores)))"

text \<open>
  The exceptions of the reranker that leave the fused order in place: \<open>httpx.HTTPError\<close> with its
  subclasses, \<open>KeyError\<close>, \<open>TypeError\<close> and \<open>ValueError\<close>.
\<close>

fun rerank_degrades :: "exc \<Rightarrow> bool" where
  "rerank_degrades (HTTPStatusError _) = True"
| "rerank_degrades TimeoutException = True"
| "rerank_degrades TransportError = True"
| "rerank_degrades KeyError = True"
| "rerank_degrades TypeError = True"
| "rerank_degrades (ValueError _) = True"
| "rerank_degrades _ = False"

text \<open>Of two results with the same index the later one counts; no score sorts last.\<close>

definition attach_scores :: "rerank_result list \<Rightarrow> merged_result list \<Rightarrow> merged_result list" where
  "attach_scores reranked ordered =
     (let by_index = map_of (rev (map (\<lambda>r. (rr_index r, rr_score r)) reranked))
      in map (\<lambda>(i, item). item\<lparr>mr_rerank := by_index (int i)\<rparr>) (List.enumerate 0 ordered))"

definition order_reranked :: "merged_result list \<Rightarrow> merged_result list" where
  "order_reranked items =
     sorted_desc (\<lambda>item. the (mr_rerank item)) (filter (\<lambda>item. mr_rerank item \<noteq> None) items)
     @ filter (\<lambda>item. mr_rerank item = None) items"

definition apply_rerank :: "rerank_result list \<Rightarrow> merged_result list \<Rightarrow> merged_result list" where
  "apply_rerank reranked ordered =
     (if reranked = [] then ordered else order_reranked (attach_scores reranked ordered))"

definition rerank_step ::
  "(ustr \<Rightarrow> ustr list \<Rightarrow> rerank_result list res) \<Rightarrow> ustr \<Rightarrow> merged_result list
     \<Rightarrow> merged_result list res" where
  "rerank_step rr question ordered =
     (case rr question (map (ch_contextual_content \<circ> mr_chunk) ordered) of
        Inr reranked \<Rightarrow> Inr (apply_rerank reranked ordered)
      | Inl e \<Rightarrow> if rerank_degrades e then Inr (apply_rerank [] ordered) else Inl e)"

section \<open>The sources\<close>

text \<open>\<open>parent_chunk_id or id\<close>: 0 counts as no parent.\<close>

definition context_id :: "merged_result \<Rightarrow> int" where
  "context_id item =
     (case ch_parent_chunk_id (mr_chunk item) of
        Some p \<Rightarrow> if p \<noteq> 0 then p else ch_id (mr_chunk item)
      | None \<Rightarrow> ch_id (mr_chunk item))"

fun select_unique ::
  "int \<Rightarrow> int list \<Rightarrow> merged_result list \<Rightarrow> merged_result list \<Rightarrow> merged_result list" where
  "select_unique top_k seen selected [] = selected"
| "select_unique top_k seen selected (item # items) =
     (if List.member seen (context_id item) then select_unique top_k seen selected items
      else if int (length (selected @ [item])) = top_k then selected @ [item]
      else select_unique top_k (context_id item # seen) (selected @ [item]) items)"

definition select_context_results ::
  "bool \<Rightarrow> merged_result list \<Rightarrow> int \<Rightarrow> merged_result list" where
  "select_context_results parent_context ordered top_k =
     (if \<not> parent_context then slice_to ordered top_k else select_unique top_k [] [] ordered)"

definition get_parent_content ::
  "bool \<Rightarrow> merged_result list \<Rightarrow> rag_db \<Rightarrow> (int \<times> ustr) list" where
  "get_parent_content parent_context ordered db =
     (if \<not> parent_context then []
      else
        let parent_ids = List.map_filter (ch_parent_chunk_id \<circ> mr_chunk) ordered
        in if parent_ids = [] then []
           else rev (map (\<lambda>c. (ch_id c, ch_content c))
                  (filter (\<lambda>c. List.member parent_ids (ch_id c) \<and> ch_is_parent c \<and> ch_deleted c = 0)
                     (t_chunks db))))"

text \<open>\<open>round(x, 6)\<close> rounds half to even.\<close>

definition round_half_even :: "real \<Rightarrow> int" where
  "round_half_even x =
     (let f = \<lfloor>x\<rfloor>; r = x - of_int f
      in if r < 1 / 2 then f else if r > 1 / 2 then f + 1 else if even f then f else f + 1)"

definition round6 :: "real \<Rightarrow> real" where
  "round6 x = of_int (round_half_even (x * 1000000)) / 1000000"

definition citation :: "nat \<Rightarrow> ustr" where
  "citation n = [91, 83] @ str_nat n @ [93]"

definition parent_or_own :: "(int \<times> ustr) list \<Rightarrow> chunk \<Rightarrow> ustr" where
  "parent_or_own parents c =
     (case ch_parent_chunk_id c of
        None \<Rightarrow> ch_content c
      | Some p \<Rightarrow> (case map_of parents p of None \<Rightarrow> ch_content c | Some t \<Rightarrow> t))"

definition source_of :: "(int \<times> ustr) list \<Rightarrow> nat \<Rightarrow> merged_result \<Rightarrow> source_detail" where
  "source_of parents index item =
     (let c = mr_chunk item in
      \<lparr>sd_knowledge_base_id = ch_kb_id c, sd_document_id = ch_document_id c,
       sd_document_name = mr_name item, sd_chunk_id = ch_id c, sd_chunk_index = ch_chunk_index c,
       sd_content = parent_or_own parents c,
       sd_score = round6 (mr_score item), sd_rerank_score = mr_rerank item,
       sd_citation = citation index\<rparr>)"

definition sources_of :: "query_settings \<Rightarrow> rag_db \<Rightarrow> int \<Rightarrow> merged_result list \<Rightarrow> source_detail list" where
  "sources_of s db top_k ordered =
     (let selected = select_context_results (qs_parent_context s) ordered top_k;
          parents = get_parent_content (qs_parent_context s) selected db
      in map (\<lambda>(i, item). source_of parents i item) (enumerate1 selected))"

text \<open>\<open>retrieve\<close>\<close>

definition retrieve ::
  "search_engine \<Rightarrow> query_settings \<Rightarrow> (ustr list \<Rightarrow> embedding list res)
     \<Rightarrow> (ustr \<Rightarrow> ustr list \<Rightarrow> rerank_result list res)
     \<Rightarrow> int \<Rightarrow> bool \<Rightarrow> 'a retrieve_param_scheme \<Rightarrow> rag_db \<Rightarrow> source_detail list res" where
  "retrieve E s emb rr user_id is_admin obj db =
     rbind (accessible_kb_ids user_id is_admin (rp_knowledge_base_ids obj) db) (\<lambda>ids.
     rbind (emb [rp_question obj]) (\<lambda>vectors.
     if vectors = [] then Inl IndexError
     else
       let base = base_rows ids db in
       rbind (dense_rows E (qs_dense_candidate_k s) (hd vectors) base) (\<lambda>dense.
       rbind (lexical_rows E (qs_lexical_candidate_k s) (rp_question obj) base) (\<lambda>lexical.
       rbind (fused E s (hd vectors) dense lexical) (\<lambda>ordered.
       rmap (sources_of s db (rp_top_k obj))
         (rerank_step rr (rp_question obj) ordered))))))"

section \<open>The answer\<close>

text \<open>\<open>AgentState\<close> without the question, and the only node of the graph.\<close>

record agent_state =
  as_retrieval_rounds :: int
  as_tool_calls :: int
  as_stop_reason :: ustr

definition route :: "query_settings \<Rightarrow> agent_state \<Rightarrow> agent_state" where
  "route s st = st\<lparr>as_retrieval_rounds := min 1 (qs_agent_max_rounds s),
     as_tool_calls := min 1 (qs_agent_max_calls s), as_stop_reason := asc ''bounded_retrieval''\<rparr>"

text \<open>The graph runs from \<open>START\<close> through \<open>route\<close> to \<open>END\<close>.\<close>

definition agent_graph_invoke :: "query_settings \<Rightarrow> agent_state \<Rightarrow> agent_state" where
  "agent_graph_invoke s st = route s st"

definition effective_mode :: "'a answer_param_scheme \<Rightarrow> query_mode" where
  "effective_mode obj =
     (if ap_mode obj = Mode_agentic \<or> ap_mode obj = Mode_auto \<and> 80 < length (rp_question obj)
      then Mode_agentic else Mode_basic)"

definition initial_state :: "query_settings \<Rightarrow> query_mode \<Rightarrow> agent_state" where
  "initial_state s mode =
     (if mode = Mode_agentic
      then agent_graph_invoke s \<lparr>as_retrieval_rounds = 0, as_tool_calls = 0, as_stop_reason = []\<rparr>
      else \<lparr>as_retrieval_rounds = 1, as_tool_calls = 0, as_stop_reason = asc ''basic_retrieval''\<rparr>)"

text \<open>What follows the retrieval: no evidence, no call of the chat model.\<close>

definition answer_from ::
  "query_settings \<Rightarrow> (ustr \<Rightarrow> ustr \<Rightarrow> ustr res) \<Rightarrow> 'a answer_param_scheme \<Rightarrow> ustr
     \<Rightarrow> source_detail list \<Rightarrow> answer_detail res" where
  "answer_from s chat obj trace_id sources =
     (let mode = effective_mode obj; st = initial_state s mode in
      if \<not> has_sufficient_scope_evidence (rp_question obj) sources
      then Inr \<lparr>ad_answer = msg_insufficient, ad_sources = [], ad_requested_mode = ap_mode obj,
        ad_effective_mode = mode, ad_status = asc ''insufficient_evidence'',
        ad_retrieval_rounds = as_retrieval_rounds st,
        ad_stop_reason = (if sources \<noteq> [] then asc ''insufficient_scope_evidence''
                          else asc ''no_sources''),
        ad_trace_id = Some trace_id\<rparr>
      else
        rbind (build_bounded_context sources (qs_final_context_k s) (qs_context_max_tokens s))
          (\<lambda>selection.
        rmap (\<lambda>text. \<lparr>ad_answer = sanitize_answer_citations text (cs_sources selection),
            ad_sources = cs_sources selection, ad_requested_mode = ap_mode obj,
            ad_effective_mode = mode, ad_status = asc ''answered'',
            ad_retrieval_rounds = as_retrieval_rounds st, ad_stop_reason = as_stop_reason st,
            ad_trace_id = Some trace_id\<rparr>)
          (chat (rp_question obj) (cs_context selection))))"

definition log_of ::
  "query_settings \<Rightarrow> int \<Rightarrow> 'a answer_param_scheme \<Rightarrow> int \<Rightarrow> answer_detail \<Rightarrow> query_log" where
  "log_of s user_id obj latency_ms result =
     \<lparr>ql_id = 0, ql_owner_id = user_id, ql_knowledge_base_ids = rp_knowledge_base_ids obj,
      ql_requested_mode = ap_mode obj, ql_effective_mode = effective_mode obj,
      ql_status = ad_status result, ql_retrieval_rounds = ad_retrieval_rounds result,
      ql_tool_calls = as_tool_calls (initial_state s (effective_mode obj)),
      ql_source_count = int (length (ad_sources result)), ql_latency_ms = latency_ms,
      ql_trace_id = ad_trace_id result\<rparr>"

text \<open>\<open>answer\<close>; an exception leaves the database as it was.\<close>

definition answer ::
  "search_engine \<Rightarrow> query_settings \<Rightarrow> (ustr list \<Rightarrow> embedding list res)
     \<Rightarrow> (ustr \<Rightarrow> ustr list \<Rightarrow> rerank_result list res) \<Rightarrow> (ustr \<Rightarrow> ustr \<Rightarrow> ustr res)
     \<Rightarrow> ustr \<Rightarrow> int \<Rightarrow> int \<Rightarrow> bool \<Rightarrow> 'a answer_param_scheme \<Rightarrow> rag_db
     \<Rightarrow> (rag_db \<times> answer_detail) res" where
  "answer E s emb rr chat trace_id latency_ms user_id is_admin obj db =
     rbind (retrieve E s emb rr user_id is_admin obj db) (\<lambda>sources.
     rmap (\<lambda>result. (insert_log (log_of s user_id obj latency_ms result) db, result))
       (answer_from s chat obj trace_id sources))"

end
