(* ===== verification/QueryProps.thy ===== *)
theory QueryProps
  imports Query LifecycleProps
begin

text \<open>
  What a question gets: the candidates carry their chunks through merging, fusion, reranking and
  selection, so every source is a live child chunk of a READY document in a knowledge base the
  caller may read; the order of the sources; the outcomes of an answer and its log row; and what
  retrieval sees in the reachable states of the document lifecycle.
\<close>

section \<open>Candidates keep their rows\<close>

definition merged_from :: "(chunk \<times> ustr) set \<Rightarrow> merged \<Rightarrow> bool" where
  "merged_from B m \<longleftrightarrow> distinct (map fst m)
     \<and> (\<forall>(k, r) \<in> set m. k = ch_id (mr_chunk r) \<and> (mr_chunk r, mr_name r) \<in> B \<and> mr_rerank r = None)"

lemma merged_from_update:
  assumes "merged_from B m" "k = ch_id (mr_chunk r)" "(mr_chunk r, mr_name r) \<in> B" "mr_rerank r = None"
  shows "merged_from B (AList.update k r m)"
  using assms set_update_subset [of k r m] distinct_update [of m k r]
  unfolding merged_from_def by blast

lemma keys_update: "set (map fst (AList.update k v m)) = insert k (set (map fst m))"
  using dom_update [of k v m] by simp

lemma merge_dense_from:
  assumes "merge_dense E v m rows = Inr m'" "merged_from B m" "set rows \<subseteq> B"
  shows "merged_from B m' \<and> set (map fst m') = set (map fst m) \<union> set (map (ch_id \<circ> fst) rows)"
  using assms
proof (induction rows arbitrary: m)
  case (Cons row rows)
  obtain c name where row: "row = (c, name)" by (cases row)
  from Cons.prems obtain x where x: "chunk_distance E v c = Some x" by (auto simp: row split: option.splits)
  let ?r = "\<lparr>mr_chunk = c, mr_name = name, mr_score = 0, mr_dense = max 0 (1 - x), mr_rerank = None\<rparr>"
  have "merged_from B (AList.update (ch_id c) ?r m)"
    using Cons.prems by (intro merged_from_update) (auto simp: row)
  then have "merged_from B m' \<and> set (map fst m')
      = set (map fst (AList.update (ch_id c) ?r m)) \<union> set (map (ch_id \<circ> fst) rows)"
    using Cons.prems x by (intro Cons.IH) (auto simp: row)
  then show ?case by (simp only: keys_update) (auto simp: row)
qed simp

lemma merge_lexical_from:
  assumes "merged_from B m" "set rows \<subseteq> B"
  shows "merged_from B (merge_lexical m rows)
    \<and> set (map fst (merge_lexical m rows)) = set (map fst m) \<union> set (map (ch_id \<circ> fst) rows)"
  using assms
proof (induction rows arbitrary: m)
  case (Cons row rows)
  obtain c name where row: "row = (c, name)" by (cases row)
  show ?case
  proof (cases "map_of m (ch_id c) = None")
    case True
    then have "ch_id c \<notin> fst ` set m" by (simp add: map_of_eq_None_iff)
    then have "merged_from B (m @ [(ch_id c, \<lparr>mr_chunk = c, mr_name = name, mr_score = 0, mr_dense = 0,
        mr_rerank = None\<rparr>)])"
      using Cons.prems by (auto simp: merged_from_def row)
    from Cons.IH [OF this] Cons.prems(2) True show ?thesis by (auto simp: row)
  next
    case False
    then have "ch_id c \<in> set (map fst m)" by (simp add: map_of_eq_None_iff)
    with Cons.IH [OF Cons.prems(1)] Cons.prems(2) False show ?thesis by (auto simp: row)
  qed
qed simp

lemma set_scores_from:
  assumes "merged_from B m" "set (map fst scores) \<subseteq> set (map fst m)"
  shows "\<exists>m'. set_scores m scores = Inr m' \<and> merged_from B m' \<and> set (map fst m') = set (map fst m)"
  using assms
proof (induction scores arbitrary: m)
  case (Cons score scores)
  obtain i x where score: "score = (i, x)" by (cases score)
  have "map_of m i \<noteq> None" using Cons.prems(2) by (auto simp: score map_of_eq_None_iff)
  then obtain r where r: "map_of m i = Some r" by blast
  then have "(i, r) \<in> set m" by (rule map_of_SomeD)
  then have "merged_from B (AList.update i (r\<lparr>mr_score := x\<rparr>) m)"
    using Cons.prems(1) by (intro merged_from_update) (auto simp: merged_from_def)
  moreover have "set (map fst (AList.update i (r\<lparr>mr_score := x\<rparr>) m)) = set (map fst m)"
    using Cons.prems(2) unfolding keys_update by (auto simp: score)
  ultimately show ?case
    using Cons.IH [of "AList.update i (r\<lparr>mr_score := x\<rparr>) m"] Cons.prems(2)
    by (simp add: score r)
qed simp

text \<open>The fused candidates: no chunk twice, each a row of the selection, by descending score.\<close>

definition candidates_ok :: "(chunk \<times> ustr) set \<Rightarrow> merged_result list \<Rightarrow> bool" where
  "candidates_ok B items \<longleftrightarrow> distinct (map (ch_id \<circ> mr_chunk) items)
     \<and> (\<forall>r \<in> set items. (mr_chunk r, mr_name r) \<in> B)"

lemma merged_from_items:
  assumes "merged_from B m"
  shows "candidates_ok B (map snd m)" "\<forall>r \<in> set (map snd m). mr_rerank r = None"
proof -
  have eq: "map (ch_id \<circ> mr_chunk) (map snd m) = map fst m"
    using assms by (auto simp: merged_from_def)
  have "distinct (map (ch_id \<circ> mr_chunk) (map snd m))"
    unfolding eq using assms by (simp add: merged_from_def)
  then show "candidates_ok B (map snd m)" "\<forall>r \<in> set (map snd m). mr_rerank r = None"
    using assms by (auto simp: candidates_ok_def merged_from_def)
qed

lemma rrf_scores_keys:
  assumes "weighted_rrf_scores ds ls k dw lw = Inr scores"
  shows "set (map fst scores) = set ds \<union> set ls"
proof -
  from assms obtain s1 where s1: "rrf_add dw k 1 [] ds = Inr s1" "rrf_add lw k 1 s1 ls = Inr scores"
    by (auto simp: weighted_rrf_scores_def res_iffs)
  with rrf_add_keys [OF s1(1)] show ?thesis using rrf_add_keys [OF s1(2)] by auto
qed

lemma candidates_ok_reorder:
  assumes "candidates_ok B xs" "mset (map (\<lambda>r. (mr_chunk r, mr_name r)) ys) = mset (map (\<lambda>r. (mr_chunk r, mr_name r)) xs)"
  shows "candidates_ok B ys"
proof -
  let ?f = "\<lambda>r. (mr_chunk r, mr_name r)"
  have "mset (map (ch_id \<circ> fst) (map ?f ys)) = mset (map (ch_id \<circ> fst) (map ?f xs))"
    using assms(2) by (simp only: mset_map)
  then have "mset (map (ch_id \<circ> mr_chunk) ys) = mset (map (ch_id \<circ> mr_chunk) xs)"
    by (simp add: comp_def)
  then have "distinct (map (ch_id \<circ> mr_chunk) ys)"
    using assms(1) mset_eq_imp_distinct_iff unfolding candidates_ok_def by blast
  moreover have "?f ` set ys \<subseteq> B"
    using assms(1) mset_eq_setD [OF assms(2)] unfolding candidates_ok_def by auto
  ultimately show ?thesis unfolding candidates_ok_def by auto
qed

lemma fused_ok:
  assumes "fused E s v dense lexical = Inr items" "set dense \<subseteq> B" "set lexical \<subseteq> B"
  shows "candidates_ok B items" "sorted_wrt (\<lambda>x y. mr_score y \<le> mr_score x) items"
    "\<forall>r \<in> set items. mr_rerank r = None"
proof -
  from assms(1) obtain m scores m' where m: "merge_dense E v [] dense = Inr m"
      "weighted_rrf_scores (map (ch_id \<circ> fst) dense) (map (ch_id \<circ> fst) lexical) (qs_rrf_k s)
         (qs_dense_weight s) (qs_lexical_weight s) = Inr scores"
      "set_scores (merge_lexical m lexical) scores = Inr m'" "items = sorted_desc mr_score (map snd m')"
    by (auto simp: fused_def res_iffs)
  have d: "merged_from B m" "set (map fst m) = set (map (ch_id \<circ> fst) dense)"
    using merge_dense_from [OF m(1) _ assms(2)] by (auto simp: merged_from_def)
  note l = merge_lexical_from [OF d(1) assms(3)]
  have "merged_from B m'"
    using set_scores_from [of B "merge_lexical m lexical" scores] l m(3) rrf_scores_keys [OF m(2)] d(2)
    by auto
  note items = merged_from_items [OF this]
  show "candidates_ok B items"
    by (rule candidates_ok_reorder [OF items(1)]) (simp only: m(4) mset_map mset_sorted_desc)
  show "sorted_wrt (\<lambda>x y. mr_score y \<le> mr_score x) items"
    unfolding m(4) by (rule sorted_desc_ordered)
  show "\<forall>r \<in> set items. mr_rerank r = None" using items(2) by (simp add: m(4))
qed


section \<open>Reranking reorders\<close>

text \<open>
  The order of the result: by rerank score, the candidates without one last, and equal ones by
  their fused score.
\<close>

definition better :: "merged_result \<Rightarrow> merged_result \<Rightarrow> bool" where
  "better x y \<longleftrightarrow>
     (case mr_rerank x of
        None \<Rightarrow> mr_rerank y = None \<and> mr_score y \<le> mr_score x
      | Some a \<Rightarrow> (case mr_rerank y of
          None \<Rightarrow> True | Some b \<Rightarrow> b < a \<or> a = b \<and> mr_score y \<le> mr_score x))"

lemma sort_key_stable_order:
  assumes "sorted_wrt R xs"
  shows "sorted_wrt (\<lambda>x y. f x < f y \<or> f x = f y \<and> R x y) (sort_key f xs)"
  using assms
proof (induction xs)
  case (Cons x xs)
  let ?R = "\<lambda>x y. f x < f y \<or> f x = f y \<and> R x y"
  have ins: "sorted_wrt ?R (insort_key f x ys)"
    if "sorted_wrt ?R ys" "sorted (map f ys)" "\<forall>y \<in> set ys. R x y" for ys
    using that by (induction ys) (auto simp: set_insort_key dest: le_imp_less_or_eq)
  have "sorted_wrt ?R (sort_key f xs)" using Cons by simp
  then show ?case using Cons.prems by (auto intro!: ins)
qed simp

text \<open>The loop that attaches the rerank scores changes nothing else.\<close>

lemma map_enumerate_frame:
  "(\<And>i x. g (h i x) = g x) \<Longrightarrow> map g (map (\<lambda>(i, x). h i x) (List.enumerate n xs)) = map g xs"
  by (induction xs arbitrary: n) auto

lemma attach_scores_frame:
  assumes "\<And>x z. g (x\<lparr>mr_rerank := z\<rparr>) = g x"
  shows "map g (attach_scores rs xs) = map g xs"
  unfolding attach_scores_def Let_def by (rule map_enumerate_frame) (rule assms)

lemma mset_order_reranked: "mset (order_reranked items) = mset items"
  using multiset_partition [of "mset items" "\<lambda>item. mr_rerank item \<noteq> None"]
  by (simp add: order_reranked_def)

lemma apply_rerank_frame:
  assumes "\<And>x z. g (x\<lparr>mr_rerank := z\<rparr>) = g x"
  shows "mset (map g (apply_rerank rs xs)) = mset (map g xs)"
proof (cases "rs = []")
  case False
  then have "mset (map g (apply_rerank rs xs)) = mset (map g (attach_scores rs xs))"
    by (simp only: apply_rerank_def if_False mset_map mset_order_reranked)
  then show ?thesis unfolding attach_scores_frame [of g, OF assms] .
qed (simp add: apply_rerank_def)

lemma order_reranked_better:
  assumes "sorted_wrt (\<lambda>x y. mr_score y \<le> mr_score x) items"
  shows "sorted_wrt better (order_reranked items)"
proof -
  let ?scored = "filter (\<lambda>item. mr_rerank item \<noteq> None) items"
  have "sorted_wrt (\<lambda>x y. - the (mr_rerank x) < - the (mr_rerank y)
      \<or> - the (mr_rerank x) = - the (mr_rerank y) \<and> mr_score y \<le> mr_score x)
      (sorted_desc (\<lambda>item. the (mr_rerank item)) ?scored)"
    unfolding sorted_desc_def by (rule sort_key_stable_order) (rule sorted_wrt_filter [OF assms])
  then have "sorted_wrt better (sorted_desc (\<lambda>item. the (mr_rerank item)) ?scored)"
    by (rule sorted_wrt_mono_rel [rotated]) (auto simp: better_def)
  moreover have "sorted_wrt better (filter (\<lambda>item. mr_rerank item = None) items)"
    by (rule sorted_wrt_mono_rel [OF _ sorted_wrt_filter [OF assms]]) (auto simp: better_def)
  ultimately show ?thesis by (auto simp: order_reranked_def sorted_wrt_append better_def)
qed

lemma apply_rerank_order:
  assumes "sorted_wrt (\<lambda>x y. mr_score y \<le> mr_score x) xs" "\<forall>x \<in> set xs. mr_rerank x = None"
  shows "sorted_wrt better (apply_rerank rs xs)"
proof (cases "rs = []")
  case True
  then show ?thesis
    using sorted_wrt_mono_rel [OF _ assms(1), of better] assms(2) by (simp add: apply_rerank_def better_def)
next
  case False
  have "sorted_wrt (\<lambda>x y. y \<le> x) (map mr_score xs)" using assms(1) by (simp add: sorted_wrt_map)
  then have "sorted_wrt (\<lambda>x y. y \<le> x) (map mr_score (attach_scores rs xs))"
    by (simp add: attach_scores_frame)
  then have "sorted_wrt (\<lambda>x y. mr_score y \<le> mr_score x) (attach_scores rs xs)"
    by (simp add: sorted_wrt_map)
  then show ?thesis using False order_reranked_better by (simp add: apply_rerank_def)
qed

lemma rerank_step_ok:
  assumes "rerank_step rr q ordered = Inr items"
  shows "\<exists>rs. items = apply_rerank rs ordered"
  using assms by (auto simp: rerank_step_def split: sum.splits if_splits)

section \<open>Selection\<close>

lemma select_unique_spec:
  assumes "int (length selected) < top_k" "distinct (map context_id selected)" "set seen = set (map context_id selected)"
  shows "\<exists>rest. select_unique top_k seen selected items = selected @ rest \<and> subseq rest items
    \<and> int (length (selected @ rest)) \<le> top_k \<and> distinct (map context_id (selected @ rest))"
  using assms
proof (induction items arbitrary: seen selected)
  case (Cons item items)
  show ?case
  proof (cases "context_id item \<in> set seen")
    case True
    with Cons.IH [OF Cons.prems] show ?thesis by (auto intro: list_emb_Cons)
  next
    case new: False
    then have d: "distinct (map context_id (selected @ [item]))" using Cons.prems(2,3) by simp
    show ?thesis
    proof (cases "int (length (selected @ [item])) = top_k")
      case True
      then have "select_unique top_k seen selected (item # items) = selected @ [item]"
        using new by simp
      with True d show ?thesis by (intro exI [of _ "[item]"]) simp
    next
      case False
      then have "int (length (selected @ [item])) < top_k" using Cons.prems(1) by simp
      moreover have "set (context_id item # seen) = set (map context_id (selected @ [item]))"
        using Cons.prems(3) by simp
      ultimately obtain rest where rest:
        "select_unique top_k (context_id item # seen) (selected @ [item]) items = (selected @ [item]) @ rest"
        "subseq rest items" "int (length ((selected @ [item]) @ rest)) \<le> top_k"
        "distinct (map context_id ((selected @ [item]) @ rest))"
        using Cons.IH [OF _ d] by blast
      have "select_unique top_k seen selected (item # items) = selected @ item # rest"
        using new False rest(1) by simp
      with rest(2-4) show ?thesis by (intro exI [of _ "item # rest"]) simp
    qed
  qed
qed simp

lemma select_context_spec:
  assumes "1 \<le> top_k"
  shows "subseq (select_context_results pc ordered top_k) ordered"
    "int (length (select_context_results pc ordered top_k)) \<le> top_k"
    "pc \<Longrightarrow> distinct (map context_id (select_context_results pc ordered top_k))"
proof -
  have "subseq (slice_to ordered top_k) ordered" "int (length (slice_to ordered top_k)) \<le> top_k"
    using assms by (simp_all add: slice_to_nonneg prefix_imp_subseq take_is_prefix)
  then show "subseq (select_context_results pc ordered top_k) ordered"
    "int (length (select_context_results pc ordered top_k)) \<le> top_k"
    "pc \<Longrightarrow> distinct (map context_id (select_context_results pc ordered top_k))"
    using select_unique_spec [of "[]" top_k "[]" ordered] assms
    by (auto simp: select_context_results_def)
qed

section \<open>From the tables to the sources\<close>

lemma subseq_sorted_wrt: "subseq xs ys \<Longrightarrow> sorted_wrt R ys \<Longrightarrow> sorted_wrt R xs"
  by (induction rule: list_emb.induct) (auto dest: list_emb_set)

lemma subseq_distinct: "subseq xs ys \<Longrightarrow> distinct ys \<Longrightarrow> distinct xs"
  by (induction rule: list_emb.induct) (auto dest: list_emb_set)

lemma round_half_even_near: "\<lfloor>x\<rfloor> \<le> round_half_even x \<and> round_half_even x \<le> \<lfloor>x\<rfloor> + 1"
  by (simp add: round_half_even_def Let_def)

lemma round_half_even_mono:
  assumes "x \<le> y"
  shows "round_half_even x \<le> round_half_even y"
proof (cases "\<lfloor>x\<rfloor> = \<lfloor>y\<rfloor>")
  case True
  with assms show ?thesis by (auto simp: round_half_even_def Let_def)
next
  case False
  then have "\<lfloor>x\<rfloor> + 1 \<le> \<lfloor>y\<rfloor>" using floor_mono [OF assms] by linarith
  then show ?thesis using round_half_even_near [of x] round_half_even_near [of y] by linarith
qed

lemma round6_mono: "x \<le> y \<Longrightarrow> round6 x \<le> round6 y"
  by (simp add: round6_def round_half_even_mono divide_right_mono)

lemma round6_near: "\<bar>round6 x - x\<bar> \<le> 1 / 2000000"
proof -
  let ?y = "x * 1000000"
  have "\<bar>of_int (round_half_even ?y) - ?y\<bar> \<le> 1 / 2"
    unfolding round_half_even_def Let_def
    by (auto split: if_splits; linarith)
  then show ?thesis by (simp add: round6_def field_simps abs_le_iff)
qed

lemma base_rows_mem:
  "(c, name) \<in> set (base_rows ids db) \<longleftrightarrow> c \<in> set (t_chunks db)
     \<and> (\<exists>d \<in> set (t_documents db). name = doc_filename d \<and> doc_id d = ch_document_id c
          \<and> ch_kb_id c \<in> set ids \<and> ch_deleted c = 0 \<and> \<not> ch_is_parent c \<and> doc_status d = READY
          \<and> doc_deleted d = 0)"
  by (auto simp: base_rows_def)


lemma accessible_kb_ids_mem:
  assumes "accessible_kb_ids u adm requested db = Inr ids" "k \<in> set ids"
  shows "k \<in> set requested \<and> (\<exists>kb \<in> set (t_kbs db). kb_id kb = k \<and> kb_deleted kb = 0
    \<and> kb_visible u adm False kb)"
  using assms by (auto simp: accessible_kb_ids_def kb_visible_def Let_def split: if_splits)

lemma sql_limit_subset: "sql_limit k xs = Inr ys \<Longrightarrow> set ys \<subseteq> set xs"
  by (auto simp: sql_limit_def split: if_splits dest: in_set_takeD)

lemma dense_rows_subset: "dense_rows E k v base = Inr rows \<Longrightarrow> set rows \<subseteq> set base"
  unfolding dense_rows_def by (drule sql_limit_subset) (auto simp: order_nulls_last_def)

lemma lexical_rows_subset: "lexical_rows E k q base = Inr rows \<Longrightarrow> set rows \<subseteq> set base"
  unfolding lexical_rows_def Let_def by (drule sql_limit_subset) auto

text \<open>What a retrieval that succeeds went through.\<close>

lemma retrieveE:
  assumes "retrieve E s emb rr u adm obj db = Inr sources"
  obtains ids ordered where
    "accessible_kb_ids u adm (rp_knowledge_base_ids obj) db = Inr ids"
    "candidates_ok (set (base_rows ids db)) ordered" "sorted_wrt better ordered"
    "sources = sources_of s db (rp_top_k obj) ordered"
proof -
  from assms obtain ids vectors dense lexical items ordered where
    ids: "accessible_kb_ids u adm (rp_knowledge_base_ids obj) db = Inr ids"
    and dense: "dense_rows E (qs_dense_candidate_k s) (hd vectors) (base_rows ids db) = Inr dense"
    and lexical: "lexical_rows E (qs_lexical_candidate_k s) (rp_question obj) (base_rows ids db) = Inr lexical"
    and items: "fused E s (hd vectors) dense lexical = Inr items"
    and ordered: "rerank_step rr (rp_question obj) items = Inr ordered"
    and sources: "sources = sources_of s db (rp_top_k obj) ordered"
    by (auto simp: retrieve_def Let_def res_iffs split: if_splits)
  note ok = fused_ok [OF items dense_rows_subset [OF dense] lexical_rows_subset [OF lexical]]
  obtain rs where rs: "ordered = apply_rerank rs items" using rerank_step_ok [OF ordered] by blast
  have "candidates_ok (set (base_rows ids db)) ordered"
    by (rule candidates_ok_reorder [OF ok(1)]) (use apply_rerank_frame [of "\<lambda>r. (mr_chunk r, mr_name r)" rs items] rs in simp)
  moreover have "sorted_wrt better ordered" unfolding rs by (rule apply_rerank_order [OF ok(2,3)])
  ultimately show ?thesis using that ids sources by blast
qed

definition selected_of :: "query_settings \<Rightarrow> int \<Rightarrow> merged_result list \<Rightarrow> merged_result list" where
  "selected_of s top_k ordered = select_context_results (qs_parent_context s) ordered top_k"

lemma sources_of_eq:
  "sources_of s db top_k ordered =
     map2 (source_of (get_parent_content (qs_parent_context s) (selected_of s top_k ordered) db))
       [1..<Suc (length (selected_of s top_k ordered))] (selected_of s top_k ordered)"
  by (simp add: sources_of_def selected_of_def enumerate1_def Let_def)

lemma sources_ofE:
  assumes "x \<in> set (sources_of s db top_k ordered)" "1 \<le> top_k"
  obtains i item where "item \<in> set ordered"
    "x = source_of (get_parent_content (qs_parent_context s) (selected_of s top_k ordered) db) i item"
proof -
  from assms(1) obtain i item where xi: "item \<in> set (selected_of s top_k ordered)"
    "x = source_of (get_parent_content (qs_parent_context s) (selected_of s top_k ordered) db) i item"
    unfolding sources_of_eq by (auto dest: set_zip_rightD)
  then have "item \<in> set ordered"
    using list_emb_set [OF select_context_spec(1) [OF assms(2)]] by (auto simp: selected_of_def)
  with xi(2) show ?thesis by (rule that [rotated])
qed

lemma map_map2_second: "length xs = length ys \<Longrightarrow> (\<And>i y. g (f i y) = h y) \<Longrightarrow> map g (map2 f xs ys) = map h ys"
  by (induction xs ys rule: list_induct2) auto

lemma map_map2_first: "length xs = length ys \<Longrightarrow> (\<And>i y. g (f i y) = h i) \<Longrightarrow> map g (map2 f xs ys) = map h xs"
  by (induction xs ys rule: list_induct2) auto

lemma source_of_sel [simp]:
  "sd_chunk_id (source_of parents i item) = ch_id (mr_chunk item)"
  "sd_citation (source_of parents i item) = citation i"
  "sd_rerank_score (source_of parents i item) = mr_rerank item"
  "sd_score (source_of parents i item) = round6 (mr_score item)"
  by (simp_all add: source_of_def Let_def)

text \<open>Where a content may come from: the chunk itself, or its live parent when that is enabled.\<close>

definition content_from :: "query_settings \<Rightarrow> rag_db \<Rightarrow> chunk \<Rightarrow> ustr \<Rightarrow> bool" where
  "content_from s db c content \<longleftrightarrow> content = ch_content c
     \<or> qs_parent_context s \<and> (\<exists>p \<in> set (t_chunks db). ch_parent_chunk_id c = Some (ch_id p)
         \<and> ch_is_parent p \<and> ch_deleted p = 0 \<and> content = ch_content p)"

lemma parent_content_from:
  "content_from s db c (parent_or_own (get_parent_content (qs_parent_context s) items db) c)"
proof (cases "ch_parent_chunk_id c")
  case (Some p)
  show ?thesis
  proof (cases "map_of (get_parent_content (qs_parent_context s) items db) p")
    case None
    with Some show ?thesis by (simp add: parent_or_own_def content_from_def)
  next
    case content: (Some t)
    then have "(p, t) \<in> set (get_parent_content (qs_parent_context s) items db)" by (rule map_of_SomeD)
    then have "qs_parent_context s" "\<exists>x \<in> set (t_chunks db). ch_id x = p \<and> ch_content x = t
        \<and> ch_is_parent x \<and> ch_deleted x = 0"
      by (auto simp: get_parent_content_def Let_def split: if_splits)
    with Some content show ?thesis by (auto simp: parent_or_own_def content_from_def)
  qed
qed (simp add: parent_or_own_def content_from_def)

text \<open>The row a source was made from, and why its reader may see it.\<close>

definition source_visible ::
  "query_settings \<Rightarrow> rag_db \<Rightarrow> int \<Rightarrow> bool \<Rightarrow> int list \<Rightarrow> source_detail \<Rightarrow> chunk \<Rightarrow> document
     \<Rightarrow> knowledge_base \<Rightarrow> bool" where
  "source_visible s db u adm requested x c d kb \<longleftrightarrow>
     c \<in> set (t_chunks db) \<and> d \<in> set (t_documents db) \<and> kb \<in> set (t_kbs db)
     \<and> sd_chunk_id x = ch_id c \<and> sd_chunk_index x = ch_chunk_index c
     \<and> sd_document_id x = doc_id d \<and> ch_document_id c = doc_id d
     \<and> sd_document_name x = doc_filename d \<and> content_from s db c (sd_content x)
     \<and> ch_deleted c = 0 \<and> \<not> ch_is_parent c \<and> doc_status d = READY \<and> doc_deleted d = 0
     \<and> sd_knowledge_base_id x = kb_id kb \<and> ch_kb_id c = kb_id kb \<and> kb_id kb \<in> set requested
     \<and> kb_deleted kb = 0 \<and> kb_visible u adm False kb"

lemma source_of_visible:
  assumes "accessible_kb_ids u adm requested db = Inr ids"
    "(mr_chunk item, mr_name item) \<in> set (base_rows ids db)"
  shows "\<exists>c d kb. source_visible s db u adm requested
    (source_of (get_parent_content (qs_parent_context s) items db) i item) c d kb"
proof -
  obtain d where d: "d \<in> set (t_documents db)" "mr_name item = doc_filename d"
      "doc_id d = ch_document_id (mr_chunk item)" "ch_kb_id (mr_chunk item) \<in> set ids"
      "ch_deleted (mr_chunk item) = 0" "\<not> ch_is_parent (mr_chunk item)" "doc_status d = READY"
      "doc_deleted d = 0" and c: "mr_chunk item \<in> set (t_chunks db)"
    using assms(2) by (auto simp: base_rows_mem)
  from accessible_kb_ids_mem [OF assms(1) d(4)] obtain kb where kb: "kb \<in> set (t_kbs db)"
    "kb_id kb = ch_kb_id (mr_chunk item)" "kb_deleted kb = 0" "kb_visible u adm False kb"
    "kb_id kb \<in> set requested" by auto
  have "source_visible s db u adm requested
    (source_of (get_parent_content (qs_parent_context s) items db) i item) (mr_chunk item) d kb"
    using d c kb parent_content_from [of s db "mr_chunk item" items]
    by (simp add: source_visible_def source_of_def Let_def)
  then show ?thesis by blast
qed

lemma retrieve_chunks_distinct:
  assumes "retrieve E s emb rr u adm obj db = Inr sources" "1 \<le> rp_top_k obj"
  shows "distinct (map sd_chunk_id sources)"
proof -
  from assms(1) obtain ids ordered where ok: "candidates_ok (set (base_rows ids db)) ordered"
    and src: "sources = sources_of s db (rp_top_k obj) ordered" by (rule retrieveE)
  let ?sel = "selected_of s (rp_top_k obj) ordered"
  note sel = select_context_spec [OF assms(2), where pc = "qs_parent_context s" and ordered = ordered,
      folded selected_of_def]
  have "map sd_chunk_id sources = map (ch_id \<circ> mr_chunk) ?sel"
    unfolding src sources_of_eq by (rule map_map2_second) (simp_all del: upt_Suc)
  moreover have "distinct (map (ch_id \<circ> mr_chunk) ?sel)"
    using ok subseq_distinct [OF subseq_map [OF sel(1), of "ch_id \<circ> mr_chunk"]]
    by (simp add: candidates_ok_def)
  ultimately show ?thesis by simp
qed

text \<open>
  C16: whatever the services answer, a retrieval returns at most \<open>top_k\<close> sources, cited \<open>[S1]\<close>,
  \<open>[S2]\<close>, \<open>\<dots>\<close> in order, no chunk twice; and each is a live child chunk of a READY document in a
  requested, live knowledge base that the caller owns, administers or finds public.
\<close>

theorem retrieve_sources:
  assumes "retrieve E s emb rr u adm obj db = Inr sources" "param_ok obj"
  shows "int (length sources) \<le> rp_top_k obj
    \<and> map sd_citation sources = map citation [1..<Suc (length sources)]
    \<and> distinct (map sd_chunk_id sources)
    \<and> (\<forall>x \<in> set sources. \<exists>c d kb. source_visible s db u adm (rp_knowledge_base_ids obj) x c d kb)"
proof -
  from assms(1) obtain ids ordered where
    ids: "accessible_kb_ids u adm (rp_knowledge_base_ids obj) db = Inr ids"
    and ok: "candidates_ok (set (base_rows ids db)) ordered"
    and src: "sources = sources_of s db (rp_top_k obj) ordered" by (rule retrieveE)
  let ?sel = "selected_of s (rp_top_k obj) ordered"
  have top: "1 \<le> rp_top_k obj" using assms(2) by (simp add: param_ok_def)
  note sel = select_context_spec [OF top, where pc = "qs_parent_context s" and ordered = ordered,
      folded selected_of_def]
  have len: "length sources = length ?sel" by (simp add: src sources_of_eq del: upt_Suc)
  have "distinct (map sd_chunk_id sources)" by (rule retrieve_chunks_distinct [OF assms(1) top])
  moreover have "map sd_citation sources = map citation [1..<Suc (length ?sel)]"
    unfolding src sources_of_eq by (rule map_map2_first) (simp_all del: upt_Suc)
  moreover have "\<exists>c d kb. source_visible s db u adm (rp_knowledge_base_ids obj) x c d kb"
    if x: "x \<in> set sources" for x
  proof -
    obtain i item where xi: "item \<in> set ordered"
      "x = source_of (get_parent_content (qs_parent_context s) ?sel db) i item"
      by (rule sources_ofE [OF x [unfolded src] top])
    then have "(mr_chunk item, mr_name item) \<in> set (base_rows ids db)"
      using ok by (simp add: candidates_ok_def)
    from source_of_visible [OF ids this] show ?thesis unfolding xi(2) .
  qed
  ultimately show ?thesis using sel(2) len by simp
qed

text \<open>The order of the sources: by rerank score, the ones without it last, then by fused score.\<close>

definition source_before :: "source_detail \<Rightarrow> source_detail \<Rightarrow> bool" where
  "source_before x y \<longleftrightarrow>
     (case sd_rerank_score x of
        None \<Rightarrow> sd_rerank_score y = None \<and> sd_score y \<le> sd_score x
      | Some a \<Rightarrow> (case sd_rerank_score y of
          None \<Rightarrow> True | Some b \<Rightarrow> b < a \<or> a = b \<and> sd_score y \<le> sd_score x))"

lemma better_before: "better x y \<Longrightarrow> source_before (source_of ps i x) (source_of ps j y)"
  by (auto simp: better_def source_before_def intro: round6_mono split: option.splits)

lemma sorted_wrt_map2:
  assumes "length xs = length ys" "sorted_wrt R ys" "\<And>i j x y. R x y \<Longrightarrow> Q (f i x) (f j y)"
  shows "sorted_wrt Q (map2 f xs ys)"
  using assms(1,2)
  by (induction xs ys rule: list_induct2) (auto dest!: set_zip_rightD intro: assms(3))

lemma rerank_step_degraded:
  assumes "rr q ds = Inr [] \<or> (\<exists>e. rr q ds = Inl e \<and> rerank_degrades e)"
    "ds = map (ch_contextual_content \<circ> mr_chunk) items"
  shows "rerank_step rr q items = Inr items"
  using assms by (auto simp: rerank_step_def apply_rerank_def)

text \<open>
  the sources come by rerank score and then by fused score, whatever the reranker returned;
  and a reranker that is disabled or fails with one of the caught exceptions leaves exactly the
  result of the fused order, without rerank scores.
\<close>

theorem retrieve_order:
  assumes "1 \<le> rp_top_k obj" "retrieve E s emb rr u adm obj db = Inr sources"
  shows "sorted_wrt source_before sources
    \<and> ((\<forall>q ds. rr q ds = Inr [] \<or> (\<exists>e. rr q ds = Inl e \<and> rerank_degrades e)) \<longrightarrow>
         retrieve E s emb (\<lambda>_ _. Inr []) u adm obj db = Inr sources
         \<and> (\<forall>x \<in> set sources. sd_rerank_score x = None))"
proof -
  from assms(2) obtain ids ordered where srt: "sorted_wrt better ordered"
    and src: "sources = sources_of s db (rp_top_k obj) ordered" by (rule retrieveE)
  let ?sel = "selected_of s (rp_top_k obj) ordered"
  have "sorted_wrt better ?sel"
    using select_context_spec(1) [OF assms(1)] srt unfolding selected_of_def by (rule subseq_sorted_wrt)
  then have "sorted_wrt source_before sources"
    unfolding src sources_of_eq
    by (intro sorted_wrt_map2 [where R = better] better_before) (simp_all del: upt_Suc)
  moreover have "retrieve E s emb (\<lambda>_ _. Inr []) u adm obj db = Inr sources
      \<and> (\<forall>x \<in> set sources. sd_rerank_score x = None)"
    if off: "\<forall>q ds. rr q ds = Inr [] \<or> (\<exists>e. rr q ds = Inl e \<and> rerank_degrades e)"
  proof -
    have step: "rerank_step rr q items = Inr items" "rerank_step (\<lambda>_ _. Inr []) q items = Inr items"
      for q items using off by (auto intro!: rerank_step_degraded)
    have "retrieve E s emb (\<lambda>_ _. Inr []) u adm obj db = retrieve E s emb rr u adm obj db"
      by (simp only: retrieve_def step)
    moreover from assms(2) obtain vectors dense lexical items where
      items: "fused E s (hd vectors) dense lexical = Inr items"
      and src: "sources = sources_of s db (rp_top_k obj) items"
      unfolding retrieve_def step Let_def by (auto simp: res_iffs split: if_splits)
    have "sd_rerank_score x = None" if "x \<in> set sources" for x
      by (rule sources_ofE [OF that [unfolded src] assms(1)])
        (simp add: fused_ok(3) [OF items subset_UNIV subset_UNIV, rule_format])
    ultimately show ?thesis using assms(2) by simp
  qed
  ultimately show ?thesis by blast
qed

section \<open>In the reachable states\<close>



section \<open>Answers\<close>

lemma list_all2_set1: "list_all2 P xs ys \<Longrightarrow> x \<in> set xs \<Longrightarrow> \<exists>y \<in> set ys. P x y"
  by (induction rule: list_all2_induct) auto

lemma context_sources:
  assumes "build_bounded_context sources k n = Inr selection" "x \<in> set (cs_sources selection)"
  shows "\<exists>y \<in> set sources. truncated_from x y"
proof -
  have sel: "1 \<le> k" "1 \<le> n" "cs_sources selection = select_sources (n * 4) k 0 [] [] sources"
    using assms(1) by (auto simp: build_bounded_context_def Let_def split: if_splits)
  have "selection_inv (n * 4) k [] 0 [] []"
    using sel(1,2) by (simp add: selection_inv_def units_of_parts_def)
  from select_sources_inv [OF this, of sources] obtain used seen where
    inv: "selection_inv (n * 4) k sources used seen (cs_sources selection)"
    unfolding sel(3) append_Nil by blast
  obtain chosen where "subseq chosen sources" "list_all2 truncated_from (cs_sources selection) chosen"
    using inv unfolding selection_inv_def by blast
  then obtain y where y: "y \<in> set chosen" "truncated_from x y" and sub: "subseq chosen sources"
    using list_all2_set1 [OF _ assms(2)] by metis
  then have "y \<in> set sources" using list_emb_set [OF sub y(1)] by auto
  with y(2) show ?thesis by (rule bexI)
qed

text \<open>
  C18: an answer adds exactly one row to the query log, which agrees with it, and changes nothing
  else. Without evidence in the retrieved sources it is the fixed refusal without sources, and the
  chat model has no part in it; otherwise every cited source is a retrieved one, at most truncated.
\<close>

theorem answer_outcome:
  assumes "answer E s emb rr chat trace_id latency u adm obj db = Inr (db', r)"
  shows "\<exists>sources l. retrieve E s emb rr u adm obj db = Inr sources
    \<and> db' = db\<lparr>t_logs := t_logs db @ [l], next_log := next_log db + 1\<rparr>
    \<and> ql_id l = next_log db \<and> ql_owner_id l = u \<and> ql_status l = ad_status r
    \<and> ql_source_count l = int (length (ad_sources r)) \<and> ql_trace_id l = ad_trace_id r
    \<and> ql_retrieval_rounds l = ad_retrieval_rounds r \<and> ad_retrieval_rounds r \<le> 1 \<and> ql_tool_calls l \<le> 1
    \<and> (if has_sufficient_scope_evidence (rp_question obj) sources
       then ad_status r = asc ''answered''
         \<and> (\<forall>x \<in> set (ad_sources r). \<exists>y \<in> set sources. truncated_from x y)
       else ad_status r = asc ''insufficient_evidence'' \<and> ad_sources r = [] \<and> ad_answer r = msg_insufficient
         \<and> (\<forall>chat'. answer E s emb rr chat' trace_id latency u adm obj db = Inr (db', r)))"
proof -
  from assms obtain sources where src: "retrieve E s emb rr u adm obj db = Inr sources"
    and r: "answer_from s chat obj trace_id sources = Inr r"
    and db': "db' = insert_log (log_of s u obj latency r) db"
    by (auto simp: answer_def res_iffs)
  have state: "as_retrieval_rounds (initial_state s m) \<le> 1" "as_tool_calls (initial_state s m) \<le> 1" for m
    by (simp_all add: initial_state_def agent_graph_invoke_def route_def)
  let ?l = "(log_of s u obj latency r)\<lparr>ql_id := next_log db\<rparr>"
  show ?thesis
  proof (intro exI [of _ sources] exI [of _ ?l] conjI)
    show "ad_retrieval_rounds r \<le> 1"
      using r state by (auto simp: answer_from_def Let_def res_iffs split: if_splits)
    show "if has_sufficient_scope_evidence (rp_question obj) sources
       then ad_status r = asc ''answered''
         \<and> (\<forall>x \<in> set (ad_sources r). \<exists>y \<in> set sources. truncated_from x y)
       else ad_status r = asc ''insufficient_evidence'' \<and> ad_sources r = [] \<and> ad_answer r = msg_insufficient
         \<and> (\<forall>chat'. answer E s emb rr chat' trace_id latency u adm obj db = Inr (db', r))"
    proof (cases "has_sufficient_scope_evidence (rp_question obj) sources")
      case True
      with r obtain selection reply where
        "build_bounded_context sources (qs_final_context_k s) (qs_context_max_tokens s) = Inr selection"
        "ad_sources r = cs_sources selection" "ad_status r = asc ''answered''"
        by (auto simp: answer_from_def Let_def res_iffs)
      with context_sources True show ?thesis by simp
    next
      case False
      then have "answer_from s chat' obj trace_id sources = answer_from s chat obj trace_id sources" for chat'
        by (simp add: answer_from_def Let_def)
      then have "answer E s emb rr chat' trace_id latency u adm obj db = Inr (db', r)" for chat'
        using src r db' by (simp add: answer_def)
      with False r show ?thesis by (auto simp: answer_from_def Let_def)
    qed
  qed (simp_all add: src db' insert_log_def log_of_def state)
qed

section \<open>A concrete question\<close>

definition sample_engine :: search_engine where
  "sample_engine = \<lparr>se_cosine_distance = (\<lambda>_ _. 1 / 4), se_ts_match = (\<lambda>_ _. True),
     se_ts_rank = (\<lambda>_ _. 0), se_isalnum = is_ascii_alnum, se_casefold = ascii_lower,
     se_jieba = split_ws\<rparr>"

definition sample_query_settings :: query_settings where
  "sample_query_settings = \<lparr>qs_dense_candidate_k = 30, qs_lexical_candidate_k = 30, qs_rrf_k = 60,
     qs_dense_weight = 1, qs_lexical_weight = 1 / 2, qs_parent_context = False,
     qs_final_context_k = 8, qs_context_max_tokens = 6000, qs_agent_max_rounds = 2,
     qs_agent_max_calls = 6\<rparr>"

definition sample_question :: answer_param where
  "sample_question = \<lparr>rp_question = [97], rp_knowledge_base_ids = [1], rp_top_k = 5, ap_mode = Mode_auto\<rparr>"

text \<open>The owner asks in the state after the first document was indexed.\<close>

definition sample_retrieve :: "(ustr \<Rightarrow> ustr list \<Rightarrow> rerank_result list res) \<Rightarrow> source_detail list res" where
  "sample_retrieve rr = retrieve sample_engine sample_query_settings (\<lambda>_. Inr [[1]]) rr 7 False
     sample_question (w_db (run index_acts))"

definition sample_answer :: "(rag_db \<times> answer_detail) res" where
  "sample_answer = answer sample_engine sample_query_settings (\<lambda>_. Inr [[1]]) (\<lambda>_ _. Inr [])
     (\<lambda>_ _. Inr (asc ''hi [S1][S7]'')) (asc ''t'') 12 7 False sample_question (w_db (run index_acts))"

lemma sample_retrieve_value:
  "rr = (\<lambda>_ _. Inr []) \<or> rr = (\<lambda>_ _. Inl TimeoutException) \<Longrightarrow>
   \<exists>x. sample_retrieve rr = Inr [x] \<and> sd_content x = asc ''hi'' \<and> sd_rerank_score x = None"
proof -
  let ?f = "\<lambda>x. (sd_content x, sd_rerank_score x)"
  have "rmap (map ?f) (sample_retrieve (\<lambda>_ _. Inr [])) = Inr [(asc ''hi'', None)]"
    "rmap (map ?f) (sample_retrieve (\<lambda>_ _. Inl TimeoutException)) = Inr [(asc ''hi'', None)]"
    by code_simp+
  then show "rr = (\<lambda>_ _. Inr []) \<or> rr = (\<lambda>_ _. Inl TimeoutException) \<Longrightarrow> ?thesis"
    by (fastforce simp: rmap_Inr_iff dest!: map_eq_singletonD)
qed

lemma sample_param_ok: "param_ok sample_question"
  by (simp add: param_ok_def sample_question_def)

theorem retrieve_sources_witness:
  "\<exists>x c d kb. sample_retrieve (\<lambda>_ _. Inr []) = Inr [x] \<and> sd_citation x = citation 1
     \<and> source_visible sample_query_settings (w_db (run index_acts)) 7 False [1] x c d kb"
proof -
  obtain x where x: "sample_retrieve (\<lambda>_ _. Inr []) = Inr [x]"
    using sample_retrieve_value [of "\<lambda>_ _. Inr []"] by blast
  from retrieve_sources [OF x [unfolded sample_retrieve_def] sample_param_ok] x show ?thesis
    by (simp add: sample_question_def)
qed

theorem retrieve_order_witness:
  "\<exists>x. sample_retrieve (\<lambda>_ _. Inl TimeoutException) = Inr [x] \<and> sd_rerank_score x = None
     \<and> sample_retrieve (\<lambda>_ _. Inr []) = Inr [x]"
proof -
  obtain x where x: "sample_retrieve (\<lambda>_ _. Inl TimeoutException) = Inr [x]"
    using sample_retrieve_value [of "\<lambda>_ _. Inl TimeoutException"] by blast
  have "1 \<le> rp_top_k sample_question" by (simp add: sample_question_def)
  from retrieve_order [OF this x [unfolded sample_retrieve_def]] x show ?thesis
    by (simp add: sample_retrieve_def)
qed


theorem answer_outcome_witness:
  "\<exists>db r. sample_answer = Inr (db, r) \<and> ad_answer r = asc ''hi [S1]'' \<and> length (t_logs db) = 1
     \<and> ad_retrieval_rounds r \<le> 1"
proof -
  have eq: "rmap (\<lambda>(db, r). (ad_answer r, length (t_logs db))) sample_answer
      = Inr (asc ''hi [S1]'', 1)" by code_simp
  then obtain db r where r: "sample_answer = Inr (db, r)" "ad_answer r = asc ''hi [S1]''"
    "length (t_logs db) = 1" by (auto simp: rmap_Inr_iff)
  from answer_outcome [OF r(1) [unfolded sample_answer_def]] have "ad_retrieval_rounds r \<le> 1" by blast
  with r show ?thesis by blast
qed

end
