(* ===== verification/Redis.thy ===== *)
theory Redis
  imports Errors
begin

text \<open>
  \<open>backend/database/redis.py\<close> and the commands of the Redis client that the modelled services use.
  The store is explicit state: each key with its value and the time, in milliseconds, at which it
  expires. A command that reads takes the current time.
\<close>

section \<open>The store\<close>

type_synonym redis = "(ustr \<times> (ustr \<times> int option)) list"

definition alive :: "int \<Rightarrow> int option \<Rightarrow> bool" where
  "alive now expires = (case expires of None \<Rightarrow> True | Some t \<Rightarrow> now < t)"

definition r_get :: "int \<Rightarrow> ustr \<Rightarrow> redis \<Rightarrow> ustr option" where
  "r_get now k st =
     (case map_of st k of None \<Rightarrow> None | Some (v, e) \<Rightarrow> if alive now e then Some v else None)"

definition r_exists :: "int \<Rightarrow> ustr \<Rightarrow> redis \<Rightarrow> bool" where
  "r_exists now k st \<longleftrightarrow> r_get now k st \<noteq> None"

text \<open>\<open>set(key, value, ex=seconds)\<close>; without \<open>ex\<close> the key does not expire.\<close>

definition r_set :: "int \<Rightarrow> ustr \<Rightarrow> ustr \<Rightarrow> int option \<Rightarrow> redis \<Rightarrow> redis" where
  "r_set now k v ex st = AList.update k (v, map_option (\<lambda>s. now + s * 1000) ex) st"

text \<open>\<open>set(\<dots>, nx=True)\<close> tells whether the key was set.\<close>

definition r_setnx :: "int \<Rightarrow> ustr \<Rightarrow> ustr \<Rightarrow> int option \<Rightarrow> redis \<Rightarrow> redis \<times> bool" where
  "r_setnx now k v ex st = (if r_exists now k st then (st, False) else (r_set now k v ex st, True))"

definition r_delete :: "ustr \<Rightarrow> redis \<Rightarrow> redis" where
  "r_delete k st = AList.delete k st"

definition r_delete_all :: "ustr list \<Rightarrow> redis \<Rightarrow> redis" where
  "r_delete_all ks st = fold r_delete ks st"

definition r_expire :: "int \<Rightarrow> ustr \<Rightarrow> int \<Rightarrow> redis \<Rightarrow> redis" where
  "r_expire now k seconds st =
     (case r_get now k st of None \<Rightarrow> st | Some v \<Rightarrow> AList.update k (v, Some (now + seconds * 1000)) st)"

text \<open>\<open>scan_iter(match=f'{key_prefix}:*')\<close>: the live keys, in no particular order.\<close>

definition below :: "ustr \<Rightarrow> ustr \<Rightarrow> bool" where
  "below key_prefix k \<longleftrightarrow> prefix (key_prefix @ [58]) k"

definition scan_iter :: "int \<Rightarrow> ustr \<Rightarrow> redis \<Rightarrow> ustr list" where
  "scan_iter now key_prefix st =
     filter (\<lambda>k. below key_prefix k \<and> r_exists now k st) (remdups (map fst st))"

section \<open>The client's own operations\<close>

text \<open>\<open>exclude_keys\<close> is one key, a list of keys, or absent.\<close>

datatype exclude = No_exclude | Exclude_key ustr | Exclude_keys "ustr list"

fun exclude_set :: "exclude \<Rightarrow> ustr list" where
  "exclude_set No_exclude = []"
| "exclude_set (Exclude_key k) = [k]"
| "exclude_set (Exclude_keys ks) = ks"

text \<open>The loop over the scanned keys with the batch collected so far.\<close>

fun delete_batches :: "nat \<Rightarrow> ustr list \<Rightarrow> ustr list \<Rightarrow> ustr list \<Rightarrow> redis \<Rightarrow> redis" where
  "delete_batches batch_size excluded batch [] st = (if batch \<noteq> [] then r_delete_all batch st else st)"
| "delete_batches batch_size excluded batch (key # keys) st =
     (if List.member excluded key then delete_batches batch_size excluded batch keys st
      else if batch_size \<le> length (batch @ [key])
      then delete_batches batch_size excluded [] keys (r_delete_all (batch @ [key]) st)
      else delete_batches batch_size excluded (batch @ [key]) keys st)"

definition delete_by_prefix :: "int \<Rightarrow> ustr \<Rightarrow> exclude \<Rightarrow> nat \<Rightarrow> redis \<Rightarrow> redis" where
  "delete_by_prefix now key_prefix exclude batch_size st =
     (let excluded = exclude_set exclude;
          batch = (if \<not> List.member excluded key_prefix \<and> r_exists now key_prefix st
                   then [key_prefix] else [])
      in delete_batches batch_size excluded batch (scan_iter now key_prefix st) st)"

definition get_by_prefix :: "int \<Rightarrow> ustr \<Rightarrow> redis \<Rightarrow> ustr list" where
  "get_by_prefix now key_prefix st = scan_iter now key_prefix st"

section \<open>What the commands promise\<close>

lemma r_get_set:
  "r_get now k (r_set now' k' v ex st) =
     (if k = k' then (if alive now (map_option (\<lambda>s. now' + s * 1000) ex) then Some v else None)
      else r_get now k st)"
  by (auto simp: r_get_def r_set_def update_conv' split: option.splits)

lemma r_get_delete: "r_get now k (r_delete k' st) = (if k = k' then None else r_get now k st)"
  by (auto simp: r_get_def r_delete_def delete_conv' split: option.splits)

lemma r_get_delete_all: "r_get now k (r_delete_all ks st) = (if k \<in> set ks then None else r_get now k st)"
  unfolding r_delete_all_def by (induction ks arbitrary: st) (auto simp: r_get_delete)

lemma r_get_expire:
  "r_get now k (r_expire now' k' s st) =
     (if k = k' \<and> r_get now' k st \<noteq> None
      then (if now < now' + s * 1000 then r_get now' k st else None) else r_get now k st)"
  by (auto simp: r_get_def r_expire_def update_conv' alive_def split: option.splits if_splits)

text \<open>Time only lets keys expire.\<close>

lemma r_get_later: "r_get now' k st = Some v \<Longrightarrow> now \<le> now' \<Longrightarrow> r_get now k st = Some v"
  by (auto simp: r_get_def alive_def split: option.splits if_splits)

lemma r_get_key: "r_get now k st = Some v \<Longrightarrow> k \<in> fst ` set st"
  by (auto simp: r_get_def split: option.splits dest!: map_of_SomeD intro: rev_image_eqI)

lemma set_scan_iter: "set (scan_iter now p st) = {k. below p k \<and> r_get now k st \<noteq> None}"
  unfolding scan_iter_def r_exists_def using r_get_key by auto

lemma delete_batches_get:
  "r_get now k (delete_batches n excluded batch keys st)
     = (if k \<in> set batch \<or> k \<in> set keys \<and> k \<notin> set excluded then None else r_get now k st)"
  by (induction n excluded batch keys st rule: delete_batches.induct) (auto simp: r_get_delete_all)

text \<open>
  Deleting by prefix removes the key itself and everything below it, apart from the excluded keys,
  whatever the batch size.
\<close>

lemma delete_by_prefix_get:
  assumes "now \<le> t"
  shows "r_get t k (delete_by_prefix now p ex n st)
    = (if (k = p \<or> below p k) \<and> k \<notin> set (exclude_set ex) then None else r_get t k st)"
proof -
  have "r_get t k st = None" if "r_get now k st = None"
    using r_get_later [of t k st _ now] assms that by (cases "r_get t k st") auto
  then show ?thesis
    by (auto simp: delete_by_prefix_def delete_batches_get set_scan_iter r_exists_def Let_def)
qed

text \<open>
  The interface the session code relies on: a store of values by key, in which a written key can be
  read until it expires or is deleted, and no operation touches another key.
\<close>

locale key_value_store =
  fixes get :: "'t \<Rightarrow> 'k \<Rightarrow> 's \<Rightarrow> 'v option"
    and put :: "'t \<Rightarrow> 'k \<Rightarrow> 'v \<Rightarrow> 'e \<Rightarrow> 's \<Rightarrow> 's"
    and remove :: "'k \<Rightarrow> 's \<Rightarrow> 's"
    and valid :: "'t \<Rightarrow> 't \<Rightarrow> 'e \<Rightarrow> bool"
  assumes get_put: "get t k (put t' k' v e s) = (if k = k' then (if valid t t' e then Some v else None) else get t k s)"
    and get_remove: "get t k (remove k' s) = (if k = k' then None else get t k s)"
begin

lemma put_other: "k \<noteq> k' \<Longrightarrow> get t k (put t' k' v e s) = get t k s"
  by (simp add: get_put)

lemma remove_other: "k \<noteq> k' \<Longrightarrow> get t k (remove k' s) = get t k s"
  by (simp add: get_remove)

lemma get_put_SomeD: "get t k (put t' k' v e s) = Some x \<Longrightarrow> k = k' \<and> x = v \<or> get t k s = Some x"
  by (auto simp: get_put split: if_splits)

lemma get_remove_SomeD: "get t k (remove k' s) = Some x \<Longrightarrow> k \<noteq> k' \<and> get t k s = Some x"
  by (auto simp: get_remove split: if_splits)

lemma removed_stays: "get t k (remove k s) = None"
  by (simp add: get_remove)

end

interpretation redis_store: key_value_store r_get r_set r_delete
  "\<lambda>t t' ex. alive t (map_option (\<lambda>s. t' + s * 1000) ex)"
  by unfold_locales (rule r_get_set, rule r_get_delete)

end
