(* ===== verification/Snowflake.thy ===== *)
theory Snowflake
  imports Redis
begin

text \<open>
  \<open>backend/utils/snowflake.py\<close>: the 64-bit identifiers, their parsing, the generator with its clock
  checks, and the registration of nodes in Redis. Python integers are unbounded, so shifts and masks
  are those of \<open>int\<close>. The clock is the list of the readings that are still to come: a wait that they
  do not end has no result yet, which is \<open>None\<close>.
\<close>

unbundle bit_operations_syntax

section \<open>Configuration\<close>

text \<open>\<open>SnowflakeConfig\<close>\<close>

definition WORKER_ID_BITS :: nat where "WORKER_ID_BITS = 5"
definition DATACENTER_ID_BITS :: nat where "DATACENTER_ID_BITS = 5"
definition SEQUENCE_BITS :: nat where "SEQUENCE_BITS = 12"
definition MAX_WORKER_ID :: int where "MAX_WORKER_ID = push_bit WORKER_ID_BITS 1 - 1"
definition MAX_DATACENTER_ID :: int where "MAX_DATACENTER_ID = push_bit DATACENTER_ID_BITS 1 - 1"
definition SEQUENCE_MASK :: int where "SEQUENCE_MASK = push_bit SEQUENCE_BITS 1 - 1"
definition WORKER_ID_SHIFT :: nat where "WORKER_ID_SHIFT = SEQUENCE_BITS"
definition DATACENTER_ID_SHIFT :: nat where "DATACENTER_ID_SHIFT = SEQUENCE_BITS + WORKER_ID_BITS"
definition TIMESTAMP_LEFT_SHIFT :: nat where
  "TIMESTAMP_LEFT_SHIFT = SEQUENCE_BITS + WORKER_ID_BITS + DATACENTER_ID_BITS"
definition EPOCH :: int where "EPOCH = 1262275200000"
definition CLOCK_BACKWARD_TOLERANCE_MS :: int where "CLOCK_BACKWARD_TOLERANCE_MS = 10000"

lemmas sf_bits = WORKER_ID_BITS_def DATACENTER_ID_BITS_def SEQUENCE_BITS_def WORKER_ID_SHIFT_def
  DATACENTER_ID_SHIFT_def TIMESTAMP_LEFT_SHIFT_def

lemma sf_masks: "MAX_WORKER_ID = 31" "MAX_DATACENTER_ID = 31" "SEQUENCE_MASK = 4095"
  by (simp_all add: MAX_WORKER_ID_def MAX_DATACENTER_ID_def SEQUENCE_MASK_def sf_bits push_bit_eq_mult)

record snowflake_settings =
  SNOWFLAKE_REDIS_PREFIX :: ustr
  SNOWFLAKE_DATACENTER_ID :: "int option"
  SNOWFLAKE_WORKER_ID :: "int option"
  SNOWFLAKE_NODE_TTL_SECONDS :: int

section \<open>Nodes\<close>

definition node_redis_prefix :: "snowflake_settings \<Rightarrow> ustr" where
  "node_redis_prefix s = SNOWFLAKE_REDIS_PREFIX s @ asc '':nodes''"

definition node_key :: "snowflake_settings \<Rightarrow> int \<times> int \<Rightarrow> ustr" where
  "node_key s node = node_redis_prefix s @ [58] @ str_int (fst node) @ [58] @ str_int (snd node)"

definition parse_node :: "ustr \<Rightarrow> (int \<times> int) option" where
  "parse_node key =
     (let parts = split_on 58 key; n = length parts in
      if n \<ge> 5
      then (case parse_int (parts ! (n - 2)) of
              None \<Rightarrow> None
            | Some d \<Rightarrow> map_option (Pair d) (parse_int (parts ! (n - 1))))
      else None)"

text \<open>\<open>_register\<close>; \<open>value\<close> holds the process id and the time.\<close>

definition register_node ::
  "snowflake_settings \<Rightarrow> int \<Rightarrow> ustr \<Rightarrow> int \<times> int \<Rightarrow> redis \<Rightarrow> redis \<times> bool" where
  "register_node s now pid node st =
     r_setnx now (node_key s node) pid (Some (SNOWFLAKE_NODE_TTL_SECONDS s)) st"

definition all_nodes :: "(int \<times> int) list" where
  "all_nodes = concat (map (\<lambda>d. map (Pair d) [0..MAX_WORKER_ID]) [0..MAX_DATACENTER_ID])"

fun register_first ::
  "snowflake_settings \<Rightarrow> int \<Rightarrow> ustr \<Rightarrow> (int \<times> int) list \<Rightarrow> (int \<times> int) list \<Rightarrow> redis
     \<Rightarrow> (redis \<times> int \<times> int) res" where
  "register_first s now pid occupied [] st = Inl (ServerError msg_no_node)"
| "register_first s now pid occupied (node # nodes) st =
     (if List.member occupied node then register_first s now pid occupied nodes st
      else
        let (st', set) = register_node s now pid node st in
        if set then Inr (st', node) else register_first s now pid occupied nodes st')"

definition acquire_node_id ::
  "snowflake_settings \<Rightarrow> int \<Rightarrow> ustr \<Rightarrow> redis \<Rightarrow> (redis \<times> int \<times> int) res" where
  "acquire_node_id s now pid st =
     register_first s now pid (List.map_filter parse_node (scan_iter now (node_redis_prefix s) st))
       all_nodes st"

text \<open>One beat of \<open>start_heartbeat\<close>, and \<open>release\<close>.\<close>

definition heartbeat :: "snowflake_settings \<Rightarrow> int \<Rightarrow> int \<times> int \<Rightarrow> redis \<Rightarrow> redis" where
  "heartbeat s now node st = r_expire now (node_key s node) (SNOWFLAKE_NODE_TTL_SECONDS s) st"

definition release_node :: "snowflake_settings \<Rightarrow> int \<times> int \<Rightarrow> redis \<Rightarrow> redis" where
  "release_node s node st = r_delete (node_key s node) st"

section \<open>The generator\<close>

record snowflake =
  sf_datacenter_id :: "int option"
  sf_worker_id :: "int option"
  sf_sequence :: int
  sf_last_timestamp :: int
  sf_initialized :: bool
  sf_auto_allocated :: bool

definition new_snowflake :: snowflake where
  "new_snowflake = \<lparr>sf_datacenter_id = None, sf_worker_id = None, sf_sequence = 0,
     sf_last_timestamp = -1, sf_initialized = False, sf_auto_allocated = False\<rparr>"

definition in_range :: "int \<Rightarrow> int \<Rightarrow> bool" where
  "in_range limit x \<longleftrightarrow> 0 \<le> x \<and> x \<le> limit"

text \<open>\<open>init\<close>, with the state it leaves behind when it raises.\<close>

definition check_range :: "snowflake \<Rightarrow> snowflake \<times> unit res" where
  "check_range sf =
     (case (sf_datacenter_id sf, sf_worker_id sf) of
        (Some d, Some w) \<Rightarrow>
          if \<not> in_range MAX_DATACENTER_ID d then (sf, Inl (ServerError msg_sf_datacenter))
          else if \<not> in_range MAX_WORKER_ID w then (sf, Inl (ServerError msg_sf_worker))
          else (sf\<lparr>sf_initialized := True\<rparr>, Inr ())
      | _ \<Rightarrow> (sf, Inl TypeError))"

definition init ::
  "snowflake_settings \<Rightarrow> int \<Rightarrow> ustr \<Rightarrow> snowflake \<Rightarrow> redis \<Rightarrow> snowflake \<times> redis \<times> unit res" where
  "init s now pid sf st =
     (if sf_initialized sf then (sf, st, Inr ())
      else case (SNOWFLAKE_DATACENTER_ID s, SNOWFLAKE_WORKER_ID s) of
        (Some d, Some w) \<Rightarrow>
          (let (sf, r) = check_range (sf\<lparr>sf_datacenter_id := Some d, sf_worker_id := Some w\<rparr>)
           in (sf, st, r))
      | (None, None) \<Rightarrow>
          (case acquire_node_id s now pid st of
             Inl e \<Rightarrow> (sf, st, Inl e)
           | Inr (st', d, w) \<Rightarrow>
               (let (sf, r) = check_range (sf\<lparr>sf_datacenter_id := Some d, sf_worker_id := Some w,
                                             sf_auto_allocated := True\<rparr>)
                in (sf, st', r)))
      | _ \<Rightarrow> (sf, st, Inl (ServerError msg_sf_config)))"

definition shutdown :: "snowflake_settings \<Rightarrow> snowflake \<Rightarrow> redis \<Rightarrow> redis" where
  "shutdown s sf st =
     (case (sf_datacenter_id sf, sf_worker_id sf) of
        (Some d, Some w) \<Rightarrow> if sf_auto_allocated sf then release_node s (d, w) st else st
      | _ \<Rightarrow> st)"

text \<open>\<open>_current_ms\<close> takes the next reading; \<open>_till_next_ms\<close> reads until the clock has moved on.\<close>

fun current_ms :: "int list \<Rightarrow> (int \<times> int list) option" where
  "current_ms [] = None"
| "current_ms (t # clock) = Some (t, clock)"

fun till_next_ms :: "int \<Rightarrow> int list \<Rightarrow> (int \<times> int list) option" where
  "till_next_ms last_timestamp [] = None"
| "till_next_ms last_timestamp (t # clock) =
     (if t \<le> last_timestamp then till_next_ms last_timestamp clock else Some (t, clock))"

definition combine :: "int \<Rightarrow> int \<Rightarrow> int \<Rightarrow> int \<Rightarrow> int" where
  "combine timestamp datacenter_id worker_id sequence =
     push_bit TIMESTAMP_LEFT_SHIFT (timestamp - EPOCH) OR push_bit DATACENTER_ID_SHIFT datacenter_id
       OR push_bit WORKER_ID_SHIFT worker_id OR sequence"

text \<open>Same millisecond or not: the new sequence number and the time it belongs to.\<close>

definition next_sequence :: "snowflake \<Rightarrow> int \<Rightarrow> int list \<Rightarrow> (int \<times> int \<times> int list) option" where
  "next_sequence sf timestamp clock =
     (if timestamp = sf_last_timestamp sf
      then
        let sequence = (sf_sequence sf + 1) AND SEQUENCE_MASK in
        if sequence = 0
        then map_option (\<lambda>(t, clock). (sequence, t, clock)) (till_next_ms (sf_last_timestamp sf) clock)
        else Some (sequence, timestamp, clock)
      else Some (0, timestamp, clock))"

definition finish :: "snowflake \<Rightarrow> int \<times> int \<times> int list \<Rightarrow> snowflake \<times> int list \<times> int res" where
  "finish sf n =
     (case n of (sequence, timestamp, clock) \<Rightarrow>
        (sf\<lparr>sf_sequence := sequence, sf_last_timestamp := timestamp\<rparr>, clock,
         case (sf_datacenter_id sf, sf_worker_id sf) of
           (Some d, Some w) \<Rightarrow> Inr (combine timestamp d w sequence)
         | _ \<Rightarrow> Inl TypeError))"

text \<open>\<open>generate\<close>: the new state, the readings that are left, and the identifier or the exception.\<close>

definition generate :: "snowflake \<Rightarrow> int list \<Rightarrow> (snowflake \<times> int list \<times> int res) option" where
  "generate sf clock =
     (if \<not> sf_initialized sf then Some (sf, clock, Inl (ServerError msg_sf_uninit))
      else case current_ms clock of
        None \<Rightarrow> None
      | Some (timestamp, clock) \<Rightarrow>
          if timestamp < sf_last_timestamp sf
          then
            let back_ms = sf_last_timestamp sf - timestamp in
            if back_ms \<le> CLOCK_BACKWARD_TOLERANCE_MS
            then (case till_next_ms (sf_last_timestamp sf) clock of
                    None \<Rightarrow> None
                  | Some (timestamp, clock) \<Rightarrow> map_option (finish sf) (next_sequence sf timestamp clock))
            else Some (sf, clock, Inl (ServerError (msg_sf_back_pre @ str_int back_ms @ msg_sf_back_post)))
          else map_option (finish sf) (next_sequence sf timestamp clock))"

section \<open>Parsing\<close>

record snowflake_info =
  si_timestamp :: int
  si_datetime :: ustr
  si_datacenter_id :: int
  si_worker_id :: int
  si_sequence :: int

text \<open>\<open>parse\<close>; \<open>to_str\<close> renders a time in the configured zone.\<close>

definition parse :: "(int \<Rightarrow> ustr) \<Rightarrow> int \<Rightarrow> snowflake_info" where
  "parse to_str snowflake_id =
     (let timestamp = drop_bit TIMESTAMP_LEFT_SHIFT snowflake_id + EPOCH in
      \<lparr>si_timestamp = timestamp, si_datetime = to_str timestamp,
       si_datacenter_id = drop_bit DATACENTER_ID_SHIFT snowflake_id AND MAX_DATACENTER_ID,
       si_worker_id = drop_bit WORKER_ID_SHIFT snowflake_id AND MAX_WORKER_ID,
       si_sequence = snowflake_id AND SEQUENCE_MASK\<rparr>)"

section \<open>The identifier as a number\<close>

lemma or_shifted_add:
  fixes x y :: int
  assumes "0 \<le> y" "y < 2 ^ n"
  shows "push_bit n x OR y = x * 2 ^ n + y"
proof -
  have "y = take_bit n y" using assms by (simp add: take_bit_int_eq_self)
  then have small: "bit y k \<Longrightarrow> k < n" for k using bit_take_bit_iff by metis
  have "push_bit n x OR y = push_bit n x + y"
    by (intro disjunctive_add [symmetric]) (auto simp: bit_push_bit_iff dest: small)
  then show ?thesis by (simp add: push_bit_eq_mult)
qed

lemma combine_value:
  assumes "in_range MAX_DATACENTER_ID d" "in_range MAX_WORKER_ID w" "in_range SEQUENCE_MASK q"
  shows "combine t d w q = (t - EPOCH) * 2 ^ 22 + d * 2 ^ 17 + w * 2 ^ 12 + q"
proof -
  have r: "0 \<le> d" "d \<le> 31" "0 \<le> w" "w \<le> 31" "0 \<le> q" "q \<le> 4095"
    using assms by (simp_all add: in_range_def sf_masks)
  have 1: "push_bit 12 w OR q = w * 2 ^ 12 + q" using r by (intro or_shifted_add) auto
  have 2: "push_bit 17 d OR (w * 2 ^ 12 + q) = d * 2 ^ 17 + (w * 2 ^ 12 + q)"
    using r by (intro or_shifted_add) auto
  have 3: "push_bit 22 (t - EPOCH) OR (d * 2 ^ 17 + (w * 2 ^ 12 + q))
      = (t - EPOCH) * 2 ^ 22 + (d * 2 ^ 17 + (w * 2 ^ 12 + q))"
    using r by (intro or_shifted_add) auto
  have "combine t d w q = push_bit 22 (t - EPOCH) OR (push_bit 17 d OR (push_bit 12 w OR q))"
    by (simp add: combine_def sf_bits or.assoc)
  then show ?thesis unfolding 1 2 3 by simp
qed

lemma div_mod_low:
  fixes a r b :: int
  assumes "0 \<le> r" "r < b"
  shows "(a * b + r) div b = a" "(a * b + r) mod b = r"
  using assms by (simp_all add: div_mult_self3 div_pos_pos_trivial mod_pos_pos_trivial)

lemma and_masks: "x AND 31 = x mod (32 :: int)" "x AND 4095 = x mod (4096 :: int)"
  using take_bit_eq_mask [of 5 x] take_bit_eq_mask [of 12 x]
  by (simp_all add: take_bit_eq_mod mask_eq_exp_minus_1)

lemma parse_combine:
  assumes "in_range MAX_DATACENTER_ID d" "in_range MAX_WORKER_ID w" "in_range SEQUENCE_MASK q"
  shows "parse to_str (combine t d w q) = \<lparr>si_timestamp = t, si_datetime = to_str t,
      si_datacenter_id = d, si_worker_id = w, si_sequence = q\<rparr>
    \<and> (EPOCH \<le> t \<and> t < EPOCH + 2 ^ 41 \<longrightarrow> 0 \<le> combine t d w q \<and> combine t d w q < 2 ^ 63)"
proof -
  let ?v = "combine t d w q"
  have r: "0 \<le> d" "d \<le> 31" "0 \<le> w" "w \<le> 31" "0 \<le> q" "q \<le> 4095"
    using assms by (simp_all add: in_range_def sf_masks)
  note v = combine_value [OF assms, of t]
  have 1: "?v div 2 ^ 22 = t - EPOCH"
    using div_mod_low(1) [of "d * 2 ^ 17 + w * 2 ^ 12 + q" "2 ^ 22" "t - EPOCH"] r unfolding v by (simp add: add.assoc)
  have 2: "?v div 2 ^ 17 = (t - EPOCH) * 32 + d"
    using div_mod_low(1) [of "w * 2 ^ 12 + q" "2 ^ 17" "(t - EPOCH) * 32 + d"] r unfolding v by (simp add: algebra_simps)
  have 3: "?v div 2 ^ 12 = ((t - EPOCH) * 32 + d) * 32 + w"
    using div_mod_low(1) [of q "2 ^ 12" "((t - EPOCH) * 32 + d) * 32 + w"] r unfolding v by (simp add: algebra_simps)
  have 4: "?v mod 2 ^ 12 = q"
    using div_mod_low(2) [of q "2 ^ 12" "((t - EPOCH) * 32 + d) * 32 + w"] r unfolding v by (simp add: algebra_simps)
  have d: "?v div 131072 mod 32 = d"
    using 2 div_mod_low(2) [of d 32 "t - EPOCH"] r by simp
  have w: "?v div 4096 mod 32 = w"
    using 3 div_mod_low(2) [of w 32 "(t - EPOCH) * 32 + d"] r by simp
  have "parse to_str ?v = \<lparr>si_timestamp = t, si_datetime = to_str t,
      si_datacenter_id = d, si_worker_id = w, si_sequence = q\<rparr>"
    using 1 4 unfolding parse_def sf_bits sf_masks and_masks drop_bit_eq_div Let_def
    by (simp add: d w)
  moreover have "0 \<le> ?v \<and> ?v < 2 ^ 63" if "EPOCH \<le> t \<and> t < EPOCH + 2 ^ 41"
    using that r unfolding v by auto
  ultimately show ?thesis by blast
qed

text \<open>
  C19: parsing an identifier gives back the time, the data center, the worker and the sequence number
  it was made from, and an identifier has at most 63 bits while the time is less than \<open>2 ^ 41\<close>
  milliseconds after the epoch.
\<close>

theorem snowflake_roundtrip:
  assumes "in_range MAX_DATACENTER_ID d" "in_range MAX_WORKER_ID w" "in_range SEQUENCE_MASK q"
  shows "parse to_str (combine t d w q) = \<lparr>si_timestamp = t, si_datetime = to_str t,
      si_datacenter_id = d, si_worker_id = w, si_sequence = q\<rparr>
    \<and> (EPOCH \<le> t \<and> t < EPOCH + 2 ^ 41 \<longrightarrow> 0 \<le> combine t d w q \<and> combine t d w q < 2 ^ 63)"
  using assms by (rule parse_combine)

theorem snowflake_roundtrip_witness:
  "parse (\<lambda>_. []) (combine 1700000000000 3 17 4095) = \<lparr>si_timestamp = 1700000000000, si_datetime = [],
     si_datacenter_id = 3, si_worker_id = 17, si_sequence = 4095\<rparr>"
  using snowflake_roundtrip [of 3 17 4095 "\<lambda>_. []" 1700000000000] by (simp add: in_range_def sf_masks)

section \<open>Identifiers of one node and of all nodes\<close>

lemma combine_less:
  assumes "in_range MAX_DATACENTER_ID d" "in_range MAX_WORKER_ID w" "in_range SEQUENCE_MASK q"
    "in_range SEQUENCE_MASK q'" "t < t' \<or> t = t' \<and> q < q'"
  shows "combine t d w q < combine t' d w q'"
  using assms unfolding combine_value [OF assms(1-3)] combine_value [OF assms(1,2,4)]
  by (auto simp: in_range_def sf_masks)

text \<open>A generator that \<open>init\<close> has set up.\<close>

definition sf_ok :: "snowflake \<Rightarrow> bool" where
  "sf_ok sf \<longleftrightarrow> sf_initialized sf \<and> in_range SEQUENCE_MASK (sf_sequence sf)
     \<and> (case (sf_datacenter_id sf, sf_worker_id sf) of
          (Some d, Some w) \<Rightarrow> in_range MAX_DATACENTER_ID d \<and> in_range MAX_WORKER_ID w | _ \<Rightarrow> False)"

definition node_of :: "snowflake \<Rightarrow> int \<times> int" where
  "node_of sf = (the (sf_datacenter_id sf), the (sf_worker_id sf))"

lemma init_ok:
  assumes "init s now pid sf st = (sf', st', Inr ())" "in_range SEQUENCE_MASK (sf_sequence sf)"
    "sf_initialized sf \<Longrightarrow> sf_ok sf"
  shows "sf_ok sf'"
  using assms
  by (auto simp: init_def check_range_def sf_ok_def split: if_splits option.splits sum.splits prod.splits)

lemma till_next_ms_later:
  "till_next_ms l clock = Some (t, clock') \<Longrightarrow> l < t \<and> t \<in> set clock \<and> length clock' < length clock"
  by (induction l clock rule: till_next_ms.induct) (auto split: if_splits)

text \<open>One reading that is late enough ends the wait.\<close>

lemma till_next_ms_ends: "t \<in> set clock \<Longrightarrow> l < t \<Longrightarrow> \<exists>r. till_next_ms l clock = Some r"
  by (induction l clock rule: till_next_ms.induct) auto

lemma next_sequence_spec:
  assumes "next_sequence sf t clock = Some (q, t', clock')" "sf_last_timestamp sf \<le> t"
    "in_range SEQUENCE_MASK (sf_sequence sf)"
  shows "in_range SEQUENCE_MASK q \<and> t \<le> t' \<and> length clock' \<le> length clock \<and> t' \<in> insert t (set clock)
    \<and> (sf_last_timestamp sf < t' \<or> sf_last_timestamp sf = t' \<and> sf_sequence sf < q)"
proof (cases "t = sf_last_timestamp sf")
  case True
  have q: "(sf_sequence sf + 1) AND SEQUENCE_MASK
      = (if sf_sequence sf = 4095 then 0 else sf_sequence sf + 1)"
    using assms(3) by (auto simp: sf_masks and_masks in_range_def mod_pos_pos_trivial)
  show ?thesis
    using assms True unfolding next_sequence_def q Let_def
    by (auto simp: in_range_def sf_masks split: if_splits dest!: till_next_ms_later)
next
  case False
  with assms show ?thesis by (auto simp: next_sequence_def in_range_def sf_masks)
qed

lemma generate_spec:
  assumes "sf_ok sf" "generate sf clock = Some (sf', clock', r)"
  shows "sf_ok sf' \<and> node_of sf' = node_of sf \<and> length clock' < length clock
    \<and> (case r of
         Inl e \<Rightarrow> sf' = sf \<and> exc_code e = Some 500
       | Inr i \<Rightarrow> i = combine (sf_last_timestamp sf') (fst (node_of sf')) (snd (node_of sf')) (sf_sequence sf')
           \<and> (sf_last_timestamp sf < sf_last_timestamp sf'
              \<or> sf_last_timestamp sf = sf_last_timestamp sf' \<and> sf_sequence sf < sf_sequence sf'))"
proof -
  obtain d w where dw: "sf_datacenter_id sf = Some d" "sf_worker_id sf = Some w"
    and init: "sf_initialized sf" and q: "in_range SEQUENCE_MASK (sf_sequence sf)"
    using assms(1) by (auto simp: sf_ok_def split: option.splits)
  have fin: ?thesis if n: "next_sequence sf t c = Some n" "sf_last_timestamp sf \<le> t" "length c < length clock"
      "(sf', clock', r) = finish sf n" for t c n
  proof -
    obtain q' t' c' where n': "n = (q', t', c')" by (cases n)
    from next_sequence_spec [OF n(1) [unfolded n'] n(2) q] n(3,4) assms(1) show ?thesis
      by (auto simp: n' finish_def dw sf_ok_def node_of_def)
  qed
  obtain t c where c: "clock = t # c" using assms(2) init by (cases clock) (auto simp: generate_def)
  show ?thesis
  proof (cases "t < sf_last_timestamp sf")
    case True
    show ?thesis
    proof (cases "sf_last_timestamp sf - t \<le> CLOCK_BACKWARD_TOLERANCE_MS")
      case close: True
      with True assms(2) init c obtain t' c' n where "till_next_ms (sf_last_timestamp sf) c = Some (t', c')"
        "next_sequence sf t' c' = Some n" "(sf', clock', r) = finish sf n"
        by (auto simp: generate_def Let_def split: option.splits)
      with till_next_ms_later [of "sf_last_timestamp sf" c t' c'] show ?thesis
        by (intro fin [of t' c' n]) (auto simp: c)
    next
      case False
      with True assms(2) init c assms(1) show ?thesis by (auto simp: generate_def Let_def)
    qed
  next
    case False
    with assms(2) init c obtain n where "next_sequence sf t c = Some n" "(sf', clock', r) = finish sf n"
      by (auto simp: generate_def)
    with False show ?thesis by (intro fin [of t c n]) (auto simp: c)
  qed
qed

text \<open>The identifiers of \<open>n\<close> calls; one that raises gives none, one that still waits ends the run.\<close>

fun calls :: "nat \<Rightarrow> snowflake \<Rightarrow> int list \<Rightarrow> int list" where
  "calls 0 sf clock = []"
| "calls (Suc n) sf clock =
     (case generate sf clock of
        None \<Rightarrow> []
      | Some (sf', clock', Inl e) \<Rightarrow> calls n sf' clock'
      | Some (sf', clock', Inr i) \<Rightarrow> i # calls n sf' clock')"

lemma calls_spec:
  assumes "sf_ok sf"
  shows "sorted_wrt (<) (calls n sf clock) \<and> (\<forall>i \<in> set (calls n sf clock). \<exists>t q.
      i = combine t (fst (node_of sf)) (snd (node_of sf)) q \<and> in_range SEQUENCE_MASK q
      \<and> (sf_last_timestamp sf < t \<or> sf_last_timestamp sf = t \<and> sf_sequence sf < q))"
  using assms
proof (induction n arbitrary: sf clock)
  case (Suc n)
  show ?case
  proof (cases "generate sf clock")
    case (Some x)
    then obtain sf' clock' r where g: "generate sf clock = Some (sf', clock', r)" by (cases x) auto
    note spec = generate_spec [OF Suc.prems g]
    then have ok: "sf_ok sf'" and node: "node_of sf' = node_of sf" by blast+
    note IH = Suc.IH [OF ok, of clock', unfolded node]
    show ?thesis
    proof (cases r)
      case (Inl e)
      with spec IH g show ?thesis by auto
    next
      case (Inr i)
      have range: "in_range MAX_DATACENTER_ID (fst (node_of sf))" "in_range MAX_WORKER_ID (snd (node_of sf))"
        using Suc.prems by (auto simp: sf_ok_def node_of_def split: option.splits)
      have q: "in_range SEQUENCE_MASK (sf_sequence sf')" using ok by (simp add: sf_ok_def)
      have i: "i = combine (sf_last_timestamp sf') (fst (node_of sf)) (snd (node_of sf)) (sf_sequence sf')"
        and later: "sf_last_timestamp sf < sf_last_timestamp sf'
          \<or> sf_last_timestamp sf = sf_last_timestamp sf' \<and> sf_sequence sf < sf_sequence sf'"
        using spec Inr node by auto
      have "i < j" if "j \<in> set (calls n sf' clock')" for j
        using IH that unfolding i by (auto intro!: combine_less [OF range q])
      moreover have "\<exists>t q'. j = combine t (fst (node_of sf)) (snd (node_of sf)) q' \<and> in_range SEQUENCE_MASK q'
          \<and> (sf_last_timestamp sf < t \<or> sf_last_timestamp sf = t \<and> sf_sequence sf < q')"
        if "j \<in> set (calls n sf' clock')" for j
        using bspec [OF conjunct2 [OF IH] that] later by fastforce
      ultimately show ?thesis using IH g Inr i later q by auto
    qed
  qed simp
qed simp

text \<open>The nodes in use: which process holds which, while time passes and leases are renewed.\<close>

inductive registry :: "snowflake_settings \<Rightarrow> int \<Rightarrow> redis \<Rightarrow> (int \<times> int) list \<Rightarrow> bool" for s where
  start: "registry s now st []"
| acquire: "registry s now st held \<Longrightarrow> acquire_node_id s now pid st = Inr (st', node)
    \<Longrightarrow> registry s now st' (held @ [node])"
| beat: "registry s now st held \<Longrightarrow> node \<in> set held \<Longrightarrow> registry s now (heartbeat s now node st) held"
| release: "registry s now st held \<Longrightarrow> registry s now (release_node s node st) (removeAll node held)"
| tick: "registry s now st held \<Longrightarrow> now \<le> now' \<Longrightarrow> \<forall>h \<in> set held. r_get now' (node_key s h) st \<noteq> None
    \<Longrightarrow> registry s now' st held"

lemma node_key_inj: "node_key s n = node_key s m \<longleftrightarrow> n = m"
proof
  assume "node_key s n = node_key s m"
  then have "str_int (fst n) @ [58] @ str_int (snd n) = str_int (fst m) @ [58] @ str_int (snd m)"
    by (simp add: node_key_def)
  then show "n = m"
    by (simp add: append_sep_inj str_int_no_colon str_int_inj prod_eq_iff)
qed simp

lemma register_first_spec:
  assumes "register_first s now pid occupied nodes st = Inr (st', node)"
  shows "node \<in> set nodes \<and> node \<notin> set occupied \<and> r_get now (node_key s node) st = None
    \<and> st' = r_set now (node_key s node) pid (Some (SNOWFLAKE_NODE_TTL_SECONDS s)) st"
  using assms
  by (induction s now pid occupied nodes st rule: register_first.induct)
    (auto simp: register_node_def r_setnx_def r_exists_def split: if_splits)

lemma all_nodes_range: "node \<in> set all_nodes \<Longrightarrow> in_range MAX_DATACENTER_ID (fst node) \<and> in_range MAX_WORKER_ID (snd node)"
  by (auto simp: all_nodes_def in_range_def)

lemma registry_inv:
  assumes "registry s now st held" "0 < SNOWFLAKE_NODE_TTL_SECONDS s"
  shows "distinct held \<and> (\<forall>h \<in> set held. in_range MAX_DATACENTER_ID (fst h) \<and> in_range MAX_WORKER_ID (snd h)
    \<and> r_get now (node_key s h) st \<noteq> None)"
  using assms
proof (induction rule: registry.induct)
  case (acquire now st held pid st' node)
  note reg = register_first_spec [OF acquire.hyps(2) [unfolded acquire_node_id_def]]
  then have fresh: "node \<notin> set held" using acquire.IH [OF acquire.prems] by blast
  have "r_get now (node_key s h) st' \<noteq> None" if "h \<in> set (held @ [node])" for h
    using reg acquire.IH [OF acquire.prems] that acquire.prems
    by (auto simp: r_get_set node_key_inj alive_def)
  then show ?case
    using reg fresh acquire.IH [OF acquire.prems] all_nodes_range [of node] by auto
next
  case (beat now st held node)
  then show ?case by (auto simp: heartbeat_def r_get_expire node_key_inj)
next
  case (release now st held node)
  then show ?case by (auto simp: release_node_def r_get_delete node_key_inj distinct_removeAll)
qed auto

text \<open>
  C20: a generator gives strictly increasing identifiers whatever its clock reads, and generators on
  nodes that are registered at the same time never give the same identifier, as long as every
  registration is renewed before it expires.
\<close>

theorem snowflake_unique:
  assumes "registry s now st held" "0 < SNOWFLAKE_NODE_TTL_SECONDS s"
    "i < length held" "j < length held" "i \<noteq> j"
    "sf_ok sf" "sf_ok sf'" "node_of sf = held ! i" "node_of sf' = held ! j"
  shows "sorted_wrt (<) (calls n sf clock) \<and> set (calls n sf clock) \<inter> set (calls m sf' clock') = {}"
proof -
  have "held ! i \<noteq> held ! j"
    using registry_inv [OF assms(1,2)] assms(3-5) by (simp add: nth_eq_iff_index_eq)
  then have node: "node_of sf \<noteq> node_of sf'" using assms(8,9) by simp
  have range: "in_range MAX_DATACENTER_ID (fst (node_of f)) \<and> in_range MAX_WORKER_ID (snd (node_of f))"
    if "sf_ok f" for f using that by (auto simp: sf_ok_def node_of_def split: option.splits)
  have ids: "(si_datacenter_id (parse (\<lambda>_. []) x), si_worker_id (parse (\<lambda>_. []) x)) = node_of f"
    if f: "sf_ok f" and x: "x \<in> set (calls k f c)" for f k c x
  proof -
    obtain t q where "x = combine t (fst (node_of f)) (snd (node_of f)) q" "in_range SEQUENCE_MASK q"
      using calls_spec [OF f, of k c] x by blast
    then show ?thesis using parse_combine range [OF f] by simp
  qed
  then have "set (calls n sf clock) \<inter> set (calls m sf' clock') = {}"
    using assms(6,7) node by (metis disjoint_iff)
  then show ?thesis using calls_spec [OF assms(6)] by simp
qed

definition sample_sf_settings :: snowflake_settings where
  "sample_sf_settings = \<lparr>SNOWFLAKE_REDIS_PREFIX = asc ''fba:snowflake'', SNOWFLAKE_DATACENTER_ID = None,
     SNOWFLAKE_WORKER_ID = None, SNOWFLAKE_NODE_TTL_SECONDS = 60\<rparr>"

definition sample_sf :: "int \<Rightarrow> snowflake" where
  "sample_sf w = \<lparr>sf_datacenter_id = Some 0, sf_worker_id = Some w, sf_sequence = 0,
     sf_last_timestamp = -1, sf_initialized = True, sf_auto_allocated = True\<rparr>"

text \<open>Two processes register; the clock of the first stands still and goes back once.\<close>

theorem snowflake_unique_witness:
  "length (calls 4 (sample_sf 0) [1700000000000, 1700000000000, 1699999999000, 1700000000001]) = 3
   \<and> set (calls 4 (sample_sf 0) [1700000000000, 1700000000000, 1699999999000, 1700000000001])
       \<inter> set (calls 1 (sample_sf 1) [1700000000000]) = {}"
proof -
  let ?s = sample_sf_settings
  have 1: "rmap snd (acquire_node_id ?s 0 [49] []) = Inr (0, 0)" by code_simp
  then obtain st1 where st1: "acquire_node_id ?s 0 [49] [] = Inr (st1, 0, 0)" by (auto simp: rmap_Inr_iff)
  have "rmap snd (rbind (acquire_node_id ?s 0 [49] []) (\<lambda>r. acquire_node_id ?s 0 [50] (fst r))) = Inr (0, 1)"
    by code_simp
  then obtain st2 where "acquire_node_id ?s 0 [50] st1 = Inr (st2, 0, 1)" by (auto simp: st1 rmap_Inr_iff)
  then have reg: "registry ?s 0 st2 (([] @ [(0, 0)]) @ [(0, 1)])"
    by (intro registry.acquire [OF registry.acquire [OF registry.start st1]])
  have "sf_ok (sample_sf 0)" "sf_ok (sample_sf 1)" "node_of (sample_sf 0) = (0, 0)" "node_of (sample_sf 1) = (0, 1)"
    by (simp_all add: sf_ok_def sample_sf_def in_range_def sf_masks node_of_def)
  moreover have "length (calls 4 (sample_sf 0) [1700000000000, 1700000000000, 1699999999000, 1700000000001]) = 3"
    by code_simp
  ultimately show ?thesis
    using snowflake_unique [OF reg, of 0 1 "sample_sf 0" "sample_sf 1"]
    by (simp add: sample_sf_settings_def del: calls.simps)
qed

end
