(* ===== verification/Limiter.thy ===== *)
theory Limiter
  imports Errors
begin

text \<open>
  \<open>backend/utils/limiter.py\<close>: the factory that routes each identifier to a Redis bucket through a
  local least-recently-used cache, and the request limiter in front of it. The buckets themselves are
  those of pyrate_limiter: their operations are a parameter and act on an environment of type \<open>'e\<close>
  (Redis and the background leaker).
\<close>

section \<open>Rates and buckets\<close>

record rate =
  rate_limit :: int
  rate_interval :: int

record ('b, 'e) bucket_api =
  ba_init :: "rate list \<Rightarrow> ustr \<Rightarrow> 'b"
  ba_leak :: "'b \<Rightarrow> int \<Rightarrow> 'e \<Rightarrow> 'e"
  ba_count :: "'b \<Rightarrow> 'e \<Rightarrow> int"
  ba_flush :: "'b \<Rightarrow> 'e \<Rightarrow> 'e"
  ba_schedule_leak :: "'b \<Rightarrow> 'e \<Rightarrow> 'e"
  ba_dispose :: "'b \<Rightarrow> 'e \<Rightarrow> 'e"

text \<open>\<open>RedisBucketState\<close>\<close>

record 'b bucket_state =
  bs_bucket :: 'b
  bs_last_seen :: int

definition REQUEST_LIMITER_BUCKET_CACHE_MAX_SIZE :: int where
  "REQUEST_LIMITER_BUCKET_CACHE_MAX_SIZE = 4096"

definition REQUEST_LIMITER_BUCKET_CACHE_BUFFER_MS :: int where
  "REQUEST_LIMITER_BUCKET_CACHE_BUFFER_MS = 10000"

text \<open>\<open>_redis_time_ms\<close> of the seconds and microseconds Redis answers.\<close>

definition redis_time_ms :: "int \<times> int \<Rightarrow> int" where
  "redis_time_ms t = fst t * 1000 + snd t div 1000"

section \<open>The factory\<close>

text \<open>\<open>buckets\<close> is an \<open>OrderedDict\<close>: the entries from the least to the most recently used.\<close>

record 'b bucket_factory =
  fa_rates :: "rate list"
  fa_bucket_key :: ustr
  fa_max_cache_size :: int
  fa_cache_ttl :: int
  fa_buckets :: "(ustr \<times> 'b bucket_state) list"

definition rate_text :: "rate \<Rightarrow> ustr" where
  "rate_text r = str_int (rate_limit r) @ [58] @ str_int (rate_interval r)"

definition rate_key :: "(ustr \<Rightarrow> ustr) \<Rightarrow> rate list \<Rightarrow> ustr" where
  "rate_key sha256 rates = sha256 (join [58] (map rate_text (sort_key rate_interval rates)))"

definition new_factory ::
  "(ustr \<Rightarrow> ustr) \<Rightarrow> rate list \<Rightarrow> ustr \<Rightarrow> int \<Rightarrow> 'b bucket_factory res" where
  "new_factory sha256 rates bucket_key max_cache_size =
     (if rates = [] then Inl (ValueError (asc ''max() iterable argument is empty''))
      else Inr \<lparr>fa_rates = rates, fa_bucket_key = bucket_key @ [58] @ rate_key sha256 rates,
        fa_max_cache_size = max 1 max_cache_size,
        fa_cache_ttl = Max (set (map rate_interval rates)) + REQUEST_LIMITER_BUCKET_CACHE_BUFFER_MS,
        fa_buckets = []\<rparr>)"

definition bucket_key_of :: "(ustr \<Rightarrow> ustr) \<Rightarrow> 'b bucket_factory \<Rightarrow> ustr \<Rightarrow> ustr" where
  "bucket_key_of sha256 f name = fa_bucket_key f @ [58] @ sha256 name"

text \<open>\<open>_dispose\<close>\<close>

definition dispose_bucket ::
  "('b, 'e) bucket_api \<Rightarrow> ustr \<Rightarrow> 'b bucket_state \<Rightarrow> int \<Rightarrow> bool \<Rightarrow> 'b bucket_factory \<times> 'e
     \<Rightarrow> 'b bucket_factory \<times> 'e" where
  "dispose_bucket api key state now cleanup fe =
     (case fe of (f, env) \<Rightarrow>
        let f = f\<lparr>fa_buckets := AList.delete key (fa_buckets f)\<rparr>;
            env = ba_dispose api (bs_bucket state) env
        in if \<not> cleanup then (f, env)
           else
             let env = ba_leak api (bs_bucket state) now env
             in if ba_count api (bs_bucket state) env = 0
                then (f, ba_flush api (bs_bucket state) env) else (f, env))"

text \<open>The loop of \<open>_evict\<close> over a copy of the entries, and the loop that enforces the size.\<close>

fun evict_expired ::
  "('b, 'e) bucket_api \<Rightarrow> int \<Rightarrow> (ustr \<times> 'b bucket_state) list \<Rightarrow> 'b bucket_factory \<times> 'e
     \<Rightarrow> 'b bucket_factory \<times> 'e" where
  "evict_expired api now [] fe = fe"
| "evict_expired api now ((key, state) # entries) fe =
     (if now - bs_last_seen state \<le> fa_cache_ttl (fst fe) then evict_expired api now entries fe
      else evict_expired api now entries (dispose_bucket api key state now True fe))"

lemma length_delete_less: "k \<in> fst ` set xs \<Longrightarrow> length (AList.delete k xs) < length xs"
  by (induction xs) (auto simp: AList.delete_eq intro: le_imp_less_Suc)

function evict_excess ::
  "('b, 'e) bucket_api \<Rightarrow> int \<Rightarrow> 'b bucket_factory \<times> 'e \<Rightarrow> 'b bucket_factory \<times> 'e" where
  "evict_excess api now fe =
     (if fa_max_cache_size (fst fe) < int (length (fa_buckets (fst fe))) \<and> fa_buckets (fst fe) \<noteq> []
      then
        let (key, state) = hd (fa_buckets (fst fe))
        in evict_excess api now (dispose_bucket api key state now False fe)
      else fe)"
  by pat_completeness auto
termination
proof (relation "measure (\<lambda>(api, now, fe). length (fa_buckets (fst fe)))", goal_cases)
  case (2 api now fe x key state)
  then have "key \<in> fst ` set (fa_buckets (fst fe))"
    by (cases "fa_buckets (fst fe)") auto
  from length_delete_less [OF this] show ?case
    by (cases fe) (simp add: dispose_bucket_def Let_def)
qed simp

declare evict_excess.simps [simp del]

definition evict ::
  "('b, 'e) bucket_api \<Rightarrow> int \<Rightarrow> 'b bucket_factory \<times> 'e \<Rightarrow> 'b bucket_factory \<times> 'e" where
  "evict api now fe = evict_excess api now (evict_expired api now (fa_buckets (fst fe)) fe)"

text \<open>\<open>get\<close> at the time \<open>now\<close>: the factory, the environment, the bucket.\<close>

definition factory_get ::
  "('b, 'e) bucket_api \<Rightarrow> (ustr \<Rightarrow> ustr) \<Rightarrow> int \<Rightarrow> ustr \<Rightarrow> 'b bucket_factory \<times> 'e
     \<Rightarrow> ('b bucket_factory \<times> 'e) \<times> 'b" where
  "factory_get api sha256 now name fe =
     (case fe of (f, env) \<Rightarrow>
        let key = bucket_key_of sha256 f name in
        case map_of (fa_buckets f) key of
          Some state \<Rightarrow>
            ((f\<lparr>fa_buckets := AList.delete key (fa_buckets f) @ [(key, state\<lparr>bs_last_seen := now\<rparr>)]\<rparr>, env),
             bs_bucket state)
        | None \<Rightarrow>
            let bucket = ba_init api (fa_rates f) key;
                f = f\<lparr>fa_buckets := fa_buckets f @ [(key, \<lparr>bs_bucket = bucket, bs_last_seen = now\<rparr>)]\<rparr>
            in (evict api now (f, ba_schedule_leak api bucket env), bucket))"

section \<open>The request limiter\<close>

definition default_identifier :: "ustr \<Rightarrow> ustr \<Rightarrow> ustr" where
  "default_identifier ip path = ip @ [58] @ path"

text \<open>The exception with its \<open>Retry-After\<close> header.\<close>

definition default_callback :: "int \<Rightarrow> exc \<times> (ustr \<times> ustr) list" where
  "default_callback retry_after =
     (HTTPError 429 msg_too_frequent, [(asc ''Retry-After'', str_int retry_after)])"

text \<open>
  The limiter's own configuration: its rates, and whether a bucket, a limiter and (after the first
  request) the factory are set.
\<close>

record rate_limiter =
  rl_rates :: "rate list"
  rl_has_bucket :: bool
  rl_has_limiter :: bool
  rl_has_factory :: bool

definition new_rate_limiter :: "rate list \<Rightarrow> bool \<Rightarrow> bool \<Rightarrow> rate_limiter res" where
  "new_rate_limiter rates has_bucket has_limiter =
     (if \<not> has_limiter \<and> rates = [] \<and> \<not> has_bucket then Inl (ServerError msg_no_rate)
      else Inr \<lparr>rl_rates = rates, rl_has_bucket = has_bucket, rl_has_limiter = has_limiter,
                rl_has_factory = False\<rparr>)"

text \<open>What the first request sets up.\<close>

definition prepare_limiter :: "rate_limiter \<Rightarrow> rate_limiter res" where
  "prepare_limiter l =
     (if rl_has_limiter l then Inr l
      else if rl_has_bucket l then Inr (l\<lparr>rl_has_limiter := True\<rparr>)
      else if rl_rates l = [] then Inl (ValueError (asc ''max() iterable argument is empty''))
      else Inr (l\<lparr>rl_has_factory := True, rl_has_limiter := True\<rparr>))"

text \<open>\<open>ceil(interval / 1000)\<close>\<close>

definition ceil_seconds :: "int \<Rightarrow> int" where
  "ceil_seconds interval = - ((- interval) div 1000)"

text \<open>
  \<open>_retry_after\<close>: the failing rate of the factory's bucket, of the given bucket, of the first bucket of
  the limiter that has one, or else the longest rate.
\<close>

definition retry_after ::
  "rate_limiter \<Rightarrow> rate option \<Rightarrow> rate option \<Rightarrow> rate option list \<Rightarrow> int" where
  "retry_after l factory_failing bucket_failing limiter_failing =
     (let failing = (if rl_has_factory l then factory_failing
                     else if rl_has_bucket l then bucket_failing else None)
      in case failing of
           Some r \<Rightarrow> ceil_seconds (rate_interval r)
         | None \<Rightarrow>
             case (if rl_has_limiter l then find (\<lambda>r. r \<noteq> None) limiter_failing else None) of
               Some (Some r) \<Rightarrow> ceil_seconds (rate_interval r)
             | _ \<Rightarrow>
                 if rl_rates l \<noteq> [] then ceil_seconds (Max (set (map rate_interval (rl_rates l)))) else 1)"

text \<open>\<open>__call__\<close>: \<open>None\<close> lets the request pass; otherwise the callback's exception.\<close>

definition limit_request ::
  "rate_limiter \<Rightarrow> bool \<Rightarrow> rate option \<Rightarrow> rate option \<Rightarrow> rate option list
     \<Rightarrow> (rate_limiter \<times> (exc \<times> (ustr \<times> ustr) list) option) res" where
  "limit_request l acquired factory_failing bucket_failing limiter_failing =
     rmap (\<lambda>l. (l, if acquired then None
                   else Some (default_callback
                     (retry_after l factory_failing bucket_failing limiter_failing))))
       (prepare_limiter l)"

section \<open>The cache is transparent and bounded\<close>

definition factory_ok :: "('b, 'e) bucket_api \<Rightarrow> int \<Rightarrow> 'b bucket_factory \<Rightarrow> bool" where
  "factory_ok api now f \<longleftrightarrow> distinct (map fst (fa_buckets f))
     \<and> (\<forall>(k, st) \<in> set (fa_buckets f). bs_bucket st = ba_init api (fa_rates f) k \<and> bs_last_seen st \<le> now)
     \<and> sorted (map (bs_last_seen \<circ> snd) (fa_buckets f))
     \<and> 1 \<le> fa_max_cache_size f \<and> int (length (fa_buckets f)) \<le> fa_max_cache_size f \<and> 0 \<le> fa_cache_ttl f"

lemma dispose_buckets [simp]:
  "fst (dispose_bucket api key state now cleanup fe)
     = (fst fe)\<lparr>fa_buckets := AList.delete key (fa_buckets (fst fe))\<rparr>"
  by (cases fe) (simp add: dispose_bucket_def Let_def)

definition stale :: "int \<Rightarrow> int \<Rightarrow> 'b bucket_state \<Rightarrow> bool" where
  "stale now ttl state \<longleftrightarrow> ttl < now - bs_last_seen state"

lemma delete_filter: "AList.delete k xs = filter (\<lambda>e. fst e \<noteq> k) xs"
  by (induction xs) auto

lemma evict_expired_buckets:
  "fst (evict_expired api now entries fe) = (fst fe)\<lparr>fa_buckets := filter
     (\<lambda>e. fst e \<notin> fst ` set (filter (\<lambda>(k, st). stale now (fa_cache_ttl (fst fe)) st) entries))
     (fa_buckets (fst fe))\<rparr>"
  by (induction api now entries fe rule: evict_expired.induct)
    (auto simp: stale_def delete_filter conj_commute intro!: arg_cong [where f = "\<lambda>b. fa_buckets_update (\<lambda>_. b) _"] filter_cong)

lemma filter_own_keys:
  assumes "distinct (map fst xs)"
  shows "filter (\<lambda>e. fst e \<notin> fst ` set (filter P xs)) xs = filter (\<lambda>e. \<not> P e) xs"
proof (rule filter_cong [OF refl])
  fix e assume e: "e \<in> set xs"
  have "x = e" if "x \<in> set xs" "fst x = fst e" for x
    using assms e that by (auto simp: distinct_map inj_on_def)
  with e show "fst e \<notin> fst ` set (filter P xs) \<longleftrightarrow> \<not> P e" by auto
qed

lemma evict_excess_buckets:
  assumes "distinct (map fst (fa_buckets (fst fe)))" "0 \<le> fa_max_cache_size (fst fe)"
  shows "fst (evict_excess api now fe) = (fst fe)\<lparr>fa_buckets :=
    drop (length (fa_buckets (fst fe)) - nat (fa_max_cache_size (fst fe))) (fa_buckets (fst fe))\<rparr>"
  using assms
proof (induction api now fe rule: evict_excess.induct)
  case (1 api now fe)
  show ?case
  proof (cases "fa_max_cache_size (fst fe) < int (length (fa_buckets (fst fe))) \<and> fa_buckets (fst fe) \<noteq> []")
    case True
    then obtain key state rest where b: "fa_buckets (fst fe) = (key, state) # rest"
      by (metis list.exhaust prod.exhaust)
    have del: "AList.delete key (fa_buckets (fst fe)) = rest"
      using 1(2) by (auto simp: b delete_filter filter_id_conv intro: rev_image_eqI)
    have step: "evict_excess api now fe = evict_excess api now (dispose_bucket api key state now False fe)"
      using True by (subst evict_excess.simps) (simp add: b)
    have n: "length ((key, state) # rest) - nat (fa_max_cache_size (fst fe))
        = Suc (length rest - nat (fa_max_cache_size (fst fe)))"
      using True 1(3) by (simp add: b)
    have "fst (evict_excess api now (dispose_bucket api key state now False fe))
        = (fst fe)\<lparr>fa_buckets := drop (length rest - nat (fa_max_cache_size (fst fe))) rest\<rparr>"
      using 1(1) [OF True, of "(key, state)" key state] 1(2,3) by (simp add: b del)
    then show ?thesis unfolding step b n by simp
  next
    case False
    then have "evict_excess api now fe = fe" by (subst evict_excess.simps) (simp only: if_False)
    moreover have "length (fa_buckets (fst fe)) - nat (fa_max_cache_size (fst fe)) = 0"
      using False 1(3) by (cases "fa_buckets (fst fe)") auto
    ultimately show ?thesis by simp
  qed
qed

lemma evict_buckets:
  assumes "distinct (map fst (fa_buckets f))" "0 \<le> fa_max_cache_size f"
  shows "fst (evict api now (f, env)) = f\<lparr>fa_buckets :=
    (let kept = filter (\<lambda>(k, st). \<not> stale now (fa_cache_ttl f) st) (fa_buckets f)
     in drop (length kept - nat (fa_max_cache_size f)) kept)\<rparr>"
proof -
  let ?kept = "filter (\<lambda>(k, st). \<not> stale now (fa_cache_ttl f) st) (fa_buckets f)"
  let ?fe = "evict_expired api now (fa_buckets f) (f, env)"
  have fe: "fst ?fe = f\<lparr>fa_buckets := ?kept\<rparr>"
    using filter_own_keys [OF assms(1), of "\<lambda>(k, st). stale now (fa_cache_ttl f) st"]
    by (simp add: evict_expired_buckets case_prod_unfold)
  have "distinct (map fst ?kept)" using assms(1) by (rule distinct_map_filter)
  then have "fst (evict_excess api now ?fe)
      = (fst ?fe)\<lparr>fa_buckets := drop (length (fa_buckets (fst ?fe)) - nat (fa_max_cache_size (fst ?fe)))
          (fa_buckets (fst ?fe))\<rparr>"
    using assms(2) by (intro evict_excess_buckets) (simp_all add: fe)
  then show ?thesis by (simp add: evict_def fe Let_def)
qed

lemma sorted_drop_after:
  assumes "sorted (map f xs)" "x \<in> set (take n xs)" "y \<in> set (drop n xs)"
  shows "f x \<le> f y"
proof -
  have "sorted (map f (take n xs @ drop n xs))" using assms(1) by simp
  then show ?thesis using assms(2,3) by (auto simp: sorted_append simp del: append_take_drop_id)
qed

text \<open>
  C21: the cache is transparent, bounded and least-recently-used. Whatever it holds, a request gets
  the bucket of its own key; afterwards that bucket is the most recent entry, there are never more
  entries than allowed, and an entry that was dropped had been idle for longer than the time to live,
  or the cache was full and all that is kept was used no earlier.
\<close>

theorem limiter_cache:
  assumes "factory_ok api t f" "t \<le> now" "factory_get api sha256 now name (f, env) = ((f', env'), bucket)"
  shows "factory_ok api now f' \<and> bucket = ba_init api (fa_rates f) (bucket_key_of sha256 f name)
    \<and> fa_buckets f' \<noteq> [] \<and> last (fa_buckets f')
        = (bucket_key_of sha256 f name, \<lparr>bs_bucket = bucket, bs_last_seen = now\<rparr>)
    \<and> (\<forall>e \<in> set (fa_buckets f). fst e \<notin> fst ` set (fa_buckets f') \<longrightarrow>
         fa_cache_ttl f < now - bs_last_seen (snd e)
         \<or> int (length (fa_buckets f')) = fa_max_cache_size f
           \<and> (\<forall>e' \<in> set (fa_buckets f'). bs_last_seen (snd e) \<le> bs_last_seen (snd e')))"
proof -
  let ?key = "bucket_key_of sha256 f name" and ?bs = "fa_buckets f"
  have ok: "distinct (map fst ?bs)" "sorted (map (bs_last_seen \<circ> snd) ?bs)" "1 \<le> fa_max_cache_size f"
    "int (length ?bs) \<le> fa_max_cache_size f" "0 \<le> fa_cache_ttl f"
    using assms(1) by (simp_all add: factory_ok_def)
  have entry: "bs_bucket st = ba_init api (fa_rates f) k \<and> bs_last_seen st \<le> now" if "(k, st) \<in> set ?bs" for k st
    using assms(1,2) that by (auto simp: factory_ok_def)
  show ?thesis
  proof (cases "map_of ?bs ?key")
    case (Some state)
    let ?new = "(?key, state\<lparr>bs_last_seen := now\<rparr>)"
    let ?bs' = "filter (\<lambda>e. fst e \<noteq> ?key) ?bs @ [?new]"
    have res: "fa_buckets f' = ?bs'" "f' = f\<lparr>fa_buckets := ?bs'\<rparr>" "bucket = bs_bucket state"
      using assms(3) Some by (auto simp: factory_get_def Let_def delete_filter)
    have mem: "(?key, state) \<in> set ?bs" using Some by (rule map_of_SomeD)
    have "length (filter (\<lambda>e. fst e \<noteq> ?key) ?bs) < length ?bs"
      using mem by (intro length_filter_less [of "(?key, state)"]) auto
    moreover have "sorted (map (bs_last_seen \<circ> snd) (filter (\<lambda>e. fst e \<noteq> ?key) ?bs))"
      using ok(2) by (rule sorted_filter)
    moreover have "distinct (map fst ?bs')" using ok(1) by (auto intro: distinct_map_filter)
    ultimately have "factory_ok api now f'"
      using ok entry entry [OF mem] by (auto simp: factory_ok_def res sorted_append)
    then show ?thesis using entry [OF mem] by (auto simp: res image_iff)
  next
    case None
    let ?b = "ba_init api (fa_rates f) ?key"
    let ?new = "(?key, \<lparr>bs_bucket = ?b, bs_last_seen = now\<rparr>)"
    let ?kept = "filter (\<lambda>(k, st). \<not> stale now (fa_cache_ttl f) st) ?bs @ [?new]"
    let ?n = "length ?kept - nat (fa_max_cache_size f)"
    have d: "distinct (map fst (?bs @ [?new]))"
      using ok(1) None by (auto simp: map_of_eq_None_iff)
    have kept: "filter (\<lambda>(k, st). \<not> stale now (fa_cache_ttl f) st) (?bs @ [?new]) = ?kept"
      using ok(5) by (simp add: stale_def)
    have "(f', env') = evict api now (f\<lparr>fa_buckets := ?bs @ [?new]\<rparr>, ba_schedule_leak api ?b env)"
      and bucket: "bucket = ?b"
      using assms(3) None by (auto simp: factory_get_def Let_def)
    from arg_cong [OF this(1), of fst] have f': "f' = f\<lparr>fa_buckets := drop ?n ?kept\<rparr>"
      using evict_buckets [of "f\<lparr>fa_buckets := ?bs @ [?new]\<rparr>" api now] d ok(3) kept by simp
    have n: "?n < length ?kept" using ok(3) by simp
    have last: "drop ?n ?kept \<noteq> []" "last (drop ?n ?kept) = ?new" using n by (simp_all only: last_drop) simp_all
    have dk: "distinct (map fst ?kept)" using d unfolding kept [symmetric] by (rule distinct_map_filter)
    have sk: "sorted (map (bs_last_seen \<circ> snd) ?kept)"
      using sorted_filter [OF ok(2)] entry by (auto simp: sorted_append)
    have "factory_ok api now f'"
      unfolding factory_ok_def f' using ok n entry dk sk
      by (auto simp: drop_map [symmetric] distinct_drop sorted_wrt_drop dest!: in_set_dropD simp del: drop_append)
    moreover have "fa_cache_ttl f < now - bs_last_seen (snd e)
         \<or> int (length (fa_buckets f')) = fa_max_cache_size f
           \<and> (\<forall>e' \<in> set (fa_buckets f'). bs_last_seen (snd e) \<le> bs_last_seen (snd e'))"
      if e: "e \<in> set ?bs" "fst e \<notin> fst ` set (fa_buckets f')" for e
    proof (cases "fa_cache_ttl f < now - bs_last_seen (snd e)")
      case False
      then have "e \<in> set ?kept" using e(1) by (cases e) (simp add: stale_def)
      then have "e \<in> set (take ?n ?kept)"
        using e(2) unfolding f' by (metis (no_types, lifting) append_take_drop_id Un_iff imageI set_append
            bucket_factory.select_convs(5) bucket_factory.update_convs(5) bucket_factory.surjective)
      moreover from this have "?n \<noteq> 0" by auto
      ultimately show ?thesis
        using sorted_drop_after [OF sk] ok(3) by (auto simp: f' simp del: drop_append take_append)
    qed simp
    ultimately show ?thesis using last bucket by (auto simp: f' simp del: drop_append)
  qed
qed

definition sample_api :: "(ustr, nat) bucket_api" where
  "sample_api = \<lparr>ba_init = (\<lambda>_ k. k), ba_leak = (\<lambda>_ _ e. e), ba_count = (\<lambda>_ _. 0), ba_flush = (\<lambda>_ e. e),
     ba_schedule_leak = (\<lambda>_ e. e + 1), ba_dispose = (\<lambda>_ e. e - 1)\<rparr>"

definition sample_factory :: "ustr bucket_factory" where
  "sample_factory = \<lparr>fa_rates = [\<lparr>rate_limit = 5, rate_interval = 1000\<rparr>], fa_bucket_key = [107],
     fa_max_cache_size = 1, fa_cache_ttl = 11000,
     fa_buckets = [([107, 58, 97], \<lparr>bs_bucket = [107, 58, 97], bs_last_seen = 5\<rparr>)]\<rparr>"

text \<open>A cache for one bucket: a request for another identifier takes its place.\<close>

theorem limiter_cache_witness:
  "\<exists>f env bucket. factory_get sample_api (\<lambda>s. s) 9 [98] (sample_factory, 1) = ((f, env), bucket)
     \<and> factory_ok sample_api 9 f \<and> bucket = [107, 58, 98] \<and> env = 1"
proof -
  obtain f env bucket where get: "factory_get sample_api (\<lambda>s. s) 9 [98] (sample_factory, 1) = ((f, env), bucket)"
    by (metis prod.exhaust)
  have "snd (fst (factory_get sample_api (\<lambda>s. s) 9 [98] (sample_factory, 1))) = 1" by code_simp
  then have env: "env = 1" unfolding get by simp
  have "factory_ok sample_api 5 sample_factory"
    by (simp add: factory_ok_def sample_factory_def sample_api_def)
  from limiter_cache [OF this _ get] env get show ?thesis
    by (simp add: sample_api_def sample_factory_def bucket_key_of_def)
qed

section \<open>How long a refused client waits\<close>

lemma ceil_seconds_bounds: "interval \<le> ceil_seconds interval * 1000 \<and> ceil_seconds interval * 1000 < interval + 1000"
  unfolding ceil_seconds_def using div_mult_mod_eq [of "- interval" 1000] pos_mod_bound [of 1000 "- interval"]
    pos_mod_sign [of 1000 "- interval"] by linarith

text \<open>
  A refused request is answered with 429 and the whole seconds of the failing rate, rounded up, so a
  client that waits as long has waited for its interval; the wait is at least a second when the
  intervals are positive.
\<close>

lemma retry_after_positive:
  assumes "\<forall>r \<in> set (rl_rates l). 0 < rate_interval r"
    "\<forall>r. Some r \<in> {ff, bf} \<union> set lf \<longrightarrow> 0 < rate_interval r"
  shows "1 \<le> retry_after l ff bf lf"
proof -
  have pos: "1 \<le> ceil_seconds i" if "0 < i" for i using ceil_seconds_bounds [of i] that by linarith
  have "0 < Max (rate_interval ` set (rl_rates l))" if "rl_rates l \<noteq> []"
    using that assms(1) by (subst Max_gr_iff) (auto intro: hd_in_set)
  moreover have "0 < rate_interval r" if "find (\<lambda>r. r \<noteq> None) lf = Some (Some r)" for r
    using that assms(2) by (auto simp: find_Some_iff dest: nth_mem)
  ultimately show ?thesis
    using assms(2) pos by (auto simp: retry_after_def Let_def split: option.splits)
qed

lemma limit_request_outcome:
  assumes "limit_request l acquired ff bf lf = Inr (l', outcome)"
  shows "rl_has_limiter l' \<and> rl_rates l' = rl_rates l
    \<and> (outcome = None \<longleftrightarrow> acquired)
    \<and> (outcome \<noteq> None \<longrightarrow> (\<exists>n. outcome = Some (HTTPError 429 msg_too_frequent, [(asc ''Retry-After'', str_int n)])
         \<and> n = retry_after l' ff bf lf))"
  using assms
  by (auto simp: limit_request_def prepare_limiter_def default_callback_def rmap_Inr_iff split: if_splits)

end
