(* ===== verification/BuildTree.thy ===== *)
theory BuildTree
  imports Errors
begin

text \<open>
  \<open>backend/utils/build_tree.py\<close>: trees of departments and menus from flat rows, by one traversal with
  shared nodes or by recursion. A row is a dict with \<open>id\<close>, \<open>parent_id\<close>, its sort value and other data;
  rows come from a table, so their ids are its primary key and a node is in a list exactly when its id
  is.
\<close>

section \<open>Rows and trees\<close>

datatype build_tree_type = Build_traversal | Build_recursive

datatype 'a row = Row (rw_id: int) (rw_parent_id: "int option") (rw_sort: int) (rw_data: 'a)

text \<open>A node of the result; its \<open>children\<close> key is absent (\<open>None\<close>) or holds a list.\<close>

datatype 'a tree = Node "'a row" "'a tree list option"

text \<open>\<open>get_tree_nodes\<close>\<close>

definition get_tree_nodes :: "bool \<Rightarrow> 'a row list \<Rightarrow> 'a row list" where
  "get_tree_nodes is_sort rows = (if is_sort then sort_key rw_sort rows else rows)"

section \<open>Traversal\<close>

text \<open>
  The loop changes shared dicts: its state is the list of top nodes and, for each node that has one,
  its list of children, all by id.
\<close>

type_synonym links = "int list \<times> (int \<times> int list) list"

definition children_key :: "(int \<times> int list) list \<Rightarrow> int \<Rightarrow> int list" where
  "children_key links i = (case map_of links i of None \<Rightarrow> [] | Some cs \<Rightarrow> cs)"

definition traversal_step :: "int list \<Rightarrow> links \<Rightarrow> 'a row \<Rightarrow> links" where
  "traversal_step node_dict st node =
     (case st of (tree, links) \<Rightarrow>
        case rw_parent_id node of
          None \<Rightarrow> (tree @ [rw_id node], links)
        | Some parent_id \<Rightarrow>
            if List.member node_dict parent_id
            then
              let children = children_key links parent_id
              in (tree, AList.update parent_id
                    (if List.member children (rw_id node) then children else children @ [rw_id node]) links)
            else (if List.member tree (rw_id node) then (tree, links) else (tree @ [rw_id node], links)))"

definition traversal_links :: "'a row list \<Rightarrow> links" where
  "traversal_links nodes = foldl (traversal_step (map rw_id nodes)) ([], []) nodes"

text \<open>The object graph below a node as a value; \<open>None\<close> when it does not end within the fuel.\<close>

fun all_some :: "'b option list \<Rightarrow> 'b list option" where
  "all_some [] = Some []"
| "all_some (x # xs) = (case x of None \<Rightarrow> None | Some y \<Rightarrow> map_option ((#) y) (all_some xs))"

fun node_value :: "nat \<Rightarrow> 'a row list \<Rightarrow> (int \<times> int list) list \<Rightarrow> int \<Rightarrow> 'a tree option" where
  "node_value 0 nodes links i = None"
| "node_value (Suc n) nodes links i =
     (case find (\<lambda>r. rw_id r = i) nodes of
        None \<Rightarrow> None
      | Some r \<Rightarrow>
          (case map_of links i of
             None \<Rightarrow> Some (Node r None)
           | Some cs \<Rightarrow> map_option (\<lambda>ts. Node r (Some ts)) (all_some (map (node_value n nodes links) cs))))"

definition traversal_to_tree :: "'a row list \<Rightarrow> 'a tree list option" where
  "traversal_to_tree nodes =
     (let (tree, links) = traversal_links nodes
      in all_some (map (node_value (Suc (length nodes)) nodes links) tree))"

section \<open>Recursion\<close>

text \<open>The \<open>children\<close> key is only set when there are children.\<close>

definition node_with :: "'a row \<Rightarrow> 'a tree list \<Rightarrow> 'a tree" where
  "node_with node child_nodes = Node node (if child_nodes = [] then None else Some child_nodes)"

text \<open>The fuel is Python's recursion limit; \<open>None\<close> is a \<open>RecursionError\<close>.\<close>

fun recursive_to_tree :: "nat \<Rightarrow> 'a row list \<Rightarrow> int option \<Rightarrow> 'a tree list option" where
  "recursive_to_tree 0 nodes parent_id = None"
| "recursive_to_tree (Suc n) nodes parent_id =
     all_some (map (\<lambda>node. map_option (node_with node) (recursive_to_tree n nodes (Some (rw_id node))))
       (filter (\<lambda>node. rw_parent_id node = parent_id) nodes))"

text \<open>\<open>get_tree_data\<close>\<close>

definition get_tree_data ::
  "nat \<Rightarrow> build_tree_type \<Rightarrow> int option \<Rightarrow> bool \<Rightarrow> 'a row list \<Rightarrow> 'a tree list option" where
  "get_tree_data limit build_type parent_id is_sort rows =
     (let nodes = get_tree_nodes is_sort rows in
      case build_type of
        Build_traversal \<Rightarrow> traversal_to_tree nodes
      | Build_recursive \<Rightarrow> recursive_to_tree limit nodes parent_id)"

section \<open>Menus for vben5\<close>

record menu_data =
  md_title :: ustr
  md_icon :: "ustr option"
  md_link :: "ustr option"
  md_cache :: int
  md_display :: int
  md_status :: int
  md_type :: int

text \<open>The \<open>meta\<close> dict that replaces the keys of \<open>meta_keys\<close>; \<open>type\<close> stays beside it.\<close>

record menu_meta =
  mm_title :: ustr
  mm_icon :: "ustr option"
  mm_iframeSrc :: "ustr option"
  mm_link :: "ustr option"
  mm_keepAlive :: int
  mm_hideInMenu :: bool
  mm_menuVisibleWithForbidden :: bool

definition vben5_meta :: "menu_data \<Rightarrow> int \<times> menu_meta" where
  "vben5_meta d =
     (md_type d, \<lparr>mm_title = md_title d, mm_icon = md_icon d,
        mm_iframeSrc = (if md_type d = 3 then md_link d else Some []),
        mm_link = (if md_type d = 4 then md_link d else Some []), mm_keepAlive = md_cache d,
        mm_hideInMenu = (md_display d = 0), mm_menuVisibleWithForbidden = (md_status d = 0)\<rparr>)"

definition get_vben5_tree_data :: "bool \<Rightarrow> menu_data row list \<Rightarrow> (int \<times> menu_meta) tree list option" where
  "get_vben5_tree_data is_sort rows =
     traversal_to_tree (map (map_row vben5_meta) (get_tree_nodes is_sort rows))"

section \<open>What the traversal links\<close>

definition children_in :: "'a row list \<Rightarrow> int \<Rightarrow> int list" where
  "children_in nodes p = map rw_id (filter (\<lambda>r. rw_parent_id r = Some p) nodes)"

definition is_root :: "int list \<Rightarrow> 'a row \<Rightarrow> bool" where
  "is_root ids r \<longleftrightarrow> (case rw_parent_id r of None \<Rightarrow> True | Some p \<Rightarrow> p \<notin> set ids)"

definition links_ok :: "int list \<Rightarrow> 'a row list \<Rightarrow> links \<Rightarrow> bool" where
  "links_ok ids visited st \<longleftrightarrow> fst st = map rw_id (filter (is_root ids) visited)
     \<and> (\<forall>p. map_of (snd st) p
          = (if p \<in> set ids \<and> children_in visited p \<noteq> [] then Some (children_in visited p) else None))"

lemma traversal_step_ok:
  assumes "links_ok ids visited st" "rw_id r \<notin> rw_id ` set visited"
  shows "links_ok ids (visited @ [r]) (traversal_step ids st r)"
proof -
  obtain tree links where st: "st = (tree, links)" by (cases st)
  have tree: "tree = map rw_id (filter (is_root ids) visited)"
    and links: "map_of links p
      = (if p \<in> set ids \<and> children_in visited p \<noteq> [] then Some (children_in visited p) else None)" for p
    using assms(1) by (auto simp: links_ok_def st)
  have new: "rw_id r \<notin> set tree" "rw_id r \<notin> set (children_in visited p)" for p
    using assms(2) by (auto simp: tree children_in_def)
  show ?thesis
  proof (cases "rw_parent_id r")
    case None
    then show ?thesis
      by (simp add: links_ok_def st traversal_step_def tree links is_root_def children_in_def)
  next
    case (Some p)
    show ?thesis
    proof (cases "p \<in> set ids")
      case True
      have "children_key links p = children_in visited p"
        using True by (simp add: children_key_def links)
      then have "traversal_step ids st r = (tree, AList.update p (children_in visited p @ [rw_id r]) links)"
        using Some True new by (simp add: traversal_step_def st Let_def)
      then show ?thesis
        using Some True by (auto simp: links_ok_def tree update_conv' links is_root_def children_in_def)
    next
      case False
      then show ?thesis
        using Some new by (auto simp: links_ok_def st traversal_step_def tree links is_root_def children_in_def)
    qed
  qed
qed

lemma traversal_links_ok:
  assumes "distinct (map rw_id nodes)"
  shows "links_ok (map rw_id nodes) nodes (traversal_links nodes)"
proof -
  have "links_ok ids (visited @ rest) (foldl (traversal_step ids) st rest)"
    if "links_ok ids visited st" "distinct (map rw_id (visited @ rest))"
    for ids visited st and rest :: "'a row list"
    using that
  proof (induction rest arbitrary: visited st)
    case (Cons r rest)
    from traversal_step_ok [OF Cons.prems(1), of r] Cons.prems(2)
    show ?case using Cons.IH [of "visited @ [r]" "traversal_step ids st r"] by auto
  qed simp
  from this [of "map rw_id nodes" "[]" "([], [])" nodes] assms show ?thesis
    by (simp add: traversal_links_def links_ok_def children_in_def)
qed

section \<open>Both algorithms\<close>

lemma all_some_iff: "all_some xs = Some ys \<longleftrightarrow> xs = map Some ys"
  by (induction xs arbitrary: ys) (auto split: option.splits)

lemma all_some_None: "all_some xs = None \<longleftrightarrow> None \<in> set xs"
  by (induction xs) (auto split: option.splits)

lemma find_row:
  "distinct (map rw_id nodes) \<Longrightarrow> r \<in> set nodes \<Longrightarrow> find (\<lambda>x. rw_id x = rw_id r) nodes = Some r"
  by (induction nodes) (auto simp: image_iff)

lemma all_some_map: "all_some (map f xs) = Some ts \<longleftrightarrow> list_all2 (\<lambda>x t. f x = Some t) xs ts"
  by (induction xs arbitrary: ts) (auto simp: list_all2_Cons1 split: option.splits)

lemma recursive_Suc:
  "recursive_to_tree (Suc n) nodes parent_id = Some ts \<longleftrightarrow>
     list_all2 (\<lambda>r t. \<exists>cs. recursive_to_tree n nodes (Some (rw_id r)) = Some cs \<and> node_with r cs = t)
       (filter (\<lambda>r. rw_parent_id r = parent_id) nodes) ts"
  by (simp add: all_some_map)

lemma recursive_more_fuel:
  "recursive_to_tree n nodes p = Some ts \<Longrightarrow> n \<le> m \<Longrightarrow> recursive_to_tree m nodes p = Some ts"
proof (induction n arbitrary: p ts m)
  case (Suc n)
  obtain m' where m: "m = Suc m'" "n \<le> m'" using Suc.prems(2) by (cases m) auto
  show ?case
    unfolding m(1) recursive_Suc
    by (rule list.rel_mono_strong [OF Suc.prems(1) [unfolded recursive_Suc]]) (elim exE conjE, intro exI conjI, erule Suc.IH [OF _ m(2)], assumption)
qed simp

text \<open>Below a node the traversal has the tree the recursion builds.\<close>

lemma node_value_recursive:
  assumes "distinct (map rw_id nodes)" "links_ok (map rw_id nodes) nodes (tree, links)"
  shows "r \<in> set nodes \<Longrightarrow> recursive_to_tree n nodes (Some (rw_id r)) = Some cs
    \<Longrightarrow> node_value (Suc n) nodes links (rw_id r) = Some (node_with r cs)"
proof (induction n arbitrary: r cs)
  case (Suc n)
  let ?kids = "filter (\<lambda>x. rw_parent_id x = Some (rw_id r)) nodes"
  have link: "map_of links (rw_id r) = (if ?kids \<noteq> [] then Some (map rw_id ?kids) else None)"
    using assms(2) Suc.prems(1) by (auto simp: links_ok_def children_in_def)
  have kids: "list_all2 (\<lambda>x t. node_value (Suc n) nodes links (rw_id x) = Some t) ?kids cs"
    by (rule list.rel_mono_strong [OF Suc.prems(2) [unfolded recursive_Suc]]) (use Suc.IH in auto)
  then have "all_some (map (node_value (Suc n) nodes links) (map rw_id ?kids)) = Some cs"
    by (simp only: all_some_map list_all2_map1)
  note vals = this
  have len: "cs = [] \<longleftrightarrow> ?kids = []" using list_all2_lengthD [OF kids] by auto
  note row = find_row [OF assms(1) Suc.prems(1)]
  show ?case
  proof (cases "?kids = []")
    case True
    then have "map_of links (rw_id r) = None" "cs = []" using link len by simp_all
    then show ?thesis by (simp add: row node_with_def)
  next
    case False
    then have "map_of links (rw_id r) = Some (map rw_id ?kids)" "cs \<noteq> []" using link len by simp_all
    then show ?thesis
      by (simp only: node_value.simps(2) [of "Suc n"] row option.case vals option.map node_with_def if_False)
  qed
qed simp

text \<open>A path from a top node downwards never repeats an id, so the recursion ends.\<close>

definition path :: "'a row list \<Rightarrow> 'a row list \<Rightarrow> bool" where
  "path nodes rs \<longleftrightarrow> rs \<noteq> [] \<and> set rs \<subseteq> set nodes \<and> distinct rs
     \<and> (\<forall>i. Suc i < length rs \<longrightarrow> rw_parent_id (rs ! Suc i) = Some (rw_id (rs ! i)))
     \<and> is_root (map rw_id nodes) (hd rs)"

lemma path_extend:
  assumes "distinct (map rw_id nodes)" "path nodes rs" "x \<in> set nodes"
    "rw_parent_id x = Some (rw_id (last rs))"
  shows "path nodes (rs @ [x])"
proof -
  have rs: "rs \<noteq> []" "set rs \<subseteq> set nodes" "distinct rs" "is_root (map rw_id nodes) (hd rs)"
    using assms(2) by (auto simp: path_def)
  have step: "rw_parent_id (rs ! Suc i) = Some (rw_id (rs ! i))" if "Suc i < length rs" for i
    using assms(2) that by (auto simp: path_def)
  have same: "y = z" if "y \<in> set nodes" "z \<in> set nodes" "rw_id y = rw_id z" for y z
    using assms(1) that by (auto simp: distinct_map inj_on_def)
  have "x \<notin> set rs"
  proof
    assume "x \<in> set rs"
    then obtain i where i: "i < length rs" "rs ! i = x" by (auto simp: in_set_conv_nth)
    show False
    proof (cases i)
      case 0
      then have "is_root (map rw_id nodes) x" using i rs(1,4) by (simp add: hd_conv_nth)
      then show False using assms(4) subsetD [OF rs(2) last_in_set [OF rs(1)]] by (simp add: is_root_def)
    next
      case (Suc j)
      then have "rw_id (rs ! j) = rw_id (last rs)" using step [of j] i assms(4) by simp
      then have "rs ! j = last rs" using same rs(1,2) i(1) Suc by (meson Suc_lessD last_in_set nth_mem subsetD)
      then have "j = length rs - 1"
        using rs(1,3) i(1) Suc by (simp add: last_conv_nth nth_eq_iff_index_eq)
      then show False using i(1) Suc by simp
    qed
  qed
  moreover have "rw_parent_id ((rs @ [x]) ! Suc i) = Some (rw_id ((rs @ [x]) ! i))" if "Suc i < length (rs @ [x])" for i
    using that step [of i] assms(4) rs(1) by (cases "Suc i = length rs") (auto simp: nth_append last_conv_nth dest!: sym [of "Suc i"])
  ultimately show ?thesis using rs assms(3) by (simp add: path_def hd_append)
qed

lemma list_all2_choice: "(\<And>x. x \<in> set xs \<Longrightarrow> \<exists>y. P x y) \<Longrightarrow> \<exists>ys. list_all2 P xs ys"
  by (induction xs) (auto simp: list_all2_Cons1)

lemma recursion_ends:
  assumes "distinct (map rw_id nodes)"
  shows "path nodes rs \<Longrightarrow> length nodes < n + length rs
    \<Longrightarrow> \<exists>cs. recursive_to_tree n nodes (Some (rw_id (last rs))) = Some cs"
proof (induction n arbitrary: rs)
  case 0
  then have "length rs \<le> length nodes"
    by (metis card_length card_mono distinct_card finite_set path_def order_trans)
  with 0 show ?case by simp
next
  case (Suc n)
  have "\<exists>t cs. recursive_to_tree n nodes (Some (rw_id x)) = Some cs \<and> node_with x cs = t"
    if x: "x \<in> set nodes" "rw_parent_id x = Some (rw_id (last rs))" for x
    using Suc.IH [OF path_extend [OF assms Suc.prems(1) x]] Suc.prems(2) by auto
  then show ?case unfolding recursive_Suc by (intro list_all2_choice) auto
qed

lemma path_root: "r \<in> set nodes \<Longrightarrow> is_root (map rw_id nodes) r \<Longrightarrow> path nodes [r]"
  by (simp add: path_def)

lemma traversal_value:
  assumes "distinct (map rw_id nodes)"
  shows "\<exists>ts. traversal_to_tree nodes = Some ts \<and> list_all2 (\<lambda>r t. \<exists>cs.
      recursive_to_tree (length nodes) nodes (Some (rw_id r)) = Some cs \<and> node_with r cs = t)
    (filter (is_root (map rw_id nodes)) nodes) ts"
proof -
  let ?roots = "filter (is_root (map rw_id nodes)) nodes"
  let ?P = "\<lambda>r t. \<exists>cs. recursive_to_tree (length nodes) nodes (Some (rw_id r)) = Some cs \<and> node_with r cs = t"
  obtain tree links where tl: "traversal_links nodes = (tree, links)" by (cases "traversal_links nodes")
  note ok = traversal_links_ok [OF assms, unfolded tl]
  have "\<exists>t. ?P r t" if "r \<in> set ?roots" for r
    using recursion_ends [OF assms path_root, of r "length nodes"] that by auto
  then obtain ts where ts: "list_all2 ?P ?roots ts" using list_all2_choice [of ?roots ?P] by blast
  have "list_all2 (\<lambda>r t. node_value (Suc (length nodes)) nodes links (rw_id r) = Some t) ?roots ts"
    by (rule list.rel_mono_strong [OF ts]) (use node_value_recursive [OF assms ok] in auto)
  moreover have "tree = map rw_id ?roots" using ok by (simp add: links_ok_def)
  ultimately have "traversal_to_tree nodes = Some ts"
    by (simp only: traversal_to_tree_def tl Let_def prod.case all_some_map list_all2_map1)
  with ts show ?thesis by blast
qed

text \<open>The row at the top of a tree.\<close>

fun top_row :: "'a tree \<Rightarrow> 'a row" where
  "top_row (Node r cs) = r"

text \<open>
  C22: for rows with distinct ids the traversal always ends, in a forest whose top nodes are, in
  order, the rows without a parent among them; the recursion from the top ends within as many levels
  as there are rows; and when no row misses its parent both give the same forest.
\<close>

theorem tree_algorithms_agree:
  assumes "distinct (map rw_id rows)"
  shows "(\<exists>ts. get_tree_data limit Build_traversal p is_sort rows = Some ts
      \<and> map top_row ts = filter (is_root (map rw_id rows)) (get_tree_nodes is_sort rows))
    \<and> (length rows < limit \<longrightarrow> get_tree_data limit Build_recursive None is_sort rows \<noteq> None
        \<and> ((\<forall>r \<in> set rows. \<forall>q. rw_parent_id r = Some q \<longrightarrow> q \<in> rw_id ` set rows) \<longrightarrow>
             get_tree_data limit Build_recursive None is_sort rows
               = get_tree_data limit Build_traversal p is_sort rows))"
proof -
  define nodes where "nodes = get_tree_nodes is_sort rows"
  have mset: "mset nodes = mset rows" by (simp add: nodes_def get_tree_nodes_def)
  have set: "set nodes = set rows" using mset by (rule mset_eq_setD)
  have len: "length nodes = length rows" using mset by (rule mset_eq_length)
  have d: "distinct (map rw_id nodes)"
    using assms mset by (metis mset_map mset_eq_imp_distinct_iff)
  have root: "is_root (map rw_id rows) = is_root (map rw_id nodes)"
    by (simp add: is_root_def fun_eq_iff set split: option.splits)
  obtain ts where ts: "traversal_to_tree nodes = Some ts" "list_all2 (\<lambda>r t. \<exists>cs.
      recursive_to_tree (length nodes) nodes (Some (rw_id r)) = Some cs \<and> node_with r cs = t)
    (filter (is_root (map rw_id nodes)) nodes) ts"
    using traversal_value [OF d] by blast
  have "map top_row ts = filter (is_root (map rw_id nodes)) nodes"
    using ts(2) by (induction rule: list_all2_induct) (auto simp: node_with_def)
  moreover have "\<exists>us. recursive_to_tree (Suc (length nodes)) nodes None = Some us"
  proof -
    have "\<exists>cs. recursive_to_tree (length nodes) nodes (Some (rw_id x)) = Some cs"
      if "x \<in> set nodes" "rw_parent_id x = None" for x
      using recursion_ends [OF d path_root [OF that(1)], of "length nodes"] that by (simp add: is_root_def)
    then show ?thesis unfolding recursive_Suc by (intro list_all2_choice) auto
  qed
  moreover have "recursive_to_tree (Suc (length nodes)) nodes None = Some ts"
    if "\<forall>r \<in> set rows. \<forall>q. rw_parent_id r = Some q \<longrightarrow> q \<in> rw_id ` set rows"
  proof -
    have "filter (is_root (map rw_id nodes)) nodes = filter (\<lambda>r. rw_parent_id r = None) nodes"
      using that by (intro filter_cong) (auto simp: is_root_def set split: option.splits)
    then show ?thesis using ts(2) by (simp only: recursive_Suc)
  qed
  ultimately show ?thesis
    using ts(1) recursive_more_fuel [of "Suc (length nodes)" nodes None _ limit]
    by (auto simp: get_tree_data_def nodes_def [symmetric] root len simp del: recursive_to_tree.simps)
qed

theorem tree_algorithms_agree_witness:
  "get_tree_data 9 Build_recursive None True [Row 2 (Some 1) 0 (), Row 1 None 5 ()]
     = get_tree_data 9 Build_traversal None True [Row 2 (Some 1) 0 (), Row 1 None 5 ()]
   \<and> get_tree_data 9 Build_recursive None True [Row 2 (Some 1) 0 (), Row 1 None 5 ()] \<noteq> None"
proof -
  let ?rows = "[Row 2 (Some 1) 0 (), Row 1 None 5 ()]"
  have "length ?rows < 9" "distinct (map rw_id ?rows)"
    "\<forall>r \<in> set ?rows. \<forall>q. rw_parent_id r = Some q \<longrightarrow> q \<in> rw_id ` set ?rows" by simp_all
  then show ?thesis using tree_algorithms_agree [of ?rows 9 None True] by blast
qed

end
