(* ===== verification/AdminDb.thy ===== *)
theory AdminDb
  imports Redis
begin

text \<open>
  The tables of \<open>backend/app/admin/model\<close> that carry accounts and permissions, and the operations of
  \<open>crud/crud_user.py\<close> with the ones of the other CRUD classes that change what a user may do. Rows keep
  the columns the modelled code reads; the association tables are lists of pairs. A row is live while
  \<open>deleted\<close> is 0 and gets its own id there when it is deleted.
\<close>

section \<open>Rows\<close>

record user =
  u_id :: int
  u_uuid :: ustr
  u_username :: ustr
  u_nickname :: ustr
  u_password :: "ustr option"
  u_email :: "ustr option"
  u_phone :: "ustr option"
  u_avatar :: "ustr option"
  u_status :: int
  u_is_superuser :: bool
  u_is_staff :: bool
  u_is_multi_login :: bool
  u_last_login_time :: "int option"
  u_last_password_changed_time :: "int option"
  u_dept_id :: "int option"
  u_deleted :: int

record dept =
  de_id :: int
  de_name :: ustr
  de_parent_id :: "int option"
  de_status :: int
  de_deleted :: int

record role =
  ro_id :: int
  ro_name :: ustr
  ro_status :: int
  ro_is_filter_scopes :: bool
  ro_remark :: "ustr option"
  ro_deleted :: int

record menu =
  me_id :: int
  me_title :: ustr
  me_parent_id :: "int option"
  me_sort :: int
  me_type :: int
  me_perms :: "ustr option"
  me_status :: int
  me_deleted :: int

record data_scope =
  sc_id :: int
  sc_name :: ustr
  sc_status :: int
  sc_deleted :: int

record data_rule =
  dr_id :: int
  dr_name :: ustr
  dr_model :: ustr
  dr_column :: ustr
  dr_operator :: int
  dr_expression :: int
  dr_value :: ustr
  dr_deleted :: int

record password_history =
  ph_id :: int
  ph_user_id :: int
  ph_password :: ustr

record admin_db =
  a_users :: "user list"
  a_depts :: "dept list"
  a_roles :: "role list"
  a_menus :: "menu list"
  a_scopes :: "data_scope list"
  a_rules :: "data_rule list"
  a_user_role :: "(int \<times> int) list"
  a_role_menu :: "(int \<times> int) list"
  a_role_scope :: "(int \<times> int) list"
  a_scope_rule :: "(int \<times> int) list"
  a_history :: "password_history list"

text \<open>Rows are never removed from these tables, so an auto-incremented id is one above all the others.\<close>

definition fresh_id :: "int list \<Rightarrow> int" where
  "fresh_id ids = foldr max ids 0 + 1"

lemma fresh_id_above: "i \<in> set ids \<Longrightarrow> i < fresh_id ids"
  unfolding fresh_id_def by (induction ids) auto

lemma fresh_id_not_in: "fresh_id ids \<notin> set ids"
  using fresh_id_above by blast

section \<open>What a user is and may do\<close>

text \<open>
  \<open>GetUserInfoWithRelationDetail\<close>: the account with its live department, its live roles, their live
  menus and data scopes, and the live rules of the scopes.
\<close>

record scope_info =
  si_scope :: data_scope
  si_rules :: "data_rule list"

record role_info =
  ri_role :: role
  ri_menus :: "menu list"
  ri_scopes :: "scope_info list"

record user_info =
  ui_id :: int
  ui_uuid :: ustr
  ui_username :: ustr
  ui_nickname :: ustr
  ui_email :: "ustr option"
  ui_phone :: "ustr option"
  ui_avatar :: "ustr option"
  ui_status :: int
  ui_is_superuser :: bool
  ui_is_staff :: bool
  ui_is_multi_login :: bool
  ui_last_login_time :: "int option"
  ui_dept_id :: "int option"
  ui_dept :: "dept option"
  ui_roles :: "role_info list"

definition get_user :: "int \<Rightarrow> admin_db \<Rightarrow> user option" where
  "get_user pk db = find (\<lambda>u. u_id u = pk \<and> u_deleted u = 0) (a_users db)"

definition get_by_username :: "ustr \<Rightarrow> admin_db \<Rightarrow> user option" where
  "get_by_username name db = find (\<lambda>u. u_username u = name \<and> u_deleted u = 0) (a_users db)"

definition check_email :: "ustr \<Rightarrow> admin_db \<Rightarrow> user option" where
  "check_email email db = find (\<lambda>u. u_email u = Some email \<and> u_deleted u = 0) (a_users db)"

definition linked :: "(int \<times> int) list \<Rightarrow> int \<Rightarrow> int \<Rightarrow> bool" where
  "linked links a b \<longleftrightarrow> List.member links (a, b)"

definition scope_info_of :: "admin_db \<Rightarrow> data_scope \<Rightarrow> scope_info" where
  "scope_info_of db sc = \<lparr>si_scope = sc,
     si_rules = filter (\<lambda>r. dr_deleted r = 0 \<and> linked (a_scope_rule db) (sc_id sc) (dr_id r)) (a_rules db)\<rparr>"

definition role_info_of :: "admin_db \<Rightarrow> role \<Rightarrow> role_info" where
  "role_info_of db ro = \<lparr>ri_role = ro,
     ri_menus = filter (\<lambda>m. me_deleted m = 0 \<and> linked (a_role_menu db) (ro_id ro) (me_id m)) (a_menus db),
     ri_scopes = map (scope_info_of db)
       (filter (\<lambda>sc. sc_deleted sc = 0 \<and> linked (a_role_scope db) (ro_id ro) (sc_id sc)) (a_scopes db))\<rparr>"

definition user_info_of :: "admin_db \<Rightarrow> user \<Rightarrow> user_info" where
  "user_info_of db u = \<lparr>ui_id = u_id u, ui_uuid = u_uuid u, ui_username = u_username u,
     ui_nickname = u_nickname u, ui_email = u_email u, ui_phone = u_phone u, ui_avatar = u_avatar u,
     ui_status = u_status u, ui_is_superuser = u_is_superuser u, ui_is_staff = u_is_staff u,
     ui_is_multi_login = u_is_multi_login u, ui_last_login_time = u_last_login_time u,
     ui_dept_id = u_dept_id u,
     ui_dept = (case u_dept_id u of None \<Rightarrow> None
                | Some d \<Rightarrow> find (\<lambda>x. de_id x = d \<and> de_deleted x = 0) (a_depts db)),
     ui_roles = map (role_info_of db)
       (filter (\<lambda>r. ro_deleted r = 0 \<and> linked (a_user_role db) (u_id u) (ro_id r)) (a_roles db))\<rparr>"

text \<open>\<open>get_join\<close> by id; the joins are outer joins, so missing relations do not hide the user.\<close>

definition get_join :: "int \<Rightarrow> admin_db \<Rightarrow> user_info option" where
  "get_join pk db = map_option (user_info_of db) (get_user pk db)"

section \<open>Changing users\<close>

text \<open>
  \<open>update_model_by_column(db, values, id=pk, deleted=0)\<close> gives the number of rows. \<open>last_login_time\<close> has
  \<open>onupdate=timezone.now\<close>, so every update of a user row sets it.
\<close>

definition is_row :: "int \<Rightarrow> user \<Rightarrow> bool" where
  "is_row pk u \<longleftrightarrow> u_id u = pk \<and> u_deleted u = 0"

definition update_row :: "int \<Rightarrow> int \<Rightarrow> (user \<Rightarrow> user) \<Rightarrow> admin_db \<Rightarrow> admin_db \<times> int" where
  "update_row now pk f db =
     (db\<lparr>a_users := map (\<lambda>u. if is_row pk u then (f u)\<lparr>u_last_login_time := Some now\<rparr> else u) (a_users db)\<rparr>,
      int (length (filter (is_row pk) (a_users db))))"

text \<open>\<open>uk_sys_user_username_deleted\<close> and \<open>uk_sys_user_email_deleted\<close>\<close>

definition user_keys_ok :: "user list \<Rightarrow> bool" where
  "user_keys_ok us \<longleftrightarrow> distinct (map (\<lambda>u. (u_username u, u_deleted u)) us)
     \<and> distinct (map (\<lambda>u. (u_email u, u_deleted u)) (filter (\<lambda>u. u_email u \<noteq> None) us))"

record add_user_param =
  au_username :: ustr
  au_password :: ustr
  au_nickname :: "ustr option"
  au_email :: "ustr option"
  au_phone :: "ustr option"
  au_dept_id :: int
  au_roles :: "int list"

text \<open>Optional fields that were not sent (the outer \<open>None\<close>) are not written.\<close>

record update_user_param =
  up_dept_id :: "int option option"
  up_username :: ustr
  up_nickname :: ustr
  up_avatar :: "ustr option option"
  up_email :: "ustr option option"
  up_phone :: "ustr option option"
  up_roles :: "int list"

definition sent :: "'a option \<Rightarrow> 'a \<Rightarrow> 'a" where
  "sent x old = (case x of None \<Rightarrow> old | Some v \<Rightarrow> v)"

definition live_role_ids :: "int list \<Rightarrow> admin_db \<Rightarrow> int list" where
  "live_role_ids ids db = map ro_id (filter (\<lambda>r. List.member ids (ro_id r) \<and> ro_deleted r = 0) (a_roles db))"

text \<open>\<open>add\<close>; the hash and the uuid are given. An account starts enabled and without privileges.\<close>

definition new_user :: "int \<Rightarrow> ustr \<Rightarrow> ustr \<Rightarrow> add_user_param \<Rightarrow> admin_db \<Rightarrow> user" where
  "new_user now uuid hashed obj db =
     \<lparr>u_id = fresh_id (map u_id (a_users db)), u_uuid = uuid, u_username = au_username obj,
      u_nickname = (case au_nickname obj of None \<Rightarrow> [] | Some n \<Rightarrow> n), u_password = Some hashed,
      u_email = au_email obj, u_phone = au_phone obj, u_avatar = None, u_status = 1,
      u_is_superuser = False, u_is_staff = False, u_is_multi_login = False,
      u_last_login_time = None, u_last_password_changed_time = Some now,
      u_dept_id = Some (au_dept_id obj), u_deleted = 0\<rparr>"

definition add_user :: "int \<Rightarrow> ustr \<Rightarrow> ustr \<Rightarrow> add_user_param \<Rightarrow> admin_db \<Rightarrow> admin_db res" where
  "add_user now uuid hashed obj db =
     (let u = new_user now uuid hashed obj db; users = a_users db @ [u]
      in if \<not> user_keys_ok users then Inl SQLAlchemyError
         else Inr (db\<lparr>a_users := users, a_user_role := a_user_role db
             @ (if au_roles obj = [] then [] else map (Pair (u_id u)) (live_role_ids (au_roles obj) db))\<rparr>))"

text \<open>\<open>update\<close>\<close>

definition write_user :: "update_user_param \<Rightarrow> user \<Rightarrow> user" where
  "write_user obj u = u\<lparr>u_dept_id := sent (up_dept_id obj) (u_dept_id u), u_username := up_username obj,
     u_nickname := up_nickname obj, u_avatar := sent (up_avatar obj) (u_avatar u),
     u_email := sent (up_email obj) (u_email u), u_phone := sent (up_phone obj) (u_phone u)\<rparr>"

definition update_user :: "int \<Rightarrow> int \<Rightarrow> update_user_param \<Rightarrow> admin_db \<Rightarrow> (admin_db \<times> int) res" where
  "update_user now pk obj db =
     (let (db', count) = update_row now pk (write_user obj) db in
      if \<not> user_keys_ok (a_users db') then Inl SQLAlchemyError
      else Inr (db'\<lparr>a_user_role := filter (\<lambda>(u, _). u \<noteq> pk) (a_user_role db')
             @ (if up_roles obj = [] then [] else map (Pair pk) (live_role_ids (up_roles obj) db'))\<rparr>, count))"

text \<open>\<open>update_login_time\<close> goes by the user name.\<close>

definition update_login_time :: "int \<Rightarrow> ustr \<Rightarrow> admin_db \<Rightarrow> admin_db" where
  "update_login_time now username db =
     db\<lparr>a_users := map (\<lambda>u. if u_username u = username \<and> u_deleted u = 0
                           then u\<lparr>u_last_login_time := Some now\<rparr> else u) (a_users db)\<rparr>"

definition update_password_changed_time :: "int \<Rightarrow> int \<Rightarrow> admin_db \<Rightarrow> admin_db \<times> int" where
  "update_password_changed_time now pk = update_row now pk (u_last_password_changed_time_update (\<lambda>_. Some now))"

definition update_nickname :: "int \<Rightarrow> int \<Rightarrow> ustr \<Rightarrow> admin_db \<Rightarrow> admin_db \<times> int" where
  "update_nickname now pk nickname = update_row now pk (u_nickname_update (\<lambda>_. nickname))"

definition update_avatar :: "int \<Rightarrow> int \<Rightarrow> ustr \<Rightarrow> admin_db \<Rightarrow> admin_db \<times> int" where
  "update_avatar now pk avatar = update_row now pk (u_avatar_update (\<lambda>_. Some avatar))"

definition update_email :: "int \<Rightarrow> int \<Rightarrow> ustr \<Rightarrow> admin_db \<Rightarrow> (admin_db \<times> int) res" where
  "update_email now pk email db =
     (let r = update_row now pk (u_email_update (\<lambda>_. Some email)) db
      in if user_keys_ok (a_users (fst r)) then Inr r else Inl SQLAlchemyError)"

definition reset_password :: "int \<Rightarrow> int \<Rightarrow> ustr \<Rightarrow> admin_db \<Rightarrow> admin_db \<times> int" where
  "reset_password now pk hashed = update_row now pk (u_password_update (\<lambda>_. Some hashed))"

definition set_super :: "int \<Rightarrow> int \<Rightarrow> bool \<Rightarrow> admin_db \<Rightarrow> admin_db \<times> int" where
  "set_super now pk is_super = update_row now pk (u_is_superuser_update (\<lambda>_. is_super))"

definition set_staff :: "int \<Rightarrow> int \<Rightarrow> bool \<Rightarrow> admin_db \<Rightarrow> admin_db \<times> int" where
  "set_staff now pk is_staff = update_row now pk (u_is_staff_update (\<lambda>_. is_staff))"

definition set_status :: "int \<Rightarrow> int \<Rightarrow> int \<Rightarrow> admin_db \<Rightarrow> admin_db \<times> int" where
  "set_status now pk status = update_row now pk (u_status_update (\<lambda>_. status))"

definition set_multi_login :: "int \<Rightarrow> int \<Rightarrow> bool \<Rightarrow> admin_db \<Rightarrow> admin_db \<times> int" where
  "set_multi_login now pk multi_login = update_row now pk (u_is_multi_login_update (\<lambda>_. multi_login))"

text \<open>\<open>delete\<close>; the rows of the OAuth2 plugin are not modelled.\<close>

definition delete_user :: "int \<Rightarrow> int \<Rightarrow> admin_db \<Rightarrow> admin_db \<times> int" where
  "delete_user now pk db =
     update_row now pk (\<lambda>u. u\<lparr>u_deleted := pk\<rparr>)
       (db\<lparr>a_user_role := filter (\<lambda>(u, _). u \<noteq> pk) (a_user_role db)\<rparr>)"

text \<open>The password history, newest first.\<close>

definition create_history :: "int \<Rightarrow> ustr \<Rightarrow> admin_db \<Rightarrow> admin_db" where
  "create_history pk hashed db =
     db\<lparr>a_history := a_history db
       @ [\<lparr>ph_id = fresh_id (map ph_id (a_history db)), ph_user_id = pk, ph_password = hashed\<rparr>]\<rparr>"

definition get_history :: "int \<Rightarrow> admin_db \<Rightarrow> password_history list" where
  "get_history pk db = sort_key (\<lambda>h. - ph_id h) (filter (\<lambda>h. ph_user_id h = pk) (a_history db))"

section \<open>Frame facts\<close>

lemma update_row_fields [simp]:
  "a_depts (fst (update_row now pk f db)) = a_depts db" "a_roles (fst (update_row now pk f db)) = a_roles db"
  "a_menus (fst (update_row now pk f db)) = a_menus db" "a_scopes (fst (update_row now pk f db)) = a_scopes db"
  "a_rules (fst (update_row now pk f db)) = a_rules db" "a_user_role (fst (update_row now pk f db)) = a_user_role db"
  "a_role_menu (fst (update_row now pk f db)) = a_role_menu db"
  "a_role_scope (fst (update_row now pk f db)) = a_role_scope db"
  "a_scope_rule (fst (update_row now pk f db)) = a_scope_rule db"
  "a_history (fst (update_row now pk f db)) = a_history db"
  by (simp_all add: update_row_def)

lemma find_map_conv:
  assumes "\<And>x. x \<in> set xs \<Longrightarrow> P (g x) = P x"
  shows "find P (map g xs) = map_option g (find P xs)"
  using assms by (induction xs) auto

lemma find_map_other:
  assumes "\<And>x. x \<in> set xs \<Longrightarrow> P (g x) = P x" "\<And>x. x \<in> set xs \<Longrightarrow> P x \<Longrightarrow> g x = x"
  shows "find P (map g xs) = find P xs"
  using assms by (induction xs) auto

lemma get_user_SomeD: "get_user pk db = Some u \<Longrightarrow> u \<in> set (a_users db) \<and> u_id u = pk \<and> u_deleted u = 0"
  by (auto simp: get_user_def find_Some_iff)

lemma get_user_update_other:
  assumes "pk \<noteq> pk'" "\<And>u. u_id (f u) = u_id u"
  shows "get_user pk' (fst (update_row now pk f db)) = get_user pk' db"
proof -
  have "find (\<lambda>u. u_id u = pk' \<and> u_deleted u = 0)
      (map (\<lambda>u. if is_row pk u then (f u)\<lparr>u_last_login_time := Some now\<rparr> else u) us)
    = find (\<lambda>u. u_id u = pk' \<and> u_deleted u = 0) us" for us
    by (rule find_map_other) (use assms in \<open>auto simp: is_row_def\<close>)
  then show ?thesis by (simp add: get_user_def update_row_def)
qed

lemma get_user_update_same:
  assumes "\<And>u. u_id (f u) = u_id u" "\<And>u. u_deleted (f u) = u_deleted u"
  shows "get_user pk (fst (update_row now pk f db))
    = map_option (\<lambda>u. (f u)\<lparr>u_last_login_time := Some now\<rparr>) (get_user pk db)"
proof -
  have "find (\<lambda>u. u_id u = pk \<and> u_deleted u = 0)
      (map (\<lambda>u. if is_row pk u then (f u)\<lparr>u_last_login_time := Some now\<rparr> else u) us)
    = map_option (\<lambda>u. (f u)\<lparr>u_last_login_time := Some now\<rparr>) (find (\<lambda>u. u_id u = pk \<and> u_deleted u = 0) us)" for us
    using assms by (induction us) (auto simp: is_row_def)
  then show ?thesis by (simp add: get_user_def update_row_def)
qed

end
