(* ===== verification/AdminCrud.thy ===== *)
theory AdminCrud
  imports AdminDb
begin

text \<open>
  The operations of \<open>crud_role.py\<close>, \<open>crud_menu.py\<close>, \<open>crud_data_scope.py\<close>, \<open>crud_data_rule.py\<close> and
  \<open>crud_dept.py\<close>. A unique key that would be violated is \<open>SQLAlchemyError\<close>. Deleting marks the live rows
  with the given ids; only \<open>menu_dao.delete\<close> and \<open>user_dao.delete\<close> remove links.
\<close>

section \<open>Roles\<close>

record role_param =
  rp_name :: ustr
  rp_status :: int
  rp_is_filter_scopes :: "bool option"
  rp_remark :: "ustr option option"

definition role_get :: "int \<Rightarrow> admin_db \<Rightarrow> role option" where
  "role_get pk db = find (\<lambda>r. ro_id r = pk \<and> ro_deleted r = 0) (a_roles db)"

definition role_get_by_name :: "ustr \<Rightarrow> admin_db \<Rightarrow> role option" where
  "role_get_by_name name db = find (\<lambda>r. ro_name r = name \<and> ro_deleted r = 0) (a_roles db)"

definition role_keys_ok :: "role list \<Rightarrow> bool" where
  "role_keys_ok rs \<longleftrightarrow> distinct (map (\<lambda>r. (ro_name r, ro_deleted r)) rs)"

definition with_roles :: "role list \<Rightarrow> admin_db \<Rightarrow> admin_db res" where
  "with_roles rs db = (if role_keys_ok rs then Inr (db\<lparr>a_roles := rs\<rparr>) else Inl SQLAlchemyError)"

definition role_create :: "role_param \<Rightarrow> admin_db \<Rightarrow> admin_db res" where
  "role_create obj db = with_roles (a_roles db @ [\<lparr>ro_id = fresh_id (map ro_id (a_roles db)),
     ro_name = rp_name obj, ro_status = rp_status obj,
     ro_is_filter_scopes = sent (rp_is_filter_scopes obj) True, ro_remark = sent (rp_remark obj) None,
     ro_deleted = 0\<rparr>]) db"

definition write_role :: "role_param \<Rightarrow> role \<Rightarrow> role" where
  "write_role obj r = r\<lparr>ro_name := rp_name obj, ro_status := rp_status obj,
     ro_is_filter_scopes := sent (rp_is_filter_scopes obj) (ro_is_filter_scopes r),
     ro_remark := sent (rp_remark obj) (ro_remark r)\<rparr>"

definition role_update :: "int \<Rightarrow> role_param \<Rightarrow> admin_db \<Rightarrow> admin_db res" where
  "role_update pk obj db =
     with_roles (map (\<lambda>r. if ro_id r = pk \<and> ro_deleted r = 0 then write_role obj r else r) (a_roles db)) db"

text \<open>The links of a role are replaced.\<close>

definition relink :: "int \<Rightarrow> int list \<Rightarrow> (int \<times> int) list \<Rightarrow> (int \<times> int) list" where
  "relink pk ids links = filter (\<lambda>(a, _). a \<noteq> pk) links @ map (Pair pk) ids"

definition role_update_menus :: "int \<Rightarrow> int list \<Rightarrow> admin_db \<Rightarrow> admin_db" where
  "role_update_menus pk menus db = db\<lparr>a_role_menu := relink pk menus (a_role_menu db)\<rparr>"

definition role_update_scopes :: "int \<Rightarrow> int list \<Rightarrow> admin_db \<Rightarrow> admin_db" where
  "role_update_scopes pk scopes db = db\<lparr>a_role_scope := relink pk scopes (a_role_scope db)\<rparr>"

definition marked :: "int list \<Rightarrow> int \<Rightarrow> int \<Rightarrow> bool" where
  "marked pks i deleted \<longleftrightarrow> List.member pks i \<and> deleted = 0"

definition role_delete :: "int list \<Rightarrow> admin_db \<Rightarrow> admin_db" where
  "role_delete pks db = db\<lparr>a_roles :=
     map (\<lambda>r. if marked pks (ro_id r) (ro_deleted r) then r\<lparr>ro_deleted := ro_id r\<rparr> else r) (a_roles db)\<rparr>"

definition role_count :: "int list \<Rightarrow> admin_db \<Rightarrow> int" where
  "role_count pks db = int (length (filter (\<lambda>r. marked pks (ro_id r) (ro_deleted r)) (a_roles db)))"

definition role_ids :: "admin_db \<Rightarrow> int list" where
  "role_ids db = map ro_id (filter (\<lambda>r. ro_deleted r = 0) (a_roles db))"

section \<open>Menus\<close>

text \<open>The columns that only the front end reads are left out.\<close>

record menu_param =
  mp_title :: ustr
  mp_parent_id :: "int option option"
  mp_sort :: "int option"
  mp_type :: int
  mp_perms :: "ustr option option"
  mp_status :: int

definition menu_get :: "int \<Rightarrow> admin_db \<Rightarrow> menu option" where
  "menu_get pk db = find (\<lambda>m. me_id m = pk \<and> me_deleted m = 0) (a_menus db)"

text \<open>Buttons (type 2) may share a title.\<close>

definition menu_get_by_title :: "ustr \<Rightarrow> admin_db \<Rightarrow> menu option" where
  "menu_get_by_title title db =
     find (\<lambda>m. me_title m = title \<and> me_type m \<noteq> 2 \<and> me_deleted m = 0) (a_menus db)"

definition menu_get_all :: "admin_db \<Rightarrow> menu list" where
  "menu_get_all db = sort_key me_sort (filter (\<lambda>m. me_deleted m = 0) (a_menus db))"

text \<open>Without ids (\<open>None\<close> or an empty list) the sidebar is that of all menus.\<close>

definition menu_get_sidebar :: "int list option \<Rightarrow> admin_db \<Rightarrow> menu list" where
  "menu_get_sidebar menu_ids db = sort_key me_sort (filter (\<lambda>m. List.member [0, 1, 3, 4] (me_type m) \<and>
     me_deleted m = 0 \<and> (case menu_ids of None \<Rightarrow> True | Some ids \<Rightarrow> ids = [] \<or> List.member ids (me_id m)))
     (a_menus db))"

definition menu_create :: "menu_param \<Rightarrow> admin_db \<Rightarrow> admin_db" where
  "menu_create obj db = db\<lparr>a_menus := a_menus db @ [\<lparr>me_id = fresh_id (map me_id (a_menus db)),
     me_title = mp_title obj, me_parent_id = sent (mp_parent_id obj) None, me_sort = sent (mp_sort obj) 0,
     me_type = mp_type obj, me_perms = sent (mp_perms obj) None, me_status = mp_status obj,
     me_deleted = 0\<rparr>]\<rparr>"

definition write_menu :: "menu_param \<Rightarrow> menu \<Rightarrow> menu" where
  "write_menu obj m = m\<lparr>me_title := mp_title obj, me_parent_id := sent (mp_parent_id obj) (me_parent_id m),
     me_sort := sent (mp_sort obj) (me_sort m), me_type := mp_type obj,
     me_perms := sent (mp_perms obj) (me_perms m), me_status := mp_status obj\<rparr>"

definition menu_update :: "int \<Rightarrow> menu_param \<Rightarrow> admin_db \<Rightarrow> admin_db" where
  "menu_update pk obj db = db\<lparr>a_menus :=
     map (\<lambda>m. if me_id m = pk \<and> me_deleted m = 0 then write_menu obj m else m) (a_menus db)\<rparr>"

definition menu_delete :: "int \<Rightarrow> admin_db \<Rightarrow> admin_db" where
  "menu_delete pk db = db\<lparr>a_role_menu := filter (\<lambda>(_, m). m \<noteq> pk) (a_role_menu db),
     a_menus := map (\<lambda>m. if me_id m = pk \<and> me_deleted m = 0 then m\<lparr>me_deleted := me_id m\<rparr> else m) (a_menus db)\<rparr>"

definition menu_get_children :: "int \<Rightarrow> admin_db \<Rightarrow> menu list" where
  "menu_get_children pk db = filter (\<lambda>m. me_parent_id m = Some pk \<and> me_deleted m = 0) (a_menus db)"

definition menu_ids :: "admin_db \<Rightarrow> int list" where
  "menu_ids db = map me_id (filter (\<lambda>m. me_deleted m = 0) (a_menus db))"

section \<open>Data scopes and data rules\<close>

record scope_param =
  sp_name :: ustr
  sp_status :: int

definition scope_get :: "int \<Rightarrow> admin_db \<Rightarrow> data_scope option" where
  "scope_get pk db = find (\<lambda>s. sc_id s = pk \<and> sc_deleted s = 0) (a_scopes db)"

definition scope_get_by_name :: "ustr \<Rightarrow> admin_db \<Rightarrow> data_scope option" where
  "scope_get_by_name name db = find (\<lambda>s. sc_name s = name \<and> sc_deleted s = 0) (a_scopes db)"

definition with_scopes :: "data_scope list \<Rightarrow> admin_db \<Rightarrow> admin_db res" where
  "with_scopes ss db = (if distinct (map (\<lambda>s. (sc_name s, sc_deleted s)) ss)
     then Inr (db\<lparr>a_scopes := ss\<rparr>) else Inl SQLAlchemyError)"

definition scope_create :: "scope_param \<Rightarrow> admin_db \<Rightarrow> admin_db res" where
  "scope_create obj db = with_scopes (a_scopes db @ [\<lparr>sc_id = fresh_id (map sc_id (a_scopes db)),
     sc_name = sp_name obj, sc_status = sp_status obj, sc_deleted = 0\<rparr>]) db"

definition scope_update :: "int \<Rightarrow> scope_param \<Rightarrow> admin_db \<Rightarrow> admin_db res" where
  "scope_update pk obj db = with_scopes (map (\<lambda>s. if sc_id s = pk \<and> sc_deleted s = 0
     then s\<lparr>sc_name := sp_name obj, sc_status := sp_status obj\<rparr> else s) (a_scopes db)) db"

definition scope_update_rules :: "int \<Rightarrow> int list \<Rightarrow> admin_db \<Rightarrow> admin_db" where
  "scope_update_rules pk rules db = db\<lparr>a_scope_rule := relink pk rules (a_scope_rule db)\<rparr>"

definition scope_delete :: "int list \<Rightarrow> admin_db \<Rightarrow> admin_db" where
  "scope_delete pks db = db\<lparr>a_scopes :=
     map (\<lambda>s. if marked pks (sc_id s) (sc_deleted s) then s\<lparr>sc_deleted := sc_id s\<rparr> else s) (a_scopes db)\<rparr>"

definition scope_count :: "int list \<Rightarrow> admin_db \<Rightarrow> int" where
  "scope_count pks db = int (length (filter (\<lambda>s. marked pks (sc_id s) (sc_deleted s)) (a_scopes db)))"

definition scope_ids :: "admin_db \<Rightarrow> int list" where
  "scope_ids db = map sc_id (filter (\<lambda>s. sc_deleted s = 0) (a_scopes db))"

record rule_param =
  lp_name :: ustr
  lp_model :: ustr
  lp_column :: ustr
  lp_operator :: int
  lp_expression :: int
  lp_value :: ustr

definition rule_get :: "int \<Rightarrow> admin_db \<Rightarrow> data_rule option" where
  "rule_get pk db = find (\<lambda>r. dr_id r = pk \<and> dr_deleted r = 0) (a_rules db)"

definition rule_get_by_name :: "ustr \<Rightarrow> admin_db \<Rightarrow> data_rule option" where
  "rule_get_by_name name db = find (\<lambda>r. dr_name r = name \<and> dr_deleted r = 0) (a_rules db)"

definition with_rules :: "data_rule list \<Rightarrow> admin_db \<Rightarrow> admin_db res" where
  "with_rules rs db = (if distinct (map (\<lambda>r. (dr_name r, dr_deleted r)) rs)
     then Inr (db\<lparr>a_rules := rs\<rparr>) else Inl SQLAlchemyError)"

definition rule_of :: "int \<Rightarrow> rule_param \<Rightarrow> data_rule" where
  "rule_of i obj = \<lparr>dr_id = i, dr_name = lp_name obj, dr_model = lp_model obj, dr_column = lp_column obj,
     dr_operator = lp_operator obj, dr_expression = lp_expression obj, dr_value = lp_value obj, dr_deleted = 0\<rparr>"

definition rule_create :: "rule_param \<Rightarrow> admin_db \<Rightarrow> admin_db res" where
  "rule_create obj db = with_rules (a_rules db @ [rule_of (fresh_id (map dr_id (a_rules db))) obj]) db"

definition rule_update :: "int \<Rightarrow> rule_param \<Rightarrow> admin_db \<Rightarrow> admin_db res" where
  "rule_update pk obj db = with_rules (map (\<lambda>r. if dr_id r = pk \<and> dr_deleted r = 0
     then rule_of pk obj else r) (a_rules db)) db"

definition rule_delete :: "int list \<Rightarrow> admin_db \<Rightarrow> admin_db" where
  "rule_delete pks db = db\<lparr>a_rules :=
     map (\<lambda>r. if marked pks (dr_id r) (dr_deleted r) then r\<lparr>dr_deleted := dr_id r\<rparr> else r) (a_rules db)\<rparr>"

definition rule_count :: "int list \<Rightarrow> admin_db \<Rightarrow> int" where
  "rule_count pks db = int (length (filter (\<lambda>r. marked pks (dr_id r) (dr_deleted r)) (a_rules db)))"

definition rule_ids :: "admin_db \<Rightarrow> int list" where
  "rule_ids db = map dr_id (filter (\<lambda>r. dr_deleted r = 0) (a_rules db))"

section \<open>Departments\<close>

text \<open>Sort value, leader, phone and email are left out.\<close>

record dept_param =
  dp_name :: ustr
  dp_parent_id :: "int option option"
  dp_status :: int

definition dept_get :: "int \<Rightarrow> admin_db \<Rightarrow> dept option" where
  "dept_get pk db = find (\<lambda>d. de_id d = pk \<and> de_deleted d = 0) (a_depts db)"

definition dept_get_by_name :: "ustr \<Rightarrow> admin_db \<Rightarrow> dept option" where
  "dept_get_by_name name db = find (\<lambda>d. de_name d = name \<and> de_deleted d = 0) (a_depts db)"

definition with_depts :: "dept list \<Rightarrow> admin_db \<Rightarrow> admin_db res" where
  "with_depts ds db = (if distinct (map (\<lambda>d. (de_name d, de_deleted d)) ds)
     then Inr (db\<lparr>a_depts := ds\<rparr>) else Inl SQLAlchemyError)"

definition dept_create :: "dept_param \<Rightarrow> admin_db \<Rightarrow> admin_db res" where
  "dept_create obj db = with_depts (a_depts db @ [\<lparr>de_id = fresh_id (map de_id (a_depts db)),
     de_name = dp_name obj, de_parent_id = sent (dp_parent_id obj) None, de_status = dp_status obj,
     de_deleted = 0\<rparr>]) db"

definition dept_update :: "int \<Rightarrow> dept_param \<Rightarrow> admin_db \<Rightarrow> admin_db res" where
  "dept_update pk obj db = with_depts (map (\<lambda>d. if de_id d = pk \<and> de_deleted d = 0
     then d\<lparr>de_name := dp_name obj, de_parent_id := sent (dp_parent_id obj) (de_parent_id d),
            de_status := dp_status obj\<rparr> else d) (a_depts db)) db"

definition dept_delete :: "int \<Rightarrow> admin_db \<Rightarrow> admin_db" where
  "dept_delete pk db = db\<lparr>a_depts :=
     map (\<lambda>d. if de_id d = pk \<and> de_deleted d = 0 then d\<lparr>de_deleted := de_id d\<rparr> else d) (a_depts db)\<rparr>"

definition dept_users :: "int \<Rightarrow> admin_db \<Rightarrow> user list" where
  "dept_users pk db = filter (\<lambda>u. u_dept_id u = Some pk \<and> u_deleted u = 0) (a_users db)"

definition dept_get_children :: "int \<Rightarrow> admin_db \<Rightarrow> dept list" where
  "dept_get_children pk db = filter (\<lambda>d. de_parent_id d = Some pk \<and> de_deleted d = 0) (a_depts db)"

end
