(* ===== verification/Sessions.thy ===== *)
theory Sessions
  imports AdminCrud
begin

text \<open>
  \<open>common/security/jwt.py\<close> and \<open>admin/utils/cache.py\<close>: tokens, the sessions they stand for, which
  live in Redis, and the cached description of a user that requests are authenticated with. Times are
  milliseconds; a request reads the clock once.
\<close>

section \<open>Surroundings and state\<close>

text \<open>
  What a token says when its signature and its expiry have been checked; \<open>jose\<close> reports an expired
  token apart from every other defect.
\<close>

record jwt_payload =
  jp_session :: "ustr option"
  jp_sub :: "ustr option"
  jp_exp :: "int option"

datatype jwt_result = Jwt_expired | Jwt_invalid | Jwt_payload jwt_payload

datatype kwarg = Kw_text ustr | Kw_bool bool | Kw_none

text \<open>
  The libraries: jose with the secret of the settings (\<open>d_encode\<close>, \<open>d_decode\<close> at a time), the JSON of a
  user description and of keyword arguments, times as text, pwdlib's bcrypt (\<open>d_hash\<close> with a salt,
  \<open>d_verify\<close>), \<open>str.lower\<close>, the decimal digits of Unicode, translated texts, and FastAPI's split of an
  authorization header. \<open>d_sync\<close>: a bulk update also changes the objects of the session that it matches
  (SQLAlchemy's default \<open>synchronize_session='auto'\<close>).
\<close>

record auth_deps =
  d_encode :: "jwt_payload \<Rightarrow> ustr"
  d_decode :: "int \<Rightarrow> ustr \<Rightarrow> jwt_result"
  d_dump :: "user_info \<Rightarrow> ustr"
  d_load :: "ustr \<Rightarrow> user_info res"
  d_json :: "(ustr \<times> kwarg) list \<Rightarrow> ustr"
  d_time_str :: "int \<Rightarrow> ustr"
  d_time_parse :: "ustr \<Rightarrow> int option"
  d_hash :: "ustr \<Rightarrow> ustr \<Rightarrow> ustr"
  d_verify :: "ustr \<Rightarrow> ustr \<Rightarrow> bool"
  d_lower :: "ustr \<Rightarrow> ustr"
  d_decimal :: "nat \<Rightarrow> bool"
  d_text :: "ustr \<Rightarrow> ustr"
  d_scheme :: "ustr \<Rightarrow> ustr \<times> ustr"
  d_sync :: bool

record auth_settings =
  TOKEN_EXPIRE_SECONDS :: int
  TOKEN_REFRESH_EXPIRE_SECONDS :: int
  USER_LOCK_THRESHOLD :: int
  USER_LOCK_SECONDS :: int
  USER_PASSWORD_EXPIRY_DAYS :: int
  USER_PASSWORD_REMINDER_DAYS :: int
  USER_PASSWORD_HISTORY_CHECK_COUNT :: int
  USER_PASSWORD_MIN_LENGTH :: int
  USER_PASSWORD_MAX_LENGTH :: int
  USER_PASSWORD_REQUIRE_SPECIAL_CHAR :: bool
  LOGIN_CAPTCHA_ENABLED :: bool

definition default_auth_settings :: auth_settings where
  "default_auth_settings = \<lparr>TOKEN_EXPIRE_SECONDS = 60 * 60 * 24, TOKEN_REFRESH_EXPIRE_SECONDS = 60 * 60 * 24 * 7,
     USER_LOCK_THRESHOLD = 5, USER_LOCK_SECONDS = 60 * 5, USER_PASSWORD_EXPIRY_DAYS = 365,
     USER_PASSWORD_REMINDER_DAYS = 7, USER_PASSWORD_HISTORY_CHECK_COUNT = 3, USER_PASSWORD_MIN_LENGTH = 6,
     USER_PASSWORD_MAX_LENGTH = 32, USER_PASSWORD_REQUIRE_SPECIAL_CHAR = False, LOGIN_CAPTCHA_ENABLED = True\<rparr>"

text \<open>A line of \<open>sys_login_log\<close>: user uuid, user name, whether the login succeeded, and the message.\<close>

record login_log =
  ll_user_uuid :: ustr
  ll_username :: ustr
  ll_success :: bool
  ll_msg :: ustr

record aworld =
  adb :: admin_db
  red :: redis
  alog :: "login_log list"

text \<open>An operation changes its state and ends in an exception or a value.\<close>

fun sbind :: "'s \<times> 'a res \<Rightarrow> ('a \<Rightarrow> 's \<Rightarrow> 's \<times> 'b res) \<Rightarrow> 's \<times> 'b res" where
  "sbind (s, Inl e) f = (s, Inl e)"
| "sbind (s, Inr x) f = f x s"

lemma sbind_cong [fundef_cong]:
  "m = m' \<Longrightarrow> (\<And>s x. m' = (s, Inr x) \<Longrightarrow> f x s = g x s) \<Longrightarrow> sbind m f = sbind m' g"
  by (cases m'; cases "snd m'") auto

text \<open>\<open>async_db_session.begin()\<close>: an exception rolls the database back, but not Redis.\<close>

definition transaction :: "(aworld \<Rightarrow> aworld \<times> 'a res) \<Rightarrow> aworld \<Rightarrow> aworld \<times> 'a res" where
  "transaction f w = (case f w of (w', Inl e) \<Rightarrow> (w'\<lparr>adb := adb w\<rparr>, Inl e) | (w', Inr x) \<Rightarrow> (w', Inr x))"

section \<open>Keys\<close>

text \<open>The prefixes of the settings, at their defaults; nothing else is stored under them.\<close>

definition TOKEN_REDIS_PREFIX :: "int \<Rightarrow> ustr" where
  "TOKEN_REDIS_PREFIX u = asc ''fba:token:'' @ str_int u"

definition TOKEN_REFRESH_REDIS_PREFIX :: "int \<Rightarrow> ustr" where
  "TOKEN_REFRESH_REDIS_PREFIX u = asc ''fba:refresh_token:'' @ str_int u"

definition token_key :: "int \<Rightarrow> ustr \<Rightarrow> ustr" where
  "token_key u sid = TOKEN_REDIS_PREFIX u @ 58 # sid"

definition refresh_key :: "int \<Rightarrow> ustr \<Rightarrow> ustr" where
  "refresh_key u sid = TOKEN_REFRESH_REDIS_PREFIX u @ 58 # sid"

definition extra_key :: "int \<Rightarrow> ustr \<Rightarrow> ustr" where
  "extra_key u sid = asc ''fba:token_extra_info:'' @ str_int u @ 58 # sid"

definition user_key :: "int \<Rightarrow> ustr" where
  "user_key u = asc ''fba:user:'' @ str_int u"

definition lock_key :: "int \<Rightarrow> ustr" where
  "lock_key u = asc ''fba:user:lock:'' @ str_int u"

definition failure_key :: "int \<Rightarrow> ustr" where
  "failure_key u = asc ''fba:login:failure:'' @ str_int u"

definition captcha_key :: "ustr \<Rightarrow> ustr" where
  "captcha_key uuid = asc ''fba:login:captcha:'' @ uuid"

definition email_captcha_key :: "ustr \<Rightarrow> ustr" where
  "email_captcha_key ip = asc ''fba:email:captcha:'' @ ip"

lemmas key_defs = token_key_def refresh_key_def extra_key_def user_key_def lock_key_def failure_key_def
  captcha_key_def email_captcha_key_def TOKEN_REDIS_PREFIX_def TOKEN_REFRESH_REDIS_PREFIX_def

lemma str_int_not_l: "str_int u \<noteq> 108 # s" "108 # s \<noteq> str_int u"
proof -
  have "108 \<notin> set (str_int u)" using str_int_chars [of 108 u] by auto
  then show "str_int u \<noteq> 108 # s" "108 # s \<noteq> str_int u" by (metis list.set_intros(1))+
qed

lemma int_sep [simp]: "str_int u @ 58 # s = str_int u' @ 58 # t \<longleftrightarrow> u = u' \<and> s = t"
  by (simp add: append_sep_inj str_int_no_colon str_int_inj)

lemma token_key_eq [simp]: "token_key u s = token_key u' s' \<longleftrightarrow> u = u' \<and> s = s'"
  by (simp add: key_defs)

lemma refresh_key_eq [simp]: "refresh_key u s = refresh_key u' s' \<longleftrightarrow> u = u' \<and> s = s'"
  by (simp add: key_defs)

lemma extra_key_eq [simp]: "extra_key u s = extra_key u' s' \<longleftrightarrow> u = u' \<and> s = s'"
  by (simp add: key_defs)

lemma user_key_eq [simp]:
  "user_key u = user_key u' \<longleftrightarrow> u = u'" "lock_key u = lock_key u' \<longleftrightarrow> u = u'"
  "failure_key u = failure_key u' \<longleftrightarrow> u = u'"
  using str_int_inj by (auto simp: key_defs)

lemma keys_differ [simp]:
  "token_key u s \<noteq> refresh_key u' s'" "token_key u s \<noteq> extra_key u' s'" "token_key u s \<noteq> user_key u'"
  "token_key u s \<noteq> lock_key u'" "token_key u s \<noteq> failure_key u'" "token_key u s \<noteq> captcha_key x"
  "token_key u s \<noteq> email_captcha_key x"
  "refresh_key u s \<noteq> token_key u' s'" "refresh_key u s \<noteq> extra_key u' s'" "refresh_key u s \<noteq> user_key u'"
  "refresh_key u s \<noteq> lock_key u'" "refresh_key u s \<noteq> failure_key u'" "refresh_key u s \<noteq> captcha_key x"
  "refresh_key u s \<noteq> email_captcha_key x"
  "user_key u' \<noteq> token_key u s" "user_key u' \<noteq> refresh_key u s" "user_key u \<noteq> extra_key u' s"
  "user_key u \<noteq> failure_key u'" "user_key u \<noteq> captcha_key x" "user_key u \<noteq> email_captcha_key x"
  "lock_key u \<noteq> failure_key u'" "failure_key u \<noteq> lock_key u'"
  "lock_key u' \<noteq> token_key u s" "failure_key u' \<noteq> token_key u s"
  by (simp_all add: key_defs asc_def)

lemma user_key_not_lock [simp]: "user_key u \<noteq> lock_key u'" "lock_key u' \<noteq> user_key u"
  by (simp_all add: key_defs asc_def str_int_not_l)

lemma below_token [simp]:
  "below (TOKEN_REDIS_PREFIX u) (token_key u' s) \<longleftrightarrow> u = u'"
  "\<not> below (TOKEN_REDIS_PREFIX u) (refresh_key u' s)" "\<not> below (TOKEN_REDIS_PREFIX u) (user_key u')"
  "\<not> below (TOKEN_REFRESH_REDIS_PREFIX u) (token_key u' s)"
  "below (TOKEN_REFRESH_REDIS_PREFIX u) (refresh_key u' s) \<longleftrightarrow> u = u'"
  "\<not> below (TOKEN_REFRESH_REDIS_PREFIX u) (user_key u')"
proof -
  have pre: "prefix (str_int u @ [58]) (str_int u' @ 58 # s) \<longleftrightarrow> u = u'"
    by (auto simp: prefix_def)
  show "below (TOKEN_REDIS_PREFIX u) (token_key u' s) \<longleftrightarrow> u = u'"
    "below (TOKEN_REFRESH_REDIS_PREFIX u) (refresh_key u' s) \<longleftrightarrow> u = u'"
    using pre by (simp_all add: below_def key_defs)
qed (simp_all add: below_def key_defs asc_def prefix_def)

lemma below_user: "below (user_key u) k \<Longrightarrow> k \<noteq> user_key u'" "\<not> below (user_key u) (token_key u' s)"
  "\<not> below (user_key u) (refresh_key u' s)"
proof -
  show "k \<noteq> user_key u'" if b: "below (user_key u) k"
  proof
    assume "k = user_key u'"
    then have "prefix (str_int u @ [58]) (str_int u')" using b by (simp add: below_def key_defs)
    then have "58 \<in> set (str_int u')" by (auto simp: prefix_def)
    then show False using str_int_no_colon by simp
  qed
qed (simp_all add: below_def key_defs asc_def prefix_def)

lemma prefix_not_key [simp]:
  "token_key u s \<noteq> TOKEN_REDIS_PREFIX u'" "token_key u s \<noteq> TOKEN_REFRESH_REDIS_PREFIX u'"
  "refresh_key u s \<noteq> TOKEN_REDIS_PREFIX u'" "refresh_key u s \<noteq> TOKEN_REFRESH_REDIS_PREFIX u'"
  "user_key u \<noteq> TOKEN_REDIS_PREFIX u'" "user_key u \<noteq> TOKEN_REFRESH_REDIS_PREFIX u'"
proof -
  have "58 \<notin> set (str_int u')" by (rule str_int_no_colon)
  moreover have "58 \<in> set (str_int u @ 58 # s)" by simp
  ultimately have "str_int u @ 58 # s \<noteq> str_int u'" by metis
  then show "token_key u s \<noteq> TOKEN_REDIS_PREFIX u'" "refresh_key u s \<noteq> TOKEN_REFRESH_REDIS_PREFIX u'"
    by (simp_all add: key_defs)
qed (simp_all add: key_defs asc_def)

end
