(* ===== verification/Jwt.thy ===== *)
theory Jwt
  imports Sessions
begin

text \<open>
  The functions of \<open>common/security/jwt.py\<close> and the cache of user descriptions of
  \<open>admin/utils/cache.py\<close>. A token authenticates a request exactly when Redis holds it under the user and
  the session it names.
\<close>

section \<open>Tokens\<close>

record token_payload =
  tp_user_id :: int
  tp_session_uuid :: ustr
  tp_expire_time :: int

text \<open>\<open>int(user_id)\<close> stands outside the \<open>try\<close>, so its \<open>ValueError\<close> is not caught.\<close>

definition jwt_decode :: "auth_deps \<Rightarrow> int \<Rightarrow> ustr \<Rightarrow> token_payload res" where
  "jwt_decode D now token =
     (case d_decode D now token of
        Jwt_expired \<Rightarrow> Inl (TokenError msg_token_expired)
      | Jwt_invalid \<Rightarrow> Inl (TokenError msg_token_invalid)
      | Jwt_payload p \<Rightarrow>
          (case (jp_session p, jp_sub p, jp_exp p) of
             (Some sid, Some sub, Some expire) \<Rightarrow>
               if sid = [] \<or> sub = [] \<or> expire = 0 then Inl (TokenError msg_token_invalid)
               else (case parse_int sub of
                       None \<Rightarrow> Inl (ValueError sub)
                     | Some u \<Rightarrow> Inr \<lparr>tp_user_id = u, tp_session_uuid = sid, tp_expire_time = expire\<rparr>)
           | _ \<Rightarrow> Inl (TokenError msg_token_invalid)))"

definition payload_for :: "ustr \<Rightarrow> int \<Rightarrow> int \<Rightarrow> jwt_payload" where
  "payload_for sid expire user_id =
     \<lparr>jp_session = Some sid, jp_sub = Some (str_int user_id), jp_exp = Some expire\<rparr>"

record access_token =
  at_token :: ustr
  at_expire_time :: int
  at_session_uuid :: ustr

record refresh_token =
  rt_token :: ustr
  rt_expire_time :: int

record new_token =
  nt_access_token :: ustr
  nt_access_token_expire_time :: int
  nt_refresh_token :: ustr
  nt_refresh_token_expire_time :: int
  nt_session_uuid :: ustr

text \<open>The session uuid is given; it is a new one.\<close>

definition create_access_token ::
  "auth_deps \<Rightarrow> auth_settings \<Rightarrow> int \<Rightarrow> ustr \<Rightarrow> int \<Rightarrow> bool \<Rightarrow> (ustr \<times> kwarg) list \<Rightarrow> redis
     \<Rightarrow> redis \<times> access_token" where
  "create_access_token D S now sid user_id multi_login kwargs st =
     (let expire = now + TOKEN_EXPIRE_SECONDS S * 1000;
          access_token = d_encode D (payload_for sid expire user_id);
          st1 = (if \<not> multi_login then delete_by_prefix now (TOKEN_REDIS_PREFIX user_id) No_exclude 1000 st else st);
          st2 = r_set now (token_key user_id sid) access_token (Some (TOKEN_EXPIRE_SECONDS S)) st1;
          st3 = (if kwargs \<noteq> []
                 then r_set now (extra_key user_id sid) (d_json D kwargs) (Some (TOKEN_EXPIRE_SECONDS S)) st2
                 else st2)
      in (st3, \<lparr>at_token = access_token, at_expire_time = expire, at_session_uuid = sid\<rparr>))"

definition create_refresh_token ::
  "auth_deps \<Rightarrow> auth_settings \<Rightarrow> int \<Rightarrow> ustr \<Rightarrow> int \<Rightarrow> bool \<Rightarrow> redis \<Rightarrow> redis \<times> refresh_token" where
  "create_refresh_token D S now sid user_id multi_login st =
     (let expire = now + TOKEN_REFRESH_EXPIRE_SECONDS S * 1000;
          token = d_encode D (payload_for sid expire user_id);
          st1 = (if \<not> multi_login
                 then delete_by_prefix now (TOKEN_REFRESH_REDIS_PREFIX user_id) No_exclude 1000 st else st)
      in (r_set now (refresh_key user_id sid) token (Some (TOKEN_REFRESH_EXPIRE_SECONDS S)) st1,
          \<lparr>rt_token = token, rt_expire_time = expire\<rparr>))"

text \<open>The old refresh token is read and deleted by two commands; they are one step here.\<close>

definition create_new_token ::
  "auth_deps \<Rightarrow> auth_settings \<Rightarrow> int \<Rightarrow> ustr \<Rightarrow> ustr \<Rightarrow> ustr \<Rightarrow> int \<Rightarrow> bool \<Rightarrow> (ustr \<times> kwarg) list \<Rightarrow> redis
     \<Rightarrow> redis \<times> new_token res" where
  "create_new_token D S now new_sid token sid user_id multi_login kwargs st =
     (if r_get now (refresh_key user_id sid) st = None \<or> r_get now (refresh_key user_id sid) st = Some []
         \<or> r_get now (refresh_key user_id sid) st \<noteq> Some token
      then (st, Inl (TokenError msg_refresh_expired))
      else
        (let st1 = r_delete (token_key user_id sid) (r_delete (refresh_key user_id sid) st);
             (st2, access) = create_access_token D S now new_sid user_id multi_login kwargs st1;
             (st3, refresh) = create_refresh_token D S now (at_session_uuid access) user_id multi_login st2
         in (st3, Inr \<lparr>nt_access_token = at_token access, nt_access_token_expire_time = at_expire_time access,
               nt_refresh_token = rt_token refresh, nt_refresh_token_expire_time = rt_expire_time refresh,
               nt_session_uuid = at_session_uuid access\<rparr>)))"

definition revoke_token :: "int \<Rightarrow> ustr \<Rightarrow> redis \<Rightarrow> redis" where
  "revoke_token user_id sid st = r_delete (extra_key user_id sid) (r_delete (token_key user_id sid) st)"

text \<open>A request's \<open>Authorization\<close> header is absent or a text.\<close>

definition get_token :: "auth_deps \<Rightarrow> ustr option \<Rightarrow> ustr res" where
  "get_token D authorization =
     (case authorization of
        None \<Rightarrow> Inl (TokenError msg_token_invalid)
      | Some h \<Rightarrow> (case d_scheme D h of (scheme, token) \<Rightarrow>
          if h = [] \<or> d_lower D scheme \<noteq> asc ''bearer'' then Inl (TokenError msg_token_invalid)
          else Inr token))"

section \<open>The user of a request\<close>

text \<open>User ids are positive, so \<open>get_join\<close> filters by id.\<close>

definition get_current_user :: "int \<Rightarrow> admin_db \<Rightarrow> user_info res" where
  "get_current_user pk db =
     (case get_join pk db of
        None \<Rightarrow> Inl (TokenError msg_token_invalid)
      | Some user \<Rightarrow>
          if ui_status user = 0 then Inl (AuthorizationError msg_user_locked_admin)
          else if ui_dept_id user \<noteq> None \<and> ui_dept_id user \<noteq> Some 0 \<and> ui_dept user = None
          then Inl (AuthorizationError msg_dept_gone)
          else if (case ui_dept user of None \<Rightarrow> False | Some d \<Rightarrow> de_status d = 0)
          then Inl (AuthorizationError msg_dept_locked)
          else if ui_roles user \<noteq> [] \<and> list_all (\<lambda>r. ro_status (ri_role r) = 0) (ui_roles user)
          then Inl (AuthorizationError msg_roles_locked)
          else Inr user)"

definition get_jwt_user :: "auth_deps \<Rightarrow> auth_settings \<Rightarrow> int \<Rightarrow> int \<Rightarrow> aworld \<Rightarrow> aworld \<times> user_info res" where
  "get_jwt_user D S now user_id w =
     (case r_get now (user_key user_id) (red w) of
        Some (c # v) \<Rightarrow> (w, d_load D (c # v))
      | _ \<Rightarrow> (case get_current_user user_id (adb w) of
           Inl e \<Rightarrow> (w, Inl e)
         | Inr user \<Rightarrow>
             (w\<lparr>red := r_set now (user_key user_id) (d_dump D user) (Some (TOKEN_EXPIRE_SECONDS S)) (red w)\<rparr>,
              Inr user)))"

text \<open>\<open>jwt_authentication\<close>; what it stores in the request context is read nowhere else here.\<close>

definition jwt_authentication :: "auth_deps \<Rightarrow> auth_settings \<Rightarrow> int \<Rightarrow> ustr \<Rightarrow> aworld \<Rightarrow> aworld \<times> user_info res" where
  "jwt_authentication D S now token w =
     (case jwt_decode D now token of
        Inl e \<Rightarrow> (w, Inl e)
      | Inr p \<Rightarrow>
          (case r_get now (token_key (tp_user_id p) (tp_session_uuid p)) (red w) of
             None \<Rightarrow> (w, Inl (TokenError msg_token_expired))
           | Some stored \<Rightarrow>
               if stored = [] then (w, Inl (TokenError msg_token_expired))
               else if token \<noteq> stored then (w, Inl (TokenError msg_token_stale))
               else get_jwt_user D S now (tp_user_id p) w))"

text \<open>\<open>superuser_verify\<close> for the user of the request; \<open>None\<close> is \<open>UnauthenticatedUser\<close>.\<close>

definition superuser_verify :: "user_info option \<Rightarrow> bool res" where
  "superuser_verify user =
     (case user of
        None \<Rightarrow> Inl (TokenError (asc ''Not Authenticated''))
      | Some u \<Rightarrow> if \<not> ui_is_superuser u \<or> \<not> ui_is_staff u
                  then Inl (AuthorizationError (asc ''Permission Denied'')) else Inr (ui_is_superuser u))"

section \<open>Clearing the cache\<close>

definition clear :: "int list \<Rightarrow> redis \<Rightarrow> redis" where
  "clear user_ids st = (if user_ids \<noteq> [] then r_delete_all (map user_key user_ids) st else st)"

definition users_of_roles :: "int list \<Rightarrow> admin_db \<Rightarrow> int list" where
  "users_of_roles ids db = remdups (map fst (filter (\<lambda>(_, r). List.member ids r) (a_user_role db)))"

definition clear_by_role_id :: "int list \<Rightarrow> admin_db \<Rightarrow> redis \<Rightarrow> redis" where
  "clear_by_role_id ids db = clear (users_of_roles ids db)"

text \<open>The roles of links whose right side is among the ids; the join goes on from them to the users.\<close>

definition sources :: "(int \<times> int) list \<Rightarrow> int list \<Rightarrow> int list" where
  "sources links ids = map fst (filter (\<lambda>(_, b). List.member ids b) links)"

definition clear_by_menu_id :: "int list \<Rightarrow> admin_db \<Rightarrow> redis \<Rightarrow> redis" where
  "clear_by_menu_id ids db = clear (users_of_roles (sources (a_role_menu db) ids) db)"

definition clear_by_data_scope_id :: "int list \<Rightarrow> admin_db \<Rightarrow> redis \<Rightarrow> redis" where
  "clear_by_data_scope_id ids db = clear (users_of_roles (sources (a_role_scope db) ids) db)"

definition clear_by_data_rule_id :: "int list \<Rightarrow> admin_db \<Rightarrow> redis \<Rightarrow> redis" where
  "clear_by_data_rule_id ids db =
     clear (users_of_roles (sources (a_role_scope db) (sources (a_scope_rule db) ids)) db)"

lemma r_get_clear:
  "r_get now k (clear ids st) = (if k \<in> user_key ` set ids then None else r_get now k st)"
  by (simp add: clear_def r_get_delete_all)

lemma set_users_of_roles:
  "u \<in> set (users_of_roles rs db) \<longleftrightarrow> (\<exists>r \<in> set rs. linked (a_user_role db) u r)"
  by (force simp: users_of_roles_def linked_def)

lemma set_sources: "a \<in> set (sources links ids) \<longleftrightarrow> (\<exists>b \<in> set ids. linked links a b)"
  by (force simp: sources_def linked_def)

section \<open>What the tokens of Redis mean\<close>

text \<open>A request is authenticated as a user only with the token stored for one of the user's sessions.\<close>

lemma jwt_decode_payload:
  assumes "d_decode D now t = Jwt_payload (payload_for sid e u)" "sid \<noteq> []" "e \<noteq> 0"
  shows "jwt_decode D now t = Inr \<lparr>tp_user_id = u, tp_session_uuid = sid, tp_expire_time = e\<rparr>"
proof -
  have "str_int u \<noteq> []" using parse_int_str_int [of u] by (auto simp: parse_int_def)
  then show ?thesis using assms by (simp add: jwt_decode_def payload_for_def parse_int_str_int)
qed

lemma jwt_authentication_InrD:
  assumes "snd (jwt_authentication D S now token w) = Inr user"
  obtains p where "jwt_decode D now token = Inr p"
    "r_get now (token_key (tp_user_id p) (tp_session_uuid p)) (red w) = Some token"
    "snd (get_jwt_user D S now (tp_user_id p) w) = Inr user"
  using assms that by (auto simp: jwt_authentication_def split: sum.splits option.splits if_splits)

lemma jwt_authentication_no_session:
  assumes "jwt_decode D now token = Inr p" "r_get now (token_key (tp_user_id p) (tp_session_uuid p)) (red w) = None"
  shows "jwt_authentication D S now token w = (w, Inl (TokenError msg_token_expired))"
  using assms by (simp add: jwt_authentication_def)

text \<open>The sessions of a user after an access token was created.\<close>

lemma create_access_token_session:
  assumes "now \<le> t"
  shows "r_get t (token_key u s) (fst (create_access_token D S now sid user_id multi kwargs st)) =
    (if u = user_id \<and> s = sid
     then (if t < now + TOKEN_EXPIRE_SECONDS S * 1000
           then Some (at_token (snd (create_access_token D S now sid user_id multi kwargs st))) else None)
     else if u = user_id \<and> \<not> multi then None else r_get t (token_key u s) st)"
  using assms by (auto simp: create_access_token_def Let_def r_get_set delete_by_prefix_get alive_def)

lemma create_access_token_others:
  assumes "now \<le> t"
  shows "r_get t (refresh_key u s) (fst (create_access_token D S now sid user_id multi kwargs st))
      = r_get t (refresh_key u s) st"
    "r_get t (user_key u) (fst (create_access_token D S now sid user_id multi kwargs st)) = r_get t (user_key u) st"
  using assms by (auto simp: create_access_token_def Let_def r_get_set delete_by_prefix_get)

lemma create_refresh_token_session:
  assumes "now \<le> t"
  shows "r_get t (refresh_key u s) (fst (create_refresh_token D S now sid user_id multi st)) =
    (if u = user_id \<and> s = sid
     then (if t < now + TOKEN_REFRESH_EXPIRE_SECONDS S * 1000
           then Some (rt_token (snd (create_refresh_token D S now sid user_id multi st))) else None)
     else if u = user_id \<and> \<not> multi then None else r_get t (refresh_key u s) st)"
  using assms by (auto simp: create_refresh_token_def Let_def r_get_set delete_by_prefix_get alive_def)

lemma create_refresh_token_others:
  assumes "now \<le> t"
  shows "r_get t (token_key u s) (fst (create_refresh_token D S now sid user_id multi st))
      = r_get t (token_key u s) st"
    "r_get t (user_key u) (fst (create_refresh_token D S now sid user_id multi st)) = r_get t (user_key u) st"
  using assms by (auto simp: create_refresh_token_def Let_def r_get_set delete_by_prefix_get)

lemma revoke_token_get:
  "r_get t k (revoke_token u s st) = (if k = token_key u s \<or> k = extra_key u s then None else r_get t k st)"
  by (simp add: revoke_token_def r_get_delete)

end
