(* ===== verification/Security.thy ===== *)
theory Security
  imports Jwt
begin

text \<open>
  \<open>user_password_history_service.py\<close> and \<open>utils/password_security.py\<close>: the lock after failed logins, the
  expiry of passwords and the rules for new ones. \<open>settings\<close> are those in force after
  \<open>load_user_security_config\<close>.
\<close>

section \<open>Locking\<close>

text \<open>The division of the remaining time by a minute is taken exactly.\<close>

definition ceil_minutes :: "int \<Rightarrow> int" where
  "ceil_minutes ms = - ((- ms) div 60000)"

definition check_status :: "auth_deps \<Rightarrow> int \<Rightarrow> int \<Rightarrow> int \<Rightarrow> redis \<Rightarrow> redis \<times> unit res" where
  "check_status D now user_id user_status st =
     (if user_status = 0 then (st, Inl (AuthorizationError msg_user_locked))
      else (case r_get now (lock_key user_id) st of
          Some (c # v) \<Rightarrow>
            (case d_time_parse D (c # v) of
               None \<Rightarrow> (st, Inl (ValueError (c # v)))
             | Some locked_until \<Rightarrow>
                 if now < locked_until
                 then (st, Inl (AuthorizationError
                   (msg_lock_pre @ str_int (ceil_minutes (locked_until - now)) @ msg_lock_post)))
                 else (r_delete (failure_key user_id) (r_delete (lock_key user_id) st), Inr ()))
        | _ \<Rightarrow> (st, Inr ())))"

definition failure_count :: "int \<Rightarrow> int \<Rightarrow> redis \<Rightarrow> int option" where
  "failure_count now user_id st =
     (case r_get now (failure_key user_id) st of Some (c # v) \<Rightarrow> parse_int (c # v) | _ \<Rightarrow> Some 0)"

text \<open>The counter is read and written by two commands, one step here; overlapping attempts may lose a count.\<close>

definition handle_login_failure :: "auth_deps \<Rightarrow> auth_settings \<Rightarrow> int \<Rightarrow> int \<Rightarrow> redis \<Rightarrow> redis \<times> unit res" where
  "handle_login_failure D S now user_id st =
     (if USER_LOCK_THRESHOLD S = 0 then (st, Inr ())
      else (case failure_count now user_id st of
          None \<Rightarrow> (st, Inl (ValueError []))
        | Some n \<Rightarrow>
            (let st1 = r_set now (failure_key user_id) (str_int (n + 1)) (Some (USER_LOCK_SECONDS S)) st
             in if USER_LOCK_THRESHOLD S \<le> n + 1
                then (r_set now (lock_key user_id) (d_time_str D (now + USER_LOCK_SECONDS S * 1000))
                        (Some (USER_LOCK_SECONDS S)) st1, Inl (AuthorizationError msg_lock_now))
                else (st1, Inr ()))))"

definition handle_login_success :: "int \<Rightarrow> redis \<Rightarrow> redis" where
  "handle_login_success user_id st = r_delete (failure_key user_id) (r_delete (lock_key user_id) st)"

section \<open>Expiry\<close>

definition day_ms :: int where
  "day_ms = 24 * 60 * 60 * 1000"

text \<open>\<open>timedelta.days\<close> rounds down.\<close>

definition check_password_expiry_status :: "auth_settings \<Rightarrow> int \<Rightarrow> int option \<Rightarrow> int option res" where
  "check_password_expiry_status S now password_changed_time =
     (if USER_PASSWORD_EXPIRY_DAYS S = 0 then Inr None
      else (case password_changed_time of
          None \<Rightarrow> Inl (AuthorizationError msg_password_expired)
        | Some changed \<Rightarrow>
            (let days_remaining = (changed + USER_PASSWORD_EXPIRY_DAYS S * day_ms - now) div day_ms
             in if days_remaining < 0 then Inl (AuthorizationError msg_password_expired)
                else if days_remaining \<le> USER_PASSWORD_REMINDER_DAYS S then Inr (Some days_remaining)
                else Inr None)))"

section \<open>New passwords\<close>

text \<open>The patterns of \<open>pattern_validate.py\<close>, each a search for one character.\<close>

definition is_has_number :: "auth_deps \<Rightarrow> ustr \<Rightarrow> bool" where
  "is_has_number D s \<longleftrightarrow> list_ex (d_decimal D) s"

definition is_has_letter :: "ustr \<Rightarrow> bool" where
  "is_has_letter s \<longleftrightarrow> list_ex (\<lambda>c. 97 \<le> c \<and> c \<le> 122 \<or> 65 \<le> c \<and> c \<le> 90) s"

definition is_has_special_char :: "ustr \<Rightarrow> bool" where
  "is_has_special_char s \<longleftrightarrow>
     list_ex (List.member (asc ''!@#$%^&*()_+-=[]{};:'' @ [39] @ asc ''\",.<>?/'' @ [92] @ asc ''|'' @ [96] @ asc ''~'')) s"

definition validate_new_password ::
  "auth_deps \<Rightarrow> auth_settings \<Rightarrow> int \<Rightarrow> ustr \<Rightarrow> admin_db \<Rightarrow> unit res" where
  "validate_new_password D S user_id new_password db =
     (if int (length new_password) < USER_PASSWORD_MIN_LENGTH S
      then Inl (RequestError 400 (msg_pw_short_pre @ str_int (USER_PASSWORD_MIN_LENGTH S) @ msg_pw_chars_post))
      else if USER_PASSWORD_MAX_LENGTH S < int (length new_password)
      then Inl (RequestError 400 (msg_pw_long_pre @ str_int (USER_PASSWORD_MAX_LENGTH S) @ msg_pw_chars_post))
      else if \<not> is_has_number D new_password then Inl (RequestError 400 msg_pw_digit)
      else if \<not> is_has_letter new_password then Inl (RequestError 400 msg_pw_letter)
      else if USER_PASSWORD_REQUIRE_SPECIAL_CHAR S \<and> \<not> is_has_special_char new_password
      then Inl (RequestError 400 msg_pw_special)
      else if list_ex (\<lambda>h. d_verify D new_password (ph_password h))
                (slice_to (get_history user_id db) (USER_PASSWORD_HISTORY_CHECK_COUNT S))
      then Inl (RequestError 400 (msg_pw_history_pre @ str_int (USER_PASSWORD_HISTORY_CHECK_COUNT S)
                 @ msg_pw_history_post))
      else Inr ())"

section \<open>The locked state\<close>

text \<open>
  Times are kept as texts to the second: a parsed time is at most a second before the time that was
  written.
\<close>

definition times_ok :: "auth_deps \<Rightarrow> bool" where
  "times_ok D \<longleftrightarrow> (\<forall>t. \<exists>t'. d_time_parse D (d_time_str D t) = Some t' \<and> t - 1000 < t' \<and> t' \<le> t
     \<and> d_time_str D t \<noteq> [])"

lemma str_int_nonempty: "str_int i \<noteq> []"
  using parse_int_str_int [of i] by (auto simp: parse_int_def)

lemma failure_count_nonneg_set:
  assumes "now < t + s * 1000"
  shows "failure_count now u (r_set t (failure_key u) (str_int n) (Some s) st) = Some n"
  using assms str_int_nonempty [of n] parse_int_str_int [of n]
  by (auto simp: failure_count_def r_get_set alive_def split: list.splits)

lemma check_status_locked:
  assumes "times_ok D" "status \<noteq> 0" "now \<le> t" "t + 1000 \<le> now + s * 1000" "0 < s"
    "st = r_set now (lock_key u) (d_time_str D (now + s * 1000)) (Some s) st0"
  shows "\<exists>m > 0. check_status D t u status st
    = (st, Inl (AuthorizationError (msg_lock_pre @ str_int m @ msg_lock_post)))"
proof -
  obtain until where u: "d_time_parse D (d_time_str D (now + s * 1000)) = Some until"
    "now + s * 1000 - 1000 < until" "until \<le> now + s * 1000" "d_time_str D (now + s * 1000) \<noteq> []"
    using assms(1) by (metis times_ok_def)
  have lt: "t < until" using u(2) assms(4) by linarith
  then have pos: "0 < ceil_minutes (until - t)"
    using div_pos_neg_trivial [of "- (until - t)" 60000] by (simp add: ceil_minutes_def zdiv_zminus1_eq_if)
  have g: "r_get t (lock_key u) st = Some (d_time_str D (now + s * 1000))"
    using assms by (simp add: r_get_set alive_def)
  obtain c v where cv: "d_time_str D (now + s * 1000) = c # v" using u(4) by (meson list.exhaust)
  show ?thesis
    using assms(2) g cv u(1) lt pos by (intro exI [of _ "ceil_minutes (until - t)"]) (simp add: check_status_def)
qed

end
