(* ===== verification/Auth.thy ===== *)
theory Auth
  imports Security
begin

text \<open>
  \<open>auth_service.py\<close>: logging in, renewing tokens and logging out. The database is the one of the
  request's transaction; the login log is written by a background task after the response.
\<close>

section \<open>Verifying a password\<close>

definition on_redis :: "(redis \<Rightarrow> redis \<times> 'a res) \<Rightarrow> aworld \<Rightarrow> aworld \<times> 'a res" where
  "on_redis f w = (case f (red w) of (st, r) \<Rightarrow> (w\<lparr>red := st\<rparr>, r))"

definition on_fst :: "('s \<Rightarrow> 's \<times> 'a) \<Rightarrow> 's \<Rightarrow> 's \<times> 'a res" where
  "on_fst f s = (case f s of (s', x) \<Rightarrow> (s', Inr x))"

definition user_verify ::
  "auth_deps \<Rightarrow> auth_settings \<Rightarrow> int \<Rightarrow> ustr \<Rightarrow> ustr \<Rightarrow> aworld \<Rightarrow> aworld \<times> (user \<times> int option) res" where
  "user_verify D S now username password w =
     (case get_by_username username (adb w) of
        None \<Rightarrow> (w, Inl (NotFoundError msg_bad_login))
      | Some user \<Rightarrow>
          sbind (on_redis (check_status D now (u_id user) (u_status user)) w) (\<lambda>_ w.
            if (case u_password user of None \<Rightarrow> True | Some h \<Rightarrow> \<not> d_verify D password h)
            then sbind (on_redis (handle_login_failure D S now (u_id user)) w)
                   (\<lambda>_ w. (w, Inl (AuthorizationError msg_bad_login)))
            else (case check_password_expiry_status S now (u_last_password_changed_time user) of
                Inl e \<Rightarrow> (w, Inl e)
              | Inr days_remaining \<Rightarrow>
                  (w\<lparr>red := handle_login_success (u_id user) (red w)\<rparr>, Inr (user, days_remaining)))))"

section \<open>Logging in\<close>

definition swagger_login ::
  "auth_deps \<Rightarrow> auth_settings \<Rightarrow> int \<Rightarrow> ustr \<Rightarrow> ustr \<Rightarrow> ustr \<Rightarrow> aworld \<Rightarrow> aworld \<times> (ustr \<times> user) res" where
  "swagger_login D S now sid username password w =
     sbind (user_verify D S now username password w) (\<lambda>(user, _) w.
       case create_access_token D S now sid (u_id user) (u_is_multi_login user)
              [(asc ''swagger'', Kw_bool True)] (red w) of
         (st, token) \<Rightarrow> (w\<lparr>adb := update_login_time now username (adb w), red := st\<rparr>, Inr (at_token token, user)))"

record login_param =
  lp_username :: ustr
  lp_password :: ustr
  lp_uuid :: "ustr option"
  lp_captcha :: "ustr option"

text \<open>What the request context knows of the client.\<close>

record client =
  cl_ip :: "ustr option"
  cl_os :: "ustr option"
  cl_browser :: "ustr option"
  cl_device :: "ustr option"

record login_token =
  lt_access_token :: ustr
  lt_access_token_expire_time :: int
  lt_session_uuid :: ustr
  lt_password_expire_days_remaining :: "int option"
  lt_user :: user
  lt_refresh_cookie :: ustr

definition kw :: "ustr option \<Rightarrow> kwarg" where
  "kw x = (case x of None \<Rightarrow> Kw_none | Some s \<Rightarrow> Kw_text s)"

definition extra_info :: "auth_deps \<Rightarrow> string \<Rightarrow> client \<Rightarrow> user \<Rightarrow> (ustr \<times> kwarg) list" where
  "extra_info D device_name cl user =
     [(asc ''username'', Kw_text (u_username user)), (asc ''nickname'', Kw_text (u_nickname user)),
      (asc ''last_login_time'', kw (map_option (d_time_str D) (u_last_login_time user))),
      (asc ''ip'', kw (cl_ip cl)), (asc ''os'', kw (cl_os cl)), (asc ''browser'', kw (cl_browser cl)),
      (asc device_name, kw (cl_device cl))]"

definition text_missing :: "ustr option \<Rightarrow> bool" where
  "text_missing x \<longleftrightarrow> x = None \<or> x = Some []"

definition check_captcha :: "auth_deps \<Rightarrow> auth_settings \<Rightarrow> int \<Rightarrow> login_param \<Rightarrow> redis \<Rightarrow> redis \<times> unit res" where
  "check_captcha D S now obj st =
     (if \<not> LOGIN_CAPTCHA_ENABLED S then (st, Inr ())
      else (case (lp_uuid obj, lp_captcha obj) of
          (Some uuid, Some captcha) \<Rightarrow>
            if uuid = [] \<or> captcha = [] then (st, Inl (RequestError 400 (d_text D (asc ''error.captcha.invalid''))))
            else (case r_get now (captcha_key uuid) st of
                None \<Rightarrow> (st, Inl (RequestError 400 (d_text D (asc ''error.captcha.expired''))))
              | Some code \<Rightarrow>
                  if code = [] then (st, Inl (RequestError 400 (d_text D (asc ''error.captcha.expired''))))
                  else if d_lower D code \<noteq> d_lower D captcha
                  then (st, Inl (CustomError 40001 (d_text D (asc ''error.captcha.error''))))
                  else (r_delete (captcha_key uuid) st, Inr ()))
        | _ \<Rightarrow> (st, Inl (RequestError 400 (d_text D (asc ''error.captcha.invalid''))))))"

text \<open>What follows when the password is right; \<open>db.refresh\<close> rereads the user.\<close>

definition open_session ::
  "auth_deps \<Rightarrow> auth_settings \<Rightarrow> int \<Rightarrow> ustr \<Rightarrow> client \<Rightarrow> ustr \<Rightarrow> user \<times> int option \<Rightarrow> aworld \<Rightarrow> aworld \<times> login_token res" where
  "open_session D S now sid cl username verified w =
     (let user = (fst verified)\<lparr>u_last_login_time := Some now\<rparr>;
          (st1, access) = create_access_token D S now sid (u_id user) (u_is_multi_login user)
                            (extra_info D ''device'' cl user) (red w);
          (st2, refresh) = create_refresh_token D S now (at_session_uuid access) (u_id user)
                             (u_is_multi_login user) st1
      in (w\<lparr>adb := update_login_time now username (adb w), red := st2\<rparr>,
          Inr \<lparr>lt_access_token = at_token access, lt_access_token_expire_time = at_expire_time access,
            lt_session_uuid = at_session_uuid access, lt_password_expire_days_remaining = snd verified,
            lt_user = user, lt_refresh_cookie = rt_token refresh\<rparr>))"

text \<open>The body of the \<open>try\<close>.\<close>

definition login_body ::
  "auth_deps \<Rightarrow> auth_settings \<Rightarrow> int \<Rightarrow> ustr \<Rightarrow> client \<Rightarrow> login_param \<Rightarrow> aworld \<Rightarrow> aworld \<times> login_token res" where
  "login_body D S now sid cl obj w =
     sbind (on_redis (check_captcha D S now obj) w) (\<lambda>_ w.
     sbind (user_verify D S now (lp_username obj) (lp_password obj) w)
       (open_session D S now sid cl (lp_username obj)))"

text \<open>
  The handlers: request and captcha errors are written to the login log (of an unknown user: \<open>user\<close> is
  set only after its password was verified) and raised as \<open>RequestError\<close>; others pass as they are.
\<close>

definition login ::
  "auth_deps \<Rightarrow> auth_settings \<Rightarrow> int \<Rightarrow> ustr \<Rightarrow> ustr \<Rightarrow> client \<Rightarrow> login_param \<Rightarrow> aworld \<Rightarrow> aworld \<times> login_token res" where
  "login D S now sid log_uuid cl obj w =
     (case transaction (login_body D S now sid cl obj) w of
        (w', Inr data) \<Rightarrow> (w'\<lparr>alog := alog w' @ [\<lparr>ll_user_uuid = u_uuid (lt_user data), ll_username = lp_username obj,
           ll_success = True, ll_msg = d_text D (asc ''success.login.success'')\<rparr>]\<rparr>, Inr data)
      | (w', Inl (RequestError c msg)) \<Rightarrow> (w'\<lparr>alog := alog w' @ [\<lparr>ll_user_uuid = log_uuid,
           ll_username = lp_username obj, ll_success = False, ll_msg = msg\<rparr>]\<rparr>, Inl (RequestError c msg))
      | (w', Inl (CustomError c msg)) \<Rightarrow> (w'\<lparr>alog := alog w' @ [\<lparr>ll_user_uuid = log_uuid,
           ll_username = lp_username obj, ll_success = False, ll_msg = msg\<rparr>]\<rparr>, Inl (RequestError c msg))
      | (w', Inl e) \<Rightarrow> (w', Inl e))"

section \<open>Permission codes\<close>

definition menu_codes :: "menu \<Rightarrow> ustr list" where
  "menu_codes m = (case me_perms m of
     Some (c # p) \<Rightarrow> if me_status m = 1 then split_on 44 (c # p) else [] | _ \<Rightarrow> [])"

definition get_codes :: "user_info \<Rightarrow> admin_db \<Rightarrow> ustr list" where
  "get_codes user db = remdups (concat (map menu_codes
     (if ui_is_superuser user then menu_get_all db
      else concat (map ri_menus (filter (\<lambda>r. ro_status (ri_role r) = 1) (ui_roles user))))))"

section \<open>Renewing and ending a session\<close>

definition other_session :: "ustr \<Rightarrow> ustr \<Rightarrow> bool" where
  "other_session sid key \<longleftrightarrow> \<not> suffix (58 # sid) key"

definition refresh_session ::
  "auth_deps \<Rightarrow> auth_settings \<Rightarrow> int \<Rightarrow> ustr \<Rightarrow> client \<Rightarrow> ustr option \<Rightarrow> aworld \<Rightarrow> aworld \<times> new_token res" where
  "refresh_session D S now new_sid cl cookie w =
     (if text_missing cookie then (w, Inl (RequestError 400 msg_refresh_expired))
      else let token = the cookie in
        (case jwt_decode D now token of
           Inl e \<Rightarrow> (w, Inl e)
         | Inr p \<Rightarrow>
             (case get_user (tp_user_id p) (adb w) of
                None \<Rightarrow> (w, Inl (NotFoundError msg_user_missing))
              | Some user \<Rightarrow>
                  if u_status user = 0 then (w, Inl (AuthorizationError msg_user_locked))
                  else if \<not> u_is_multi_login user
                    \<and> list_ex (other_session (tp_session_uuid p)) (get_by_prefix now (TOKEN_REDIS_PREFIX (u_id user)) (red w))
                  then (w, Inl (ForbiddenError msg_other_login))
                  else if u_last_login_time user = None then (w, Inl (OtherError (asc ''AttributeError'')))
                  else on_redis (create_new_token D S now new_sid token (tp_session_uuid p) (u_id user)
                         (u_is_multi_login user) (extra_info D ''device_type'' cl user)) w)))"

text \<open>\<open>timezone.to_str(None)\<close> is the \<open>AttributeError\<close> above.\<close>

text \<open>A token that cannot be decoded ends the logout without an error; only \<open>ValueError\<close> is raised on.\<close>

definition logout :: "auth_deps \<Rightarrow> int \<Rightarrow> ustr option \<Rightarrow> ustr option \<Rightarrow> redis \<Rightarrow> redis \<times> unit res" where
  "logout D now authorization cookie st =
     (case rbind (get_token D authorization) (jwt_decode D now) of
        Inl (TokenError _) \<Rightarrow> (st, Inr ())
      | Inl e \<Rightarrow> (st, Inl e)
      | Inr p \<Rightarrow>
          (let st1 = r_delete (extra_key (tp_user_id p) (tp_session_uuid p))
                 (r_delete (token_key (tp_user_id p) (tp_session_uuid p)) st)
           in (if \<not> text_missing cookie then r_delete (refresh_key (tp_user_id p) (tp_session_uuid p)) st1 else st1,
               Inr ())))"

end
