(* ===== verification/Users.thy ===== *)
theory Users
  imports Auth
begin

text \<open>
  \<open>user_service.py\<close>: creating, changing and deleting accounts. Each operation ends by removing the cached
  description of the account it changed, and, where credentials changed, its tokens.
\<close>

section \<open>Accounts\<close>

definition missing_text :: "ustr option option \<Rightarrow> bool" where
  "missing_text x \<longleftrightarrow> x = None \<or> x = Some None \<or> x = Some (Some [])"

definition same_ids :: "int list \<Rightarrow> int list \<Rightarrow> bool" where
  "same_ids xs ys \<longleftrightarrow> list_all (List.member ys) xs \<and> list_all (List.member xs) ys"

text \<open>\<open>get_all_by_ids\<close> and the comparison of the two sets\<close>

definition all_exist :: "int list \<Rightarrow> int list \<Rightarrow> bool" where
  "all_exist ids existing \<longleftrightarrow> ids = [] \<or> same_ids (filter (List.member ids) existing) ids"

lemma all_exist_iff: "all_exist ids existing \<longleftrightarrow> set ids \<subseteq> set existing"
  by (auto simp: all_exist_def same_ids_def list_all_iff)

definition user_create ::
  "auth_deps \<Rightarrow> int \<Rightarrow> ustr \<Rightarrow> ustr \<Rightarrow> add_user_param \<Rightarrow> aworld \<Rightarrow> aworld \<times> unit res" where
  "user_create D now uuid salt obj w =
     (if get_by_username (au_username obj) (adb w) \<noteq> None then (w, Inl (ConflictError msg_name_taken))
      else if \<not> text_missing (au_email obj) \<and> check_email (the (au_email obj)) (adb w) \<noteq> None
      then (w, Inl (ConflictError msg_email_taken))
      else if au_password obj = [] then (w, Inl (RequestError 400 msg_pw_empty))
      else if dept_get (au_dept_id obj) (adb w) = None then (w, Inl (NotFoundError msg_dept_missing))
      else if \<not> all_exist (au_roles obj) (role_ids (adb w)) then (w, Inl (NotFoundError msg_role_missing))
      else (case add_user now uuid (d_hash D (au_password obj) salt)
               (obj\<lparr>au_nickname := Some (if text_missing (au_nickname obj) then au_username obj
                                         else the (au_nickname obj))\<rparr>) (adb w) of
          Inl e \<Rightarrow> (w, Inl e)
        | Inr db \<Rightarrow> (w\<lparr>adb := db\<rparr>, Inr ())))"

definition user_update :: "int \<Rightarrow> int \<Rightarrow> update_user_param \<Rightarrow> aworld \<Rightarrow> aworld \<times> int res" where
  "user_update now pk obj w =
     (case get_join pk (adb w) of
        None \<Rightarrow> (w, Inl (NotFoundError msg_user_missing))
      | Some user \<Rightarrow>
          if up_username obj \<noteq> ui_username user \<and> get_by_username (up_username obj) (adb w) \<noteq> None
          then (w, Inl (ConflictError msg_name_taken))
          else if \<not> missing_text (up_email obj) \<and> the (up_email obj) \<noteq> ui_email user
            \<and> check_email (the (the (up_email obj))) (adb w) \<noteq> None
          then (w, Inl (ConflictError msg_email_taken))
          else if (case up_dept_id obj of Some (Some d) \<Rightarrow>
              d \<noteq> 0 \<and> Some d \<noteq> ui_dept_id user \<and> dept_get d (adb w) = None | _ \<Rightarrow> False)
          then (w, Inl (NotFoundError msg_dept_missing))
          else if \<not> all_exist (up_roles obj) (role_ids (adb w)) then (w, Inl (NotFoundError msg_role_missing))
          else (case update_user now (ui_id user) obj (adb w) of
              Inl e \<Rightarrow> (w, Inl e)
            | Inr (db, n) \<Rightarrow> (w\<lparr>adb := db, red := r_delete (user_key (ui_id user)) (red w)\<rparr>, Inr n)))"

section \<open>Permissions\<close>

datatype permission_type = Perm_superuser | Perm_staff | Perm_status | Perm_multi_login

text \<open>The three cases that differ only in the column they toggle.\<close>

definition toggle ::
  "(admin_db \<Rightarrow> admin_db \<times> int) \<Rightarrow> user_info \<Rightarrow> int \<Rightarrow> aworld \<Rightarrow> aworld \<times> int res" where
  "toggle write_flag request_user pk w =
     (if pk = ui_id request_user then (w, Inl (ForbiddenError msg_own_permission))
      else (case write_flag (adb w) of (db, n) \<Rightarrow> (w\<lparr>adb := db\<rparr>, Inr n)))"

text \<open>
  \<open>user\<close> is the row with id \<open>pk\<close>, so the code's \<open>pk != user.id\<close> is false for every request.
\<close>

definition toggle_multi_login ::
  "auth_deps \<Rightarrow> int \<Rightarrow> ustr option \<Rightarrow> user_info \<Rightarrow> int \<Rightarrow> user \<Rightarrow> aworld \<Rightarrow> aworld \<times> int res" where
  "toggle_multi_login D now authorization request_user pk user w =
     (let multi_login = (if pk \<noteq> u_id user then u_is_multi_login user else ui_is_multi_login request_user);
          new_multi_login = (\<not> multi_login)
      in (case set_multi_login now pk new_multi_login (adb w) of
            (db, n) \<Rightarrow>
              (case rbind (get_token D authorization) (jwt_decode D now) of
                 Inl e \<Rightarrow> (w\<lparr>adb := db\<rparr>, Inl e)
               | Inr p \<Rightarrow>
                   if pk = u_id user
                   then (w\<lparr>adb := db, red :=
                     (if \<not> new_multi_login
                      then delete_by_prefix now (TOKEN_REDIS_PREFIX (u_id user))
                             (Exclude_key (token_key (u_id user) (tp_session_uuid p))) 1000 (red w)
                      else red w)\<rparr>, Inr n)
                   else (w\<lparr>adb := db, red :=
                     (if \<not> new_multi_login
                      then delete_by_prefix now (TOKEN_REDIS_PREFIX (u_id user)) No_exclude 1000 (red w)
                      else red w)\<rparr>, Inr n))))"

definition update_permission ::
  "auth_deps \<Rightarrow> int \<Rightarrow> ustr option \<Rightarrow> user_info \<Rightarrow> int \<Rightarrow> permission_type \<Rightarrow> aworld \<Rightarrow> aworld \<times> int res" where
  "update_permission D now authorization request_user pk typ w =
     (case get_user pk (adb w) of
        None \<Rightarrow> (w, Inl (NotFoundError msg_user_missing))
      | Some user \<Rightarrow>
          sbind (case typ of
              Perm_superuser \<Rightarrow> toggle (set_super now pk (\<not> u_is_superuser user)) request_user pk w
            | Perm_staff \<Rightarrow> toggle (set_staff now pk (\<not> u_is_staff user)) request_user pk w
            | Perm_status \<Rightarrow> toggle (set_status now pk (if u_status user = 1 then 0 else 1)) request_user pk w
            | Perm_multi_login \<Rightarrow> toggle_multi_login D now authorization request_user pk user w)
            (\<lambda>n w. (w\<lparr>red := r_delete (user_key (u_id user)) (red w)\<rparr>, Inr n)))"

section \<open>Passwords\<close>

text \<open>The end of \<open>reset_password\<close>, \<open>update_password\<close> and \<open>delete\<close>\<close>

definition end_sessions :: "int \<Rightarrow> int \<Rightarrow> redis \<Rightarrow> redis" where
  "end_sessions now pk st = delete_by_prefix now (user_key pk) No_exclude 1000
     (delete_by_prefix now (TOKEN_REFRESH_REDIS_PREFIX pk) No_exclude 1000
       (delete_by_prefix now (TOKEN_REDIS_PREFIX pk) No_exclude 1000 st))"

text \<open>
  The history keeps \<open>user.password\<close>, read after the update: the new hash when the session's objects follow
  the update. The schema wants a text there.
\<close>

definition change_password ::
  "auth_deps \<Rightarrow> auth_settings \<Rightarrow> int \<Rightarrow> ustr \<Rightarrow> user \<Rightarrow> ustr \<Rightarrow> aworld \<Rightarrow> aworld \<times> int res" where
  "change_password D S now salt user password w =
     (case validate_new_password D S (u_id user) password (adb w) of
        Inl e \<Rightarrow> (w, Inl e)
      | Inr _ \<Rightarrow>
          (let hashed = d_hash D password salt;
               (db1, n) = reset_password now (u_id user) hashed (adb w)
           in (case (if d_sync D then Some hashed else u_password user) of
                 None \<Rightarrow> (w\<lparr>adb := db1\<rparr>, Inl (OtherError (asc ''ValidationError'')))
               | Some kept \<Rightarrow>
                   (w\<lparr>adb := fst (update_password_changed_time now (u_id user) (create_history (u_id user) kept db1)),
                      red := end_sessions now (u_id user) (red w)\<rparr>, Inr n))))"

definition user_reset_password ::
  "auth_deps \<Rightarrow> auth_settings \<Rightarrow> int \<Rightarrow> ustr \<Rightarrow> int \<Rightarrow> ustr \<Rightarrow> aworld \<Rightarrow> aworld \<times> int res" where
  "user_reset_password D S now salt pk password w =
     (case get_user pk (adb w) of
        None \<Rightarrow> (w, Inl (NotFoundError msg_user_missing))
      | Some user \<Rightarrow> change_password D S now salt user password w)"

record reset_password_param =
  old_password :: ustr
  new_password :: ustr
  confirm_password :: ustr

definition user_update_password ::
  "auth_deps \<Rightarrow> auth_settings \<Rightarrow> int \<Rightarrow> ustr \<Rightarrow> int \<Rightarrow> reset_password_param \<Rightarrow> aworld \<Rightarrow> aworld \<times> int res" where
  "user_update_password D S now salt pk obj w =
     (case get_user pk (adb w) of
        None \<Rightarrow> (w, Inl (OtherError (asc ''AttributeError'')))
      | Some user \<Rightarrow>
          if \<not> text_missing (u_password user) \<and> \<not> d_verify D (old_password obj) (the (u_password user))
          then (w, Inl (RequestError 400 msg_old_password))
          else if new_password obj \<noteq> confirm_password obj then (w, Inl (RequestError 400 msg_pw_differ))
          else change_password D S now salt user (new_password obj) w)"

section \<open>The account of the request\<close>

definition user_update_nickname :: "int \<Rightarrow> int \<Rightarrow> ustr \<Rightarrow> aworld \<Rightarrow> aworld \<times> int res" where
  "user_update_nickname now pk nickname w =
     (case update_nickname now pk nickname (adb w) of
        (db, n) \<Rightarrow> (w\<lparr>adb := db, red := r_delete (user_key pk) (red w)\<rparr>, Inr n))"

definition user_update_avatar :: "int \<Rightarrow> int \<Rightarrow> ustr \<Rightarrow> aworld \<Rightarrow> aworld \<times> int res" where
  "user_update_avatar now pk avatar w =
     (case update_avatar now pk avatar (adb w) of
        (db, n) \<Rightarrow> (w\<lparr>adb := db, red := r_delete (user_key pk) (red w)\<rparr>, Inr n))"

definition user_update_email :: "auth_deps \<Rightarrow> int \<Rightarrow> ustr \<Rightarrow> int \<Rightarrow> ustr \<Rightarrow> ustr \<Rightarrow> aworld \<Rightarrow> aworld \<times> int res" where
  "user_update_email D now ip pk captcha email w =
     (case r_get now (email_captcha_key ip) (red w) of
        Some (c # code) \<Rightarrow>
          if captcha \<noteq> c # code then (w, Inl (CustomError 40001 (d_text D (asc ''error.captcha.error''))))
          else if (case check_email email (adb w) of None \<Rightarrow> False | Some u \<Rightarrow> u_id u \<noteq> pk)
          then (w, Inl (ConflictError msg_email_taken))
          else let w1 = w\<lparr>red := r_delete (email_captcha_key ip) (red w)\<rparr> in
            (case update_email now pk email (adb w1) of
               Inl e \<Rightarrow> (w1, Inl e)
             | Inr (db, n) \<Rightarrow> (w1\<lparr>adb := db, red := r_delete (user_key pk) (red w1)\<rparr>, Inr n))
      | _ \<Rightarrow> (w, Inl (RequestError 400 msg_captcha_gone)))"

definition user_delete :: "int \<Rightarrow> int \<Rightarrow> aworld \<Rightarrow> aworld \<times> int res" where
  "user_delete now pk w =
     (case get_user pk (adb w) of
        None \<Rightarrow> (w, Inl (NotFoundError msg_user_missing))
      | Some user \<Rightarrow>
          (case delete_user now (u_id user) (adb w) of
             (db, n) \<Rightarrow> (w\<lparr>adb := db, red := end_sessions now (u_id user) (red w)\<rparr>, Inr n)))"

end
