(* ===== verification/Access.thy ===== *)
theory Access
  imports Users
begin

text \<open>
  \<open>role_service.py\<close>, \<open>menu_service.py\<close>, \<open>data_scope_service.py\<close>, \<open>data_rule_service.py\<close> and
  \<open>dept_service.py\<close>: the operations that change what users may do, each with the part of the cache of
  user descriptions that it clears.
\<close>

section \<open>Roles\<close>

definition role_service_create :: "role_param \<Rightarrow> aworld \<Rightarrow> aworld \<times> unit res" where
  "role_service_create obj w =
     (if role_get_by_name (rp_name obj) (adb w) \<noteq> None then (w, Inl (ConflictError msg_role_exists))
      else (case role_create obj (adb w) of Inl e \<Rightarrow> (w, Inl e) | Inr db \<Rightarrow> (w\<lparr>adb := db\<rparr>, Inr ())))"

definition role_service_update :: "int \<Rightarrow> role_param \<Rightarrow> aworld \<Rightarrow> aworld \<times> int res" where
  "role_service_update pk obj w =
     (case role_get pk (adb w) of
        None \<Rightarrow> (w, Inl (NotFoundError msg_role_missing))
      | Some role \<Rightarrow>
          if ro_name role \<noteq> rp_name obj \<and> role_get_by_name (rp_name obj) (adb w) \<noteq> None
          then (w, Inl (ConflictError msg_role_exists))
          else (case role_update pk obj (adb w) of
              Inl e \<Rightarrow> (w, Inl e)
            | Inr db \<Rightarrow> (w\<lparr>adb := db, red := clear_by_role_id [pk] db (red w)\<rparr>, Inr (role_count [pk] (adb w)))))"

definition update_role_menu :: "int \<Rightarrow> int list \<Rightarrow> aworld \<Rightarrow> aworld \<times> int res" where
  "update_role_menu pk menus w =
     (if role_get pk (adb w) = None then (w, Inl (NotFoundError msg_role_missing))
      else if \<not> all_exist menus (menu_ids (adb w)) then (w, Inl (NotFoundError msg_menu_missing))
      else let db = role_update_menus pk menus (adb w)
           in (w\<lparr>adb := db, red := clear_by_role_id [pk] db (red w)\<rparr>, Inr (int (length menus))))"

definition update_role_scope :: "int \<Rightarrow> int list \<Rightarrow> aworld \<Rightarrow> aworld \<times> int res" where
  "update_role_scope pk scopes w =
     (if role_get pk (adb w) = None then (w, Inl (NotFoundError msg_role_missing))
      else if \<not> all_exist scopes (scope_ids (adb w)) then (w, Inl (NotFoundError msg_scope_missing))
      else let db = role_update_scopes pk scopes (adb w)
           in (w\<lparr>adb := db, red := clear_by_role_id [pk] db (red w)\<rparr>, Inr (int (length scopes))))"

definition role_service_delete :: "int list \<Rightarrow> aworld \<Rightarrow> aworld \<times> int res" where
  "role_service_delete pks w =
     (let db = role_delete pks (adb w)
      in (w\<lparr>adb := db, red := clear_by_role_id pks db (red w)\<rparr>, Inr (role_count pks (adb w))))"

section \<open>Menus\<close>

definition parent_missing :: "int option option \<Rightarrow> (int \<Rightarrow> bool) \<Rightarrow> bool" where
  "parent_missing parent exists \<longleftrightarrow>
     (case parent of Some (Some p) \<Rightarrow> p \<noteq> 0 \<and> \<not> exists p | _ \<Rightarrow> False)"

definition menu_service_create :: "menu_param \<Rightarrow> aworld \<Rightarrow> aworld \<times> unit res" where
  "menu_service_create obj w =
     (if menu_get_by_title (mp_title obj) (adb w) \<noteq> None then (w, Inl (ConflictError msg_menu_exists))
      else if parent_missing (mp_parent_id obj) (\<lambda>p. menu_get p (adb w) \<noteq> None)
      then (w, Inl (NotFoundError msg_parent_menu))
      else (w\<lparr>adb := menu_create obj (adb w)\<rparr>, Inr ()))"

definition menu_count :: "int \<Rightarrow> admin_db \<Rightarrow> int" where
  "menu_count pk db = int (length (filter (\<lambda>m. me_id m = pk \<and> me_deleted m = 0) (a_menus db)))"

definition menu_service_update :: "int \<Rightarrow> menu_param \<Rightarrow> aworld \<Rightarrow> aworld \<times> int res" where
  "menu_service_update pk obj w =
     (case menu_get pk (adb w) of
        None \<Rightarrow> (w, Inl (NotFoundError msg_menu_missing))
      | Some menu \<Rightarrow>
          if me_title menu \<noteq> mp_title obj \<and> menu_get_by_title (mp_title obj) (adb w) \<noteq> None
          then (w, Inl (ConflictError msg_menu_exists))
          else if parent_missing (mp_parent_id obj) (\<lambda>p. menu_get p (adb w) \<noteq> None)
          then (w, Inl (NotFoundError msg_parent_menu))
          else if mp_parent_id obj = Some (Some (me_id menu)) then (w, Inl (ForbiddenError msg_own_parent))
          else let db = menu_update pk obj (adb w)
               in (w\<lparr>adb := db, red := clear_by_menu_id [pk] db (red w)\<rparr>, Inr (menu_count pk (adb w))))"

text \<open>The links to the menu are gone before the cache of the users they led to is cleared.\<close>

definition menu_service_delete :: "int \<Rightarrow> aworld \<Rightarrow> aworld \<times> int res" where
  "menu_service_delete pk w =
     (if menu_get_children pk (adb w) \<noteq> [] then (w, Inl (ConflictError msg_menu_children))
      else let db = menu_delete pk (adb w); n = menu_count pk (adb w)
           in (w\<lparr>adb := db, red := (if n \<noteq> 0 then clear_by_menu_id [pk] db (red w) else red w)\<rparr>, Inr n))"

definition get_sidebar :: "user_info \<Rightarrow> admin_db \<Rightarrow> menu list" where
  "get_sidebar user db =
     (if ui_is_superuser user then menu_get_sidebar None db
      else let roles = filter (\<lambda>r. ro_status (ri_role r) = 1) (ui_roles user)
           in if roles = [] then []
              else menu_get_sidebar (Some (remdups (concat (map (\<lambda>r. map me_id (ri_menus r)) roles)))) db)"

section \<open>Data scopes and data rules\<close>

definition scope_service_create :: "scope_param \<Rightarrow> aworld \<Rightarrow> aworld \<times> unit res" where
  "scope_service_create obj w =
     (if scope_get_by_name (sp_name obj) (adb w) \<noteq> None then (w, Inl (ConflictError msg_scope_exists))
      else (case scope_create obj (adb w) of Inl e \<Rightarrow> (w, Inl e) | Inr db \<Rightarrow> (w\<lparr>adb := db\<rparr>, Inr ())))"

definition scope_service_update :: "int \<Rightarrow> scope_param \<Rightarrow> aworld \<Rightarrow> aworld \<times> int res" where
  "scope_service_update pk obj w =
     (case scope_get pk (adb w) of
        None \<Rightarrow> (w, Inl (NotFoundError msg_scope_missing))
      | Some sc \<Rightarrow>
          if sc_name sc \<noteq> sp_name obj \<and> scope_get_by_name (sp_name obj) (adb w) \<noteq> None
          then (w, Inl (ConflictError msg_scope_exists))
          else (case scope_update pk obj (adb w) of
              Inl e \<Rightarrow> (w, Inl e)
            | Inr db \<Rightarrow> (w\<lparr>adb := db, red := clear_by_data_scope_id [pk] db (red w)\<rparr>,
                          Inr (scope_count [pk] (adb w)))))"

definition update_data_scope_rule :: "int \<Rightarrow> int list \<Rightarrow> aworld \<Rightarrow> aworld \<times> int res" where
  "update_data_scope_rule pk rules w =
     (if scope_get pk (adb w) = None then (w, Inl (NotFoundError msg_scope_missing))
      else if \<not> all_exist rules (rule_ids (adb w)) then (w, Inl (NotFoundError msg_rule_missing))
      else let db = scope_update_rules pk rules (adb w)
           in (w\<lparr>adb := db, red := clear_by_data_scope_id [pk] db (red w)\<rparr>, Inr (int (length rules))))"

definition scope_service_delete :: "int list \<Rightarrow> aworld \<Rightarrow> aworld \<times> int res" where
  "scope_service_delete pks w =
     (let db = scope_delete pks (adb w)
      in (w\<lparr>adb := db, red := clear_by_data_scope_id pks db (red w)\<rparr>, Inr (scope_count pks (adb w))))"

definition rule_service_create :: "rule_param \<Rightarrow> aworld \<Rightarrow> aworld \<times> unit res" where
  "rule_service_create obj w =
     (if rule_get_by_name (lp_name obj) (adb w) \<noteq> None then (w, Inl (ConflictError msg_rule_exists))
      else (case rule_create obj (adb w) of Inl e \<Rightarrow> (w, Inl e) | Inr db \<Rightarrow> (w\<lparr>adb := db\<rparr>, Inr ())))"

definition rule_service_update :: "int \<Rightarrow> rule_param \<Rightarrow> aworld \<Rightarrow> aworld \<times> int res" where
  "rule_service_update pk obj w =
     (case rule_get pk (adb w) of
        None \<Rightarrow> (w, Inl (NotFoundError msg_rule_missing))
      | Some r \<Rightarrow>
          if dr_name r \<noteq> lp_name obj \<and> rule_get_by_name (lp_name obj) (adb w) \<noteq> None
          then (w, Inl (ConflictError msg_rule_exists))
          else (case rule_update pk obj (adb w) of
              Inl e \<Rightarrow> (w, Inl e)
            | Inr db \<Rightarrow> (w\<lparr>adb := db, red := clear_by_data_rule_id [pk] db (red w)\<rparr>,
                          Inr (rule_count [pk] (adb w)))))"

definition rule_service_delete :: "int list \<Rightarrow> aworld \<Rightarrow> aworld \<times> int res" where
  "rule_service_delete pks w =
     (let db = rule_delete pks (adb w)
      in (w\<lparr>adb := db, red := clear_by_data_rule_id pks db (red w)\<rparr>, Inr (rule_count pks (adb w))))"

section \<open>Departments\<close>

text \<open>These operations do not touch the cache.\<close>

definition dept_service_create :: "dept_param \<Rightarrow> aworld \<Rightarrow> aworld \<times> unit res" where
  "dept_service_create obj w =
     (if dept_get_by_name (dp_name obj) (adb w) \<noteq> None then (w, Inl (ConflictError msg_dept_exists))
      else if (case dp_parent_id obj of Some (Some p) \<Rightarrow> dept_get p (adb w) = None | _ \<Rightarrow> False)
      then (w, Inl (NotFoundError msg_parent_dept))
      else (case dept_create obj (adb w) of Inl e \<Rightarrow> (w, Inl e) | Inr db \<Rightarrow> (w\<lparr>adb := db\<rparr>, Inr ())))"

definition dept_count :: "int \<Rightarrow> admin_db \<Rightarrow> int" where
  "dept_count pk db = int (length (filter (\<lambda>d. de_id d = pk \<and> de_deleted d = 0) (a_depts db)))"

definition dept_service_update :: "int \<Rightarrow> dept_param \<Rightarrow> aworld \<Rightarrow> aworld \<times> int res" where
  "dept_service_update pk obj w =
     (case dept_get pk (adb w) of
        None \<Rightarrow> (w, Inl (NotFoundError msg_dept_missing))
      | Some dept \<Rightarrow>
          if de_name dept \<noteq> dp_name obj \<and> dept_get_by_name (dp_name obj) (adb w) \<noteq> None
          then (w, Inl (ConflictError msg_dept_exists))
          else if parent_missing (dp_parent_id obj) (\<lambda>p. dept_get p (adb w) \<noteq> None)
          then (w, Inl (NotFoundError msg_parent_dept))
          else if dp_parent_id obj = Some (Some (de_id dept)) then (w, Inl (ForbiddenError msg_own_parent))
          else (case dept_update pk obj (adb w) of
              Inl e \<Rightarrow> (w, Inl e) | Inr db \<Rightarrow> (w\<lparr>adb := db\<rparr>, Inr (dept_count pk (adb w)))))"

definition dept_service_delete :: "int \<Rightarrow> aworld \<Rightarrow> aworld \<times> int res" where
  "dept_service_delete pk w =
     (if dept_get pk (adb w) = None then (w, Inl (NotFoundError msg_dept_missing))
      else if dept_users pk (adb w) \<noteq> [] then (w, Inl (ConflictError msg_dept_users))
      else if dept_get_children pk (adb w) \<noteq> [] then (w, Inl (ConflictError msg_dept_children))
      else (w\<lparr>adb := dept_delete pk (adb w)\<rparr>, Inr (dept_count pk (adb w))))"

end
