(* ===== verification/Views.thy ===== *)
theory Views
  imports Access
begin

text \<open>
  Which part of the database the description of a user depends on: for each operation of the CRUD
  classes, the users whose description it leaves as it was.
\<close>

section \<open>The description of a user\<close>

text \<open>
  What the cache promises to keep up to date: everything but the time of the last login, which changes
  with every update of the row, and the department, whose operations do not clear the cache.
\<close>

definition view :: "user_info \<Rightarrow> user_info" where
  "view ui = ui\<lparr>ui_last_login_time := None, ui_dept := None\<rparr>"

definition roles_of :: "admin_db \<Rightarrow> int \<Rightarrow> role_info list" where
  "roles_of db pk = map (role_info_of db)
     (filter (\<lambda>r. ro_deleted r = 0 \<and> linked (a_user_role db) pk (ro_id r)) (a_roles db))"

definition user_view :: "user \<Rightarrow> role_info list \<Rightarrow> user_info" where
  "user_view u roles = \<lparr>ui_id = u_id u, ui_uuid = u_uuid u, ui_username = u_username u,
     ui_nickname = u_nickname u, ui_email = u_email u, ui_phone = u_phone u, ui_avatar = u_avatar u,
     ui_status = u_status u, ui_is_superuser = u_is_superuser u, ui_is_staff = u_is_staff u,
     ui_is_multi_login = u_is_multi_login u, ui_last_login_time = None, ui_dept_id = u_dept_id u,
     ui_dept = None, ui_roles = roles\<rparr>"

definition view_of :: "int \<Rightarrow> admin_db \<Rightarrow> user_info option" where
  "view_of pk db = map_option view (get_join pk db)"

lemma view_of_conv: "view_of pk db = map_option (\<lambda>u. user_view u (roles_of db pk)) (get_user pk db)"
  by (cases "get_user pk db")
     (auto simp: view_of_def get_join_def view_def user_info_of_def user_view_def roles_of_def dest: get_user_SomeD)

lemma view_of_cong:
  "get_user pk db' = get_user pk db \<Longrightarrow> roles_of db' pk = roles_of db pk \<Longrightarrow> view_of pk db' = view_of pk db"
  by (simp add: view_of_conv)

text \<open>The links of a database lead to rows that are in it, deleted or not.\<close>

definition ends_in :: "(int \<times> int) list \<Rightarrow> int set \<Rightarrow> bool" where
  "ends_in links ids \<longleftrightarrow> (\<forall>(a, b) \<in> set links. b \<in> ids)"

definition links_ok :: "admin_db \<Rightarrow> bool" where
  "links_ok db \<longleftrightarrow> ends_in (a_user_role db) (ro_id ` set (a_roles db))
     \<and> ends_in (a_role_menu db) (me_id ` set (a_menus db))
     \<and> ends_in (a_role_scope db) (sc_id ` set (a_scopes db))
     \<and> ends_in (a_scope_rule db) (dr_id ` set (a_rules db))"

lemma ends_in_simps [simp]:
  "ends_in [] ids" "ends_in (xs @ ys) ids \<longleftrightarrow> ends_in xs ids \<and> ends_in ys ids"
  "ends_in (map (Pair a) bs) ids \<longleftrightarrow> set bs \<subseteq> ids"
  by (auto simp: ends_in_def)

lemma ends_in_filter: "ends_in links ids \<Longrightarrow> ends_in (filter P links) ids"
  by (auto simp: ends_in_def)

lemma ends_in_mono: "ends_in links ids \<Longrightarrow> ids \<subseteq> ids' \<Longrightarrow> ends_in links ids'"
  by (fastforce simp: ends_in_def)

lemma map_filter_other:
  assumes "\<And>x. x \<in> set xs \<Longrightarrow> P' (g x) = P x" "\<And>x. x \<in> set xs \<Longrightarrow> P x \<Longrightarrow> f' (g x) = f x"
  shows "map f' (filter P' (map g xs)) = map f (filter P xs)"
  using assms by (induction xs) auto

lemmas filter_other = map_filter_other [where f = "\<lambda>x. x" and f' = "\<lambda>x. x", simplified]

lemma not_linked_fresh: "ends_in links (f ` set rows) \<Longrightarrow> \<not> linked links a (fresh_id (map f rows))"
  using fresh_id_not_in [of "map f rows"] by (auto simp: ends_in_def linked_def)

lemma ends_in_relink: "ends_in links ids \<Longrightarrow> set new \<subseteq> ids \<Longrightarrow> ends_in (relink pk new links) ids"
  by (simp add: relink_def ends_in_filter)

lemma linked_relink:
  "linked (relink pk ids links) a b \<longleftrightarrow> (if a = pk then b \<in> set ids else linked links a b)"
  by (auto simp: relink_def linked_def)

section \<open>Changes of users\<close>

lemma update_row_view:
  assumes "pk \<noteq> pk'" "\<And>u. u_id (f u) = u_id u"
  shows "view_of pk' (fst (update_row now pk f db)) = view_of pk' db"
  by (intro view_of_cong get_user_update_other)
     (use assms in \<open>simp_all add: roles_of_def role_info_of_def scope_info_of_def cong: map_cong\<close>)

lemma roles_of_links:
  assumes "a_roles db' = a_roles db" "a_menus db' = a_menus db" "a_scopes db' = a_scopes db"
    "a_rules db' = a_rules db" "a_role_menu db' = a_role_menu db" "a_role_scope db' = a_role_scope db"
    "a_scope_rule db' = a_scope_rule db" "\<And>r. linked (a_user_role db') pk r = linked (a_user_role db) pk r"
  shows "roles_of db' pk = roles_of db pk"
  unfolding roles_of_def role_info_of_def scope_info_of_def assms by (rule refl)

lemma get_user_tables: "a_users db' = a_users db \<Longrightarrow> get_user pk db' = get_user pk db"
  by (simp add: get_user_def)

lemma linked_filter_other:
  "pk \<noteq> pk' \<Longrightarrow> linked (filter (\<lambda>(u, _). u \<noteq> pk) links @ map (Pair pk) ids) pk' r = linked links pk' r"
  "pk \<noteq> pk' \<Longrightarrow> linked (filter (\<lambda>(u, _). u \<noteq> pk) links) pk' r = linked links pk' r"
  by (auto simp: linked_def)

lemma update_user_view:
  assumes "update_user now pk obj db = Inr (db', n)" "pk \<noteq> pk'"
  shows "view_of pk' db' = view_of pk' db"
proof -
  let ?d = "fst (update_row now pk (write_user obj) db)"
  let ?ids = "if up_roles obj = [] then [] else live_role_ids (up_roles obj) ?d"
  have db': "db' = ?d\<lparr>a_user_role := filter (\<lambda>(u, _). u \<noteq> pk) (a_user_role ?d) @ map (Pair pk) ?ids\<rparr>"
    using assms(1) by (simp add: update_user_def Let_def case_prod_beta split: if_splits)
  have "view_of pk' db' = view_of pk' ?d"
    unfolding db' by (intro view_of_cong get_user_tables roles_of_links)
      (simp_all add: linked_filter_other [OF assms(2)])
  also have "\<dots> = view_of pk' db" by (rule update_row_view [OF assms(2)]) (simp add: write_user_def)
  finally show ?thesis .
qed

lemma delete_user_view:
  assumes "pk \<noteq> pk'"
  shows "view_of pk' (fst (delete_user now pk db)) = view_of pk' db"
proof -
  have "view_of pk' (fst (delete_user now pk db))
    = view_of pk' (db\<lparr>a_user_role := filter (\<lambda>(u, _). u \<noteq> pk) (a_user_role db)\<rparr>)"
    unfolding delete_user_def by (rule update_row_view [OF assms]) simp
  also have "\<dots> = view_of pk' db"
    by (intro view_of_cong get_user_tables roles_of_links) (simp_all add: linked_filter_other [OF assms])
  finally show ?thesis .
qed

lemma update_login_time_view: "view_of pk (update_login_time now name db) = view_of pk db"
proof -
  have "get_user pk (update_login_time now name db)
    = map_option (\<lambda>u. if u_username u = name \<and> u_deleted u = 0 then u\<lparr>u_last_login_time := Some now\<rparr> else u)
        (get_user pk db)"
    unfolding get_user_def update_login_time_def by (simp, rule find_map_conv) auto
  moreover have "roles_of (update_login_time now name db) pk = roles_of db pk"
    by (rule roles_of_links) (simp_all add: update_login_time_def)
  ultimately show ?thesis
    by (cases "get_user pk db") (auto simp: view_of_conv user_view_def)
qed

lemma find_append_Some: "find P xs = Some x \<Longrightarrow> find P (xs @ ys) = Some x"
  by (induction xs) auto

lemma add_user_view:
  assumes "add_user now uuid hashed obj db = Inr db'" "get_user pk db \<noteq> None"
  shows "view_of pk db' = view_of pk db"
proof -
  obtain u where u: "get_user pk db = Some u" using assms(2) by auto
  have new: "pk \<noteq> fresh_id (map u_id (a_users db))"
  proof -
    have "pk \<in> set (map u_id (a_users db))" using get_user_SomeD [OF u] by force
    then show ?thesis using fresh_id_not_in by metis
  qed
  let ?ids = "if au_roles obj = [] then [] else live_role_ids (au_roles obj) db"
  have db': "db' = db\<lparr>a_users := a_users db @ [new_user now uuid hashed obj db],
      a_user_role := a_user_role db @ map (Pair (fresh_id (map u_id (a_users db)))) ?ids\<rparr>"
    using assms(1) by (simp add: add_user_def Let_def new_user_def split: if_splits)
  show ?thesis
    by (intro view_of_cong roles_of_links)
       (use u new find_append_Some [OF u [unfolded get_user_def]] in \<open>auto simp: db' get_user_def linked_def\<close>)
qed

section \<open>Changes of roles\<close>

lemma role_info_cong:
  assumes "a_menus db' = a_menus db" "a_scopes db' = a_scopes db" "a_rules db' = a_rules db"
    "\<And>m. linked (a_role_menu db') (ro_id ro) m = linked (a_role_menu db) (ro_id ro) m"
    "\<And>s. linked (a_role_scope db') (ro_id ro) s = linked (a_role_scope db) (ro_id ro) s"
    "a_scope_rule db' = a_scope_rule db"
  shows "role_info_of db' ro = role_info_of db ro"
  using assms by (simp add: role_info_of_def scope_info_of_def)

lemma roles_of_cong:
  assumes "a_user_role db' = a_user_role db" "a_roles db' = map g (a_roles db)"
    "\<And>r. r \<in> set (a_roles db) \<Longrightarrow> ro_id (g r) = ro_id r"
    "\<And>r. r \<in> set (a_roles db) \<Longrightarrow> linked (a_user_role db) pk (ro_id r) \<Longrightarrow>
       g r = r \<and> role_info_of db' r = role_info_of db r"
  shows "roles_of db' pk = roles_of db pk"
  unfolding roles_of_def assms(1,2)
  by (rule map_filter_other) (use assms(3,4) in \<open>auto simp: list.rel_eq\<close>)

lemma roles_of_same_roles:
  assumes "a_user_role db' = a_user_role db" "a_roles db' = a_roles db"
    "\<And>r. r \<in> set (a_roles db) \<Longrightarrow> linked (a_user_role db) pk (ro_id r) \<Longrightarrow> role_info_of db' r = role_info_of db r"
  shows "roles_of db' pk = roles_of db pk"
  by (rule roles_of_cong [where g = "\<lambda>r. r"]) (use assms in auto)

lemma role_rows_view:
  assumes "\<And>r. g r \<noteq> r \<Longrightarrow> ro_id r \<in> set ids" "\<And>r. ro_id (g r) = ro_id r"
    "pk \<notin> set (users_of_roles ids db)"
  shows "view_of pk (db\<lparr>a_roles := map g (a_roles db)\<rparr>) = view_of pk db"
proof (intro view_of_cong get_user_tables roles_of_cong [where g = g])
  fix r :: role
  assume "linked (a_user_role db) pk (ro_id r)"
  then have "g r = r" using assms(1,3) set_users_of_roles by blast
  then show "g r = r \<and> role_info_of (db\<lparr>a_roles := map g (a_roles db)\<rparr>) r = role_info_of db r"
    by (simp add: role_info_of_def scope_info_of_def)
qed (simp_all add: assms(2))

lemma role_append_view:
  assumes "links_ok db" "ro_id x = fresh_id (map ro_id (a_roles db))"
  shows "view_of pk (db\<lparr>a_roles := a_roles db @ [x]\<rparr>) = view_of pk db"
proof -
  have "\<not> linked (a_user_role db) pk (ro_id x)"
    using assms by (simp add: links_ok_def not_linked_fresh)
  then show ?thesis
    by (intro view_of_cong get_user_tables) (simp_all add: roles_of_def role_info_of_def scope_info_of_def)
qed

lemma role_links_view:
  assumes "pk \<notin> set (users_of_roles [rid] db)"
  shows "view_of pk (db\<lparr>a_role_menu := relink rid ids (a_role_menu db)\<rparr>) = view_of pk db"
    "view_of pk (db\<lparr>a_role_scope := relink rid ids (a_role_scope db)\<rparr>) = view_of pk db"
proof -
  have other: "ro_id r \<noteq> rid" if "linked (a_user_role db) pk (ro_id r)" for r :: role
    using that assms set_users_of_roles by fastforce
  show "view_of pk (db\<lparr>a_role_menu := relink rid ids (a_role_menu db)\<rparr>) = view_of pk db"
    "view_of pk (db\<lparr>a_role_scope := relink rid ids (a_role_scope db)\<rparr>) = view_of pk db"
    by (intro view_of_cong get_user_tables roles_of_same_roles role_info_cong;
        simp add: linked_relink other)+
qed

section \<open>Changes of menus, data scopes and data rules\<close>

lemma not_sources:
  assumes "pk \<notin> set (users_of_roles (sources links ids) db)" "linked (a_user_role db) pk r" "b \<in> set ids"
  shows "\<not> linked links r b"
  using assms set_users_of_roles set_sources by blast

lemma menu_rows_view:
  assumes "\<And>m. g m \<noteq> m \<Longrightarrow> me_id m \<in> set ids" "\<And>m. me_id (g m) = me_id m"
    "pk \<notin> set (users_of_roles (sources (a_role_menu db) ids) db)"
  shows "view_of pk (db\<lparr>a_menus := map g (a_menus db)\<rparr>) = view_of pk db"
proof (intro view_of_cong get_user_tables roles_of_same_roles)
  fix r :: role
  assume l: "linked (a_user_role db) pk (ro_id r)"
  have g: "g m = m" if "linked (a_role_menu db) (ro_id r) (me_id m)" for m :: menu
    using assms(1) not_sources [OF assms(3) l] that by blast
  have "filter (\<lambda>m. me_deleted m = 0 \<and> linked (a_role_menu db) (ro_id r) (me_id m)) (map g (a_menus db))
    = filter (\<lambda>m. me_deleted m = 0 \<and> linked (a_role_menu db) (ro_id r) (me_id m)) (a_menus db)"
    by (rule filter_other) (use g assms(2) in force)+
  then show "role_info_of (db\<lparr>a_menus := map g (a_menus db)\<rparr>) r = role_info_of db r"
    by (simp add: role_info_of_def scope_info_of_def)
qed simp_all

lemma menu_append_view:
  assumes "links_ok db" "me_id x = fresh_id (map me_id (a_menus db))"
  shows "view_of pk (db\<lparr>a_menus := a_menus db @ [x]\<rparr>) = view_of pk db"
proof -
  have "\<not> linked (a_role_menu db) r (me_id x)" for r
    using assms by (simp add: links_ok_def not_linked_fresh)
  then show ?thesis
    by (intro view_of_cong get_user_tables) (simp_all add: roles_of_def role_info_of_def scope_info_of_def)
qed

lemma scope_info_links: "scope_info_of (db\<lparr>a_scopes := ss\<rparr>) = scope_info_of db"
  by (simp add: scope_info_of_def fun_eq_iff)

lemma scope_rows_view:
  assumes "\<And>s. g s \<noteq> s \<Longrightarrow> sc_id s \<in> set ids" "\<And>s. sc_id (g s) = sc_id s"
    "pk \<notin> set (users_of_roles (sources (a_role_scope db) ids) db)"
  shows "view_of pk (db\<lparr>a_scopes := map g (a_scopes db)\<rparr>) = view_of pk db"
proof (intro view_of_cong get_user_tables roles_of_same_roles)
  fix r :: role
  assume l: "linked (a_user_role db) pk (ro_id r)"
  have g: "g s = s" if "linked (a_role_scope db) (ro_id r) (sc_id s)" for s :: data_scope
    using assms(1) not_sources [OF assms(3) l] that by blast
  have "filter (\<lambda>s. sc_deleted s = 0 \<and> linked (a_role_scope db) (ro_id r) (sc_id s)) (map g (a_scopes db))
    = filter (\<lambda>s. sc_deleted s = 0 \<and> linked (a_role_scope db) (ro_id r) (sc_id s)) (a_scopes db)"
    by (rule filter_other) (use g assms(2) in force)+
  then show "role_info_of (db\<lparr>a_scopes := map g (a_scopes db)\<rparr>) r = role_info_of db r"
    by (simp add: role_info_of_def scope_info_links)
qed simp_all

lemma scope_append_view:
  assumes "links_ok db" "sc_id x = fresh_id (map sc_id (a_scopes db))"
  shows "view_of pk (db\<lparr>a_scopes := a_scopes db @ [x]\<rparr>) = view_of pk db"
proof -
  have "\<not> linked (a_role_scope db) r (sc_id x)" for r
    using assms by (simp add: links_ok_def not_linked_fresh)
  then show ?thesis
    by (intro view_of_cong get_user_tables) (simp_all add: roles_of_def role_info_of_def scope_info_links)
qed

text \<open>What lies below the scopes of a role.\<close>

lemma scopes_view:
  assumes "\<And>sc r. linked (a_user_role db) pk r \<Longrightarrow> linked (a_role_scope db) r (sc_id sc) \<Longrightarrow>
      scope_info_of db' sc = scope_info_of db sc"
    "a_users db' = a_users db" "a_roles db' = a_roles db" "a_menus db' = a_menus db" "a_scopes db' = a_scopes db"
    "a_user_role db' = a_user_role db" "a_role_menu db' = a_role_menu db" "a_role_scope db' = a_role_scope db"
  shows "view_of pk db' = view_of pk db"
proof (intro view_of_cong get_user_tables roles_of_same_roles)
  fix r :: role
  assume l: "linked (a_user_role db) pk (ro_id r)"
  have "map (scope_info_of db') (filter (\<lambda>s. sc_deleted s = 0 \<and> linked (a_role_scope db) (ro_id r) (sc_id s)) (a_scopes db))
    = map (scope_info_of db) (filter (\<lambda>s. sc_deleted s = 0 \<and> linked (a_role_scope db) (ro_id r) (sc_id s)) (a_scopes db))"
    using assms(1) [OF l] by auto
  then show "role_info_of db' r = role_info_of db r" using assms by (simp add: role_info_of_def)
qed (use assms in simp_all)

lemma scope_links_view:
  assumes "pk \<notin> set (users_of_roles (sources (a_role_scope db) [sid]) db)"
  shows "view_of pk (db\<lparr>a_scope_rule := relink sid ids (a_scope_rule db)\<rparr>) = view_of pk db"
proof (rule scopes_view)
  fix sc :: data_scope and r :: int
  assume "linked (a_user_role db) pk r" "linked (a_role_scope db) r (sc_id sc)"
  then have "sc_id sc \<noteq> sid" using not_sources [OF assms, of r sid] by auto
  then show "scope_info_of (db\<lparr>a_scope_rule := relink sid ids (a_scope_rule db)\<rparr>) sc = scope_info_of db sc"
    by (simp add: scope_info_of_def linked_relink)
qed simp_all

lemma rule_rows_view:
  assumes "\<And>r. g r \<noteq> r \<Longrightarrow> dr_id r \<in> set ids" "\<And>r. dr_id (g r) = dr_id r"
    "pk \<notin> set (users_of_roles (sources (a_role_scope db) (sources (a_scope_rule db) ids)) db)"
  shows "view_of pk (db\<lparr>a_rules := map g (a_rules db)\<rparr>) = view_of pk db"
proof (rule scopes_view)
  fix sc :: data_scope and r :: int
  assume l: "linked (a_user_role db) pk r" "linked (a_role_scope db) r (sc_id sc)"
  have g: "g x = x" if "linked (a_scope_rule db) (sc_id sc) (dr_id x)" for x :: data_rule
    using assms(1) not_sources [OF assms(3) l(1)] l(2) that set_sources by metis
  have "filter (\<lambda>x. dr_deleted x = 0 \<and> linked (a_scope_rule db) (sc_id sc) (dr_id x)) (map g (a_rules db))
    = filter (\<lambda>x. dr_deleted x = 0 \<and> linked (a_scope_rule db) (sc_id sc) (dr_id x)) (a_rules db)"
    by (rule filter_other) (use g assms(2) in force)+
  then show "scope_info_of (db\<lparr>a_rules := map g (a_rules db)\<rparr>) sc = scope_info_of db sc"
    by (simp add: scope_info_of_def)
qed simp_all

lemma rule_append_view:
  assumes "links_ok db" "dr_id x = fresh_id (map dr_id (a_rules db))"
  shows "view_of pk (db\<lparr>a_rules := a_rules db @ [x]\<rparr>) = view_of pk db"
proof (rule scopes_view)
  fix sc :: data_scope and r :: int
  have "\<not> linked (a_scope_rule db) (sc_id sc) (dr_id x)"
    using assms by (simp add: links_ok_def not_linked_fresh)
  then show "scope_info_of (db\<lparr>a_rules := a_rules db @ [x]\<rparr>) sc = scope_info_of db sc"
    by (simp add: scope_info_of_def)
qed simp_all

lemma dept_view: "view_of pk (db\<lparr>a_depts := ds\<rparr>) = view_of pk db"
  by (intro view_of_cong get_user_tables roles_of_same_roles role_info_cong) simp_all

end
