(* ===== verification/AdminWorld.thy ===== *)
theory AdminWorld
  imports Views
begin

text \<open>
  The accounts and permissions as a state machine: requests act in any order on the database and on
  Redis while time goes on. A request is one step; its transaction is rolled back when it ends in an
  exception. What it does to cached descriptions: those that stay are of views that did not change. Only the
  deletion of a menu leaves all of them as they were.
\<close>

section \<open>Steps\<close>

text \<open>
  A step carries what the request brings: the token or header, the parameters, the new session id, uuid
  or salt, and for \<open>update_permission\<close> the user of the request. \<open>Captcha\<close> and \<open>EmailCaptcha\<close> store a code.
\<close>

datatype aaction =
    Authenticate ustr
  | SwaggerLogin ustr ustr ustr
  | Login ustr ustr client login_param
  | Refresh ustr client "ustr option"
  | Logout "ustr option" "ustr option"
  | Kick int ustr
  | Captcha ustr ustr int
  | EmailCaptcha ustr ustr int
  | UserCreate ustr ustr add_user_param
  | UserUpdate int update_user_param
  | UserPermission "ustr option" user_info int permission_type
  | UserResetPassword ustr int ustr
  | UserUpdatePassword ustr int reset_password_param
  | UserNickname int ustr
  | UserAvatar int ustr
  | UserEmail ustr int ustr ustr
  | UserDelete int
  | RoleCreate role_param
  | RoleUpdate int role_param
  | RoleMenus int "int list"
  | RoleScopes int "int list"
  | RoleDelete "int list"
  | MenuCreate menu_param
  | MenuUpdate int menu_param
  | MenuDelete int
  | ScopeCreate scope_param
  | ScopeUpdate int scope_param
  | ScopeRules int "int list"
  | ScopeDelete "int list"
  | RuleCreate rule_param
  | RuleUpdate int rule_param
  | RuleDelete "int list"
  | DeptCreate dept_param
  | DeptUpdate int dept_param
  | DeptDelete int

definition run :: "(aworld \<Rightarrow> aworld \<times> 'a res) \<Rightarrow> aworld \<Rightarrow> aworld" where
  "run f w = fst (transaction f w)"

fun aperform :: "auth_deps \<Rightarrow> auth_settings \<Rightarrow> int \<Rightarrow> aaction \<Rightarrow> aworld \<Rightarrow> aworld" where
  "aperform D S now (Authenticate token) = run (jwt_authentication D S now token)"
| "aperform D S now (SwaggerLogin sid name pw) = run (swagger_login D S now sid name pw)"
| "aperform D S now (Login sid uuid cl obj) = (\<lambda>w. fst (login D S now sid uuid cl obj w))"
| "aperform D S now (Refresh sid cl cookie) = run (refresh_session D S now sid cl cookie)"
| "aperform D S now (Logout auth cookie) = run (on_redis (logout D now auth cookie))"
| "aperform D S now (Kick u sid) = (\<lambda>w. w\<lparr>red := revoke_token u sid (red w)\<rparr>)"
| "aperform D S now (Captcha uuid code ex) = (\<lambda>w. w\<lparr>red := r_set now (captcha_key uuid) code (Some ex) (red w)\<rparr>)"
| "aperform D S now (EmailCaptcha ip code ex) =
     (\<lambda>w. w\<lparr>red := r_set now (email_captcha_key ip) code (Some ex) (red w)\<rparr>)"
| "aperform D S now (UserCreate uuid salt obj) = run (user_create D now uuid salt obj)"
| "aperform D S now (UserUpdate pk obj) = run (user_update now pk obj)"
| "aperform D S now (UserPermission auth user pk typ) = run (update_permission D now auth user pk typ)"
| "aperform D S now (UserResetPassword salt pk pw) = run (user_reset_password D S now salt pk pw)"
| "aperform D S now (UserUpdatePassword salt pk obj) = run (user_update_password D S now salt pk obj)"
| "aperform D S now (UserNickname pk s) = run (user_update_nickname now pk s)"
| "aperform D S now (UserAvatar pk s) = run (user_update_avatar now pk s)"
| "aperform D S now (UserEmail ip pk code email) = run (user_update_email D now ip pk code email)"
| "aperform D S now (UserDelete pk) = run (user_delete now pk)"
| "aperform D S now (RoleCreate obj) = run (role_service_create obj)"
| "aperform D S now (RoleUpdate pk obj) = run (role_service_update pk obj)"
| "aperform D S now (RoleMenus pk ids) = run (update_role_menu pk ids)"
| "aperform D S now (RoleScopes pk ids) = run (update_role_scope pk ids)"
| "aperform D S now (RoleDelete pks) = run (role_service_delete pks)"
| "aperform D S now (MenuCreate obj) = run (menu_service_create obj)"
| "aperform D S now (MenuUpdate pk obj) = run (menu_service_update pk obj)"
| "aperform D S now (MenuDelete pk) = run (menu_service_delete pk)"
| "aperform D S now (ScopeCreate obj) = run (scope_service_create obj)"
| "aperform D S now (ScopeUpdate pk obj) = run (scope_service_update pk obj)"
| "aperform D S now (ScopeRules pk ids) = run (update_data_scope_rule pk ids)"
| "aperform D S now (ScopeDelete pks) = run (scope_service_delete pks)"
| "aperform D S now (RuleCreate obj) = run (rule_service_create obj)"
| "aperform D S now (RuleUpdate pk obj) = run (rule_service_update pk obj)"
| "aperform D S now (RuleDelete pks) = run (rule_service_delete pks)"
| "aperform D S now (DeptCreate obj) = run (dept_service_create obj)"
| "aperform D S now (DeptUpdate pk obj) = run (dept_service_update pk obj)"
| "aperform D S now (DeptDelete pk) = run (dept_service_delete pk)"

text \<open>All requests but the deletion of a menu.\<close>

definition keeps_menus :: "aaction \<Rightarrow> bool" where
  "keeps_menus a = (case a of MenuDelete _ \<Rightarrow> False | _ \<Rightarrow> True)"

section \<open>Up-to-date descriptions\<close>

text \<open>A user who may act: enabled, and not with disabled roles only.\<close>

definition active :: "user_info \<Rightarrow> bool" where
  "active ui \<longleftrightarrow> ui_status ui \<noteq> 0 \<and> (ui_roles ui = [] \<or> list_ex (\<lambda>r. ro_status (ri_role r) \<noteq> 0) (ui_roles ui))"

text \<open>A description that is still cached afterwards was cached before, and is that of the same view.\<close>

definition step_ok :: "int \<Rightarrow> aworld \<Rightarrow> aworld \<Rightarrow> bool" where
  "step_ok now w w' \<longleftrightarrow> links_ok (adb w') \<and>
     (\<forall>pk v. r_get now (user_key pk) (red w') = Some v \<longrightarrow> r_get now (user_key pk) (red w) = Some v
        \<and> (view_of pk (adb w) \<noteq> None \<longrightarrow> view_of pk (adb w') = view_of pk (adb w)))"

lemma step_ok_run:
  assumes "links_ok (adb w)" "\<And>w' x. f w = (w', Inr x) \<Longrightarrow> step_ok now w w'"
    "\<And>w' e pk v. f w = (w', Inl e) \<Longrightarrow> r_get now (user_key pk) (red w') = Some v \<Longrightarrow>
       r_get now (user_key pk) (red w) = Some v"
  shows "step_ok now w (run f w)"
proof -
  obtain w' r where f: "f w = (w', r)" by fastforce
  show ?thesis
  proof (cases r)
    case (Inl e)
    then show ?thesis using assms(1,3) by (simp add: run_def transaction_def step_ok_def f)
  next
    case (Inr x)
    then show ?thesis using assms(2) by (simp add: run_def transaction_def f)
  qed
qed

lemma step_ok_refl: "links_ok (adb w) \<Longrightarrow> step_ok now w w"
  by (simp add: step_ok_def)

text \<open>The steps that do not touch what descriptions are made of.\<close>

lemma step_ok_sessions:
  assumes "links_ok (adb w)" "\<And>pk. view_of pk (adb w') = view_of pk (adb w)" "links_ok (adb w')"
    "\<And>pk. r_get now (user_key pk) (red w') = r_get now (user_key pk) (red w)"
  shows "step_ok now w w'"
  using assms by (simp add: step_ok_def)

lemma step_ok_uncached:
  assumes "links_ok db'" "\<And>pk. r_get now (user_key pk) st \<noteq> None \<Longrightarrow> r_get now (user_key pk) st = r_get now (user_key pk) (red w)
      \<and> (view_of pk (adb w) \<noteq> None \<longrightarrow> view_of pk db' = view_of pk (adb w))"
  shows "step_ok now w (w\<lparr>adb := db', red := st\<rparr>)"
  using assms by (auto simp: step_ok_def)

lemma links_ok_cong:
  assumes "links_ok db" "a_user_role db' = a_user_role db" "a_role_menu db' = a_role_menu db"
    "a_role_scope db' = a_role_scope db" "a_scope_rule db' = a_scope_rule db"
    "ro_id ` set (a_roles db) \<subseteq> ro_id ` set (a_roles db')" "me_id ` set (a_menus db) \<subseteq> me_id ` set (a_menus db')"
    "sc_id ` set (a_scopes db) \<subseteq> sc_id ` set (a_scopes db')" "dr_id ` set (a_rules db) \<subseteq> dr_id ` set (a_rules db')"
  shows "links_ok db'"
  using assms(1,6-9) unfolding links_ok_def assms(2-5)
  by (elim conjE) (intro conjI; erule ends_in_mono; assumption)

lemma links_ok_update_row: "links_ok (fst (update_row now pk f db)) = links_ok db"
  by (simp add: links_ok_def)

end
