(* ===== verification/AdminMoves.thy ===== *)
theory AdminMoves
  imports AdminWorld
begin

text \<open>Each operation, one by one: what is still cached after it is up to date.\<close>

section \<open>Accounts\<close>

lemma r_get_end_sessions:
  assumes "now \<le> t"
  shows "r_get t (user_key u) (end_sessions now pk st) = (if u = pk then None else r_get t (user_key u) st)"
    "r_get t (token_key u s) (end_sessions now pk st) = (if u = pk then None else r_get t (token_key u s) st)"
    "r_get t (refresh_key u s) (end_sessions now pk st) = (if u = pk then None else r_get t (refresh_key u s) st)"
  using below_user(1) [of pk "user_key u"]
  by (auto simp: end_sessions_def delete_by_prefix_get [OF assms] below_user)

lemma step_ok_row:
  assumes "links_ok (adb w)" "\<And>u. u_id (f u) = u_id u"
    "\<And>pk'. r_get now (user_key pk') st = (if pk' = pk then None else r_get now (user_key pk') (red w))"
  shows "step_ok now w (w\<lparr>adb := fst (update_row now pk f (adb w)), red := st\<rparr>)"
proof (rule step_ok_uncached)
  fix pk'
  assume "r_get now (user_key pk') st \<noteq> None"
  then have "pk' \<noteq> pk" using assms(3) by auto
  then show "r_get now (user_key pk') st = r_get now (user_key pk') (red w) \<and> (view_of pk' (adb w) \<noteq> None \<longrightarrow>
      view_of pk' (fst (update_row now pk f (adb w))) = view_of pk' (adb w))"
    using assms(2,3) update_row_view [of pk pk' f] by simp
qed (simp add: links_ok_update_row assms(1))

lemma live_role_ids_sub: "set (live_role_ids ids db) \<subseteq> ro_id ` set (a_roles db)"
  by (auto simp: live_role_ids_def)

lemma add_user_links: "add_user now uuid h obj db = Inr db' \<Longrightarrow> links_ok db \<Longrightarrow> links_ok db'"
  using live_role_ids_sub [of "au_roles obj" db]
  by (auto simp: add_user_def Let_def links_ok_def split: if_splits)

lemma update_user_links: "update_user now pk obj db = Inr (db', n) \<Longrightarrow> links_ok db \<Longrightarrow> links_ok db'"
  using live_role_ids_sub [of "up_roles obj" "fst (update_row now pk (write_user obj) db)"]
  by (auto simp: update_user_def Let_def case_prod_beta links_ok_def ends_in_filter split: if_splits)

lemma add_user_keeps_view:
  "add_user now uuid h obj db = Inr db' \<Longrightarrow> view_of pk db = Some ui \<Longrightarrow> view_of pk db' = Some ui"
  using add_user_view [of now uuid h obj db db' pk] by (auto simp: view_of_conv)

lemma user_create_ok:
  assumes "links_ok (adb w)"
  shows "step_ok now w (run (user_create D now uuid salt obj) w)"
  by (rule step_ok_run [OF assms])
     (auto simp: user_create_def step_ok_def assms add_user_links [OF _ assms] add_user_keeps_view
       split: if_splits sum.splits)

lemma user_update_ok:
  assumes "links_ok (adb w)"
  shows "step_ok now w (run (user_update now pk obj) w)"
proof (rule step_ok_run [OF assms])
  fix w' x
  assume "user_update now pk obj w = (w', Inr x)"
  then obtain u db where j: "get_join pk (adb w) = Some u" and db: "update_user now (ui_id u) obj (adb w) = Inr (db, x)"
    and w': "w' = w\<lparr>adb := db, red := r_delete (user_key (ui_id u)) (red w)\<rparr>"
    by (auto simp: user_update_def split: option.splits if_splits sum.splits)
  show "step_ok now w w'"
    unfolding w' by (rule step_ok_uncached)
      (use update_user_links [OF db assms] update_user_view [OF db] in \<open>auto simp: r_get_delete\<close>)
qed (auto simp: user_update_def split: option.splits if_splits sum.splits)

lemma user_fields_ok:
  assumes "links_ok (adb w)"
  shows "step_ok now w (run (user_update_nickname now pk s) w)" "step_ok now w (run (user_update_avatar now pk s) w)"
  by (rule step_ok_run [OF assms];
      force simp: user_update_nickname_def user_update_avatar_def update_nickname_def update_avatar_def
        case_prod_beta r_get_delete intro!: step_ok_row assms)+

lemma user_update_email_ok:
  assumes "links_ok (adb w)"
  shows "step_ok now w (run (user_update_email D now ip pk code email) w)"
proof (rule step_ok_run [OF assms])
  fix w' x
  assume "user_update_email D now ip pk code email w = (w', Inr x)"
  then have "w' = w\<lparr>adb := fst (update_row now pk (u_email_update (\<lambda>_. Some email)) (adb w)),
      red := r_delete (user_key pk) (r_delete (email_captcha_key ip) (red w))\<rparr>"
    by (auto simp: user_update_email_def update_email_def Let_def case_prod_beta split: option.splits list.splits if_splits sum.splits)
  then show "step_ok now w w'" by (auto simp: r_get_delete intro!: step_ok_row assms)
qed (auto simp: user_update_email_def Let_def case_prod_beta r_get_delete split: option.splits list.splits if_splits sum.splits)

lemma toggle_ok:
  assumes "links_ok (adb w)" "\<And>u. u_id (f u) = u_id u" "toggle (update_row now pk f) user pk w = (w', Inr x)"
  shows "step_ok now w (w'\<lparr>red := r_delete (user_key pk) (red w')\<rparr>)"
proof -
  have "w' = w\<lparr>adb := fst (update_row now pk f (adb w))\<rparr>"
    using assms(3) by (auto simp: toggle_def split: if_splits prod.splits)
  then show ?thesis
    using step_ok_row [OF assms(1,2), of now "r_delete (user_key pk) (red w)" pk] by (simp add: r_get_delete)
qed

lemma sbind_Inr: "sbind m f = (s, Inr y) \<longleftrightarrow> (\<exists>s' x. m = (s', Inr x) \<and> f x s' = (s, Inr y))"
  by (cases m; cases "snd m") auto

lemma sbind_Inl:
  "sbind m f = (s, Inl e) \<longleftrightarrow> m = (s, Inl e) \<or> (\<exists>s' x. m = (s', Inr x) \<and> f x s' = (s, Inl e))"
  by (cases m; cases "snd m") auto

lemma toggle_multi_login_ok:
  assumes "links_ok (adb w)" "u_id u = pk" "toggle_multi_login D now auth user pk u w = (w', Inr x)"
  shows "step_ok now w (w'\<lparr>red := r_delete (user_key pk) (red w')\<rparr>)"
proof -
  let ?flag = "\<not> ui_is_multi_login user"
  define st where "st = red w'"
  have w': "w' = w\<lparr>adb := fst (update_row now pk (u_is_multi_login_update (\<lambda>_. ?flag)) (adb w)), red := st\<rparr>"
    and st: "st = red w \<or> st = delete_by_prefix now (TOKEN_REDIS_PREFIX pk)
      (Exclude_key (token_key pk (tp_session_uuid (projr (rbind (get_token D auth) (jwt_decode D now)))))) 1000 (red w)"
    using assms(2,3) by (auto simp: st_def toggle_multi_login_def Let_def case_prod_beta set_multi_login_def split: sum.splits if_splits)
  have "r_get now (user_key pk') (r_delete (user_key pk) st) = (if pk' = pk then None else r_get now (user_key pk') (red w))" for pk'
    using st by (auto simp: r_get_delete delete_by_prefix_get)
  from step_ok_row [OF assms(1) _ this, of "u_is_multi_login_update (\<lambda>_. ?flag)"] show ?thesis by (simp add: w')
qed

lemma update_permission_ok:
  assumes "links_ok (adb w)"
  shows "step_ok now w (run (update_permission D now auth user pk kind) w)"
proof (rule step_ok_run [OF assms])
  fix w' x
  assume "update_permission D now auth user pk kind w = (w', Inr x)"
  then obtain u w1 y where u: "get_user pk (adb w) = Some u" "u_id u = pk"
    and m: "(case kind of Perm_superuser \<Rightarrow> toggle (set_super now pk (\<not> u_is_superuser u)) user pk w
            | Perm_staff \<Rightarrow> toggle (set_staff now pk (\<not> u_is_staff u)) user pk w
            | Perm_status \<Rightarrow> toggle (set_status now pk (if u_status u = 1 then 0 else 1)) user pk w
            | Perm_multi_login \<Rightarrow> toggle_multi_login D now auth user pk u w) = (w1, Inr y)"
    and w': "w' = w1\<lparr>red := r_delete (user_key pk) (red w1)\<rparr>"
    by (auto simp: update_permission_def sbind_Inr dest: get_user_SomeD split: option.splits)
  show "step_ok now w w'"
    unfolding w'
  proof (cases kind)
    case Perm_superuser
    then show "step_ok now w (w1\<lparr>red := r_delete (user_key pk) (red w1)\<rparr>)"
      using m toggle_ok [OF assms, of "u_is_superuser_update (\<lambda>_. \<not> u_is_superuser u)"] by (simp add: set_super_def)
  next
    case Perm_staff
    then show "step_ok now w (w1\<lparr>red := r_delete (user_key pk) (red w1)\<rparr>)"
      using m toggle_ok [OF assms, of "u_is_staff_update (\<lambda>_. \<not> u_is_staff u)"] by (simp add: set_staff_def)
  next
    case Perm_status
    then show "step_ok now w (w1\<lparr>red := r_delete (user_key pk) (red w1)\<rparr>)"
      using m toggle_ok [OF assms, of "u_status_update (\<lambda>_. if u_status u = 1 then 0 else 1)"]
      by (simp only: set_status_def permission_type.case) simp
  next
    case Perm_multi_login
    then show "step_ok now w (w1\<lparr>red := r_delete (user_key pk) (red w1)\<rparr>)"
      using m toggle_multi_login_ok [OF assms u(2)] by simp
  qed
next
  fix w' e pk' v
  assume "update_permission D now auth user pk kind w = (w', Inl e)" "r_get now (user_key pk') (red w') = Some v"
  then show "r_get now (user_key pk') (red w) = Some v"
    by (auto simp: update_permission_def toggle_def toggle_multi_login_def Let_def case_prod_beta sbind_Inl
      split: option.splits permission_type.splits if_splits sum.splits)
qed

lemma change_password_ok:
  assumes "links_ok (adb w)" "change_password D S now salt user pw w = (w', Inr x)"
  shows "step_ok now w w'"
proof -
  let ?h = "d_hash D pw salt"
  obtain kept where w': "w' = w\<lparr>adb := fst (update_password_changed_time now (u_id user) (create_history (u_id user) kept
        (fst (reset_password now (u_id user) ?h (adb w))))), red := end_sessions now (u_id user) (red w)\<rparr>"
    using assms(2) by (auto simp: change_password_def Let_def case_prod_beta split: sum.splits option.splits)
  show ?thesis
    unfolding w'
  proof (rule step_ok_uncached)
    show "links_ok (fst (update_password_changed_time now (u_id user) (create_history (u_id user) kept
        (fst (reset_password now (u_id user) ?h (adb w))))))"
      using assms(1) by (simp add: update_password_changed_time_def reset_password_def links_ok_def create_history_def)
    fix pk
    assume "r_get now (user_key pk) (end_sessions now (u_id user) (red w)) \<noteq> None"
    then have pk: "u_id user \<noteq> pk" by (auto simp: r_get_end_sessions)
    have h: "view_of pk (create_history (u_id user) kept db) = view_of pk db" for db
      by (rule view_of_cong) (simp_all add: create_history_def get_user_def roles_of_def role_info_of_def scope_info_of_def)
    show "r_get now (user_key pk) (end_sessions now (u_id user) (red w)) = r_get now (user_key pk) (red w) \<and>
      (view_of pk (adb w) \<noteq> None \<longrightarrow> view_of pk (fst (update_password_changed_time now (u_id user)
        (create_history (u_id user) kept (fst (reset_password now (u_id user) ?h (adb w)))))) = view_of pk (adb w))"
      using pk by (simp add: r_get_end_sessions update_password_changed_time_def reset_password_def
          update_row_view [OF pk] h)
  qed
qed

lemma change_password_Inl:
  assumes "change_password D S now salt user pw w = (w', Inl e)"
  shows "red w' = red w"
  using assms by (auto simp: change_password_def Let_def case_prod_beta split: sum.splits option.splits)

lemma user_passwords_ok:
  assumes "links_ok (adb w)"
  shows "step_ok now w (run (user_reset_password D S now salt pk pw) w)"
    "step_ok now w (run (user_update_password D S now salt pk obj) w)"
  by (rule step_ok_run [OF assms];
      auto simp: user_reset_password_def user_update_password_def step_ok_refl [OF assms]
        dest!: change_password_Inl intro: change_password_ok [OF assms] split: option.splits if_splits)+

lemma user_delete_ok:
  assumes "links_ok (adb w)"
  shows "step_ok now w (run (user_delete now pk) w)"
proof (rule step_ok_run [OF assms])
  fix w' x
  assume "user_delete now pk w = (w', Inr x)"
  then have w': "w' = w\<lparr>adb := fst (delete_user now pk (adb w)), red := end_sessions now pk (red w)\<rparr>"
    by (auto simp: user_delete_def case_prod_beta dest!: get_user_SomeD split: option.splits)
  show "step_ok now w w'"
    unfolding w'
  proof (rule step_ok_uncached)
    show "links_ok (fst (delete_user now pk (adb w)))"
      using assms by (simp add: delete_user_def links_ok_def ends_in_filter)
    fix pk'
    assume "r_get now (user_key pk') (end_sessions now pk (red w)) \<noteq> None"
    then have "pk \<noteq> pk'" by (auto simp: r_get_end_sessions)
    then show "r_get now (user_key pk') (end_sessions now pk (red w)) = r_get now (user_key pk') (red w) \<and>
      (view_of pk' (adb w) \<noteq> None \<longrightarrow> view_of pk' (fst (delete_user now pk (adb w))) = view_of pk' (adb w))"
      by (simp add: r_get_end_sessions delete_user_view)
  qed
qed (auto simp: user_delete_def case_prod_beta split: option.splits)

end
