(* ===== verification/AdminCoherent.thy ===== *)
theory AdminCoherent
  imports AdminMoves
begin

text \<open>The operations on permissions and sessions, and the coherence of the cache of user descriptions.\<close>

section \<open>Permissions\<close>

lemma step_ok_clear:
  assumes "links_ok db'" "\<And>pk. pk \<notin> set ids \<Longrightarrow> view_of pk db' = view_of pk (adb w)"
  shows "step_ok now w (w\<lparr>adb := db', red := clear ids (red w)\<rparr>)"
  by (rule step_ok_uncached) (use assms in \<open>auto simp: r_get_clear split: if_splits\<close>)

lemma step_ok_db:
  assumes "links_ok db'" "\<And>pk. view_of pk db' = view_of pk (adb w)"
  shows "step_ok now w (w\<lparr>adb := db'\<rparr>)"
  using assms by (simp add: step_ok_def)

lemma users_of_roles_cong: "a_user_role db' = a_user_role db \<Longrightarrow> users_of_roles ids db' = users_of_roles ids db"
  by (simp add: users_of_roles_def)

lemma step_ok_run_db:
  assumes "links_ok (adb w)" "\<And>w' x. f w = (w', Inr x) \<Longrightarrow> step_ok now w w'" "\<And>w' e. f w = (w', Inl e) \<Longrightarrow> w' = w"
  shows "step_ok now w (run f w)"
  using assms by (blast intro: step_ok_run)

lemma with_rowsD:
  "with_roles rs db = Inr db' \<Longrightarrow> db' = db\<lparr>a_roles := rs\<rparr>"
  "with_scopes ss db = Inr db' \<Longrightarrow> db' = db\<lparr>a_scopes := ss\<rparr>"
  "with_rules ls db = Inr db' \<Longrightarrow> db' = db\<lparr>a_rules := ls\<rparr>"
  "with_depts ds db = Inr db' \<Longrightarrow> db' = db\<lparr>a_depts := ds\<rparr>"
  by (auto simp: with_roles_def with_scopes_def with_rules_def with_depts_def split: if_splits)

lemma links_ok_map:
  assumes "links_ok db"
  shows "(\<And>r. ro_id (f r) = ro_id r) \<Longrightarrow> links_ok (db\<lparr>a_roles := map f (a_roles db)\<rparr>)"
    "(\<And>m. me_id (g m) = me_id m) \<Longrightarrow> links_ok (db\<lparr>a_menus := map g (a_menus db)\<rparr>)"
    "(\<And>s. sc_id (h s) = sc_id s) \<Longrightarrow> links_ok (db\<lparr>a_scopes := map h (a_scopes db)\<rparr>)"
    "(\<And>l. dr_id (i l) = dr_id l) \<Longrightarrow> links_ok (db\<lparr>a_rules := map i (a_rules db)\<rparr>)"
  using assms by (simp_all add: links_ok_def image_image)

lemma links_ok_append:
  assumes "links_ok db"
  shows "links_ok (db\<lparr>a_roles := a_roles db @ rs\<rparr>)" "links_ok (db\<lparr>a_menus := a_menus db @ ms\<rparr>)"
    "links_ok (db\<lparr>a_scopes := a_scopes db @ ss\<rparr>)" "links_ok (db\<lparr>a_rules := a_rules db @ ls\<rparr>)"
    "links_ok (db\<lparr>a_depts := ds\<rparr>)"
  using assms by (auto simp: links_ok_def elim: ends_in_mono)

lemma write_role_id [simp]: "ro_id (write_role obj r) = ro_id r"
  by (simp add: write_role_def)

lemma write_menu_id [simp]: "me_id (write_menu obj m) = me_id m"
  by (simp add: write_menu_def)

lemma rule_of_id [simp]: "dr_id (rule_of i obj) = i"
  by (simp add: rule_of_def)

lemma all_existD:
  assumes "all_exist ids (map f (filter P rows))"
  shows "set ids \<subseteq> f ` set rows"
  using assms by (auto simp: all_exist_iff)

lemma role_ops_ok:
  assumes "links_ok (adb w)"
  shows "step_ok now w (run (role_service_create obj) w)" "step_ok now w (run (role_service_update pk obj) w)"
    "step_ok now w (run (role_service_delete pks) w)"
proof -
  show "step_ok now w (run (role_service_create obj) w)"
    by (rule step_ok_run_db [OF assms])
       (auto simp: role_service_create_def role_create_def dest!: with_rowsD split: if_splits sum.splits
         intro!: step_ok_db links_ok_append assms role_append_view)
  show "step_ok now w (run (role_service_update pk obj) w)"
    by (rule step_ok_run_db [OF assms])
       (auto simp: role_service_update_def role_update_def clear_by_role_id_def users_of_roles_cong [of "_\<lparr>a_roles := _\<rparr>"]
         dest!: with_rowsD split: if_splits sum.splits option.splits
         intro!: step_ok_clear links_ok_map assms role_rows_view [where ids = "[pk]"])
  show "step_ok now w (run (role_service_delete pks) w)"
    by (rule step_ok_run_db [OF assms])
       (auto simp: role_service_delete_def role_delete_def Let_def clear_by_role_id_def marked_def
         users_of_roles_cong [of "_\<lparr>a_roles := _\<rparr>"] split: if_splits
         intro!: step_ok_clear links_ok_map assms role_rows_view [where ids = pks])
qed

lemma role_links_ok:
  assumes "links_ok (adb w)"
  shows "step_ok now w (run (update_role_menu pk ids) w)" "step_ok now w (run (update_role_scope pk ids) w)"
proof -
  have "links_ok (role_update_menus pk ids (adb w))" if "all_exist ids (menu_ids (adb w))"
    using assms all_existD [OF that [unfolded menu_ids_def]]
    by (simp add: links_ok_def role_update_menus_def ends_in_relink)
  then show "step_ok now w (run (update_role_menu pk ids) w)"
    by (intro step_ok_run_db [OF assms])
       (auto simp: update_role_menu_def Let_def clear_by_role_id_def users_of_roles_cong [of "_\<lparr>a_role_menu := _\<rparr>"]
         role_update_menus_def split: if_splits intro!: step_ok_clear role_links_view)
  have "links_ok (role_update_scopes pk ids (adb w))" if "all_exist ids (scope_ids (adb w))"
    using assms all_existD [OF that [unfolded scope_ids_def]]
    by (simp add: links_ok_def role_update_scopes_def ends_in_relink)
  then show "step_ok now w (run (update_role_scope pk ids) w)"
    by (intro step_ok_run_db [OF assms])
       (auto simp: update_role_scope_def Let_def clear_by_role_id_def users_of_roles_cong [of "_\<lparr>a_role_scope := _\<rparr>"]
         role_update_scopes_def split: if_splits intro!: step_ok_clear role_links_view)
qed

lemma menu_ops_ok:
  assumes "links_ok (adb w)"
  shows "step_ok now w (run (menu_service_create obj) w)" "step_ok now w (run (menu_service_update pk obj) w)"
proof -
  show "step_ok now w (run (menu_service_create obj) w)"
    by (rule step_ok_run_db [OF assms])
       (auto simp: menu_service_create_def menu_create_def split: if_splits
         intro!: step_ok_db links_ok_append assms menu_append_view)
  show "step_ok now w (run (menu_service_update pk obj) w)"
    by (rule step_ok_run_db [OF assms])
       (auto simp: menu_service_update_def menu_update_def Let_def clear_by_menu_id_def
         users_of_roles_cong [of "_\<lparr>a_menus := _\<rparr>"] split: if_splits option.splits
         intro!: step_ok_clear links_ok_map assms menu_rows_view [where ids = "[pk]"])
qed

lemma scope_ops_ok:
  assumes "links_ok (adb w)"
  shows "step_ok now w (run (scope_service_create obj) w)" "step_ok now w (run (scope_service_update pk obj) w)"
    "step_ok now w (run (scope_service_delete pks) w)"
proof -
  show "step_ok now w (run (scope_service_create obj) w)"
    by (rule step_ok_run_db [OF assms])
       (auto simp: scope_service_create_def scope_create_def dest!: with_rowsD split: if_splits sum.splits
         intro!: step_ok_db links_ok_append assms scope_append_view)
  show "step_ok now w (run (scope_service_update pk obj) w)"
    by (rule step_ok_run_db [OF assms])
       (auto simp: scope_service_update_def scope_update_def clear_by_data_scope_id_def
         users_of_roles_cong [of "_\<lparr>a_scopes := _\<rparr>"] dest!: with_rowsD split: if_splits sum.splits option.splits
         intro!: step_ok_clear links_ok_map assms scope_rows_view [where ids = "[pk]"])
  show "step_ok now w (run (scope_service_delete pks) w)"
    by (rule step_ok_run_db [OF assms])
       (auto simp: scope_service_delete_def scope_delete_def Let_def clear_by_data_scope_id_def marked_def
         users_of_roles_cong [of "_\<lparr>a_scopes := _\<rparr>"] split: if_splits
         intro!: step_ok_clear links_ok_map assms scope_rows_view [where ids = pks])
qed

lemma scope_rules_ok:
  assumes "links_ok (adb w)"
  shows "step_ok now w (run (update_data_scope_rule pk ids) w)"
proof -
  have "links_ok (scope_update_rules pk ids (adb w))" if "all_exist ids (rule_ids (adb w))"
    using assms all_existD [OF that [unfolded rule_ids_def]]
    by (simp add: links_ok_def scope_update_rules_def ends_in_relink)
  then show ?thesis
    by (intro step_ok_run_db [OF assms])
       (auto simp: update_data_scope_rule_def Let_def clear_by_data_scope_id_def
         users_of_roles_cong [of "_\<lparr>a_scope_rule := _\<rparr>"] scope_update_rules_def split: if_splits
         intro!: step_ok_clear scope_links_view)
qed

lemma rule_ops_ok:
  assumes "links_ok (adb w)"
  shows "step_ok now w (run (rule_service_create obj) w)" "step_ok now w (run (rule_service_update pk obj) w)"
    "step_ok now w (run (rule_service_delete pks) w)"
proof -
  show "step_ok now w (run (rule_service_create obj) w)"
    by (rule step_ok_run_db [OF assms])
       (auto simp: rule_service_create_def rule_create_def dest!: with_rowsD split: if_splits sum.splits
         intro!: step_ok_db links_ok_append assms rule_append_view)
  show "step_ok now w (run (rule_service_update pk obj) w)"
    by (rule step_ok_run_db [OF assms])
       (auto simp: rule_service_update_def rule_update_def clear_by_data_rule_id_def
         users_of_roles_cong [of "_\<lparr>a_rules := _\<rparr>"] dest!: with_rowsD split: if_splits sum.splits option.splits
         intro!: step_ok_clear links_ok_map assms rule_rows_view [where ids = "[pk]"])
  show "step_ok now w (run (rule_service_delete pks) w)"
    by (rule step_ok_run_db [OF assms])
       (auto simp: rule_service_delete_def rule_delete_def Let_def clear_by_data_rule_id_def marked_def
         users_of_roles_cong [of "_\<lparr>a_rules := _\<rparr>"] split: if_splits
         intro!: step_ok_clear links_ok_map assms rule_rows_view [where ids = pks])
qed

lemma dept_ops_ok:
  assumes "links_ok (adb w)"
  shows "step_ok now w (run (dept_service_create obj) w)" "step_ok now w (run (dept_service_update pk obj) w)"
    "step_ok now w (run (dept_service_delete pk) w)"
  by (rule step_ok_run_db [OF assms];
      auto simp: dept_service_create_def dept_create_def dept_service_update_def dept_update_def
        dept_service_delete_def dept_delete_def step_ok_refl [OF assms] dest!: with_rowsD
        split: if_splits sum.splits option.splits intro!: step_ok_db links_ok_append assms dept_view)+

section \<open>Sessions\<close>

text \<open>Everything here leaves the cached descriptions alone; only \<open>get_jwt_user\<close> adds one.\<close>

definition same_cache :: "int \<Rightarrow> redis \<Rightarrow> redis \<Rightarrow> bool" where
  "same_cache now st st' \<longleftrightarrow> (\<forall>pk. r_get now (user_key pk) st' = r_get now (user_key pk) st)"

lemma same_cache_refl [simp]: "same_cache now st st"
  by (simp add: same_cache_def)

lemma same_cache_trans: "same_cache now a b \<Longrightarrow> same_cache now b c \<Longrightarrow> same_cache now a c"
  by (simp add: same_cache_def)

lemma same_cache_tokens:
  "same_cache now st (fst (create_access_token D S now sid u multi kws st))"
  "same_cache now st (fst (create_refresh_token D S now sid u multi st))"
  "same_cache now st (revoke_token u sid st)"
  by (simp_all add: same_cache_def create_access_token_others create_refresh_token_others revoke_token_get)

lemma same_cache_security:
  "check_status D now u status st = (st', r) \<Longrightarrow> same_cache now st st'"
  "handle_login_failure D S now u st = (st', r') \<Longrightarrow> same_cache now st st'"
  "same_cache now st (handle_login_success u st)"
  "check_captcha D S now obj st = (st', r'') \<Longrightarrow> same_cache now st st'"
  "logout D now auth cookie st = (st', r3) \<Longrightarrow> same_cache now st st'"
  by (auto simp: same_cache_def check_status_def handle_login_failure_def handle_login_success_def check_captcha_def
      logout_def Let_def r_get_delete r_get_set split: if_splits option.splits list.splits sum.splits exc.splits)

lemma create_new_token_cache:
  assumes "create_new_token D S now nsid token sid u multi kws st = (st', r)"
  shows "same_cache now st st'"
proof -
  let ?st1 = "r_delete (token_key u sid) (r_delete (refresh_key u sid) st)"
  let ?a = "create_access_token D S now nsid u multi kws ?st1"
  have "same_cache now st ?st1" by (simp add: same_cache_def r_get_delete)
  moreover have "same_cache now ?st1 (fst ?a)" by (rule same_cache_tokens)
  moreover have "same_cache now (fst ?a) (fst (create_refresh_token D S now x u multi (fst ?a)))" for x
    by (rule same_cache_tokens)
  ultimately have all: "same_cache now st (fst (create_refresh_token D S now x u multi (fst ?a)))" for x
    using same_cache_trans by blast
  show ?thesis
    using assms all by (auto simp: create_new_token_def Let_def case_prod_beta split: if_splits)
qed

lemma user_verify_cache:
  assumes "user_verify D S now name pw w = (w', r)"
  shows "adb w' = adb w \<and> same_cache now (red w) (red w')"
proof (cases "get_by_username name (adb w)")
  case None
  then show ?thesis using assms by (simp add: user_verify_def)
next
  case (Some user)
  obtain st1 r1 where c: "check_status D now (u_id user) (u_status user) (red w) = (st1, r1)" by fastforce
  obtain st2 r2 where h: "handle_login_failure D S now (u_id user) st1 = (st2, r2)" by fastforce
  note sc = same_cache_security(1) [OF c]
  show ?thesis
  proof (cases r1)
    case (Inl e)
    then show ?thesis using assms Some c sc by (auto simp: user_verify_def on_redis_def)
  next
    case (Inr x)
    have "same_cache now (red w) st2" "same_cache now (red w) (handle_login_success (u_id user) st1)"
      using same_cache_trans [OF sc] same_cache_security(2) [OF h] same_cache_security(3) by blast+
    then show ?thesis
      using assms Some c sc h Inr by (cases r2) (auto simp: user_verify_def on_redis_def split: if_splits sum.splits)
  qed
qed

lemma get_current_userD:
  assumes "get_current_user u db = Inr ui"
  shows "view_of u db = Some (view ui)" "active ui" "get_join u db = Some ui"
    "\<forall>d. ui_dept ui = Some d \<longrightarrow> de_status d \<noteq> 0"
  using assms by (auto simp: get_current_user_def view_of_def active_def list_ex_iff list_all_iff
      split: option.splits if_splits)

section \<open>Logging in, and the whole\<close>

lemma step_ok_same_cache:
  assumes "links_ok (adb w)" "adb w' = adb w \<or> (\<exists>name. adb w' = update_login_time now name (adb w))"
    "same_cache now (red w) (red w')"
  shows "step_ok now w w'"
proof -
  have "links_ok (update_login_time now name (adb w))" for name
    using assms(1) by (simp add: links_ok_def update_login_time_def)
  then show ?thesis
    using assms by (auto simp: step_ok_def same_cache_def update_login_time_view)
qed

lemma swagger_login_cache:
  assumes "swagger_login D S now sid name pw w = (w', r)"
  shows "(adb w' = adb w \<or> adb w' = update_login_time now name (adb w)) \<and> same_cache now (red w) (red w')"
proof -
  obtain w1 v where v: "user_verify D S now name pw w = (w1, v)" by fastforce
  note c = user_verify_cache [OF v]
  show ?thesis
  proof (cases v)
    case (Inl e)
    then show ?thesis using assms v c by (simp add: swagger_login_def)
  next
    case (Inr ud)
    obtain u d where "ud = (u, d)" by fastforce
    with Inr assms v c same_cache_trans [OF _ same_cache_tokens(1)] show ?thesis
      by (auto simp: swagger_login_def split: prod.splits) (metis fst_conv)+
  qed
qed

lemma login_body_cache:
  assumes "login_body D S now sid cl obj w = (w', r)"
  shows "(adb w' = adb w \<or> adb w' = update_login_time now (lp_username obj) (adb w)) \<and> same_cache now (red w) (red w')"
proof -
  obtain st0 r0 where cap: "check_captcha D S now obj (red w) = (st0, r0)" by fastforce
  note c0 = same_cache_security(4) [OF cap]
  obtain w1 v where v: "user_verify D S now (lp_username obj) (lp_password obj) (w\<lparr>red := st0\<rparr>) = (w1, v)" by fastforce
  note c1 = user_verify_cache [OF v]
  have c: "same_cache now (red w) (red w1)" using same_cache_trans [OF c0] c1 by simp
  show ?thesis
  proof (cases r0)
    case (Inl e)
    then show ?thesis using assms cap c0 by (auto simp: login_body_def on_redis_def)
  next
    case r0: (Inr x)
    show ?thesis
    proof (cases v)
      case (Inl e)
      then show ?thesis using assms cap r0 v c c1 by (auto simp: login_body_def on_redis_def)
    next
      case (Inr ud)
      obtain u d where ud: "ud = (u, d)" by fastforce
      have "same_cache now (red w) (fst (create_refresh_token D S now y (u_id u) m
          (fst (create_access_token D S now sid (u_id u) m k (red w1)))))" for y m k
        using same_cache_trans [OF c] same_cache_trans [OF same_cache_tokens(1) same_cache_tokens(2)] by blast
      then show ?thesis
        using assms cap r0 v c1 Inr ud by (auto simp: login_body_def on_redis_def open_session_def Let_def case_prod_beta)
    qed
  qed
qed

lemma refresh_session_cache:
  assumes "refresh_session D S now sid cl cookie w = (w', r)"
  shows "adb w' = adb w \<and> same_cache now (red w) (red w')"
  using assms by (auto simp: refresh_session_def Let_def on_redis_def dest!: create_new_token_cache
      split: if_splits sum.splits option.splits prod.splits)

lemma sessions_ok:
  assumes "links_ok (adb w)"
  shows "step_ok now w (run (swagger_login D S now sid name pw) w)"
    "step_ok now w (run (login_body D S now sid cl obj) w)"
    "step_ok now w (run (refresh_session D S now sid cl cookie) w)"
    "step_ok now w (run (on_redis (logout D now auth cookie)) w)"
proof -
  have cached: "r_get now (user_key pk) (red w') = Some v \<Longrightarrow> r_get now (user_key pk) (red w) = Some v"
    if "same_cache now (red w) (red w')" for w' pk v
    using that by (simp add: same_cache_def)
  show "step_ok now w (run (swagger_login D S now sid name pw) w)"
    by (rule step_ok_run [OF assms]; drule swagger_login_cache) (auto intro: step_ok_same_cache assms cached)
  show "step_ok now w (run (login_body D S now sid cl obj) w)"
    by (rule step_ok_run [OF assms]; drule login_body_cache) (auto intro: step_ok_same_cache assms cached)
  show "step_ok now w (run (refresh_session D S now sid cl cookie) w)"
    by (rule step_ok_run [OF assms]; drule refresh_session_cache) (auto intro: step_ok_same_cache assms cached)
  have log: "adb w' = adb w \<and> same_cache now (red w) (red w')" if "on_redis (logout D now auth cookie) w = (w', r)" for w' r
    using that by (auto simp: on_redis_def split: prod.splits dest: same_cache_security(5))
  show "step_ok now w (run (on_redis (logout D now auth cookie)) w)"
    by (rule step_ok_run [OF assms]; drule log) (auto intro: step_ok_same_cache assms cached)
qed

lemma login_ok:
  assumes "links_ok (adb w)"
  shows "step_ok now w (fst (login D S now sid uuid cl obj w))"
proof -
  have "adb (fst (login D S now sid uuid cl obj w)) = adb (run (login_body D S now sid cl obj) w)"
    "red (fst (login D S now sid uuid cl obj w)) = red (run (login_body D S now sid cl obj) w)"
    by (auto simp: login_def run_def split: prod.splits sum.splits exc.splits)
  then show ?thesis using sessions_ok(2) [OF assms] by (simp add: step_ok_def)
qed

lemma aperform_step_ok:
  assumes "links_ok (adb w)" "keeps_menus a" "\<And>token. a \<noteq> Authenticate token"
  shows "step_ok now w (aperform D S now a w)"
proof (cases a)
  case (Authenticate token)
  then show ?thesis using assms(3) by blast
next
  case (Kick u sid)
  then show ?thesis
    using step_ok_same_cache [OF assms(1), of "w\<lparr>red := revoke_token u sid (red w)\<rparr>"]
    by (simp add: same_cache_tokens)
next
  case (Captcha uuid code ex)
  then show ?thesis
    using step_ok_same_cache [OF assms(1), of "w\<lparr>red := r_set now (captcha_key uuid) code (Some ex) (red w)\<rparr>"]
    by (simp add: same_cache_def r_get_set)
next
  case (EmailCaptcha ip code ex)
  then show ?thesis
    using step_ok_same_cache [OF assms(1), of "w\<lparr>red := r_set now (email_captcha_key ip) code (Some ex) (red w)\<rparr>"]
    by (simp add: same_cache_def r_get_set)
next
  case (MenuDelete pk)
  then show ?thesis using assms(2) by (simp add: keeps_menus_def)
qed (use sessions_ok [OF assms(1)] login_ok [OF assms(1)] user_create_ok [OF assms(1)] user_update_ok [OF assms(1)]
    update_permission_ok [OF assms(1)] user_passwords_ok [OF assms(1)] user_fields_ok [OF assms(1)]
    user_update_email_ok [OF assms(1)] user_delete_ok [OF assms(1)] role_ops_ok [OF assms(1)]
    role_links_ok [OF assms(1)] menu_ops_ok [OF assms(1)] scope_ops_ok [OF assms(1)] scope_rules_ok [OF assms(1)]
    rule_ops_ok [OF assms(1)] dept_ops_ok [OF assms(1)] in \<open>simp_all\<close>)

section \<open>Authentication between the deletion of the cache and the commit\<close>

text \<open>
  A handler deletes the cached descriptions inside its transaction (\<open>user_cache_manager\<close>, and the services
  themselves); the transaction is committed when the handler is over. \<open>begun\<close> is the state in between, for
  everyone else: Redis as the request leaves it, the database as it was.
\<close>

definition begun :: "auth_deps \<Rightarrow> auth_settings \<Rightarrow> int \<Rightarrow> aaction \<Rightarrow> aworld \<Rightarrow> aworld" where
  "begun D S now a w = (aperform D S now a w)\<lparr>adb := adb w\<rparr>"

fun authentications :: "auth_deps \<Rightarrow> auth_settings \<Rightarrow> (int \<times> ustr) list \<Rightarrow> aworld \<Rightarrow> aworld" where
  "authentications D S [] w = w"
| "authentications D S ((now, token) # ts) w =
     authentications D S ts (run (jwt_authentication D S now token) w)"

text \<open>
  States that are reached from a database whose links lead to rows of it and an empty Redis, by requests that are
  one step and by requests in whose window others are authenticated; the time never goes back. The first argument
  collects the databases that requests of the second kind have replaced.
\<close>

inductive wreachable :: "auth_deps \<Rightarrow> auth_settings \<Rightarrow> admin_db list \<Rightarrow> int \<Rightarrow> aworld \<Rightarrow> bool" for D S where
  initial: "links_ok db \<Longrightarrow> wreachable D S [] t \<lparr>adb = db, red = [], alog = []\<rparr>"
| step: "wreachable D S old t w \<Longrightarrow> t \<le> now \<Longrightarrow> keeps_menus a \<Longrightarrow> wreachable D S old now (aperform D S now a w)"
| window: "wreachable D S old t w \<Longrightarrow> t \<le> now \<Longrightarrow> keeps_menus a \<Longrightarrow> (\<And>token. a \<noteq> Authenticate token)
    \<Longrightarrow> sorted (now # map fst ts @ [later])
    \<Longrightarrow> wreachable D S (adb w # old) later
          ((authentications D S ts (begun D S now a w))\<lparr>adb := adb (aperform D S now a w)\<rparr>)"

text \<open>A cached description is that of the database, or of one of the databases \<open>old\<close>.\<close>

definition dated :: "auth_deps \<Rightarrow> admin_db list \<Rightarrow> int \<Rightarrow> aworld \<Rightarrow> bool" where
  "dated D old now w \<longleftrightarrow> (\<forall>pk v. r_get now (user_key pk) (red w) = Some v \<longrightarrow>
     (\<exists>ui. d_load D v = Inr ui \<and> active ui \<and> (\<exists>db \<in> set (adb w # old). view_of pk db = Some (view ui))))"

lemma dated_later: "dated D old t w \<Longrightarrow> t \<le> now \<Longrightarrow> dated D old now w"
  unfolding dated_def using r_get_later by blast

lemma dated_commit: "dated D old now w \<Longrightarrow> dated D (adb w # old) now (w\<lparr>adb := db\<rparr>)"
  unfolding dated_def by fastforce

lemma dated_step:
  assumes "dated D old now w" "step_ok now w w'"
  shows "dated D old now w'"
  unfolding dated_def
proof (intro allI impI)
  fix pk v assume "r_get now (user_key pk) (red w') = Some v"
  then have v: "r_get now (user_key pk) (red w) = Some v"
    and kept: "view_of pk (adb w) \<noteq> None \<Longrightarrow> view_of pk (adb w') = view_of pk (adb w)"
    using assms(2) by (auto simp: step_ok_def)
  obtain ui db where "d_load D v = Inr ui" "active ui" "db \<in> set (adb w # old)" "view_of pk db = Some (view ui)"
    using assms(1) v unfolding dated_def by blast
  then show "\<exists>ui. d_load D v = Inr ui \<and> active ui \<and> (\<exists>db \<in> set (adb w' # old). view_of pk db = Some (view ui))"
    using kept by (cases "db = adb w") auto
qed

lemma dated_begun:
  assumes "dated D old now w" "step_ok now w (aperform D S now a w)"
  shows "dated D old now (begun D S now a w)"
proof -
  have "r_get now (user_key pk) (red (begun D S now a w)) = Some v \<Longrightarrow> r_get now (user_key pk) (red w) = Some v" for pk v
    using assms(2) by (simp add: begun_def step_ok_def)
  then show ?thesis using assms(1) unfolding dated_def begun_def by simp
qed

lemma jwt_authentication_cases:
  assumes "jwt_authentication D S now token w = (w', r)"
  shows "w' = w \<or> (\<exists>u. get_jwt_user D S now u w = (w', r))"
  using assms by (auto simp: jwt_authentication_def split: sum.splits option.splits if_splits)

lemma authentication_dated:
  assumes "dated D old now w" "\<And>ui. d_load D (d_dump D ui) = Inr ui"
  shows "dated D old now (run (jwt_authentication D S now token) w)
    \<and> adb (run (jwt_authentication D S now token) w) = adb w"
proof -
  obtain w' r where j: "jwt_authentication D S now token w = (w', r)" by fastforce
  have "dated D old now w' \<and> adb w' = adb w \<and> (\<forall>e. r = Inl e \<longrightarrow> w' = w)"
  proof (cases "w' = w")
    case False
    then obtain u where "get_jwt_user D S now u w = (w', r)" using jwt_authentication_cases [OF j] by blast
    then obtain ui where cu: "get_current_user u (adb w) = Inr ui" and r: "r = Inr ui"
      and w': "w' = w\<lparr>red := r_set now (user_key u) (d_dump D ui) (Some (TOKEN_EXPIRE_SECONDS S)) (red w)\<rparr>"
      using False by (auto simp: get_jwt_user_def split: option.splits list.splits sum.splits)
    have "view_of u (adb w) = Some (view ui)" "active ui" by (rule get_current_userD [OF cu])+
    then show ?thesis using assms(1,2) r by (auto simp: dated_def w' r_get_set)
  qed (use assms(1) in simp)
  then show ?thesis using assms j by (cases r) (auto simp: run_def transaction_def)
qed

lemma authentications_dated:
  assumes "dated D old now w" "sorted (now # map fst ts @ [later])" "\<And>ui. d_load D (d_dump D ui) = Inr ui"
  shows "dated D old later (authentications D S ts w) \<and> adb (authentications D S ts w) = adb w"
  using assms(1,2)
proof (induction ts arbitrary: now w)
  case Nil
  then show ?case using dated_later by auto
next
  case (Cons x ts)
  obtain n token where x: "x = (n, token)" by fastforce
  have "dated D old n w" using dated_later [OF Cons.prems(1)] Cons.prems(2) x by simp
  then show ?case
    using Cons.IH [of n "run (jwt_authentication D S n token) w"] Cons.prems(2) x
      authentication_dated [of D old n w S token] assms(3) by simp
qed

lemma wreachable_dated:
  assumes "wreachable D S old t w" "\<And>ui. d_load D (d_dump D ui) = Inr ui"
  shows "dated D old t w \<and> links_ok (adb w)"
  using assms(1)
proof induction
  case (initial db t)
  then show ?case by (simp add: dated_def r_get_def)
next
  case (step old t w now a)
  then have w: "dated D old now w" "links_ok (adb w)" using dated_later by blast+
  show ?case
  proof (cases "\<exists>token. a = Authenticate token")
    case True
    then show ?thesis using authentication_dated [OF w(1) assms(2)] w(2) by auto
  next
    case False
    then have "step_ok now w (aperform D S now a w)" using aperform_step_ok [OF w(2) step.hyps(3)] by blast
    then show ?thesis using dated_step [OF w(1)] by (simp add: step_ok_def)
  qed
next
  case (window old t w now a ts later)
  then have w: "dated D old now w" "links_ok (adb w)" using dated_later by blast+
  have ok: "step_ok now w (aperform D S now a w)" by (rule aperform_step_ok [OF w(2) window.hyps(3,4)])
  have "adb (begun D S now a w) = adb w" by (simp add: begun_def)
  with authentications_dated [OF dated_begun [OF w(1) ok] window.hyps(5) assms(2), of S]
  have d: "dated D old later (authentications D S ts (begun D S now a w))"
    "adb (authentications D S ts (begun D S now a w)) = adb w" by simp_all
  show ?case using dated_commit [OF d(1), of "adb (aperform D S now a w)"] d(2) ok by (simp add: step_ok_def)
qed

end
