(* ===== verification/Rbac.thy ===== *)
theory Rbac
  imports Auth
begin

text \<open>
  \<open>common/security/rbac.py\<close> and \<open>common/security/permission.py\<close>: whether a request may be answered, and
  the condition that limits the rows a user sees. Both read the description of the user that the
  request was authenticated with.
\<close>

section \<open>Requests\<close>

text \<open>
  The request: its path and method, whether \<open>request.auth.scopes\<close> is not empty, and the permission that
  \<open>RequestPermission\<close> put into the context. \<open>casbin\<close> is the plugin's answer, \<open>None\<close> when the plugin is not
  installed; the patterns are those of the settings.
\<close>

record http_request =
  rq_path :: ustr
  rq_method :: ustr
  rq_authenticated :: bool
  rq_user :: user_info
  rq_permission :: "ustr option"

record rbac_settings =
  TOKEN_REQUEST_PATH_EXCLUDE :: "ustr list"
  TOKEN_REQUEST_PATH_EXCLUDE_PATTERN :: "(ustr \<Rightarrow> bool) list"
  RBAC_ROLE_MENU_MODE :: bool
  RBAC_ROLE_MENU_EXCLUDE :: "ustr list"

definition whitelisted :: "rbac_settings \<Rightarrow> ustr \<Rightarrow> bool" where
  "whitelisted R path \<longleftrightarrow> List.member (TOKEN_REQUEST_PATH_EXCLUDE R) path
     \<or> list_ex (\<lambda>matches. matches path) (TOKEN_REQUEST_PATH_EXCLUDE_PATTERN R)"

text \<open>\<open>RequestPermission.__call__\<close>\<close>

definition request_permission :: "rbac_settings \<Rightarrow> ustr \<Rightarrow> http_request \<Rightarrow> http_request" where
  "request_permission R perm rq = (if RBAC_ROLE_MENU_MODE R then rq\<lparr>rq_permission := Some perm\<rparr> else rq)"

text \<open>A dictionary by id: a later menu replaces an earlier one with its id.\<close>

definition unique_menus :: "role_info list \<Rightarrow> menu list" where
  "unique_menus roles =
     map snd (fold (\<lambda>m d. AList.update (me_id m) m d) (concat (map ri_menus roles)) [])"

definition allow_perms :: "role_info list \<Rightarrow> ustr list" where
  "allow_perms roles = concat (map menu_codes (unique_menus roles))"

definition permission_check :: "rbac_settings \<Rightarrow> ustr option \<Rightarrow> role_info list \<Rightarrow> unit res" where
  "permission_check R perm enabled_roles =
     (if text_missing perm then Inr ()
      else if List.member (RBAC_ROLE_MENU_EXCLUDE R) (the perm) then Inr ()
      else if \<not> List.member (allow_perms enabled_roles) (the perm)
      then Inl (AuthorizationError (asc ''Permission Denied'')) else Inr ())"

definition rbac_verify :: "rbac_settings \<Rightarrow> unit res option \<Rightarrow> http_request \<Rightarrow> unit res" where
  "rbac_verify R casbin rq =
     (if whitelisted R (rq_path rq) then Inr ()
      else if \<not> rq_authenticated rq then Inl (TokenError (asc ''Not Authenticated''))
      else if ui_is_superuser (rq_user rq) then Inr ()
      else let enabled_roles = filter (\<lambda>r. ro_status (ri_role r) = 1) (ui_roles (rq_user rq)) in
        if enabled_roles = [] then Inl (AuthorizationError msg_roles_locked)
        else if \<not> list_ex (\<lambda>r. 0 < length (ri_menus r)) enabled_roles then Inl (AuthorizationError msg_no_menus)
        else if \<not> List.member [asc ''GET'', asc ''OPTIONS''] (rq_method rq) \<and> \<not> ui_is_staff (rq_user rq)
        then Inl (AuthorizationError msg_no_staff)
        else if RBAC_ROLE_MENU_MODE R then permission_check R (rq_permission rq) enabled_roles
        else (case casbin of None \<Rightarrow> Inl (ServerError msg_casbin) | Some answer \<Rightarrow> answer))"

section \<open>What a request needs\<close>

lemma fold_update_values:
  assumes "\<forall>m \<in> set ms \<union> snd ` set d. \<forall>m' \<in> set ms \<union> snd ` set d. me_id m = me_id m' \<longrightarrow> m = m'"
    "\<forall>(k, m) \<in> set d. k = me_id m" "distinct (map fst d)"
  shows "snd ` set (fold (\<lambda>m d. AList.update (me_id m) m d) ms d) = snd ` set d \<union> set ms"
  using assms
proof (induction ms arbitrary: d)
  case (Cons m ms)
  let ?d = "AList.update (me_id m) m d"
  have d: "distinct (map fst ?d)" using Cons.prems(3) by (simp add: distinct_update)
  have set: "set ?d = insert (me_id m, m) {kv \<in> set d. fst kv \<noteq> me_id m}"
    using Cons.prems(3)
  proof (induction d)
    case (Cons kv d)
    then show ?case by (cases kv) (auto simp: image_iff)
  qed simp
  have vals: "snd ` set ?d = insert m (snd ` set d)"
    using Cons.prems(1,2) by (auto simp: set image_iff) (metis (mono_tags, lifting) Un_iff case_prodD image_eqI list.set_intros(1) snd_conv)
  have "snd ` set (fold (\<lambda>m d. AList.update (me_id m) m d) ms ?d) = snd ` set ?d \<union> set ms"
  proof (rule Cons.IH)
    have "set ms \<union> snd ` set ?d = set (m # ms) \<union> snd ` set d" by (auto simp: vals)
    then show "\<forall>m \<in> set ms \<union> snd ` set ?d. \<forall>m' \<in> set ms \<union> snd ` set ?d. me_id m = me_id m' \<longrightarrow> m = m'"
      using Cons.prems(1) by (simp only:)
    show "\<forall>(k, m) \<in> set ?d. k = me_id m" using Cons.prems(2) by (auto simp: set)
  qed (rule d)
  then show ?case by (auto simp: vals)
qed simp

lemma set_unique_menus:
  assumes "\<forall>r \<in> set roles. \<forall>m \<in> set (ri_menus r). \<forall>r' \<in> set roles. \<forall>m' \<in> set (ri_menus r').
    me_id m = me_id m' \<longrightarrow> m = m'"
  shows "set (unique_menus roles) = (\<Union>r \<in> set roles. set (ri_menus r))"
  using fold_update_values [of "concat (map ri_menus roles)" "[]"] assms
  by (force simp: unique_menus_def)

lemma role_info_menus:
  "set (ri_menus (role_info_of db ro)) = {m \<in> set (a_menus db). me_deleted m = 0 \<and> linked (a_role_menu db) (ro_id ro) (me_id m)}"
  by (auto simp: role_info_of_def)

text \<open>The roles of a user that are neither deleted nor disabled, and what their menus allow.\<close>

definition enabled_role :: "admin_db \<Rightarrow> int \<Rightarrow> role \<Rightarrow> bool" where
  "enabled_role db pk r \<longleftrightarrow> r \<in> set (a_roles db) \<and> ro_deleted r = 0 \<and> ro_status r = 1
     \<and> linked (a_user_role db) pk (ro_id r)"

definition menu_of_role :: "admin_db \<Rightarrow> role \<Rightarrow> menu \<Rightarrow> bool" where
  "menu_of_role db r m \<longleftrightarrow> m \<in> set (a_menus db) \<and> me_deleted m = 0 \<and> linked (a_role_menu db) (ro_id r) (me_id m)"

text \<open>A permission that a comma-separated text lists, and an enabled menu grants.\<close>

definition listed :: "ustr \<Rightarrow> ustr \<Rightarrow> bool" where
  "listed perm s \<longleftrightarrow> 44 \<notin> set perm \<and> sublist ([44] @ perm @ [44]) ([44] @ s @ [44])"

definition grants :: "menu \<Rightarrow> ustr \<Rightarrow> bool" where
  "grants m perm \<longleftrightarrow> me_status m = 1 \<and> (\<exists>perms. me_perms m = Some perms \<and> perms \<noteq> [] \<and> listed perm perms)"

definition allowed :: "admin_db \<Rightarrow> int \<Rightarrow> ustr \<Rightarrow> bool" where
  "allowed db pk perm \<longleftrightarrow> (\<exists>r m. enabled_role db pk r \<and> menu_of_role db r m \<and> grants m perm)"

lemma sublist_skip:
  fixes w p r :: ustr
  assumes "44 \<notin> set w" "44 \<notin> set p"
  shows "sublist (44 # p @ [44]) (44 # w @ 44 # r) \<longleftrightarrow> p = w \<or> sublist (44 # p @ [44]) (44 # r)"
proof -
  have "sublist (44 # x) (w @ y) \<longleftrightarrow> sublist (44 # x) y" for x y :: ustr
    using assms(1) by (induction w) (auto simp: sublist_Cons_right)
  moreover have "prefix (p @ [44]) (w @ 44 # r) \<longleftrightarrow> p = w"
  proof
    assume "prefix (p @ [44]) (w @ 44 # r)"
    then obtain z where z: "w @ 44 # r = p @ 44 # z" by (auto simp: prefix_def)
    have "takeWhile (\<lambda>c. c \<noteq> 44) (w @ 44 # r) = w" "takeWhile (\<lambda>c. c \<noteq> 44) (p @ 44 # z) = p"
      using assms by (auto simp: takeWhile_append)
    then show "p = w" using z by simp
  qed auto
  ultimately show ?thesis by (simp add: sublist_Cons_right [of _ 44 "w @ 44 # r"])
qed

lemma set_split_on: "p \<in> set (split_on 44 s) \<longleftrightarrow> listed p s"
proof -
  have "p \<in> set (split_on_aux 44 w s) \<longleftrightarrow> 44 \<notin> set p \<and> sublist (44 # p @ [44]) (44 # w @ s @ [44])"
    if "44 \<notin> set w" for w
    using that
  proof (induction s arbitrary: w)
    case Nil
    moreover have "\<not> sublist (44 # p @ [44]) [44]" using sublist_length_le by fastforce
    ultimately show ?case using sublist_skip [of w p "[]"] by auto
  next
    case (Cons c s)
    then show ?case using sublist_skip [of w p "s @ [44]"] Cons.IH [of "[]"] Cons.IH [of "w @ [c]"] by auto
  qed
  from this [of "[]"] show ?thesis by (simp add: split_on_def listed_def)
qed

lemma set_menu_codes: "p \<in> set (menu_codes m) \<longleftrightarrow> grants m p"
proof (cases "me_perms m")
  case (Some perms)
  then show ?thesis by (cases perms) (auto simp: menu_codes_def grants_def set_split_on)
qed (simp add: menu_codes_def grants_def)

lemma enabled_roles_of:
  "set (filter (\<lambda>r. ro_status (ri_role r) = 1) (ui_roles (user_info_of db u)))
     = role_info_of db ` {r. enabled_role db (u_id u) r}"
  by (force simp: user_info_of_def enabled_role_def role_info_of_def)

lemma allow_perms_iff:
  assumes "distinct (map me_id (a_menus db))"
    "set roles = role_info_of db ` {r. enabled_role db pk r}"
  shows "p \<in> set (allow_perms roles) \<longleftrightarrow> allowed db pk p"
proof -
  have inj: "m = m'" if "m \<in> set (a_menus db)" "m' \<in> set (a_menus db)" "me_id m = me_id m'" for m m' :: menu
    using assms(1) that by (auto simp: distinct_map inj_on_def)
  have "set (unique_menus roles) = (\<Union>r \<in> set roles. set (ri_menus r))"
    by (rule set_unique_menus) (auto simp: assms(2) role_info_menus intro: inj)
  then show ?thesis
    by (auto simp: allow_perms_def assms(2) role_info_menus allowed_def menu_of_role_def set_menu_codes)
qed

section \<open>Rows a user sees\<close>

text \<open>
  The parts of SQLAlchemy and Python: the columns of a model with their Python types, and the cast of a
  value, which is \<open>None\<close> on \<open>ValueError\<close> and \<open>TypeError\<close>. A value in a condition is what the cast gave, or
  the text of the rule.
\<close>

datatype operand = Op_text ustr | Op_int int | Op_none | Op_method

datatype 'v sql_value = Cast 'v | Raw ustr

datatype 'v atom = Atom int ustr ustr "'v sql_value list"

datatype 'v condition = Yes | No | Atom_holds "'v atom" | All "'v condition list" | Some_of "'v condition list"

fun holds :: "('v atom \<Rightarrow> bool) \<Rightarrow> 'v condition \<Rightarrow> bool" where
  "holds v Yes = True"
| "holds v No = False"
| "holds v (Atom_holds a) = v a"
| "holds v (All cs) = list_all (holds v) cs"
| "holds v (Some_of cs) = list_ex (holds v) cs"

record ('t, 'v) orm =
  orm_columns :: "ustr \<Rightarrow> (ustr \<times> 't) list"
  orm_cast :: "'t \<Rightarrow> operand \<Rightarrow> 'v option"
  orm_is_str :: "'t \<Rightarrow> bool"

definition DATA_PERMISSION_COLUMN_EXCLUDE :: "ustr list" where
  "DATA_PERMISSION_COLUMN_EXCLUDE = map asc
     [''id'', ''sort'', ''deleted'', ''deleted_time'', ''created_time'', ''updated_time'']"

text \<open>\<open>column_template_resolvers\<close> of the two column variables of the settings\<close>

definition resolve_column :: "ustr \<Rightarrow> ustr" where
  "resolve_column c = (if c = asc ''__dept_id__'' then asc ''dept_id''
                       else if c = asc ''__created_by__'' then asc ''created_by'' else c)"

definition template :: "user_info \<Rightarrow> ustr \<Rightarrow> operand option" where
  "template user v =
     (if v = asc ''${user_id}'' then Some (Op_int (ui_id user))
      else if v = asc ''${dept_id}'' then Some (case ui_dept_id user of None \<Rightarrow> Op_none | Some d \<Rightarrow> Op_int d)
      else if v = asc ''${now}'' then Some Op_method else None)"

definition cast_value :: "('t, 'v) orm \<Rightarrow> user_info \<Rightarrow> 't \<Rightarrow> ustr \<Rightarrow> 'v sql_value" where
  "cast_value M user ty v =
     (case template user v of
        Some x \<Rightarrow> (case orm_cast M ty x of Some c \<Rightarrow> Cast c | None \<Rightarrow> Raw v)
      | None \<Rightarrow> if orm_is_str M ty then Raw v
                else (case orm_cast M ty (Op_text v) of Some c \<Rightarrow> Cast c | None \<Rightarrow> Raw v))"

text \<open>The condition of a rule on a model: expressions 0 to 5 compare, 6 and 7 test membership.\<close>

definition rule_condition :: "('t, 'v) orm \<Rightarrow> user_info \<Rightarrow> data_rule \<Rightarrow> ustr \<Rightarrow> 'v condition option" where
  "rule_condition M user rule model =
     (let column = resolve_column (dr_column rule) in
      case map_of (orm_columns M model) column of
        None \<Rightarrow> None
      | Some ty \<Rightarrow>
          if List.member DATA_PERMISSION_COLUMN_EXCLUDE column then None
          else if 0 \<le> dr_expression rule \<and> dr_expression rule \<le> 5
          then Some (Atom_holds (Atom (dr_expression rule) model column [cast_value M user ty (dr_value rule)]))
          else if dr_expression rule = 6 \<or> dr_expression rule = 7
          then Some (Atom_holds (Atom (dr_expression rule) model column
                 (map (\<lambda>v. cast_value M user ty (strip v)) (split_on 44 (dr_value rule)))))
          else None)"

definition target_models :: "ustr list \<Rightarrow> data_rule \<Rightarrow> ustr list" where
  "target_models models rule =
     (if dr_model rule = asc ''__ALL__'' then models
      else if List.member models (dr_model rule) then [dr_model rule] else [])"

text \<open>\<open>models\<close> are those of the call, or all models when it names none.\<close>

text \<open>The enabled rules, a set whose order is not determined; any order will do.\<close>

definition data_rules :: "user_info \<Rightarrow> data_rule list" where
  "data_rules user = remdups (concat (map (\<lambda>r. if ro_status (ri_role r) = 0 then []
     else concat (map (\<lambda>s. if sc_status (si_scope s) \<noteq> 0 then si_rules s else []) (ri_scopes r))) (ui_roles user)))"

definition conditions_with :: "('t, 'v) orm \<Rightarrow> user_info \<Rightarrow> ustr list \<Rightarrow> int \<Rightarrow> data_rule list \<Rightarrow> 'v condition list" where
  "conditions_with M user models operator rules = concat (map (\<lambda>rule. if dr_operator rule = operator
     then List.map_filter (rule_condition M user rule) (target_models models rule) else []) rules)"

definition filter_data_permission :: "('t, 'v) orm \<Rightarrow> ustr list \<Rightarrow> user_info \<Rightarrow> 'v condition" where
  "filter_data_permission M models user =
     (if ui_is_superuser user then Yes
      else if list_ex (\<lambda>r. ro_status (ri_role r) \<noteq> 0 \<and> \<not> ro_is_filter_scopes (ri_role r)) (ui_roles user) then Yes
      else if data_rules user = [] then No
      else let where_and = conditions_with M user models 0 (data_rules user);
               where_or = conditions_with M user models 1 (data_rules user);
               where_list = (if where_and \<noteq> [] then [All where_and] else [])
                          @ (if where_or \<noteq> [] then [Some_of where_or] else [])
           in if where_list \<noteq> [] then Some_of where_list else Yes)"

text \<open>
  What a data rule demands of a row, and when: of every enabled rule in the enabled scopes of the
  enabled roles.
\<close>

definition enabled_rule :: "user_info \<Rightarrow> data_rule \<Rightarrow> bool" where
  "enabled_rule user rule \<longleftrightarrow> (\<exists>r \<in> set (ui_roles user). ro_status (ri_role r) \<noteq> 0
     \<and> (\<exists>s \<in> set (ri_scopes r). sc_status (si_scope s) \<noteq> 0 \<and> rule \<in> set (si_rules s)))"

definition demands :: "('t, 'v) orm \<Rightarrow> user_info \<Rightarrow> ustr list \<Rightarrow> int \<Rightarrow> 'v condition \<Rightarrow> bool" where
  "demands M user models operator c \<longleftrightarrow> (\<exists>rule model. enabled_rule user rule \<and> dr_operator rule = operator
     \<and> model \<in> set (target_models models rule) \<and> rule_condition M user rule model = Some c)"

lemma set_data_rules: "rule \<in> set (data_rules user) \<longleftrightarrow> enabled_rule user rule"
  by (fastforce simp: data_rules_def enabled_rule_def split: if_splits)

lemma data_rules_Nil: "data_rules user = [] \<longleftrightarrow> (\<forall>rule. \<not> enabled_rule user rule)"
  using set_data_rules [of _ user] by (metis list.set_intros(1) neq_Nil_conv empty_iff list.set(1))

lemma set_conditions_with:
  "c \<in> set (conditions_with M user models operator (data_rules user)) \<longleftrightarrow> demands M user models operator c"
  by (force simp: conditions_with_def demands_def set_data_rules List.map_filter_def split: if_splits)

lemma conditions_with_Nil:
  "conditions_with M user models operator (data_rules user) = [] \<longleftrightarrow> (\<forall>c. \<not> demands M user models operator c)"
  using set_conditions_with [of _ M user models operator]
  by (metis list.set_intros(1) neq_Nil_conv empty_iff list.set(1))

section \<open>Properties\<close>

text \<open>A user with one enabled role, whose menu grants two permissions.\<close>

definition sample_user :: user where
  "sample_user = \<lparr>u_id = 7, u_uuid = asc ''u7'', u_username = asc ''ada'', u_nickname = asc ''Ada'',
     u_password = None, u_email = None, u_phone = None, u_avatar = None, u_status = 1, u_is_superuser = False,
     u_is_staff = True, u_is_multi_login = False, u_last_login_time = None, u_last_password_changed_time = None,
     u_dept_id = None, u_deleted = 0\<rparr>"

definition sample_admin_db :: admin_db where
  "sample_admin_db = \<lparr>a_users = [sample_user], a_depts = [],
     a_roles = [\<lparr>ro_id = 2, ro_name = asc ''editor'', ro_status = 1, ro_is_filter_scopes = True,
                 ro_remark = None, ro_deleted = 0\<rparr>],
     a_menus = [\<lparr>me_id = 5, me_title = asc ''Users'', me_parent_id = None, me_sort = 0, me_type = 2,
                 me_perms = Some (asc ''sys:user:add,sys:user:edit''), me_status = 1, me_deleted = 0\<rparr>],
     a_scopes = [], a_rules = [], a_user_role = [(7, 2)], a_role_menu = [(2, 5)], a_role_scope = [],
     a_scope_rule = [], a_history = []\<rparr>"

definition sample_rbac :: rbac_settings where
  "sample_rbac = \<lparr>TOKEN_REQUEST_PATH_EXCLUDE = [asc ''/api/v1/auth/login''], TOKEN_REQUEST_PATH_EXCLUDE_PATTERN = [],
     RBAC_ROLE_MENU_MODE = True, RBAC_ROLE_MENU_EXCLUDE = []\<rparr>"

definition sample_request :: "string \<Rightarrow> http_request" where
  "sample_request perm = \<lparr>rq_path = asc ''/api/v1/sys/users'', rq_method = asc ''POST'', rq_authenticated = True,
     rq_user = user_info_of sample_admin_db sample_user, rq_permission = Some (asc perm)\<rparr>"

text \<open>C23: For the description of a user that the database holds, \<open>rbac_verify\<close> lets a request pass exactly when
its path is open, or the request is authenticated and its user is a superuser, or has an enabled role,
has a menu in one of them, reads or is staff, and, in role-menu mode, needs no permission, one that is
exempt, or one that an enabled menu of an enabled role of the user grants.\<close>

theorem rbac_verify_iff:
  assumes "distinct (map me_id (a_menus db))" "rq_user rq = user_info_of db u" "RBAC_ROLE_MENU_MODE R"
  shows "rbac_verify R casbin rq = Inr () \<longleftrightarrow> whitelisted R (rq_path rq) \<or> rq_authenticated rq \<and>
    (u_is_superuser u \<or>
      (\<exists>r m. enabled_role db (u_id u) r \<and> menu_of_role db r m) \<and>
      (rq_method rq = asc ''GET'' \<or> rq_method rq = asc ''OPTIONS'' \<or> u_is_staff u) \<and>
      (case rq_permission rq of None \<Rightarrow> True
       | Some p \<Rightarrow> p = [] \<or> p \<in> set (RBAC_ROLE_MENU_EXCLUDE R) \<or> allowed db (u_id u) p))"
proof -
  let ?roles = "filter (\<lambda>r. ro_status (ri_role r) = 1) (ui_roles (user_info_of db u))"
  note roles = enabled_roles_of [of db u]
  have perms: "List.member (allow_perms ?roles) p \<longleftrightarrow> allowed db (u_id u) p" for p
    using allow_perms_iff [OF assms(1) roles] by simp
  have none: "?roles = [] \<longleftrightarrow> (\<forall>r. \<not> enabled_role db (u_id u) r)"
    using roles by (metis (no_types, lifting) Collect_empty_eq image_is_empty set_empty)
  have menus: "list_ex (\<lambda>r. 0 < length (ri_menus r)) ?roles \<longleftrightarrow>
      (\<exists>r m. enabled_role db (u_id u) r \<and> menu_of_role db r m)"
  proof -
    have "0 < length (ri_menus (role_info_of db r)) \<longleftrightarrow> (\<exists>m. menu_of_role db r m)" for r
      using role_info_menus [of db r] by (force simp: menu_of_role_def simp flip: set_empty)
    then show ?thesis unfolding list_ex_iff roles by auto
  qed
  have user: "ui_is_superuser (user_info_of db u) = u_is_superuser u" "ui_is_staff (user_info_of db u) = u_is_staff u"
    by (simp_all add: user_info_of_def)
  show ?thesis
    unfolding rbac_verify_def Let_def assms(2,3) user none menus permission_check_def perms
    by (cases "rq_permission rq") (auto simp: text_missing_def assms(3))
qed

theorem rbac_verify_iff_witness:
  "allowed sample_admin_db 7 (asc ''sys:user:edit'') \<and> \<not> allowed sample_admin_db 7 (asc ''sys:user:del'')"
proof -
  have d: "distinct (map me_id (a_menus sample_admin_db))" by code_simp
  have rq: "rq_user (sample_request perm) = user_info_of sample_admin_db sample_user"
    "rq_permission (sample_request perm) = Some (asc perm)" for perm by (simp_all add: sample_request_def)
  have mode: "RBAC_ROLE_MENU_MODE sample_rbac" by code_simp
  have "rbac_verify sample_rbac None (sample_request ''sys:user:edit'') = Inr ()" by code_simp
  moreover have "rbac_verify sample_rbac None (sample_request ''sys:user:del'')
      = Inl (AuthorizationError (asc ''Permission Denied''))" by code_simp
  moreover have "\<not> whitelisted sample_rbac (rq_path (sample_request perm))" "\<not> u_is_superuser sample_user"
    "rq_authenticated (sample_request perm)" "u_id sample_user = 7" "rq_method (sample_request perm) = asc ''POST''" for perm
    by (simp_all add: whitelisted_def sample_rbac_def sample_request_def sample_user_def asc_def)
  moreover have "asc ''sys:user:edit'' \<noteq> []" "asc ''sys:user:edit'' \<notin> set (RBAC_ROLE_MENU_EXCLUDE sample_rbac)"
    by (simp_all add: asc_def sample_rbac_def)
  ultimately show ?thesis
    using rbac_verify_iff [OF d rq(1) mode, of None "''sys:user:edit''"]
      rbac_verify_iff [OF d rq(1) mode, of None "''sys:user:del''"]
    by (simp add: rq(2))
qed

text \<open>C24: The condition that \<open>filter_data_permission\<close> builds lets through exactly the rows that data permissions
allow: all of them for a superuser or for a user with an enabled role that does not filter; none when
there is no enabled rule; and otherwise those that satisfy every condition of the AND rules, or one of
the OR rules, or any row when no rule applies to the models. The order of the rules plays no part.\<close>

theorem filter_data_permission_holds:
  "holds v (filter_data_permission M models user) \<longleftrightarrow>
    ui_is_superuser user
    \<or> list_ex (\<lambda>r. ro_status (ri_role r) \<noteq> 0 \<and> \<not> ro_is_filter_scopes (ri_role r)) (ui_roles user)
    \<or> Ex (enabled_rule user) \<and>
      ({c. demands M user models 0 c} = {} \<and> {c. demands M user models 1 c} = {}
       \<or> {c. demands M user models 0 c} \<noteq> {} \<and> {c. demands M user models 0 c} \<subseteq> {c. holds v c}
       \<or> (\<exists>c. demands M user models 1 c \<and> holds v c))"
proof -
  have a: "set (conditions_with M user models k (data_rules user)) = {c. demands M user models k c}" for k
    using set_conditions_with by blast
  show ?thesis
    unfolding filter_data_permission_def Let_def data_rules_Nil
    by (auto simp: list_all_iff list_ex_iff a simp flip: set_empty)
qed

end
