(* ===== verification/AdminProps.thy ===== *)
theory AdminProps
  imports AdminCoherent Rbac "HOL-Library.Countable"
begin

text \<open>What the accounts, sessions and permissions guarantee.\<close>

section \<open>Surroundings for examples\<close>

text \<open>
  Descriptions and payloads are countable, so they can be written as a number: a JSON and a token
  format in which nothing is lost.
\<close>

instance user_ext :: (countable) countable
  by (rule countable_classI [of "\<lambda>u. to_nat ((u_id u, u_uuid u, u_username u, u_nickname u, u_password u, u_email u,
    u_phone u, u_avatar u), (u_status u, u_is_superuser u, u_is_staff u, u_is_multi_login u, u_last_login_time u,
    u_last_password_changed_time u, u_dept_id u, u_deleted u), user.more u)"]) (auto intro: user.equality)

instance dept_ext :: (countable) countable
  by (rule countable_classI [of "\<lambda>d. to_nat (de_id d, de_name d, de_parent_id d, de_status d, de_deleted d,
    dept.more d)"]) (auto intro: dept.equality)

instance role_ext :: (countable) countable
  by (rule countable_classI [of "\<lambda>r. to_nat (ro_id r, ro_name r, ro_status r, ro_is_filter_scopes r, ro_remark r,
    ro_deleted r, role.more r)"]) (auto intro: role.equality)

instance menu_ext :: (countable) countable
  by (rule countable_classI [of "\<lambda>m. to_nat (me_id m, me_title m, me_parent_id m, me_sort m, me_type m, me_perms m,
    me_status m, me_deleted m, menu.more m)"]) (auto intro: menu.equality)

instance data_scope_ext :: (countable) countable
  by (rule countable_classI [of "\<lambda>s. to_nat (sc_id s, sc_name s, sc_status s, sc_deleted s, data_scope.more s)"])
    (auto intro: data_scope.equality)

instance data_rule_ext :: (countable) countable
  by (rule countable_classI [of "\<lambda>r. to_nat (dr_id r, dr_name r, dr_model r, dr_column r, dr_operator r,
    dr_expression r, dr_value r, dr_deleted r, data_rule.more r)"]) (auto intro: data_rule.equality)

instance scope_info_ext :: (countable) countable
  by (rule countable_classI [of "\<lambda>s. to_nat (si_scope s, si_rules s, scope_info.more s)"])
    (auto intro: scope_info.equality)

instance role_info_ext :: (countable) countable
  by (rule countable_classI [of "\<lambda>r. to_nat (ri_role r, ri_menus r, ri_scopes r, role_info.more r)"])
    (auto intro: role_info.equality)

instance user_info_ext :: (countable) countable
  by (rule countable_classI [of "\<lambda>u. to_nat ((ui_id u, ui_uuid u, ui_username u, ui_nickname u, ui_email u,
    ui_phone u, ui_avatar u, ui_status u), (ui_is_superuser u, ui_is_staff u, ui_is_multi_login u,
    ui_last_login_time u, ui_dept_id u, ui_dept u, ui_roles u), user_info.more u)"]) (auto intro: user_info.equality)

instance jwt_payload_ext :: (countable) countable
  by (rule countable_classI [of "\<lambda>p. to_nat (jp_session p, jp_sub p, jp_exp p, jwt_payload.more p)"])
    (auto intro: jwt_payload.equality)

definition sample_auth :: auth_deps where
  "sample_auth = \<lparr>d_encode = (\<lambda>p. [to_nat p]),
     d_decode = (\<lambda>now t. case t of [n] \<Rightarrow> let p = from_nat n :: jwt_payload in
        if (case jp_exp p of None \<Rightarrow> False | Some e \<Rightarrow> e < now) then Jwt_expired else Jwt_payload p | _ \<Rightarrow> Jwt_invalid),
     d_dump = (\<lambda>ui. [to_nat ui]), d_load = (\<lambda>s. Inr (from_nat (hd s))), d_json = (\<lambda>_. asc ''{}''),
     d_time_str = str_int, d_time_parse = parse_int, d_hash = (\<lambda>pw salt. pw), d_verify = (=),
     d_lower = (\<lambda>s. s), d_decimal = (\<lambda>c. 48 \<le> c \<and> c \<le> 57), d_text = (\<lambda>k. k),
     d_scheme = (\<lambda>h. (asc ''bearer'', drop 7 h)), d_sync = True\<rparr>"

lemma sample_load: "d_load sample_auth (d_dump sample_auth ui) = Inr ui"
  by (simp add: sample_auth_def)

lemma sample_decode:
  "now \<le> e \<Longrightarrow> e \<noteq> 0 \<Longrightarrow> sid \<noteq> [] \<Longrightarrow> jwt_decode sample_auth now (d_encode sample_auth (payload_for sid e u))
     = Inr \<lparr>tp_user_id = u, tp_session_uuid = sid, tp_expire_time = e\<rparr>"
  by (rule jwt_decode_payload) (simp_all add: sample_auth_def payload_for_def)

lemma sample_session:
  assumes "now \<le> t" "t < now + TOKEN_EXPIRE_SECONDS S * 1000"
  shows "r_get t (token_key u sid) (fst (create_access_token sample_auth S now sid u multi kws st))
    = Some (d_encode sample_auth (payload_for sid (now + TOKEN_EXPIRE_SECONDS S * 1000) u))"
  using create_access_token_session [OF assms(1), of u sid sample_auth S sid u multi kws st] assms(2)
  by (simp add: create_access_token_def Let_def)

section \<open>Authentication\<close>

text \<open>
  The specification: a token is good while Redis holds it for the session it names, and its user is
  looked up in the database, whatever is cached.
\<close>

definition authenticate_spec :: "auth_deps \<Rightarrow> int \<Rightarrow> ustr \<Rightarrow> aworld \<Rightarrow> user_info res" where
  "authenticate_spec D now token w = rbind (jwt_decode D now token) (\<lambda>p.
     case r_get now (token_key (tp_user_id p) (tp_session_uuid p)) (red w) of
       None \<Rightarrow> Inl (TokenError msg_token_expired)
     | Some stored \<Rightarrow>
         if stored = [] then Inl (TokenError msg_token_expired)
         else if stored \<noteq> token then Inl (TokenError msg_token_stale)
         else get_current_user (tp_user_id p) (adb w))"

text \<open>
  Errors are the same, users have the same description; only a department that is gone or locked may go
  unnoticed.
\<close>

definition refines :: "user_info res \<Rightarrow> user_info res \<Rightarrow> bool" where
  "refines r spec \<longleftrightarrow>
     (case (r, spec) of
        (Inl e, _) \<Rightarrow> spec = Inl e
      | (Inr user, Inr ui) \<Rightarrow> view user = view ui
      | (Inr user, Inl e) \<Rightarrow> e = AuthorizationError msg_dept_gone \<or> e = AuthorizationError msg_dept_locked)"

lemma refines_refl: "refines r r"
  by (cases r) (auto simp: refines_def)

lemma cached_user_refines:
  assumes "active ui" "view_of pk db = Some (view ui)"
  shows "refines (Inr ui) (get_current_user pk db)"
proof -
  obtain cur where j: "get_join pk db = Some cur" and v: "view cur = view ui"
    using assms(2) by (auto simp: view_of_def)
  have "ui_status (view cur) = ui_status cur" "ui_status (view ui) = ui_status ui"
    "ui_roles (view cur) = ui_roles cur" "ui_roles (view ui) = ui_roles ui"
    by (simp_all add: view_def)
  then have "ui_status cur = ui_status ui" "ui_roles cur = ui_roles ui" using v by metis+
  then show ?thesis
    using assms(1) v by (auto simp: refines_def get_current_user_def j active_def list_ex_iff list_all_iff)
qed

text \<open>C25: Whatever requests were made before, in any order - logins, renewals, kicks, changes of users,
passwords, roles, menus, data scopes, data rules and departments, only not the deletion of a menu - and whichever
others were authenticated between the moment such a request deleted cached users and its commit, authenticating a
request gives the same error or the same description as looking the user up would, in the database as it is or in
one that a commit replaced while others were authenticated in its window; when nobody was (\<open>old = []\<close>), in the
database as it is. The description agrees in everything but the time of the last login and the department, whose
deletion or lock may go unnoticed. Requests that change something do so one after the other.\<close>

theorem authentication_refines:
  assumes "\<And>ui. d_load D (d_dump D ui) = Inr ui" "wreachable D S old t w" "t \<le> now"
  shows "\<exists>db \<in> set (adb w # old).
    refines (snd (jwt_authentication D S now token w)) (authenticate_spec D now token (w\<lparr>adb := db\<rparr>))"
proof -
  have coh: "dated D old now w" using wreachable_dated [OF assms(2,1)] dated_later assms(3) by blast
  have user: "\<exists>db \<in> set (adb w # old). refines (snd (get_jwt_user D S now u w)) (get_current_user u db)" for u
  proof (cases "\<exists>c v. r_get now (user_key u) (red w) = Some (c # v)")
    case True
    then obtain c v where g: "r_get now (user_key u) (red w) = Some (c # v)" by blast
    obtain ui db where "d_load D (c # v) = Inr ui" "active ui" "db \<in> set (adb w # old)"
      "view_of u db = Some (view ui)"
      using coh g unfolding dated_def by blast
    then show ?thesis using cached_user_refines g by (intro bexI [of _ db]) (simp_all add: get_jwt_user_def)
  next
    case False
    then have "snd (get_jwt_user D S now u w) = get_current_user u (adb w)"
      by (auto simp: get_jwt_user_def split: option.splits list.splits sum.splits)
    then show ?thesis by (simp add: refines_refl)
  qed
  show ?thesis
    using user by (auto simp: jwt_authentication_def authenticate_spec_def refines_refl split: sum.splits option.splits)
qed

text \<open>
  What the window does: a user who is authenticated after the deletion of the cached description and before the
  commit is found with that description for as long as a session lasts, whatever database was committed.
\<close>

theorem window_keeps_old_user:
  assumes "d_load D (d_dump D ui) = Inr ui" "d_dump D ui \<noteq> []" "get_current_user u (adb w) = Inr ui"
    "\<And>c v. r_get t (user_key u) (red w) \<noteq> Some (c # v)" "now < t + TOKEN_EXPIRE_SECONDS S * 1000"
  shows "snd (get_jwt_user D S now u ((fst (get_jwt_user D S t u w))\<lparr>adb := db\<rparr>)) = Inr ui"
proof -
  have "fst (get_jwt_user D S t u w)
      = w\<lparr>red := r_set t (user_key u) (d_dump D ui) (Some (TOKEN_EXPIRE_SECONDS S)) (red w)\<rparr>"
    using assms(3,4) by (auto simp: get_jwt_user_def split: option.splits list.splits)
  then have "r_get now (user_key u) (red (fst (get_jwt_user D S t u w))) = Some (d_dump D ui)"
    using assms(5) by (simp add: r_get_set alive_def)
  then show ?thesis using assms(1,2) by (auto simp: get_jwt_user_def neq_Nil_conv)
qed

definition sample_client :: client where
  "sample_client = \<lparr>cl_ip = None, cl_os = None, cl_browser = None, cl_device = None\<rparr>"

definition sample_account :: user where
  "sample_account = sample_user\<lparr>u_password := Some (asc ''secret1''), u_last_password_changed_time := Some 0\<rparr>"

definition sample_world :: aworld where
  "sample_world = \<lparr>adb = sample_admin_db\<lparr>a_users := [sample_account]\<rparr>, red = [], alog = []\<rparr>"

definition sample_token :: ustr where
  "sample_token = d_encode sample_auth (payload_for (asc ''s1'') 86401000 7)"

definition sample_step :: aaction where
  "sample_step = SwaggerLogin (asc ''s1'') (asc ''ada'') (asc ''secret1'')"

lemma sample_verify:
  "user_verify sample_auth default_auth_settings 1000 (asc ''ada'') (asc ''secret1'') sample_world
     = (sample_world, Inr (sample_account, None))"
proof -
  have u: "get_by_username (asc ''ada'') (adb sample_world) = Some sample_account" by code_simp
  have "check_password_expiry_status default_auth_settings 1000 (u_last_password_changed_time sample_account) = Inr None"
    by code_simp
  moreover have "u_status sample_account = 1" "u_password sample_account = Some (asc ''secret1'')" by code_simp+
  moreover have "red sample_world = []" by (simp add: sample_world_def)
  ultimately show ?thesis
    by (simp add: user_verify_def u check_status_def on_redis_def r_get_def handle_login_success_def r_delete_def)
      (simp add: sample_auth_def)
qed

definition sample_redis :: redis where
  "sample_redis = fst (create_access_token sample_auth default_auth_settings 1000 (asc ''s1'') 7 False
     [(asc ''swagger'', Kw_bool True)] [])"

definition sample_logged_in :: aworld where
  "sample_logged_in = sample_world\<lparr>adb := update_login_time 1000 (asc ''ada'') (adb sample_world), red := sample_redis\<rparr>"

lemma sample_login: "aperform sample_auth default_auth_settings 1000 sample_step sample_world = sample_logged_in"
proof -
  have "u_id sample_account = 7" "u_is_multi_login sample_account = False" by code_simp+
  then show ?thesis
    by (simp add: sample_step_def run_def transaction_def swagger_login_def sample_verify case_prod_beta
        sample_logged_in_def sample_redis_def) (simp add: sample_world_def)
qed

lemma sample_wreachable: "wreachable sample_auth default_auth_settings [] 1000 sample_logged_in"
proof -
  have "links_ok (adb sample_world)"
    by (simp add: links_ok_def sample_world_def sample_admin_db_def ends_in_def)
  then have r: "wreachable sample_auth default_auth_settings [] 0 sample_world"
    using wreachable.initial [of "adb sample_world"] by (simp add: sample_world_def)
  have k: "keeps_menus sample_step" by (simp add: keeps_menus_def sample_step_def)
  show ?thesis using wreachable.step [OF r _ k, of 1000, unfolded sample_login] by simp
qed

lemma sample_token_stored:
  "r_get 2000 (token_key 7 (asc ''s1'')) (red sample_logged_in) = Some sample_token"
  "r_get 2000 (user_key 7) (red sample_logged_in) = None"
proof -
  have "TOKEN_EXPIRE_SECONDS default_auth_settings = 86400" by code_simp
  then show "r_get 2000 (token_key 7 (asc ''s1'')) (red sample_logged_in) = Some sample_token"
    using sample_session [of 1000 2000 default_auth_settings]
    by (simp add: sample_logged_in_def sample_redis_def sample_token_def)
  show "r_get 2000 (user_key 7) (red sample_logged_in) = None"
    using create_access_token_others(2) [of 1000 2000]
    by (simp add: sample_logged_in_def sample_redis_def r_get_def)
qed

lemma sample_token_decode:
  "jwt_decode sample_auth 2000 sample_token
     = Inr \<lparr>tp_user_id = 7, tp_session_uuid = asc ''s1'', tp_expire_time = 86401000\<rparr>"
  unfolding sample_token_def by (rule sample_decode) (simp_all add: asc_def)

lemma sample_token_nonempty: "sample_token \<noteq> []"
  by (simp add: sample_token_def sample_auth_def)

text \<open>Here the logged-in user is found in the database, with the password's owner's rights.\<close>

theorem authentication_refines_witness:
  "\<exists>ui. snd (jwt_authentication sample_auth default_auth_settings 2000 sample_token sample_logged_in) = Inr ui
     \<and> ui_id ui = 7 \<and> refines (Inr ui) (authenticate_spec sample_auth 2000 sample_token sample_logged_in)"
proof -
  have "is_ok (get_current_user 7 (adb sample_logged_in))"
    "rmap ui_id (get_current_user 7 (adb sample_logged_in)) = Inr 7"
    unfolding sample_logged_in_def by code_simp+
  then obtain ui where ui: "get_current_user 7 (adb sample_logged_in) = Inr ui" "ui_id ui = 7"
    by (auto simp: rmap_Inr_iff)
  then have "snd (jwt_authentication sample_auth default_auth_settings 2000 sample_token sample_logged_in) = Inr ui"
    by (simp add: jwt_authentication_def sample_token_decode sample_token_stored sample_token_nonempty get_jwt_user_def)
  then show ?thesis
    using authentication_refines [OF sample_load sample_wreachable, of 2000 sample_token] ui(2) by auto
qed

end
