(* ===== verification/SessionProps.thy ===== *)
theory SessionProps
  imports AdminProps
begin

text \<open>How sessions end, which of them go on, and what keeps a cached description alive.\<close>

section \<open>Dead sessions\<close>

definition no_session :: "int \<Rightarrow> int \<Rightarrow> ustr \<Rightarrow> redis \<Rightarrow> bool" where
  "no_session t u sid st \<longleftrightarrow> r_get t (token_key u sid) st = None \<and> r_get t (refresh_key u sid) st = None"

lemma no_session_refused:
  assumes "jwt_decode D t token = Inr p" "no_session t (tp_user_id p) (tp_session_uuid p) (red w)"
  shows "snd (jwt_authentication D S t token w) = Inl (TokenError msg_token_expired)"
    "\<exists>e. snd (refresh_session D S t sid cl (Some token) w) = Inl e"
proof -
  show "snd (jwt_authentication D S t token w) = Inl (TokenError msg_token_expired)"
    using assms jwt_authentication_no_session by (simp add: no_session_def)
  have "get_user (tp_user_id p) (adb w) = Some u \<Longrightarrow> u_id u = tp_user_id p" for u
    using get_user_SomeD by blast
  then show "\<exists>e. snd (refresh_session D S t sid cl (Some token) w) = Inl e"
    using assms by (cases "get_user (tp_user_id p) (adb w)")
      (auto simp: refresh_session_def no_session_def create_new_token_def on_redis_def)
qed

lemma fst_run: "fst (f w) = w' \<Longrightarrow> snd (f w) = Inr x \<Longrightarrow> run f w = w'"
  by (cases "f w") (auto simp: run_def transaction_def)

lemma run_red: "red (run f w) = red (fst (f w))"
  by (cases "f w"; cases "snd (f w)") (auto simp: run_def transaction_def)

section \<open>New passwords and deleted accounts\<close>

text \<open>The requests that change the credentials of an account.\<close>

definition ends_account_sessions ::
  "auth_deps \<Rightarrow> auth_settings \<Rightarrow> int \<Rightarrow> int \<Rightarrow> (aworld \<Rightarrow> aworld \<times> int res) \<Rightarrow> bool" where
  "ends_account_sessions D S now pk f \<longleftrightarrow>
     (\<exists>salt pw. f = user_reset_password D S now salt pk pw)
     \<or> (\<exists>salt obj. f = user_update_password D S now salt pk obj) \<or> f = user_delete now pk"

lemma change_password_red:
  "snd (change_password D S now salt user pw w) = Inr n \<Longrightarrow>
    red (fst (change_password D S now salt user pw w)) = end_sessions now (u_id user) (red w)"
  by (auto simp: change_password_def Let_def case_prod_beta split: sum.splits option.splits)

lemma ends_account_sessions_red:
  assumes "ends_account_sessions D S now pk f" "snd (f w) = Inr n"
  shows "red (run f w) = end_sessions now pk (red w)"
  using assms unfolding run_red ends_account_sessions_def
  by (auto simp: user_reset_password_def user_update_password_def user_delete_def case_prod_beta
      split: option.splits if_splits dest!: get_user_SomeD change_password_red)

text \<open>C26: Resetting or changing a password and deleting an account end every session of the account: from
then on no earlier token of the account authenticates a request or can be renewed, whatever it was, and
no description of it stays cached. The sessions of all other accounts go on.\<close>

theorem credentials_end_sessions:
  assumes "ends_account_sessions D S now pk f" "snd (f w) = Inr n" "now \<le> t"
  shows "(\<forall>token p. jwt_decode D t token = Inr p \<and> tp_user_id p = pk \<longrightarrow>
      snd (jwt_authentication D S t token (run f w)) = Inl (TokenError msg_token_expired)
      \<and> (\<exists>e. snd (refresh_session D S t sid cl (Some token) (run f w)) = Inl e))
    \<and> r_get t (user_key pk) (red (run f w)) = None
    \<and> (\<forall>u s. u \<noteq> pk \<longrightarrow> r_get t (token_key u s) (red (run f w)) = r_get t (token_key u s) (red w)
      \<and> r_get t (refresh_key u s) (red (run f w)) = r_get t (refresh_key u s) (red w))"
proof -
  have r: "red (run f w) = end_sessions now pk (red w)" by (rule ends_account_sessions_red [OF assms(1,2)])
  have "snd (jwt_authentication D S t token (run f w)) = Inl (TokenError msg_token_expired)
      \<and> (\<exists>e. snd (refresh_session D S t sid cl (Some token) (run f w)) = Inl e)"
    if "jwt_decode D t token = Inr p" "tp_user_id p = pk" for token p
    using no_session_refused [OF that(1), of "run f w"] that(2)
    by (simp add: r no_session_def r_get_end_sessions [OF assms(3)])
  then show ?thesis
    by (simp add: r r_get_end_sessions [OF assms(3)])
qed

theorem credentials_end_sessions_witness:
  "snd (jwt_authentication sample_auth default_auth_settings 2000 sample_token
      (run (user_delete 1500 7) sample_logged_in)) = Inl (TokenError msg_token_expired)"
proof -
  have "rmap (\<lambda>_. ()) (snd (user_delete 1500 7 (sample_logged_in\<lparr>red := []\<rparr>))) = Inr ()"
    unfolding sample_logged_in_def by code_simp
  moreover have "snd (user_delete 1500 7 (sample_logged_in\<lparr>red := []\<rparr>)) = snd (user_delete 1500 7 sample_logged_in)"
    by (simp add: user_delete_def case_prod_beta split: option.splits)
  ultimately obtain n where n: "snd (user_delete 1500 7 sample_logged_in) = Inr n" by (auto simp: rmap_Inr_iff)
  have "ends_account_sessions sample_auth default_auth_settings 1500 7 (user_delete 1500 7)"
    by (simp add: ends_account_sessions_def)
  from credentials_end_sessions [OF this n] sample_token_decode show ?thesis by simp
qed

section \<open>One session at a time\<close>

lemma user_verify_InrD:
  assumes "user_verify D S now name pw w = (w', Inr (u, d))"
  shows "adb w' = adb w" "get_by_username name (adb w) = Some u" "u_status u \<noteq> 0"
    "u_password u \<noteq> None" "d_verify D pw (the (u_password u))"
    "r_get t (token_key k s) (red w') = r_get t (token_key k s) (red w)"
  using assms by (auto simp: user_verify_def on_redis_def check_status_def handle_login_success_def r_get_delete sbind_Inr
      split: option.splits if_splits list.splits sum.splits prod.splits)

lemma token_values:
  "at_session_uuid (snd (create_access_token D S now sid k m kws st)) = sid"
  "at_token (snd (create_access_token D S now sid k m kws st))
    = d_encode D (payload_for sid (now + TOKEN_EXPIRE_SECONDS S * 1000) k)"
  "rt_token (snd (create_refresh_token D S now sid k m st))
    = d_encode D (payload_for sid (now + TOKEN_REFRESH_EXPIRE_SECONDS S * 1000) k)"
  by (simp_all add: create_access_token_def create_refresh_token_def Let_def)

lemma login_InrD:
  assumes "login D S now sid uuid cl obj w = (w', Inr data)"
  obtains u st where "u_id (lt_user data) = u_id u" "u_is_multi_login (lt_user data) = u_is_multi_login u"
    "get_by_username (lp_username obj) (adb w) = Some u" "u_status u \<noteq> 0"
    "d_verify D (lp_password obj) (the (u_password u))" "lt_session_uuid data = sid"
    "red w' = fst (create_refresh_token D S now sid (u_id u) (u_is_multi_login u)
       (fst (create_access_token D S now sid (u_id u) (u_is_multi_login u)
         (extra_info D ''device'' cl (lt_user data)) st)))"
    "lt_access_token data = d_encode D (payload_for sid (now + TOKEN_EXPIRE_SECONDS S * 1000) (u_id u))"
    "lt_refresh_cookie data = d_encode D (payload_for sid (now + TOKEN_REFRESH_EXPIRE_SECONDS S * 1000) (u_id u))"
proof -
  obtain w1 where w1: "login_body D S now sid cl obj w = (w1, Inr data)" "red w' = red w1"
    using assms by (auto simp: login_def transaction_def split: prod.splits sum.splits exc.splits)
  then obtain w2 w3 u d where c: "on_redis (check_captcha D S now obj) w = (w2, Inr ())"
    and v: "user_verify D S now (lp_username obj) (lp_password obj) w2 = (w3, Inr (u, d))"
    and e: "open_session D S now sid cl (lp_username obj) (u, d) w3 = (w1, Inr data)"
    by (auto simp: login_body_def sbind_Inr)
  have db: "adb w2 = adb w" using c by (auto simp: on_redis_def split: prod.splits)
  note vd = user_verify_InrD [OF v]
  show ?thesis
    by (rule that [of u "red w3"]) (use e vd w1(2) in \<open>auto simp: open_session_def Let_def case_prod_beta token_values db\<close>)
qed

lemma new_session_only:
  assumes "now \<le> t" "\<not> multi" "s \<noteq> sid"
  shows "no_session t u s (fst (create_refresh_token D S now sid u multi (fst (create_access_token D S now sid u multi kws st))))"
  using assms by (simp add: no_session_def create_refresh_token_session create_refresh_token_others
      create_access_token_session create_access_token_others)

lemma new_session_stored:
  assumes "now \<le> t"
  shows "t < now + TOKEN_EXPIRE_SECONDS S * 1000 \<Longrightarrow>
      r_get t (token_key u sid) (fst (create_refresh_token D S now sid u multi (fst (create_access_token D S now sid u multi kws st))))
        = Some (d_encode D (payload_for sid (now + TOKEN_EXPIRE_SECONDS S * 1000) u))"
    "t < now + TOKEN_REFRESH_EXPIRE_SECONDS S * 1000 \<Longrightarrow>
      r_get t (refresh_key u sid) (fst (create_refresh_token D S now sid u multi (fst (create_access_token D S now sid u multi kws st))))
        = Some (d_encode D (payload_for sid (now + TOKEN_REFRESH_EXPIRE_SECONDS S * 1000) u))"
  using assms by (simp_all add: create_refresh_token_session create_refresh_token_others create_access_token_session token_values)

text \<open>C27: A login verifies the password of an enabled account of that name and opens a session: until it expires,
Redis holds the two tokens it returned under the account and the new session. For an account that may
not be logged in more than once it is the only one left: no token of another session of the account
authenticates a request or can be renewed any more.\<close>

theorem login_session:
  assumes "login D S now sid uuid cl obj w = (w', Inr data)" "now \<le> t"
  shows "\<exists>u. get_by_username (lp_username obj) (adb w) = Some u \<and> u_status u \<noteq> 0
    \<and> d_verify D (lp_password obj) (the (u_password u))
    \<and> (t < now + TOKEN_EXPIRE_SECONDS S * 1000 \<longrightarrow>
        r_get t (token_key (u_id u) sid) (red w') = Some (lt_access_token data))
    \<and> (t < now + TOKEN_REFRESH_EXPIRE_SECONDS S * 1000 \<longrightarrow>
        r_get t (refresh_key (u_id u) sid) (red w') = Some (lt_refresh_cookie data))
    \<and> (\<forall>token p. \<not> u_is_multi_login u \<and> jwt_decode D t token = Inr p \<and> tp_user_id p = u_id u \<and>
        tp_session_uuid p \<noteq> sid \<longrightarrow>
        snd (jwt_authentication D S t token w') = Inl (TokenError msg_token_expired)
        \<and> (\<exists>e. snd (refresh_session D S t sid' cl' (Some token) w') = Inl e))"
proof -
  obtain u st where u: "get_by_username (lp_username obj) (adb w) = Some u" "u_status u \<noteq> 0"
    "d_verify D (lp_password obj) (the (u_password u))"
    and r: "red w' = fst (create_refresh_token D S now sid (u_id u) (u_is_multi_login u)
       (fst (create_access_token D S now sid (u_id u) (u_is_multi_login u)
         (extra_info D ''device'' cl (lt_user data)) st)))"
    and l: "lt_access_token data = d_encode D (payload_for sid (now + TOKEN_EXPIRE_SECONDS S * 1000) (u_id u))"
    "lt_refresh_cookie data = d_encode D (payload_for sid (now + TOKEN_REFRESH_EXPIRE_SECONDS S * 1000) (u_id u))"
    by (rule login_InrD [OF assms(1)])
  have "snd (jwt_authentication D S t token w') = Inl (TokenError msg_token_expired)
        \<and> (\<exists>e. snd (refresh_session D S t sid' cl' (Some token) w') = Inl e)"
    if "\<not> u_is_multi_login u" "jwt_decode D t token = Inr p" "tp_user_id p = u_id u" "tp_session_uuid p \<noteq> sid" for token p
  proof -
    have "no_session t (tp_user_id p) (tp_session_uuid p) (red w')"
      unfolding r that(3) by (rule new_session_only [OF assms(2) that(1,4)])
    then show ?thesis using no_session_refused [OF that(2)] by blast
  qed
  then show ?thesis
    using u new_session_stored [OF assms(2)] by (auto simp: r l)
qed

theorem login_session_witness:
  "\<exists>w' data. login sample_auth (default_auth_settings\<lparr>LOGIN_CAPTCHA_ENABLED := False\<rparr>) 2000 (asc ''s2'') [] sample_client
      \<lparr>lp_username = asc ''ada'', lp_password = asc ''secret1'', lp_uuid = None, lp_captcha = None\<rparr> sample_logged_in
      = (w', Inr data)
    \<and> snd (jwt_authentication sample_auth default_auth_settings 3000 sample_token w') = Inl (TokenError msg_token_expired)"
proof -
  let ?S = "default_auth_settings\<lparr>LOGIN_CAPTCHA_ENABLED := False\<rparr>"
  let ?obj = "\<lparr>lp_username = asc ''ada'', lp_password = asc ''secret1'', lp_uuid = None, lp_captcha = None\<rparr>"
  let ?u = "sample_account\<lparr>u_last_login_time := Some 1000\<rparr>"
  have u: "get_by_username (asc ''ada'') (adb sample_logged_in) = Some ?u"
    unfolding sample_logged_in_def by code_simp
  have f: "check_password_expiry_status ?S 2000 (u_last_password_changed_time ?u) = Inr None"
    "u_status ?u = 1" "u_password ?u = Some (asc ''secret1'')" "u_id ?u = 7" "u_is_multi_login ?u = False" by code_simp+
  have lock: "r_get 2000 (lock_key 7) (red sample_logged_in) = None"
  proof -
    have "lock_key 7 \<noteq> token_key 7 s" "lock_key 7 \<noteq> extra_key 7 s" for s by (simp_all add: key_defs asc_def)
    then show ?thesis
      by (simp add: sample_logged_in_def sample_redis_def create_access_token_def Let_def r_get_set delete_by_prefix_get)
        (simp add: r_get_def)
  qed
  have "d_verify sample_auth = (=)" by (simp add: sample_auth_def)
  then have v: "user_verify sample_auth ?S 2000 (asc ''ada'') (asc ''secret1'') sample_logged_in
      = (sample_logged_in\<lparr>red := handle_login_success 7 (red sample_logged_in)\<rparr>, Inr (?u, None))"
    using f lock by (simp add: user_verify_def u check_status_def on_redis_def)
  have "check_captcha sample_auth ?S 2000 ?obj (red sample_logged_in) = (red sample_logged_in, Inr ())"
    by (simp add: check_captcha_def)
  then have "\<exists>w1 data. login_body sample_auth ?S 2000 (asc ''s2'') sample_client ?obj sample_logged_in = (w1, Inr data)"
    using v by (simp add: login_body_def on_redis_def open_session_def Let_def case_prod_beta)
  then obtain w' data where l: "login sample_auth ?S 2000 (asc ''s2'') [] sample_client ?obj sample_logged_in = (w', Inr data)"
    by (auto simp: login_def transaction_def)
  have d: "jwt_decode sample_auth 3000 sample_token
     = Inr \<lparr>tp_user_id = 7, tp_session_uuid = asc ''s1'', tp_expire_time = 86401000\<rparr>"
    unfolding sample_token_def by (rule sample_decode) (simp_all add: asc_def)
  have "asc ''s1'' \<noteq> asc ''s2''" by (simp add: asc_def)
  then have "snd (jwt_authentication sample_auth ?S 3000 sample_token w') = Inl (TokenError msg_token_expired)"
    using login_session [OF l, of 3000] u f d by auto
  moreover have "snd (jwt_authentication sample_auth ?S 3000 sample_token w')
      = snd (jwt_authentication sample_auth default_auth_settings 3000 sample_token w')"
    by (auto simp: jwt_authentication_def get_jwt_user_def split: sum.splits option.splits list.splits)
  ultimately show ?thesis using l by auto
qed

end
