(* ===== verification/RenewalProps.thy ===== *)
theory RenewalProps
  imports SessionProps
begin

text \<open>Renewing a session, revoking one, and what the cache does not notice.\<close>

section \<open>Renewal\<close>

lemma create_new_token_InrD:
  assumes "create_new_token D S now nsid token sid u multi kws st = (st', Inr nt)"
  shows "r_get now (refresh_key u sid) st = Some token" "token \<noteq> []"
    "st' = fst (create_refresh_token D S now nsid u multi (fst (create_access_token D S now nsid u multi kws
      (r_delete (token_key u sid) (r_delete (refresh_key u sid) st)))))"
    "nt_access_token nt = d_encode D (payload_for nsid (now + TOKEN_EXPIRE_SECONDS S * 1000) u)"
    "nt_refresh_token nt = d_encode D (payload_for nsid (now + TOKEN_REFRESH_EXPIRE_SECONDS S * 1000) u)"
  using assms by (auto simp: create_new_token_def Let_def case_prod_beta token_values split: if_splits)

lemma refresh_session_InrD:
  assumes "refresh_session D S now nsid cl (Some token) w = (w', Inr nt)"
  obtains p u where "jwt_decode D now token = Inr p" "get_user (tp_user_id p) (adb w) = Some u"
    "u_id u = tp_user_id p" "u_status u \<noteq> 0" "adb w' = adb w" "u_last_login_time u \<noteq> None"
    "u_is_multi_login u \<or> \<not> list_ex (other_session (tp_session_uuid p))
       (get_by_prefix now (TOKEN_REDIS_PREFIX (u_id u)) (red w))"
    "create_new_token D S now nsid token (tp_session_uuid p) (tp_user_id p) (u_is_multi_login u)
       (extra_info D ''device_type'' cl u) (red w) = (red w', Inr nt)"
proof -
  obtain p u where d: "jwt_decode D now token = Inr p" "get_user (tp_user_id p) (adb w) = Some u"
    and r: "u_status u \<noteq> 0" "u_last_login_time u \<noteq> None"
      "u_is_multi_login u \<or> \<not> list_ex (other_session (tp_session_uuid p))
         (get_by_prefix now (TOKEN_REDIS_PREFIX (u_id u)) (red w))"
      "on_redis (create_new_token D S now nsid token (tp_session_uuid p) (u_id u)
         (u_is_multi_login u) (extra_info D ''device_type'' cl u)) w = (w', Inr nt)"
    using assms by (auto simp: refresh_session_def text_missing_def Let_def split: sum.splits option.splits if_splits)
  have id: "u_id u = tp_user_id p" using d(2) get_user_SomeD by blast
  have "adb w' = adb w" "create_new_token D S now nsid token (tp_session_uuid p) (tp_user_id p) (u_is_multi_login u)
       (extra_info D ''device_type'' cl u) (red w) = (red w', Inr nt)"
    using r(4) id by (auto simp: on_redis_def split: prod.splits)
  then show ?thesis by (intro that [OF d id]) (use r in auto)
qed

text \<open>C28: A renewal succeeds only with the refresh token that Redis holds for a session of an enabled account. It
then replaces the session: the old access and refresh token are worth nothing from then on - a refresh
token is used once - and the new pair is stored under the new session until it expires.\<close>

theorem refresh_rotates:
  assumes "refresh_session D S now nsid cl (Some token) w = (w', Inr nt)" "jwt_decode D now token = Inr p"
    "nsid \<noteq> tp_session_uuid p" "now \<le> t"
  shows "r_get now (refresh_key (tp_user_id p) (tp_session_uuid p)) (red w) = Some token
    \<and> (\<exists>u. get_user (tp_user_id p) (adb w) = Some u \<and> u_status u \<noteq> 0)
    \<and> (\<forall>old q. jwt_decode D t old = Inr q \<and> tp_user_id q = tp_user_id p \<and> tp_session_uuid q = tp_session_uuid p \<longrightarrow>
        snd (jwt_authentication D S t old w') = Inl (TokenError msg_token_expired)
        \<and> (\<exists>e. snd (refresh_session D S t sid cl' (Some old) w') = Inl e))
    \<and> (t < now + TOKEN_EXPIRE_SECONDS S * 1000 \<longrightarrow>
        r_get t (token_key (tp_user_id p) nsid) (red w') = Some (nt_access_token nt))
    \<and> (t < now + TOKEN_REFRESH_EXPIRE_SECONDS S * 1000 \<longrightarrow>
        r_get t (refresh_key (tp_user_id p) nsid) (red w') = Some (nt_refresh_token nt))"
proof -
  obtain q u where q: "jwt_decode D now token = Inr q" and u: "get_user (tp_user_id q) (adb w) = Some u" "u_status u \<noteq> 0"
    and c: "create_new_token D S now nsid token (tp_session_uuid q) (tp_user_id q) (u_is_multi_login u)
       (extra_info D ''device_type'' cl u) (red w) = (red w', Inr nt)"
    by (rule refresh_session_InrD [OF assms(1)])
  have pq: "q = p" using q assms(2) by simp
  note n = create_new_token_InrD [OF c [unfolded pq]]
  have "no_session t (tp_user_id p) (tp_session_uuid p) (red w')"
    unfolding n(3) no_session_def using assms(3,4)
    by (simp add: create_refresh_token_session create_refresh_token_others create_access_token_session
        create_access_token_others r_get_delete)
  then show ?thesis
    using n(1) u pq new_session_stored [OF assms(4)] no_session_refused
    by (simp add: n(3-5))
qed

definition renewal_world :: aworld where
  "renewal_world = \<lparr>adb = sample_admin_db\<lparr>a_users := [sample_account\<lparr>u_last_login_time := Some 1000,
       u_is_multi_login := True\<rparr>]\<rparr>,
     red = fst (create_refresh_token sample_auth default_auth_settings 1000 (asc ''s1'') 7 True
       (fst (create_access_token sample_auth default_auth_settings 1000 (asc ''s1'') 7 True [] []))), alog = []\<rparr>"

definition renewal_token :: ustr where
  "renewal_token = d_encode sample_auth (payload_for (asc ''s1'') 604801000 7)"

lemma renewal_decode:
  assumes "t \<le> 604801000"
  shows "jwt_decode sample_auth t renewal_token
    = Inr \<lparr>tp_user_id = 7, tp_session_uuid = asc ''s1'', tp_expire_time = 604801000\<rparr>"
  unfolding renewal_token_def by (rule sample_decode) (use assms in \<open>simp_all add: asc_def\<close>)

lemma renewal_succeeds:
  obtains w' nt where "refresh_session sample_auth default_auth_settings 2000 (asc ''s2'') sample_client
    (Some renewal_token) renewal_world = (w', Inr nt)"
proof -
  let ?u = "sample_account\<lparr>u_last_login_time := Some 1000, u_is_multi_login := True\<rparr>"
  have u: "get_user 7 (adb renewal_world) = Some ?u" by code_simp
  have f: "u_status ?u = 1" "u_id ?u = 7" "u_is_multi_login ?u" "u_last_login_time ?u = Some 1000" by code_simp+
  have s: "TOKEN_REFRESH_EXPIRE_SECONDS default_auth_settings = 604800" by code_simp
  have "r_get 2000 (refresh_key 7 (asc ''s1'')) (red renewal_world) = Some renewal_token"
    using new_session_stored(2) [of 1000 2000 default_auth_settings 7 "asc ''s1''" sample_auth True "[]" "[]"]
    by (simp add: renewal_world_def renewal_token_def s)
  moreover have "renewal_token \<noteq> []" by (simp add: renewal_token_def sample_auth_def)
  ultimately show ?thesis
    using that u f by (simp add: refresh_session_def text_missing_def Let_def renewal_decode on_redis_def
        create_new_token_def case_prod_beta)
qed

theorem refresh_rotates_witness:
  "\<exists>w' nt. refresh_session sample_auth default_auth_settings 2000 (asc ''s2'') sample_client
      (Some renewal_token) renewal_world = (w', Inr nt)
    \<and> snd (jwt_authentication sample_auth default_auth_settings 3000 renewal_token w') = Inl (TokenError msg_token_expired)
    \<and> r_get 3000 (token_key 7 (asc ''s2'')) (red w') = Some (nt_access_token nt)"
proof -
  obtain w' nt where r: "refresh_session sample_auth default_auth_settings 2000 (asc ''s2'') sample_client
    (Some renewal_token) renewal_world = (w', Inr nt)" by (rule renewal_succeeds)
  have "asc ''s2'' \<noteq> asc ''s1''" by (simp add: asc_def)
  moreover have "TOKEN_EXPIRE_SECONDS default_auth_settings = 86400" by code_simp
  ultimately show ?thesis
    using refresh_rotates [OF r renewal_decode, of 3000] renewal_decode [of 3000] r by auto
qed

section \<open>Revocation\<close>

lemma revoke_token_sessions:
  assumes "\<not> list_ex (other_session sid) (get_by_prefix now (TOKEN_REDIS_PREFIX u) st)"
  shows "\<not> list_ex (other_session sid) (get_by_prefix now (TOKEN_REDIS_PREFIX u) (revoke_token u sid st))"
  using assms unfolding get_by_prefix_def list_ex_iff set_scan_iter revoke_token_get by auto

text \<open>C29: Revoking a session (\<open>DELETE /monitors/sessions/{pk}\<close>) ends its access token at once, but its refresh token
stays: a client that could renew the session before can still renew it, and gets the same new tokens.\<close>

theorem revoked_session_renews:
  assumes "refresh_session D S now nsid cl (Some token) w = (w', Inr nt)" "jwt_decode D now token = Inr p"
    "w1 = w\<lparr>red := revoke_token (tp_user_id p) (tp_session_uuid p) (red w)\<rparr>"
    "jwt_decode D t access = Inr q" "tp_user_id q = tp_user_id p" "tp_session_uuid q = tp_session_uuid p"
  shows "snd (jwt_authentication D S t access w1) = Inl (TokenError msg_token_expired)
    \<and> snd (refresh_session D S now nsid cl (Some token) w1) = Inr nt"
proof
  show "snd (jwt_authentication D S t access w1) = Inl (TokenError msg_token_expired)"
    using jwt_authentication_no_session [OF assms(4)] assms(5,6) by (simp add: assms(3) revoke_token_get)
  obtain q u where q: "jwt_decode D now token = Inr q" and u: "get_user (tp_user_id q) (adb w) = Some u"
      "u_id u = tp_user_id q" "u_status u \<noteq> 0" "u_last_login_time u \<noteq> None"
    and m: "u_is_multi_login u \<or> \<not> list_ex (other_session (tp_session_uuid q))
       (get_by_prefix now (TOKEN_REDIS_PREFIX (u_id u)) (red w))"
    and c: "create_new_token D S now nsid token (tp_session_uuid q) (tp_user_id q) (u_is_multi_login u)
       (extra_info D ''device_type'' cl u) (red w) = (red w', Inr nt)"
    by (rule refresh_session_InrD [OF assms(1)])
  have pq: "q = p" using q assms(2) by simp
  note n = create_new_token_InrD [OF c [unfolded pq]]
  have "r_get now (refresh_key (tp_user_id p) (tp_session_uuid p)) (red w1) = Some token"
    using n(1) by (simp add: assms(3) revoke_token_get)
  moreover have "nt = \<lparr>nt_access_token = nt_access_token nt, nt_access_token_expire_time = now + TOKEN_EXPIRE_SECONDS S * 1000,
      nt_refresh_token = nt_refresh_token nt, nt_refresh_token_expire_time = now + TOKEN_REFRESH_EXPIRE_SECONDS S * 1000,
      nt_session_uuid = nsid\<rparr>"
    using c by (auto simp: create_new_token_def create_access_token_def create_refresh_token_def Let_def split: if_splits)
  ultimately have "snd (create_new_token D S now nsid token (tp_session_uuid p) (tp_user_id p) multi kws (red w1)) = Inr nt"
    for multi kws
    using n(2,4,5) by (simp add: create_new_token_def Let_def case_prod_beta token_values)
      (simp add: create_access_token_def create_refresh_token_def Let_def)
  moreover have "u_is_multi_login u \<or> \<not> list_ex (other_session (tp_session_uuid p))
       (get_by_prefix now (TOKEN_REDIS_PREFIX (u_id u)) (red w1))"
    using m revoke_token_sessions by (auto simp: assms(3) u(2) pq)
  ultimately show "snd (refresh_session D S now nsid cl (Some token) w1) = Inr nt"
    using u n(2) assms(2) pq
    by (auto simp: refresh_session_def text_missing_def Let_def on_redis_def assms(3) case_prod_beta)
qed

theorem revoked_session_renews_witness:
  "\<exists>nt. snd (refresh_session sample_auth default_auth_settings 2000 (asc ''s2'') sample_client (Some renewal_token)
      (renewal_world\<lparr>red := revoke_token 7 (asc ''s1'') (red renewal_world)\<rparr>)) = Inr nt"
proof -
  obtain w' nt where r: "refresh_session sample_auth default_auth_settings 2000 (asc ''s2'') sample_client
    (Some renewal_token) renewal_world = (w', Inr nt)" by (rule renewal_succeeds)
  show ?thesis
    using revoked_session_renews [OF r renewal_decode refl renewal_decode, of 2000] by simp
qed

section \<open>What the cache does not notice\<close>

text \<open>
  The requests after which a cached description should have gone: deleting a menu, and changing or
  deleting a department.
\<close>

definition leaves_cache :: "(aworld \<Rightarrow> aworld \<times> int res) \<Rightarrow> bool" where
  "leaves_cache f \<longleftrightarrow> (\<exists>pk. f = menu_service_delete pk) \<or> (\<exists>pk obj. f = dept_service_update pk obj)
     \<or> (\<exists>pk. f = dept_service_delete pk)"

lemma menu_delete_no_sources: "sources (a_role_menu (menu_delete pk db)) [pk] = []"
  by (auto simp: sources_def menu_delete_def filter_empty_conv)

lemma leaves_cache_red: "leaves_cache f \<Longrightarrow> red (fst (f w)) = red w"
  by (auto simp: leaves_cache_def menu_service_delete_def dept_service_update_def dept_service_delete_def
      clear_by_menu_id_def menu_delete_no_sources users_of_roles_def clear_def Let_def
      split: option.splits sum.splits)

text \<open>C30: Deleting a menu, and changing or deleting a department, leave every cached description of a user in
place: \<open>menu_dao.delete\<close> has removed the links by which \<open>clear_by_menu_id\<close> would find the users, and the
department service clears nothing. A user who is cached is answered exactly as before until the entry
expires - with the permissions of a deleted menu, or out of a locked department.\<close>

theorem stale_description:
  assumes "leaves_cache f" "jwt_decode D now token = Inr p"
    "r_get now (user_key (tp_user_id p)) (red w) = Some (c # v)"
  shows "snd (jwt_authentication D S now token (run f w)) = snd (jwt_authentication D S now token w)"
proof -
  have "red (run f w) = red w" using leaves_cache_red [OF assms(1)] by (simp add: run_red)
  then show ?thesis
    using assms(2,3) by (simp add: jwt_authentication_def get_jwt_user_def split: option.splits)
qed

theorem stale_description_witness:
  "\<exists>ui. snd (jwt_authentication sample_auth default_auth_settings 2000 sample_token
      (sample_logged_in\<lparr>red := r_set 1500 (user_key 7) (d_dump sample_auth ui) (Some 60) (red sample_logged_in)\<rparr>)) = Inr ui
    \<and> snd (jwt_authentication sample_auth default_auth_settings 2000 sample_token (run (menu_service_delete 5)
      (sample_logged_in\<lparr>red := r_set 1500 (user_key 7) (d_dump sample_auth ui) (Some 60) (red sample_logged_in)\<rparr>))) = Inr ui
    \<and> list_ex (\<lambda>r. 0 < length (ri_menus r)) (ui_roles ui)"
proof -
  let ?ui = "user_info_of sample_admin_db sample_user"
  let ?w = "sample_logged_in\<lparr>red := r_set 1500 (user_key 7) (d_dump sample_auth ?ui) (Some 60) (red sample_logged_in)\<rparr>"
  have c: "r_get 2000 (user_key 7) (red ?w) = Some (to_nat ?ui # [])"
    by (simp add: r_get_set alive_def sample_auth_def)
  have "jwt_authentication sample_auth default_auth_settings 2000 sample_token ?w = (?w, Inr ?ui)"
    using sample_load [of ?ui] c
    by (simp add: jwt_authentication_def sample_token_decode sample_token_stored sample_token_nonempty r_get_set
        get_jwt_user_def) (simp add: sample_auth_def)
  moreover have "leaves_cache (menu_service_delete 5)" by (auto simp: leaves_cache_def)
  moreover have "list_ex (\<lambda>r. 0 < length (ri_menus r)) (ui_roles ?ui)" by code_simp
  ultimately show ?thesis
    using stale_description [of "menu_service_delete 5" sample_auth 2000 sample_token _ ?w] sample_token_decode c
    by (intro exI [of _ ?ui]) simp
qed

end
