(* ===== verification/SecurityProps.thy ===== *)
theory SecurityProps
  imports AdminProps
begin

text \<open>How many passwords can be tried, and which new ones are refused.\<close>

section \<open>Guessing\<close>

text \<open>Attempts to log in to one account, one after the other, each with its time and password.\<close>

fun tries :: "auth_deps \<Rightarrow> auth_settings \<Rightarrow> ustr \<Rightarrow> (int \<times> ustr) list \<Rightarrow> aworld \<Rightarrow> (user \<times> int option) res list" where
  "tries D S name [] w = []"
| "tries D S name ((now, pw) # rest) w =
     (case user_verify D S now name pw w of (w', r) \<Rightarrow> r # tries D S name rest w')"

definition wrong_password :: "auth_deps \<Rightarrow> user \<Rightarrow> ustr \<Rightarrow> bool" where
  "wrong_password D u pw \<longleftrightarrow> (case u_password u of None \<Rightarrow> True | Some h \<Rightarrow> \<not> d_verify D pw h)"

definition locked_answer :: "(user \<times> int option) res \<Rightarrow> bool" where
  "locked_answer r \<longleftrightarrow> (\<exists>m > 0. r = Inl (AuthorizationError (msg_lock_pre @ str_int m @ msg_lock_post)))"

text \<open>
  After \<open>k\<close> failures since \<open>start\<close>, and until the end of the window: the counter stands at \<open>k\<close>, or the
  account is locked.
\<close>

definition failed :: "auth_deps \<Rightarrow> auth_settings \<Rightarrow> int \<Rightarrow> int \<Rightarrow> nat \<Rightarrow> int \<Rightarrow> redis \<Rightarrow> bool" where
  "failed D S start u k t st \<longleftrightarrow> (\<forall>t'. t \<le> t' \<longrightarrow> t' + 1000 \<le> start + USER_LOCK_SECONDS S * 1000 \<longrightarrow>
     (if int k < USER_LOCK_THRESHOLD S
      then r_get t' (lock_key u) st = None \<and> failure_count t' u st = Some (int k)
      else \<exists>lk. start \<le> lk \<and> lk \<le> t \<and> r_get t' (lock_key u) st = Some (d_time_str D (lk + USER_LOCK_SECONDS S * 1000))))"

lemma failed_later: "failed D S start u k t st \<Longrightarrow> t \<le> t2 \<Longrightarrow> failed D S start u k t2 st"
  unfolding failed_def by (smt (verit, best))

lemma failure_count_set:
  assumes "t' < t + s * 1000"
  shows "failure_count t' u (r_set t (failure_key u) (str_int n) (Some s) st) = Some n"
  by (rule failure_count_nonneg_set [OF assms])

lemma failure_count_other: "k \<noteq> failure_key u \<Longrightarrow> failure_count t u (r_set t0 k v e st) = failure_count t u st"
  by (simp add: failure_count_def r_get_set)

lemma wrong_try:
  assumes "failed D S start (u_id u) k t (red w)" "get_by_username name (adb w) = Some u" "u_status u \<noteq> 0"
    "wrong_password D u pw" "int k < USER_LOCK_THRESHOLD S" "start \<le> t" "t + 1000 \<le> start + USER_LOCK_SECONDS S * 1000"
  shows "\<exists>w'. user_verify D S t name pw w
      = (w', Inl (AuthorizationError (if int k + 1 < USER_LOCK_THRESHOLD S then msg_bad_login else msg_lock_now)))
    \<and> adb w' = adb w \<and> failed D S start (u_id u) (Suc k) t (red w')"
proof -
  let ?s = "USER_LOCK_SECONDS S"
  have lock: "r_get t' (lock_key (u_id u)) (red w) = None"
    and cnt: "failure_count t (u_id u) (red w) = Some (int k)"
    if "t \<le> t'" "t' + 1000 \<le> start + ?s * 1000" for t'
    using assms(1,5,7) that unfolding failed_def by auto
  let ?st1 = "r_set t (failure_key (u_id u)) (str_int (int k + 1)) (Some ?s) (red w)"
  let ?st2 = "r_set t (lock_key (u_id u)) (d_time_str D (t + ?s * 1000)) (Some ?s) ?st1"
  let ?st = "if int k + 1 < USER_LOCK_THRESHOLD S then ?st1 else ?st2"
  have c: "check_status D t (u_id u) (u_status u) (red w) = (red w, Inr ())"
    using lock [of t] assms(3,7) by (simp add: check_status_def)
  have h: "handle_login_failure D S t (u_id u) (red w) = (if int k + 1 < USER_LOCK_THRESHOLD S then (?st1, Inr ())
      else (?st2, Inl (AuthorizationError msg_lock_now)))"
    using cnt [of t] assms(5,7) by (simp add: handle_login_failure_def)
  have v: "user_verify D S t name pw w = (w\<lparr>red := ?st\<rparr>,
      Inl (AuthorizationError (if int k + 1 < USER_LOCK_THRESHOLD S then msg_bad_login else msg_lock_now)))"
    using assms(4) by (simp add: user_verify_def assms(2) on_redis_def c h wrong_password_def)
  have "failed D S start (u_id u) (Suc k) t ?st"
    unfolding failed_def
  proof (intro allI impI)
    fix t'
    assume t': "t \<le> t'" "t' + 1000 \<le> start + ?s * 1000"
    then have lt: "t' < t + ?s * 1000" using assms(6) by linarith
    show "if int (Suc k) < USER_LOCK_THRESHOLD S
      then r_get t' (lock_key (u_id u)) ?st = None \<and> failure_count t' (u_id u) ?st = Some (int (Suc k))
      else \<exists>lk. start \<le> lk \<and> lk \<le> t \<and> r_get t' (lock_key (u_id u)) ?st = Some (d_time_str D (lk + ?s * 1000))"
      using lock [OF t'] failure_count_set [OF lt, of "u_id u" "int k + 1" "red w"] lt assms(6)
      by (auto simp: r_get_set alive_def add.commute)
  qed
  then show ?thesis using v by (intro exI [of _ "w\<lparr>red := ?st\<rparr>"]) simp
qed

lemma locked_try:
  assumes "failed D S start (u_id u) k t (red w)" "get_by_username name (adb w) = Some u" "u_status u \<noteq> 0"
    "\<not> int k < USER_LOCK_THRESHOLD S" "t + 1000 \<le> start + USER_LOCK_SECONDS S * 1000" "times_ok D"
  shows "\<exists>r. user_verify D S t name pw w = (w, r) \<and> locked_answer r"
proof -
  let ?s = "USER_LOCK_SECONDS S"
  obtain lk where lk: "start \<le> lk" "lk \<le> t" "r_get t (lock_key (u_id u)) (red w) = Some (d_time_str D (lk + ?s * 1000))"
    using assms(1,4,5) unfolding failed_def by force
  obtain until where u: "d_time_parse D (d_time_str D (lk + ?s * 1000)) = Some until"
    "lk + ?s * 1000 - 1000 < until" "d_time_str D (lk + ?s * 1000) \<noteq> []"
    using assms(6) by (metis times_ok_def)
  obtain c v where cv: "d_time_str D (lk + ?s * 1000) = c # v" using u(3) by (meson list.exhaust)
  have lt: "t < until" using u(2) lk(1) assms(5) by linarith
  then have "0 < ceil_minutes (until - t)"
    using div_pos_neg_trivial [of "- (until - t)" 60000] by (simp add: ceil_minutes_def zdiv_zminus1_eq_if)
  moreover have "check_status D t (u_id u) (u_status u) (red w) = (red w, Inl (AuthorizationError
      (msg_lock_pre @ str_int (ceil_minutes (until - t)) @ msg_lock_post)))"
    using assms(3) lk(3) cv u(1) lt by (simp add: check_status_def)
  ultimately show ?thesis
    by (simp add: user_verify_def assms(2) on_redis_def locked_answer_def) blast
qed

lemma tries_answers:
  assumes "failed D S start (u_id u) k t0 (red w)" "get_by_username name (adb w) = Some u" "u_status u \<noteq> 0"
    "times_ok D" "start \<le> t0" "sorted (t0 # map fst ts)" "\<forall>t \<in> fst ` set ts. t + 1000 \<le> start + USER_LOCK_SECONDS S * 1000"
    "\<And>i. i < length ts \<Longrightarrow> int k + int i < USER_LOCK_THRESHOLD S \<Longrightarrow> wrong_password D u (snd (ts ! i))"
    "i < length ts"
  shows "if int k + int i + 1 < USER_LOCK_THRESHOLD S then tries D S name ts w ! i = Inl (AuthorizationError msg_bad_login)
    else if int k + int i + 1 = USER_LOCK_THRESHOLD S then tries D S name ts w ! i = Inl (AuthorizationError msg_lock_now)
    else locked_answer (tries D S name ts w ! i)"
  using assms
proof (induction ts arbitrary: k t0 w i)
  case (Cons tp ts)
  obtain t pw where tp: "tp = (t, pw)" by fastforce
  have t: "t0 \<le> t" "start \<le> t" "t + 1000 \<le> start + USER_LOCK_SECONDS S * 1000" "sorted (t # map fst ts)"
    using Cons.prems(5-7) tp by auto
  have f: "failed D S start (u_id u) k t (red w)" by (rule failed_later [OF Cons.prems(1) t(1)])
  show ?case
  proof (cases "int k < USER_LOCK_THRESHOLD S")
    case True
    have "wrong_password D u pw" using Cons.prems(8) [of 0] True tp by simp
    from wrong_try [OF f Cons.prems(2,3) this True t(2,3)] obtain w' where
      v: "user_verify D S t name pw w
        = (w', Inl (AuthorizationError (if int k + 1 < USER_LOCK_THRESHOLD S then msg_bad_login else msg_lock_now)))"
      and w': "adb w' = adb w" "failed D S start (u_id u) (Suc k) t (red w')" by blast
    show ?thesis
    proof (cases i)
      case 0
      then show ?thesis using v True by (simp add: tp)
    next
      case (Suc j)
      have "if int (Suc k) + int j + 1 < USER_LOCK_THRESHOLD S then tries D S name ts w' ! j = Inl (AuthorizationError msg_bad_login)
        else if int (Suc k) + int j + 1 = USER_LOCK_THRESHOLD S then tries D S name ts w' ! j = Inl (AuthorizationError msg_lock_now)
        else locked_answer (tries D S name ts w' ! j)"
      proof (rule Cons.IH [OF w'(2) _ Cons.prems(3,4) t(2,4)])
        show "wrong_password D u (snd (ts ! a))" if "a < length ts" "int (Suc k) + int a < USER_LOCK_THRESHOLD S" for a
          using Cons.prems(8) [of "Suc a"] that by simp
      qed (use Cons.prems(2,7,9) w'(1) Suc in auto)
      then show ?thesis using v Suc by (simp add: tp algebra_simps)
    qed
  next
    case False
    from locked_try [OF f Cons.prems(2,3) False t(3) Cons.prems(4)] obtain r where
      v: "user_verify D S t name pw w = (w, r)" "locked_answer r" by blast
    show ?thesis
    proof (cases i)
      case 0
      then show ?thesis using v False by (simp add: tp)
    next
      case (Suc j)
      have "if int k + int j + 1 < USER_LOCK_THRESHOLD S then tries D S name ts w ! j = Inl (AuthorizationError msg_bad_login)
        else if int k + int j + 1 = USER_LOCK_THRESHOLD S then tries D S name ts w ! j = Inl (AuthorizationError msg_lock_now)
        else locked_answer (tries D S name ts w ! j)"
      proof (rule Cons.IH [OF f Cons.prems(2,3,4) t(2,4)])
        show "wrong_password D u (snd (ts ! a))" if "a < length ts" "int k + int a < USER_LOCK_THRESHOLD S" for a
          using that False by simp
      qed (use Cons.prems(7,9) Suc in auto)
      then show ?thesis using v False Suc by (simp add: tp)
    qed
  qed
qed simp

section \<open>Recent passwords\<close>

text \<open>A request that gives an account a new password, by an administrator or by its owner.\<close>

definition changes_password ::
  "auth_deps \<Rightarrow> auth_settings \<Rightarrow> int \<Rightarrow> ustr \<Rightarrow> (aworld \<Rightarrow> aworld \<times> int res) \<Rightarrow> bool" where
  "changes_password D S pk pw c \<longleftrightarrow> (\<exists>now salt. c = user_reset_password D S now salt pk pw
     \<or> (\<exists>obj. new_password obj = pw \<and> c = user_update_password D S now salt pk obj))"

fun new_password_for :: "int \<Rightarrow> aaction \<Rightarrow> bool" where
  "new_password_for pk (UserResetPassword _ u _) \<longleftrightarrow> u = pk"
| "new_password_for pk (UserUpdatePassword _ u _) \<longleftrightarrow> u = pk"
| "new_password_for pk _ \<longleftrightarrow> False"

text \<open>
  The passwords that accepted changes gave the account, the newest first, while refused changes and all the
  other requests come in between, in any order.
\<close>

inductive passwords_changed :: "auth_deps \<Rightarrow> auth_settings \<Rightarrow> int \<Rightarrow> aworld \<Rightarrow> ustr list \<Rightarrow> aworld \<Rightarrow> bool"
  for D :: auth_deps and S :: auth_settings and pk :: int and w0 :: aworld where
  start: "passwords_changed D S pk w0 [] w0"
| change: "passwords_changed D S pk w0 pws w \<Longrightarrow> changes_password D S pk pw c \<Longrightarrow> c w = (w', Inr n)
    \<Longrightarrow> passwords_changed D S pk w0 (pw # pws) w'"
| refused: "passwords_changed D S pk w0 pws w \<Longrightarrow> changes_password D S pk pw c \<Longrightarrow> c w = (w', Inl e)
    \<Longrightarrow> passwords_changed D S pk w0 pws (run c w)"
| other: "passwords_changed D S pk w0 pws w \<Longrightarrow> \<not> new_password_for pk a
    \<Longrightarrow> passwords_changed D S pk w0 pws (aperform D S now a w)"

text \<open>No other request touches the history of the account.\<close>

lemma get_history_other: "u \<noteq> pk \<Longrightarrow> get_history pk (create_history u h db) = get_history pk db"
  by (simp add: get_history_def create_history_def)

lemma get_history_cong: "a_history db = a_history db' \<Longrightarrow> get_history pk db = get_history pk db'"
  by (simp add: get_history_def)

definition keeps_history :: "(aworld \<Rightarrow> aworld \<times> 'a res) \<Rightarrow> bool" where
  "keeps_history f \<longleftrightarrow> (\<forall>w. a_history (adb (fst (f w))) = a_history (adb w))"

lemma run_history:
  assumes "keeps_history f"
  shows "get_history pk (adb (run f w)) = get_history pk (adb w)"
  using assms by (auto simp: keeps_history_def run_def transaction_def split: prod.splits sum.splits
      intro: get_history_cong) (metis fst_conv get_history_cong)

lemma on_redis_history: "keeps_history (on_redis f)"
  by (simp add: keeps_history_def on_redis_def case_prod_beta)

lemma update_login_time_history [simp]: "a_history (update_login_time now name db) = a_history db"
  by (simp add: update_login_time_def)

lemma keeps_historyI:
  assumes "\<And>w. adb (fst (f w)) = adb w \<or> adb (fst (f w)) = update_login_time now name (adb w)"
  shows "keeps_history f"
  unfolding keeps_history_def
proof
  fix w show "a_history (adb (fst (f w))) = a_history (adb w)" using assms [of w] by (elim disjE) simp_all
qed

lemma session_history:
  "keeps_history (swagger_login D S now sid name pw)"
  "keeps_history (login_body D S now sid cl obj)"
  "keeps_history (refresh_session D S now sid cl cookie)"
  "keeps_history (jwt_authentication D S now token)"
proof -
  show "keeps_history (swagger_login D S now sid name pw)"
    by (rule keeps_historyI [of _ now name]) (rule swagger_login_cache [OF surjective_pairing, THEN conjunct1])
  show "keeps_history (login_body D S now sid cl obj)"
    by (rule keeps_historyI [of _ now "lp_username obj"]) (rule login_body_cache [OF surjective_pairing, THEN conjunct1])
  show "keeps_history (refresh_session D S now sid cl cookie)"
    by (rule keeps_historyI) (rule disjI1 [OF refresh_session_cache [OF surjective_pairing, THEN conjunct1]])
  show "keeps_history (jwt_authentication D S now token)"
    by (auto simp: keeps_history_def jwt_authentication_def get_jwt_user_def
        split: sum.splits option.splits list.splits)
qed

lemma login_history: "get_history pk (adb (fst (login D S now sid uuid cl obj w))) = get_history pk (adb w)"
proof -
  have "adb (fst (login D S now sid uuid cl obj w)) = adb (run (login_body D S now sid cl obj) w)"
    by (auto simp: login_def run_def split: prod.splits sum.splits exc.splits)
  then show ?thesis using run_history [OF session_history(2)] by simp
qed

lemma user_history:
  "keeps_history (user_create D now uuid salt obj)"
  "keeps_history (user_update now pk obj')"
  "keeps_history (user_update_nickname now pk s)"
  "keeps_history (user_update_avatar now pk s)"
  "keeps_history (user_update_email D now ip pk code email)"
  "keeps_history (user_delete now pk)"
  by (auto simp: keeps_history_def user_create_def add_user_def user_update_def update_user_def user_update_nickname_def
      update_nickname_def user_update_avatar_def update_avatar_def user_update_email_def update_email_def
      user_delete_def delete_user_def Let_def case_prod_beta
      split: option.splits sum.splits if_splits list.splits)

lemma permission_history: "keeps_history (update_permission D now auth user pk kind)"
proof -
  have multi: "a_history (adb (fst (toggle_multi_login D now auth user pk u w))) = a_history (adb w)" for u w
    by (simp add: toggle_multi_login_def Let_def case_prod_beta set_multi_login_def split: sum.split)
  have flag: "a_history (adb (fst (toggle (update_row now pk f) user pk w))) = a_history (adb w)" for f w
    by (simp add: toggle_def case_prod_beta)
  have bind: "adb (fst (sbind m (\<lambda>n w. (w\<lparr>red := f w\<rparr>, Inr n)))) = adb (fst m)" for m :: "aworld \<times> int res" and f
    by (cases m; cases "snd m") auto
  show ?thesis
    by (cases kind) (simp_all add: keeps_history_def update_permission_def bind multi flag set_super_def set_staff_def
      set_status_def split: option.split)
qed

lemma access_history:
  "keeps_history (role_service_create ro)"
  "keeps_history (role_service_update pk ro)"
  "keeps_history (update_role_menu pk ids)"
  "keeps_history (update_role_scope pk ids)"
  "keeps_history (role_service_delete ids)"
  "keeps_history (menu_service_create me)"
  "keeps_history (menu_service_update pk me)"
  "keeps_history (menu_service_delete pk)"
  by (auto simp: keeps_history_def role_service_create_def role_create_def with_roles_def role_service_update_def role_update_def
      update_role_menu_def role_update_menus_def update_role_scope_def role_update_scopes_def role_service_delete_def
      role_delete_def menu_service_create_def menu_create_def menu_service_update_def menu_update_def
      menu_service_delete_def menu_delete_def Let_def split: option.splits sum.splits if_splits)

lemma scope_history:
  "keeps_history (scope_service_create sc)"
  "keeps_history (scope_service_update pk sc)"
  "keeps_history (update_data_scope_rule pk ids)"
  "keeps_history (scope_service_delete ids)"
  "keeps_history (rule_service_create ru)"
  "keeps_history (rule_service_update pk ru)"
  "keeps_history (rule_service_delete ids)"
  "keeps_history (dept_service_create de)"
  "keeps_history (dept_service_update pk de)"
  "keeps_history (dept_service_delete pk)"
  by (auto simp: keeps_history_def scope_service_create_def scope_create_def with_scopes_def scope_service_update_def scope_update_def
      update_data_scope_rule_def scope_update_rules_def scope_service_delete_def scope_delete_def
      rule_service_create_def rule_create_def with_rules_def rule_service_update_def rule_update_def
      rule_service_delete_def rule_delete_def dept_service_create_def dept_create_def with_depts_def
      dept_service_update_def dept_update_def dept_service_delete_def dept_delete_def Let_def
      split: option.splits sum.splits if_splits)

lemma change_password_other:
  assumes "u_id u \<noteq> pk"
  shows "get_history pk (adb (fst (change_password D S now salt u pw w))) = get_history pk (adb w)"
proof -
  have "get_history pk (fst (reset_password now i h db)) = get_history pk db"
    "get_history pk (fst (update_password_changed_time now i db)) = get_history pk db" for i h db
    by (rule get_history_cong, simp add: reset_password_def update_password_changed_time_def)+
  then show ?thesis
    using get_history_other [OF assms]
    by (auto simp: change_password_def Let_def case_prod_beta split: sum.splits option.splits)
qed

lemma run_history_of:
  assumes "get_history pk (adb (fst (f w))) = get_history pk (adb w)"
  shows "get_history pk (adb (run f w)) = get_history pk (adb w)"
  using assms by (auto simp: run_def transaction_def split: prod.splits sum.splits)

lemma other_history:
  assumes "\<not> new_password_for pk a"
  shows "get_history pk (adb (aperform D S now a w)) = get_history pk (adb w)"
proof -
  note each = session_history user_history permission_history access_history scope_history
  show ?thesis
  proof (cases a)
    case (Login sid uuid cl obj)
    then show ?thesis by (simp add: login_history)
  next
    case (Logout au cookie)
    then show ?thesis by (simp add: run_history on_redis_history)
  next
    case (UserResetPassword salt u pw)
    then have "u \<noteq> pk" using assms by simp
    then have "get_history pk (adb (fst (user_reset_password D S now salt u pw w))) = get_history pk (adb w)"
      using change_password_other get_user_SomeD [of u "adb w"]
      by (auto simp: user_reset_password_def split: option.splits)
    then show ?thesis using UserResetPassword by (simp add: run_history_of)
  next
    case (UserUpdatePassword salt u obj)
    then have "u \<noteq> pk" using assms by simp
    then have "get_history pk (adb (fst (user_update_password D S now salt u obj w))) = get_history pk (adb w)"
      using change_password_other get_user_SomeD [of u "adb w"]
      by (auto simp: user_update_password_def split: option.splits)
    then show ?thesis using UserUpdatePassword by (simp add: run_history_of)
  qed (simp_all add: run_history each)
qed

lemma get_history_create:
  "map ph_password (get_history pk (create_history pk h db)) = h # map ph_password (get_history pk db)"
proof -
  let ?new = "\<lparr>ph_id = fresh_id (map ph_id (a_history db)), ph_user_id = pk, ph_password = h\<rparr>"
  let ?f = "filter (\<lambda>h. ph_user_id h = pk)" and ?k = "\<lambda>h :: password_history. - ph_id h"
  have above: "ph_id x < ph_id ?new" if "x \<in> set (a_history db)" for x
    using fresh_id_above [of "ph_id x"] that by simp
  have "sort_key ?k (?f (a_history db) @ [?new]) = ?new # sort_key ?k (?f (a_history db))"
  proof (rule properties_for_sort_key)
    show "sorted (map ?k (?new # sort_key ?k (?f (a_history db))))"
      using above by (auto simp: less_imp_le)
    fix x
    assume "x \<in> set (?new # sort_key ?k (?f (a_history db)))"
    show "filter (\<lambda>y. ?k x = ?k y) (?new # sort_key ?k (?f (a_history db)))
        = filter (\<lambda>y. ?k x = ?k y) (?f (a_history db) @ [?new])"
    proof (cases "ph_id x = ph_id ?new")
      case True
      have "filter (\<lambda>y. ph_id x = ph_id y) zs = []" if "set zs \<subseteq> set (a_history db)" for zs
        using above that True by (fastforce simp: filter_empty_conv)
      from this [of "?f (a_history db)"] this [of "sort_key ?k (?f (a_history db))"] True
      show ?thesis by (simp add: filter_sort)
    next
      case False
      then show ?thesis using sort_key_stable [of ?k "?k x" "?f (a_history db)"] by (simp add: eq_commute)
    qed
  qed simp
  then show ?thesis by (simp add: get_history_def create_history_def)
qed

lemma changed_history:
  assumes "changes_password D S pk pw c" "c w = (w', Inr n)" "d_sync D"
  shows "\<exists>salt. map ph_password (get_history pk (adb w')) = d_hash D pw salt # map ph_password (get_history pk (adb w))"
proof -
  have *: "\<exists>salt. map ph_password (get_history pk (adb w'))
      = d_hash D pw salt # map ph_password (get_history pk (adb w))"
    if "change_password D S now salt u pw w = (w', Inr n)" "u_id u = pk" for u now salt
    using that assms(3) get_history_create [of pk]
    by (auto simp: change_password_def reset_password_def update_password_changed_time_def Let_def case_prod_beta
        get_history_def create_history_def split: sum.splits)
  show ?thesis
    using assms(1,2) get_user_SomeD [of pk "adb w"] *
    by (auto simp: changes_password_def user_reset_password_def user_update_password_def split: option.splits if_splits)
qed

lemma changed_histories:
  assumes "passwords_changed D S pk w0 pws w" "d_sync D"
  shows "\<exists>salts. length salts = length pws
    \<and> map ph_password (get_history pk (adb w)) = map2 (d_hash D) pws salts @ map ph_password (get_history pk (adb w0))"
  using assms(1)
proof induction
  case (change pws w pw c w' n)
  then obtain salts where s: "length salts = length pws"
    "map ph_password (get_history pk (adb w)) = map2 (d_hash D) pws salts @ map ph_password (get_history pk (adb w0))"
    by blast
  obtain salt where "map ph_password (get_history pk (adb w')) = d_hash D pw salt # map ph_password (get_history pk (adb w))"
    using changed_history [OF change.hyps(2,3) assms(2)] by auto
  then show ?case using s by (intro exI [of _ "salt # salts"]) simp
next
  case (refused pws w pw c w' e)
  have "adb (run c w) = adb w" using refused.hyps(3) by (simp add: run_def transaction_def)
  then show ?case using refused.IH by simp
next
  case (other pws w a now)
  then show ?case by (simp add: other_history)
qed simp

text \<open>The same check, before anything is written.\<close>

lemma change_refused:
  assumes "changes_password D S pk pw c" "h \<in> set (slice_to (get_history pk (adb w)) (USER_PASSWORD_HISTORY_CHECK_COUNT S))"
    "d_verify D pw (ph_password h)"
  shows "\<exists>e. c w = (w, Inl e)"
proof -
  have "\<exists>e. validate_new_password D S pk pw (adb w) = Inl e"
    using assms(2,3) by (auto simp: validate_new_password_def list_ex_iff)
  then have *: "\<exists>e. change_password D S now salt u pw w = (w, Inl e)" if "u_id u = pk" for u now salt
    using that by (auto simp: change_password_def)
  show ?thesis
    using assms(1) get_user_SomeD [of pk "adb w"] *
    by (auto simp: changes_password_def user_reset_password_def user_update_password_def split: option.splits)
qed

section \<open>Properties\<close>

text \<open>C31: Guessing is bounded. For an enabled account that is neither locked nor has a failure counted, a sequence of
attempts within \<open>USER_LOCK_SECONDS\<close> whose passwords are wrong until the threshold gets: the answer that name
or password is wrong, before the threshold; the answer that the account is locked now, at the threshold;
and afterwards only the answer that it is locked, with a positive number of minutes, whether or not the
password is right.\<close>

theorem guesses_bounded:
  assumes "get_by_username name (adb w) = Some u" "u_status u \<noteq> 0" "times_ok D" "0 < USER_LOCK_THRESHOLD S"
    "r_get start (lock_key (u_id u)) (red w) = None" "r_get start (failure_key (u_id u)) (red w) = None"
    "sorted (start # map fst ts)" "\<forall>t \<in> fst ` set ts. t + 1000 \<le> start + USER_LOCK_SECONDS S * 1000"
    "\<And>i. i < length ts \<Longrightarrow> int i < USER_LOCK_THRESHOLD S \<Longrightarrow> wrong_password D u (snd (ts ! i))"
    "i < length ts"
  shows "if int i + 1 < USER_LOCK_THRESHOLD S then tries D S name ts w ! i = Inl (AuthorizationError msg_bad_login)
    else if int i + 1 = USER_LOCK_THRESHOLD S then tries D S name ts w ! i = Inl (AuthorizationError msg_lock_now)
    else locked_answer (tries D S name ts w ! i)"
proof -
  have later: "r_get t k (red w) = None" if "r_get start k (red w) = None" "start \<le> t" for t k
    using r_get_later [of t k "red w" _ start] that by (cases "r_get t k (red w)") auto
  have "failed D S start (u_id u) 0 start (red w)"
    using later assms(4-6) by (simp add: failed_def failure_count_def)
  from tries_answers [OF this assms(1-3) order_refl assms(7,8) _ assms(10)] assms(9)
  show ?thesis by simp
qed

theorem guesses_bounded_witness:
  "locked_answer (tries sample_auth default_auth_settings (asc ''ada'')
     (map (\<lambda>t. (t, asc ''guess'')) [1000, 2000, 3000, 4000, 5000] @ [(6000, asc ''secret1'')]) sample_world ! 5)"
proof -
  let ?ts = "map (\<lambda>t. (t, asc ''guess'')) [1000, 2000, 3000, 4000, 5000] @ [(6000, asc ''secret1'')] :: (int \<times> ustr) list"
  have u: "get_by_username (asc ''ada'') (adb sample_world) = Some sample_account" "u_status sample_account \<noteq> 0"
    by code_simp+
  have t: "times_ok sample_auth" by (simp add: times_ok_def sample_auth_def parse_int_str_int str_int_nonempty)
  have h: "u_password sample_account = Some (asc ''secret1'')" by code_simp
  have w: "wrong_password sample_auth sample_account (snd (?ts ! i))" if "i < 5" for i
  proof -
    have "snd (?ts ! i) = asc ''guess''" using that by (auto simp: less_Suc_eq eval_nat_numeral)
    then show ?thesis by (simp add: wrong_password_def h sample_auth_def asc_def)
  qed
  show ?thesis
    using guesses_bounded [OF u t, of default_auth_settings 0 ?ts 5] w
    by (simp add: default_auth_settings_def) (simp add: sample_world_def r_get_def)
qed

text \<open>C32: An account does not get back a password that one of its last \<open>USER_PASSWORD_HISTORY_CHECK_COUNT\<close> accepted
changes gave it, by an administrator or by its owner, whatever refused changes and other requests came in between:
the change is refused and changes nothing, neither the database nor the sessions. The password an account is
created with is not among them, since \<open>user_create\<close> records none. Relied on: a password matches its own hash,
and the ORM's update of the password refreshes the loaded row (\<open>d_sync\<close>), from which the history is written.\<close>

theorem recent_passwords_refused:
  assumes "passwords_changed D S pk w0 pws w" "changes_password D S pk pw c" "d_sync D"
    "\<And>salt. d_verify D pw (d_hash D pw salt)" "pw \<in> set (take k pws)" "int k = USER_PASSWORD_HISTORY_CHECK_COUNT S"
  shows "\<exists>e. c w = (w, Inl e)"
proof -
  obtain salts where s: "length salts = length pws"
    "map ph_password (get_history pk (adb w)) = map2 (d_hash D) pws salts @ map ph_password (get_history pk (adb w0))"
    using changed_histories [OF assms(1,3)] by blast
  obtain i where i: "i < k" "i < length pws" "pws ! i = pw"
    using assms(5) by (auto simp: in_set_conv_nth)
  let ?hs = "get_history pk (adb w)"
  have "length (map ph_password ?hs) \<ge> length pws" using s by simp
  then have l: "i < length ?hs" using i by simp
  have "ph_password (?hs ! i) = map ph_password ?hs ! i" using l by simp
  also have "\<dots> = d_hash D pw (salts ! i)" using i s by (simp add: nth_append)
  finally have h: "ph_password (?hs ! i) = d_hash D pw (salts ! i)" .
  have "?hs ! i \<in> set (take k ?hs)" using l i by (auto simp: in_set_conv_nth)
  then have "?hs ! i \<in> set (slice_to ?hs (USER_PASSWORD_HISTORY_CHECK_COUNT S))"
    using assms(6) [symmetric] l by (cases "length ?hs \<le> k") (simp_all add: slice_to_def min_def)
  from change_refused [OF assms(2) this] h assms(4) show ?thesis by simp
qed

theorem recent_passwords_refused_witness:
  "\<exists>w n e. user_reset_password sample_auth default_auth_settings 2000 [] 7 (asc ''secret2'') sample_world = (w, Inr n)
    \<and> user_reset_password sample_auth default_auth_settings 3000 [] 7 (asc ''secret2'') w = (w, Inl e)"
proof -
  have v: "d_verify sample_auth = (=)" "d_sync sample_auth" "d_hash sample_auth = (\<lambda>pw salt. pw)"
    by (simp_all add: sample_auth_def)
  have "validate_new_password sample_auth default_auth_settings 7 (asc ''secret2'') (adb sample_world) = Inr ()"
  proof -
    have "list_ex (\<lambda>c. 48 \<le> c \<and> c \<le> 57) (asc ''secret2'')" "is_has_letter (asc ''secret2'')"
      "get_history 7 (adb sample_world) = []" "length (asc ''secret2'') = 7" by code_simp+
    then show ?thesis
      by (simp add: validate_new_password_def is_has_number_def slice_to_def)
        (simp add: sample_auth_def default_auth_settings_def)
  qed
  moreover have "get_user 7 (adb sample_world) = Some sample_account" "u_id sample_account = 7" by code_simp+
  ultimately obtain w n where w:
    "user_reset_password sample_auth default_auth_settings 2000 [] 7 (asc ''secret2'') sample_world = (w, Inr n)"
    using v by (simp add: user_reset_password_def change_password_def case_prod_beta Let_def)
  have c: "changes_password sample_auth default_auth_settings 7 (asc ''secret2'')
      (user_reset_password sample_auth default_auth_settings now [] 7 (asc ''secret2''))" for now
    by (auto simp: changes_password_def)
  have p: "passwords_changed sample_auth default_auth_settings 7 sample_world [asc ''secret2''] w"
    by (rule change [OF start c w])
  have "\<exists>e. user_reset_password sample_auth default_auth_settings 3000 [] 7 (asc ''secret2'') w = (w, Inl e)"
    by (rule recent_passwords_refused [OF p c, of 3]) (simp_all add: v default_auth_settings_def)
  then show ?thesis using w by blast
qed

end
