(* ===== verification/Evaluation.thy ===== *)
theory Evaluation
  imports Query "HOL-Library.List_Lexorder" "HOL-Library.Char_ord"
begin

text \<open>
  \<open>backend/app/rag/evaluation\<close>: the metrics of one question (\<open>metrics.py\<close>), the dataset and its checks
  (\<open>dataset.py\<close>), the report over a run (\<open>runner.py\<close>), the release thresholds (\<open>thresholds.py\<close>) and the
  executor that asks the query service (\<open>service_executor.py\<close>). Floats are reals; \<open>json.loads\<close> and the
  measured latencies are parameters, and so is the table behind \<open>str.isprintable\<close>.
\<close>

section \<open>Metrics\<close>

definition recall_at_k :: "int list \<Rightarrow> int list \<Rightarrow> int \<Rightarrow> real" where
  "recall_at_k ranked_ids relevant_ids k =
     (if relevant_ids = [] then 1
      else real (length (filter (List.member relevant_ids) (remdups (slice_to ranked_ids k))))
           / real (length (remdups relevant_ids)))"

fun reciprocal_rank_from :: "nat \<Rightarrow> int list \<Rightarrow> int list \<Rightarrow> real" where
  "reciprocal_rank_from r [] relevant_ids = 0"
| "reciprocal_rank_from r (chunk_id # ids) relevant_ids =
     (if List.member relevant_ids chunk_id then 1 / real r else reciprocal_rank_from (Suc r) ids relevant_ids)"

definition reciprocal_rank :: "int list \<Rightarrow> int list \<Rightarrow> real" where
  "reciprocal_rank ranked_ids relevant_ids = reciprocal_rank_from 1 ranked_ids relevant_ids"

text \<open>\<open>relevance\<close> is a dictionary; a grade may be any integer.\<close>

definition gain :: "(int \<times> int) list \<Rightarrow> int \<Rightarrow> real" where
  "gain relevance chunk_id = 2 powi (case map_of relevance chunk_id of Some g \<Rightarrow> g | None \<Rightarrow> 0) - 1"

definition dcg :: "(int \<times> int) list \<Rightarrow> int \<Rightarrow> int list \<Rightarrow> real" where
  "dcg relevance k ids =
     sum_list (map (\<lambda>(rank, chunk_id). gain relevance chunk_id / log 2 (real rank + 1)) (enumerate1 (slice_to ids k)))"

definition ndcg_at_k :: "int list \<Rightarrow> (int \<times> int) list \<Rightarrow> int \<Rightarrow> real" where
  "ndcg_at_k ranked_ids relevance k =
     (let actual = dcg relevance k ranked_ids;
          ideal = dcg relevance k (map fst (sorted_desc (\<lambda>p. real_of_int (snd p)) relevance))
      in if ideal \<noteq> 0 then actual / ideal else 1)"

definition set_precision_recall :: "int list \<Rightarrow> int list \<Rightarrow> real \<times> real" where
  "set_precision_recall predicted_ids expected_ids =
     (let predicted = remdups predicted_ids; expected = remdups expected_ids
      in if predicted = [] then (if expected = [] then (1, 1) else (0, 0))
         else let overlap = real (length (filter (List.member expected) predicted))
              in (overlap / real (length predicted),
                  if expected \<noteq> [] then overlap / real (length expected) else 1))"

definition abstention_accuracy :: "bool \<Rightarrow> bool \<Rightarrow> real" where
  "abstention_accuracy predicted expected = (if predicted = expected then 1 else 0)"

definition mean :: "real list \<Rightarrow> real res" where
  "mean values' = (if values' = [] then Inl (ValueError msg_no_samples)
                   else Inr (sum_list values' / real (length values')))"

definition percentile :: "real list \<Rightarrow> int \<Rightarrow> real res" where
  "percentile values' p =
     (if values' = [] then Inl (ValueError msg_no_latencies)
      else if \<not> (0 < p \<and> p \<le> 100) then Inl (ValueError msg_percentile)
      else let index = max 0 ((int (length values') * p + 99) div 100 - 1)
           in Inr (sort values' ! nat index))"

section \<open>Texts of the error messages\<close>

text \<open>\<open>repr\<close> of a string: the quotes, then each character.\<close>

definition hex_digit :: "nat \<Rightarrow> nat" where
  "hex_digit d = (if d < 10 then 48 + d else 87 + d)"

fun hex_pad :: "nat \<Rightarrow> nat \<Rightarrow> ustr" where
  "hex_pad 0 n = []"
| "hex_pad (Suc w) n = hex_pad w (n div 16) @ [hex_digit (n mod 16)]"

definition repr_char :: "(nat \<Rightarrow> bool) \<Rightarrow> nat \<Rightarrow> nat \<Rightarrow> ustr" where
  "repr_char printable quote c =
     (if c = quote \<or> c = 92 then [92, c]
      else if c = 9 then [92, 116] else if c = 10 then [92, 110] else if c = 13 then [92, 114]
      else if printable c then [c]
      else if c < 256 then [92, 120] @ hex_pad 2 c
      else if c < 65536 then [92, 117] @ hex_pad 4 c else [92, 85] @ hex_pad 8 c)"

definition py_repr :: "(nat \<Rightarrow> bool) \<Rightarrow> ustr \<Rightarrow> ustr" where
  "py_repr printable s =
     (let quote = (if List.member s 39 \<and> \<not> List.member s 34 then 34 else 39)
      in [quote] @ concat (map (repr_char printable quote) s) @ [quote])"

text \<open>A set of strings as \<open>sorted(s)\<close> prints.\<close>

definition list_repr :: "(nat \<Rightarrow> bool) \<Rightarrow> ustr list \<Rightarrow> ustr" where
  "list_repr printable s = [91] @ join [44, 32] (map (py_repr printable) (sort (remdups s))) @ [93]"

section \<open>Datasets\<close>

record evaluation_case =
  ec_case_id :: ustr
  ec_question :: ustr
  ec_category :: ustr
  ec_knowledge_base_ids :: "int list"
  ec_relevant_chunk_ids :: "int list"
  ec_relevance :: "(int \<times> int) list"
  ec_expected_citations :: "int list"
  ec_expected_abstain :: bool
  ec_review_status :: ustr

text \<open>A decoded line: every field may be missing. The keys of \<open>relevance\<close> are strings in JSON.\<close>

record raw_case =
  rc_case_id :: "ustr option"
  rc_question :: "ustr option"
  rc_category :: "ustr option"
  rc_knowledge_base_ids :: "int list option"
  rc_relevant_chunk_ids :: "int list option"
  rc_relevance :: "(ustr \<times> int) list option"
  rc_expected_citations :: "int list option"
  rc_expected_abstain :: "bool option"
  rc_review_status :: "ustr option"

definition missing_fields :: "raw_case \<Rightarrow> ustr list" where
  "missing_fields raw =
     (if rc_case_id raw = None then [asc ''case_id''] else [])
     @ (if rc_category raw = None then [asc ''category''] else [])
     @ (if rc_expected_abstain raw = None then [asc ''expected_abstain''] else [])
     @ (if rc_knowledge_base_ids raw = None then [asc ''knowledge_base_ids''] else [])
     @ (if rc_question raw = None then [asc ''question''] else [])
     @ (if rc_relevant_chunk_ids raw = None then [asc ''relevant_chunk_ids''] else [])
     @ (if rc_review_status raw = None then [asc ''review_status''] else [])"

definition relevance_of :: "(ustr \<times> int) list \<Rightarrow> (int \<times> int) list res" where
  "relevance_of raw =
     rmap (\<lambda>ps. foldl (\<lambda>d (k, v). AList.update k v d) [] ps)
       (traverse (\<lambda>(k, v). case parse_int k of None \<Rightarrow> Inl (ValueError k) | Some i \<Rightarrow> Inr (i, v)) raw)"

definition case_of :: "raw_case \<Rightarrow> (int \<times> int) list \<Rightarrow> evaluation_case" where
  "case_of raw relevance =
     \<lparr>ec_case_id = the (rc_case_id raw), ec_question = the (rc_question raw), ec_category = the (rc_category raw),
      ec_knowledge_base_ids = the (rc_knowledge_base_ids raw),
      ec_relevant_chunk_ids = the (rc_relevant_chunk_ids raw), ec_relevance = relevance,
      ec_expected_citations = (case rc_expected_citations raw of Some is \<Rightarrow> is | None \<Rightarrow> the (rc_relevant_chunk_ids raw)),
      ec_expected_abstain = the (rc_expected_abstain raw), ec_review_status = the (rc_review_status raw)\<rparr>"

fun load_lines ::
  "(nat \<Rightarrow> bool) \<Rightarrow> (ustr \<Rightarrow> raw_case res) \<Rightarrow> bool \<Rightarrow> nat \<Rightarrow> evaluation_case list \<Rightarrow> ustr list
     \<Rightarrow> evaluation_case list res" where
  "load_lines printable json_loads require_approved n cases [] = Inr cases"
| "load_lines printable json_loads require_approved n cases (line # lines) =
     (if strip line = [] then load_lines printable json_loads require_approved (Suc n) cases lines
      else rbind (json_loads line) (\<lambda>raw.
        if missing_fields raw \<noteq> []
        then Inl (ValueError (txt_page_pre @ str_nat n @ msg_line_fields_post @ list_repr printable (missing_fields raw)))
        else if require_approved \<and> the (rc_review_status raw) \<noteq> asc ''approved''
        then Inl (ValueError (msg_case_pre @ the (rc_case_id raw) @ msg_not_approved_post))
        else rbind (relevance_of (case rc_relevance raw of Some r \<Rightarrow> r | None \<Rightarrow> [])) (\<lambda>relevance.
          load_lines printable json_loads require_approved (Suc n) (cases @ [case_of raw relevance]) lines)))"

definition load_dataset ::
  "(nat \<Rightarrow> bool) \<Rightarrow> (ustr \<Rightarrow> raw_case res) \<Rightarrow> bool \<Rightarrow> ustr \<Rightarrow> evaluation_case list res" where
  "load_dataset printable json_loads require_approved text =
     rbind (load_lines printable json_loads require_approved 1 [] (splitlines text)) (\<lambda>cases.
       if cases = [] then Inl (ValueError msg_dataset_empty)
       else if length (remdups (map ec_case_id cases)) \<noteq> length cases then Inl (ValueError msg_case_twice)
       else Inr cases)"

section \<open>Reports\<close>

record evaluation_result =
  er_case_id :: ustr
  er_retrieved :: "int list"
  er_cited :: "int list"
  er_abstained :: bool
  er_latency_ms :: real
  er_mode :: ustr
  er_rerank_called :: bool
  er_rerank_succeeded :: bool
  er_rerank_tokens :: int
  er_rerank_cost :: real
  er_chat_called :: bool
  er_chat_succeeded :: bool
  er_chat_prompt_tokens :: int
  er_chat_completion_tokens :: int
  er_chat_cost :: real

definition load_results :: "(ustr \<Rightarrow> evaluation_result res) \<Rightarrow> ustr \<Rightarrow> evaluation_result list res" where
  "load_results json_loads text = traverse json_loads (filter (\<lambda>line. strip line \<noteq> []) (splitlines text))"

text \<open>A report: \<open>dict[str, float | int]\<close>.\<close>

datatype number = Num_int int | Num_float real

fun as_float :: "number \<Rightarrow> real" where
  "as_float (Num_int i) = real_of_int i"
| "as_float (Num_float x) = x"

type_synonym report = "(ustr \<times> number) list"

text \<open>The lists the loop over the cases fills.\<close>

record samples =
  sa_recall5 :: "real list"
  sa_recall20 :: "real list"
  sa_mrr :: "real list"
  sa_ndcg :: "real list"
  sa_citation_precision :: "real list"
  sa_citation_recall :: "real list"
  sa_abstention :: "real list"
  sa_latency :: "real list"

definition no_samples :: samples where
  "no_samples = \<lparr>sa_recall5 = [], sa_recall20 = [], sa_mrr = [], sa_ndcg = [], sa_citation_precision = [],
     sa_citation_recall = [], sa_abstention = [], sa_latency = []\<rparr>"

definition sample_case :: "bool \<Rightarrow> evaluation_result \<Rightarrow> evaluation_case \<Rightarrow> samples \<Rightarrow> samples" where
  "sample_case answer_mode r c sa =
     (let relevant = ec_relevant_chunk_ids c; ranked = er_retrieved r;
          sa1 = (if relevant = [] then sa
                 else sa\<lparr>sa_recall5 := sa_recall5 sa @ [recall_at_k ranked relevant 5],
                         sa_recall20 := sa_recall20 sa @ [recall_at_k ranked relevant 20],
                         sa_mrr := sa_mrr sa @ [reciprocal_rank ranked relevant],
                         sa_ndcg := sa_ndcg sa @ [ndcg_at_k ranked (ec_relevance c) 20]\<rparr>);
          pr = set_precision_recall (er_cited r) (ec_expected_citations c);
          sa2 = (if answer_mode
                 then sa1\<lparr>sa_citation_precision := sa_citation_precision sa1 @ [fst pr],
                          sa_citation_recall := sa_citation_recall sa1 @ [snd pr],
                          sa_abstention := sa_abstention sa1
                            @ [abstention_accuracy (er_abstained r) (ec_expected_abstain c)]\<rparr>
                 else sa1)
      in sa2\<lparr>sa_latency := sa_latency sa2 @ [er_latency_ms r]\<rparr>)"

definition result_of :: "evaluation_result list \<Rightarrow> ustr \<Rightarrow> evaluation_result option" where
  "result_of results = map_of (rev (map (\<lambda>r. (er_case_id r, r)) results))"

fun sample_cases ::
  "bool \<Rightarrow> evaluation_result list \<Rightarrow> samples \<Rightarrow> evaluation_case list \<Rightarrow> samples" where
  "sample_cases answer_mode results sa [] = sa"
| "sample_cases answer_mode results sa (c # cs) =
     sample_cases answer_mode results
       (case result_of results (ec_case_id c) of None \<Rightarrow> sa | Some r \<Rightarrow> sample_case answer_mode r c sa) cs"

definition report_of :: "bool \<Rightarrow> nat \<Rightarrow> evaluation_result list \<Rightarrow> samples \<Rightarrow> report res" where
  "report_of answer_mode n results sa =
     rbind (mean (sa_recall5 sa)) (\<lambda>recall5.
     rbind (mean (sa_recall20 sa)) (\<lambda>recall20.
     rbind (mean (sa_mrr sa)) (\<lambda>mrr.
     rbind (mean (sa_ndcg sa)) (\<lambda>ndcg.
     rbind (percentile (sa_latency sa) 50) (\<lambda>p50.
     rbind (percentile (sa_latency sa) 95) (\<lambda>p95.
     let report =
       [(asc ''case_count'', Num_int (int n)), (asc ''recall_at_5'', Num_float recall5),
        (asc ''recall_at_20'', Num_float recall20), (asc ''mrr'', Num_float mrr), (asc ''ndcg_at_20'', Num_float ndcg),
        (asc ''latency_p50_ms'', Num_float p50), (asc ''latency_p95_ms'', Num_float p95),
        (asc ''rerank_requests'', Num_int (int (length (filter er_rerank_called results)))),
        (asc ''rerank_successes'', Num_int (int (length (filter er_rerank_succeeded results)))),
        (asc ''rerank_total_tokens'', Num_int (sum_list (map er_rerank_tokens results))),
        (asc ''rerank_cost_cny'', Num_float (sum_list (map er_rerank_cost results))),
        (asc ''chat_requests'', Num_int (int (length (filter er_chat_called results)))),
        (asc ''chat_successes'', Num_int (int (length (filter er_chat_succeeded results)))),
        (asc ''chat_prompt_tokens'', Num_int (sum_list (map er_chat_prompt_tokens results))),
        (asc ''chat_completion_tokens'', Num_int (sum_list (map er_chat_completion_tokens results))),
        (asc ''chat_cost_cny'', Num_float (sum_list (map er_chat_cost results)))]
     in if answer_mode
        then rbind (mean (sa_citation_precision sa)) (\<lambda>precision.
             rbind (mean (sa_citation_recall sa)) (\<lambda>recall.
             rbind (mean (sa_abstention sa)) (\<lambda>abstention.
             Inr (report @ [(asc ''citation_precision'', Num_float precision), (asc ''citation_recall'', Num_float recall),
                            (asc ''abstention_accuracy'', Num_float abstention)]))))
        else Inr report))))))"

definition build_report ::
  "(nat \<Rightarrow> bool) \<Rightarrow> evaluation_case list \<Rightarrow> evaluation_result list \<Rightarrow> report res" where
  "build_report printable cases results =
     (let missing = filter (\<lambda>i. result_of results i = None) (map ec_case_id cases);
          modes = remdups (map er_mode results)
      in if missing \<noteq> [] then Inl (ValueError (msg_results_missing_pre @ list_repr printable missing))
         else if \<not> list_all (List.member [asc ''retrieval'', asc ''answer'']) modes \<or> length modes \<noteq> 1
         then Inl (ValueError msg_one_mode)
         else let answer_mode = (hd modes = asc ''answer'')
              in report_of answer_mode (length cases) results (sample_cases answer_mode results no_samples cases))"

definition evaluate_files ::
  "(nat \<Rightarrow> bool) \<Rightarrow> (ustr \<Rightarrow> raw_case res) \<Rightarrow> (ustr \<Rightarrow> evaluation_result res) \<Rightarrow> bool \<Rightarrow> ustr \<Rightarrow> ustr
     \<Rightarrow> report res" where
  "evaluate_files printable load_case load_result require_approved dataset results =
     rbind (load_dataset printable load_case require_approved dataset) (\<lambda>cases.
     rbind (load_results load_result results) (build_report printable cases))"

section \<open>Thresholds\<close>

record metric_threshold =
  mt_metric :: ustr
  mt_comparator :: ustr
  mt_value :: real

record evaluation_thresholds =
  et_dataset_version :: ustr
  et_profile_hash :: ustr
  et_thresholds :: "metric_threshold list"

text \<open>The decoded file; the items may lack fields too.\<close>

record raw_threshold =
  rt_metric :: "ustr option"
  rt_comparator :: "ustr option"
  rt_value :: "real option"

record raw_thresholds =
  rt_dataset_version :: "ustr option"
  rt_profile_hash :: "ustr option"
  rt_thresholds :: "raw_threshold list option"

definition threshold_of :: "raw_threshold \<Rightarrow> metric_threshold res" where
  "threshold_of item =
     (case (rt_metric item, rt_comparator item, rt_value item) of
        (Some metric, Some comparator, Some value) \<Rightarrow>
          Inr \<lparr>mt_metric = metric, mt_comparator = comparator, mt_value = value\<rparr>
      | _ \<Rightarrow> Inl KeyError)"

definition load_thresholds :: "(nat \<Rightarrow> bool) \<Rightarrow> raw_thresholds \<Rightarrow> evaluation_thresholds res" where
  "load_thresholds printable raw =
     (let missing = (if rt_dataset_version raw = None then [asc ''dataset_version''] else [])
           @ (if rt_profile_hash raw = None then [asc ''index_profile_hash''] else [])
           @ (if rt_thresholds raw = None then [asc ''thresholds''] else [])
      in if missing \<noteq> [] then Inl (ValueError (msg_thresholds_fields @ list_repr printable missing))
         else rbind (traverse threshold_of (the (rt_thresholds raw))) (\<lambda>thresholds.
           if thresholds = [] then Inl (ValueError msg_thresholds_empty)
           else if list_ex (\<lambda>t. \<not> List.member [asc ''min'', asc ''max''] (mt_comparator t)) thresholds
           then Inl (ValueError msg_comparator)
           else Inr \<lparr>et_dataset_version = the (rt_dataset_version raw), et_profile_hash = the (rt_profile_hash raw),
                     et_thresholds = thresholds\<rparr>))"

text \<open>\<open>render\<close> renders a number as an f-string does.\<close>

definition threshold_failures :: "(number \<Rightarrow> ustr) \<Rightarrow> report \<Rightarrow> metric_threshold \<Rightarrow> ustr list" where
  "threshold_failures render report t =
     (case map_of report (mt_metric t) of
        None \<Rightarrow> [mt_metric t @ msg_metric_missing]
      | Some actual \<Rightarrow>
          (if mt_comparator t = asc ''min'' \<and> as_float actual < mt_value t
           then [mt_metric t @ [61] @ render actual @ msg_below_min @ render (Num_float (mt_value t))] else [])
          @ (if mt_comparator t = asc ''max'' \<and> mt_value t < as_float actual
             then [mt_metric t @ [61] @ render actual @ msg_above_max @ render (Num_float (mt_value t))] else []))"

definition assert_report_meets_thresholds ::
  "(number \<Rightarrow> ustr) \<Rightarrow> report \<Rightarrow> evaluation_thresholds \<Rightarrow> unit res" where
  "assert_report_meets_thresholds render report thresholds =
     (let failures = concat (map (threshold_failures render report) (et_thresholds thresholds))
      in if failures \<noteq> [] then Inl (ValueError (msg_thresholds_failed @ join [59, 32] failures)) else Inr ())"

section \<open>The executor\<close>

text \<open>
  The services of a run: those of the query service, with the usage that the reranker and the chat
  model report besides their answers, the prices, and per question the trace id and the two measured
  times. \<open>RetrieveParam\<close> and \<open>AnswerParam\<close> are validated when they are built.
\<close>

record run_services =
  rn_engine :: search_engine
  rn_settings :: query_settings
  rn_embed :: "ustr list \<Rightarrow> embedding list res"
  rn_rerank :: "ustr \<Rightarrow> ustr list \<Rightarrow> rerank_result list res \<times> rerank_usage"
  rn_chat :: "ustr \<Rightarrow> ustr \<Rightarrow> ustr res \<times> chat_usage"
  rn_rerank_price :: real
  rn_chat_input_price :: real
  rn_chat_output_price :: real
  rn_trace :: "nat \<Rightarrow> ustr"
  rn_log_latency :: "nat \<Rightarrow> int"
  rn_latency :: "nat \<Rightarrow> real"

definition run_retrieve ::
  "run_services \<Rightarrow> int \<Rightarrow> bool \<Rightarrow> 'a retrieve_param_scheme \<Rightarrow> rag_db \<Rightarrow> source_detail list res" where
  "run_retrieve X user_id is_admin obj db =
     retrieve (rn_engine X) (rn_settings X) (rn_embed X) (\<lambda>q ds. fst (rn_rerank X q ds)) user_id is_admin obj db"

text \<open>
  The candidates a retrieval passes to the reranker, whose call sets the usage that
  \<open>get_rerank_usage\<close> reads afterwards.
\<close>

definition run_candidates ::
  "run_services \<Rightarrow> int \<Rightarrow> bool \<Rightarrow> 'a retrieve_param_scheme \<Rightarrow> rag_db \<Rightarrow> merged_result list res" where
  "run_candidates X user_id is_admin obj db =
     rbind (accessible_kb_ids user_id is_admin (rp_knowledge_base_ids obj) db) (\<lambda>ids.
     rbind (rn_embed X [rp_question obj]) (\<lambda>vectors.
     if vectors = [] then Inl IndexError
     else
       let base = base_rows ids db in
       rbind (dense_rows (rn_engine X) (qs_dense_candidate_k (rn_settings X)) (hd vectors) base) (\<lambda>dense.
       rbind (lexical_rows (rn_engine X) (qs_lexical_candidate_k (rn_settings X)) (rp_question obj) base) (\<lambda>lexical.
       fused (rn_engine X) (rn_settings X) (hd vectors) dense lexical))))"

lemma run_retrieve_candidates:
  "run_retrieve X u adm obj db = rbind (run_candidates X u adm obj db) (\<lambda>ordered.
     rmap (sources_of (rn_settings X) db (rp_top_k obj))
       (rerank_step (\<lambda>q ds. fst (rn_rerank X q ds)) (rp_question obj) ordered))"
  by (simp add: run_retrieve_def retrieve_def run_candidates_def rbind_assoc Let_def if_distrib [of "\<lambda>m. rbind m _"]
      cong: if_cong)

definition rerank_usage_of ::
  "run_services \<Rightarrow> int \<Rightarrow> bool \<Rightarrow> 'a retrieve_param_scheme \<Rightarrow> rag_db \<Rightarrow> rerank_usage" where
  "rerank_usage_of X user_id is_admin obj db =
     (case run_candidates X user_id is_admin obj db of
        Inl _ \<Rightarrow> no_rerank_usage
      | Inr ordered \<Rightarrow> snd (rn_rerank X (rp_question obj) (map (ch_contextual_content \<circ> mr_chunk) ordered)))"

text \<open>\<open>answer\<close> resets the usage of the chat model, so without a call it is empty.\<close>

definition chat_usage_of ::
  "run_services \<Rightarrow> 'a answer_param_scheme \<Rightarrow> source_detail list \<Rightarrow> chat_usage" where
  "chat_usage_of X obj sources =
     (if \<not> has_sufficient_scope_evidence (rp_question obj) sources then no_chat_usage
      else (case build_bounded_context sources (qs_final_context_k (rn_settings X))
                   (qs_context_max_tokens (rn_settings X)) of
              Inl _ \<Rightarrow> no_chat_usage
            | Inr selection \<Rightarrow> snd (rn_chat X (rp_question obj) (cs_context selection))))"

definition rerank_cost :: "run_services \<Rightarrow> rerank_usage \<Rightarrow> real" where
  "rerank_cost X usage = real_of_int (ru_total_tokens usage) * rn_rerank_price X / 1000000"

definition run_retrieval_case ::
  "run_services \<Rightarrow> int \<Rightarrow> bool \<Rightarrow> nat \<Rightarrow> evaluation_case \<Rightarrow> rag_db \<Rightarrow> evaluation_result res" where
  "run_retrieval_case X user_id is_admin n c db =
     (let obj = \<lparr>rp_question = ec_question c, rp_knowledge_base_ids = ec_knowledge_base_ids c, rp_top_k = 20\<rparr>;
          usage = rerank_usage_of X user_id is_admin obj db
      in if \<not> param_ok obj then Inl (OtherError (asc ''ValidationError''))
         else rmap (\<lambda>sources. \<lparr>er_case_id = ec_case_id c, er_retrieved = map sd_chunk_id sources, er_cited = [],
             er_abstained = (sources = []), er_latency_ms = rn_latency X n, er_mode = asc ''retrieval'',
             er_rerank_called = ru_called usage, er_rerank_succeeded = ru_succeeded usage,
             er_rerank_tokens = ru_total_tokens usage, er_rerank_cost = rerank_cost X usage,
             er_chat_called = False, er_chat_succeeded = False, er_chat_prompt_tokens = 0,
             er_chat_completion_tokens = 0, er_chat_cost = 0\<rparr>)
           (run_retrieve X user_id is_admin obj db))"

definition run_answer_case ::
  "run_services \<Rightarrow> int \<Rightarrow> bool \<Rightarrow> query_mode \<Rightarrow> nat \<Rightarrow> evaluation_case \<Rightarrow> rag_db
     \<Rightarrow> (rag_db \<times> evaluation_result) res" where
  "run_answer_case X user_id is_admin mode n c db =
     (let obj = \<lparr>rp_question = ec_question c, rp_knowledge_base_ids = ec_knowledge_base_ids c, rp_top_k = 20,
                  ap_mode = mode\<rparr>;
          usage = rerank_usage_of X user_id is_admin obj db
      in if \<not> param_ok obj then Inl (OtherError (asc ''ValidationError''))
         else rbind (run_retrieve X user_id is_admin obj db) (\<lambda>sources.
           let chat = chat_usage_of X obj sources in
           rmap (\<lambda>(db', a). (db', \<lparr>er_case_id = ec_case_id c, er_retrieved = map sd_chunk_id (ad_sources a),
               er_cited = extract_cited_chunk_ids (ad_answer a) (ad_sources a),
               er_abstained = (ad_status a = asc ''insufficient_evidence''), er_latency_ms = rn_latency X n,
               er_mode = asc ''answer'', er_rerank_called = ru_called usage, er_rerank_succeeded = ru_succeeded usage,
               er_rerank_tokens = ru_total_tokens usage, er_rerank_cost = rerank_cost X usage,
               er_chat_called = cu_called chat, er_chat_succeeded = cu_succeeded chat,
               er_chat_prompt_tokens = cu_prompt_tokens chat, er_chat_completion_tokens = cu_completion_tokens chat,
               er_chat_cost = (real_of_int (cu_prompt_tokens chat) * rn_chat_input_price X
                 + real_of_int (cu_completion_tokens chat) * rn_chat_output_price X) / 1000000\<rparr>))
             (answer (rn_engine X) (rn_settings X) (rn_embed X) (\<lambda>q ds. fst (rn_rerank X q ds))
               (\<lambda>q ctx. fst (rn_chat X q ctx)) (rn_trace X n) (rn_log_latency X n) user_id is_admin obj db)))"

fun run_cases ::
  "run_services \<Rightarrow> int \<Rightarrow> bool \<Rightarrow> query_mode option \<Rightarrow> nat \<Rightarrow> evaluation_case list \<Rightarrow> rag_db
     \<Rightarrow> (rag_db \<times> evaluation_result list) res" where
  "run_cases X user_id is_admin answer_mode n [] db = Inr (db, [])"
| "run_cases X user_id is_admin answer_mode n (c # cs) db =
     rbind (case answer_mode of
              None \<Rightarrow> rmap (Pair db) (run_retrieval_case X user_id is_admin n c db)
            | Some mode \<Rightarrow> run_answer_case X user_id is_admin mode n c db) (\<lambda>(db1, r).
     rmap (\<lambda>(db2, rs). (db2, r # rs)) (run_cases X user_id is_admin answer_mode (Suc n) cs db1))"

text \<open>Index profiles are never deleted, so their \<open>deleted\<close> column is always 0.\<close>

definition assert_index_profile_available :: "rag_db \<Rightarrow> ustr \<Rightarrow> unit res" where
  "assert_index_profile_available db profile_hash =
     (case find (\<lambda>p. ip_profile_hash p = profile_hash) (t_profiles db) of
        None \<Rightarrow> Inl (ValueError msg_profile_missing)
      | Some p \<Rightarrow>
          if list_ex (\<lambda>d. doc_index_profile_id d = Some (ip_id p) \<and> doc_deleted d = 0) (t_documents db)
          then Inr () else Inl (ValueError msg_profile_unused))"

definition run_service_evaluation ::
  "run_services \<Rightarrow> evaluation_case list \<Rightarrow> int \<Rightarrow> bool \<Rightarrow> ustr \<Rightarrow> query_mode option \<Rightarrow> rag_db
     \<Rightarrow> (rag_db \<times> evaluation_result list) res" where
  "run_service_evaluation X cases user_id is_admin index_profile_hash answer_mode db =
     rbind (assert_index_profile_available db index_profile_hash)
       (\<lambda>_. run_cases X user_id is_admin answer_mode 0 cases db)"

end
