(* ===== verification/EvaluationProps.thy ===== *)
theory EvaluationProps
  imports Evaluation QueryProps
begin

text \<open>
  What a report of \<open>backend/app/rag/evaluation\<close> means: every quality metric is a share, the gain of a
  ranking is at most that of the ideal one, a percentile is the nearest rank, and what the executor
  writes can always be reported.
\<close>

section \<open>Shares\<close>

definition share :: "real \<Rightarrow> bool" where
  "share x \<longleftrightarrow> 0 \<le> x \<and> x \<le> 1"

lemma length_common: "length (filter (List.member ys) (remdups xs)) = card (set xs \<inter> set ys)"
proof -
  have "length (filter (List.member ys) (remdups xs)) = card (set (filter (List.member ys) (remdups xs)))"
    by (simp only: distinct_card distinct_filter distinct_remdups)
  moreover have "set (filter (List.member ys) (remdups xs)) = set xs \<inter> set ys" by auto
  ultimately show ?thesis by simp
qed

lemma share_card: "A \<subseteq> B \<Longrightarrow> finite B \<Longrightarrow> share (real (card A) / real (card B))"
  using card_mono [of B A] by (cases "B = {}") (auto simp: share_def divide_le_eq_1 card_gt_0_iff)

lemma recall_share: "share (recall_at_k ranked relevant k)"
proof (cases "relevant = []")
  case False
  then show ?thesis
    using share_card [of "set (slice_to ranked k) \<inter> set relevant" "set relevant"]
    by (simp add: recall_at_k_def length_common length_remdups_card_conv)
qed (simp add: recall_at_k_def share_def)

lemma recall_mono:
  assumes "j \<le> k"
  shows "recall_at_k ranked relevant (int j) \<le> recall_at_k ranked relevant (int k)"
proof -
  have eq: "recall_at_k ranked relevant (int n) = (if relevant = [] then 1
      else real (card (set (take n ranked) \<inter> set relevant)) / real (length (remdups relevant)))" for n
    by (simp add: recall_at_k_def length_common slice_to_nonneg)
  have "set (take j ranked) \<inter> set relevant \<subseteq> set (take k ranked) \<inter> set relevant"
    using set_take_subset_set_take [OF assms, of ranked] by blast
  then have "card (set (take j ranked) \<inter> set relevant) \<le> card (set (take k ranked) \<inter> set relevant)"
    by (intro card_mono) auto
  then show ?thesis unfolding eq by (cases "relevant = []") (auto intro!: divide_right_mono)
qed

lemma reciprocal_rank_share: "share (reciprocal_rank ranked relevant)"
proof -
  have "1 \<le> r \<Longrightarrow> share (reciprocal_rank_from r ranked relevant)" for r
    by (induction ranked arbitrary: r) (auto simp: share_def)
  then show ?thesis by (simp add: reciprocal_rank_def)
qed

lemma precision_recall_share:
  "share (fst (set_precision_recall predicted expected))" "share (snd (set_precision_recall predicted expected))"
  using share_card [of "set predicted \<inter> set expected" "set predicted"]
    share_card [of "set predicted \<inter> set expected" "set expected"]
  by (auto simp: set_precision_recall_def Let_def length_common length_remdups_card_conv share_def)

section \<open>The ideal ranking\<close>

lemma top_sum:
  fixes g :: "'a \<Rightarrow> real"
  assumes "distinct ys" "sorted_wrt (\<lambda>x y. g y \<le> g x) ys" "S \<subseteq> set ys" "card S \<le> m" "\<forall>y \<in> set ys. 0 \<le> g y"
  shows "sum g S \<le> sum g (set (take m ys))"
proof (cases "length ys \<le> m")
  case True
  then show ?thesis using assms(3,5) by (auto intro!: sum_mono2)
next
  case False
  let ?T = "set (take m ys)" and ?c = "g (ys ! m)"
  have fin: "finite S" using assms(3) finite_subset by blast
  have T: "card ?T = m" using assms(1) False by (simp add: distinct_card)
  have low: "g y \<le> ?c" if y: "y \<in> set (drop m ys)" for y
  proof -
    obtain j where "j < length (drop m ys)" "drop m ys ! j = y"
      using y in_set_conv_nth [of y "drop m ys"] by blast
    then have j: "j < length ys - m" "y = ys ! (m + j)" using False by simp_all
    then show ?thesis using sorted_wrt_nth_less [OF assms(2), of m "m + j"] by (cases j) auto
  qed
  have high: "?c \<le> g y" if y: "y \<in> ?T" for y
  proof -
    obtain j where "j < m" "y = ys ! j" using y False by (auto simp: in_set_conv_nth)
    then show ?thesis using sorted_wrt_nth_less [OF assms(2), of j m] False by simp
  qed
  have c: "0 \<le> ?c" using assms(5) False by simp
  have rest: "S - ?T \<subseteq> set (drop m ys)" using assms(3) by (metis Diff_subset_conv append_take_drop_id set_append)
  have "sum g (S - ?T) \<le> real (card (S - ?T)) * ?c" using low rest by (intro sum_bounded_above) auto
  also have "\<dots> \<le> real (card (?T - S)) * ?c"
  proof -
    have "card (S - ?T) = card S - card (S \<inter> ?T)" "card (?T - S) = card ?T - card (S \<inter> ?T)"
      using fin by (simp_all add: card_Diff_subset_Int Int_commute)
    then show ?thesis using assms(4) T c by (intro mult_right_mono) auto
  qed
  also have "\<dots> \<le> sum g (?T - S)" using high by (intro sum_bounded_below) auto
  finally have "sum g (S - ?T) \<le> sum g (?T - S)" .
  moreover have "sum g S = sum g (S \<inter> ?T) + sum g (S - ?T)" using fin by (simp add: sum.Int_Diff)
  moreover have "sum g ?T = sum g (?T \<inter> S) + sum g (?T - S)" by (simp add: sum.Int_Diff)
  ultimately show ?thesis by (simp add: Int_commute)
qed

text \<open>Summation by parts, with weights that go down.\<close>

lemma weighted_sum_mono:
  fixes a b w :: "nat \<Rightarrow> real"
  assumes "\<And>m. m \<le> n \<Longrightarrow> sum a {..<m} \<le> sum b {..<m}" "\<And>i. 0 \<le> w i" "\<And>i. w (Suc i) \<le> w i"
  shows "(\<Sum>i<n. a i * w i) \<le> (\<Sum>i<n. b i * w i)"
proof -
  let ?d = "\<lambda>m. sum b {..<m} - sum a {..<m}"
  have "?d m * w m \<le> (\<Sum>i<m. b i * w i) - (\<Sum>i<m. a i * w i)" if "m \<le> n" for m
    using that
  proof (induction m)
    case (Suc m)
    have "?d (Suc m) * w (Suc m) \<le> ?d (Suc m) * w m"
      using assms(1) [OF Suc.prems] assms(3) [of m] by (intro mult_left_mono) auto
    also have "\<dots> = ?d m * w m + (b m - a m) * w m" by (simp add: algebra_simps)
    finally show ?case using Suc by (simp add: algebra_simps)
  qed simp
  from this [of n] have "?d n * w n \<le> (\<Sum>i<n. b i * w i) - (\<Sum>i<n. a i * w i)" by simp
  moreover have "0 \<le> ?d n * w n" using assms(1) [of n] assms(2) [of n] by simp
  ultimately show ?thesis by linarith
qed

definition rank_weight :: "nat \<Rightarrow> real" where
  "rank_weight i = 1 / log 2 (real i + 2)"

lemma rank_weight_nonneg: "0 \<le> rank_weight i"
  by (simp add: rank_weight_def)

lemma rank_weight_down: "rank_weight (Suc i) \<le> rank_weight i"
proof -
  have "0 < log 2 (real i + 2)" by simp
  moreover have "log 2 (real i + 2) \<le> log 2 (real (Suc i) + 2)" by simp
  ultimately show ?thesis unfolding rank_weight_def by (intro divide_left_mono) auto
qed

definition gain_at :: "(int \<times> int) list \<Rightarrow> int list \<Rightarrow> nat \<Rightarrow> real" where
  "gain_at relevance ids i = (if i < length ids then gain relevance (ids ! i) else 0)"

lemma dcg_sum: "dcg relevance (int n) ids = (\<Sum>i<n. gain_at relevance ids i * rank_weight i)"
proof -
  let ?f = "\<lambda>i. gain relevance (take n ids ! i) / log 2 (real (Suc i) + 1)"
  have "dcg relevance (int n) ids = (\<Sum>i<length (take n ids). ?f i)"
    by (simp add: dcg_def slice_to_nonneg enumerate1_def sum_list_sum_nth atLeast0LessThan nth_upt del: upt_Suc)
  also have "\<dots> = (\<Sum>i<n. if i < length ids then ?f i else 0)"
    by (rule sum.mono_neutral_cong_left) auto
  also have "\<dots> = (\<Sum>i<n. gain_at relevance ids i * rank_weight i)"
    by (intro sum.cong) (auto simp: gain_at_def rank_weight_def add.commute)
  finally show ?thesis .
qed

lemma gain_at_sum:
  assumes "distinct ids"
  shows "sum (gain_at relevance ids) {..<m} = sum (gain relevance) (set (take m ids))"
proof -
  have "sum (gain_at relevance ids) {..<m} = (\<Sum>i<length (take m ids). gain relevance (take m ids ! i))"
    by (rule sum.mono_neutral_cong_right) (auto simp: gain_at_def)
  also have "\<dots> = sum_list (map (gain relevance) (take m ids))" by (simp add: sum_list_sum_nth atLeast0LessThan)
  also have "\<dots> = sum (gain relevance) (set (take m ids))"
    using assms by (simp add: sum_list_distinct_conv_sum_set)
  finally show ?thesis .
qed

definition grades_ok :: "(int \<times> int) list \<Rightarrow> bool" where
  "grades_ok relevance \<longleftrightarrow> distinct (map fst relevance) \<and> (\<forall>p \<in> set relevance. 0 \<le> snd p)"

lemma gain_grade:
  "gain relevance i = (case map_of relevance i of Some g \<Rightarrow> 2 powi g - 1 | None \<Rightarrow> 0)"
  by (simp add: gain_def split: option.splits)

lemma gain_nonneg:
  assumes "grades_ok relevance"
  shows "0 \<le> gain relevance i"
proof (cases "map_of relevance i")
  case (Some g)
  then obtain n where "g = int n"
    using assms map_of_SomeD [OF Some] nonneg_int_cases unfolding grades_ok_def by (metis snd_conv)
  then show ?thesis using Some by (simp add: gain_grade)
qed (simp add: gain_grade)

lemma dcg_nonneg: "grades_ok relevance \<Longrightarrow> 0 \<le> dcg relevance (int n) ids"
  unfolding dcg_sum by (intro sum_nonneg) (simp add: gain_at_def gain_nonneg rank_weight_nonneg)

definition ideal_ids :: "(int \<times> int) list \<Rightarrow> int list" where
  "ideal_ids relevance = map fst (sorted_desc (\<lambda>p. real_of_int (snd p)) relevance)"

lemma ideal_ids_sorted:
  assumes "grades_ok relevance"
  shows "sorted_wrt (\<lambda>x y. gain relevance y \<le> gain relevance x) (ideal_ids relevance)"
proof -
  let ?ps = "sorted_desc (\<lambda>p. real_of_int (snd p)) relevance"
  have "gain relevance (fst q) \<le> gain relevance (fst p)"
    if "p \<in> set ?ps" "q \<in> set ?ps" "real_of_int (snd q) \<le> real_of_int (snd p)" for p q
  proof -
    have m: "map_of relevance (fst p) = Some (snd p)" "map_of relevance (fst q) = Some (snd q)"
      using assms that(1,2) by (simp_all add: grades_ok_def)
    have "(2 :: real) powi snd q \<le> 2 powi snd p" using that(3) by (intro power_int_increasing) auto
    then show ?thesis by (simp add: gain_grade m)
  qed
  then show ?thesis
    unfolding ideal_ids_def sorted_wrt_map
    by (rule sorted_wrt_mono_rel [rotated, OF sorted_desc_ordered]) auto
qed

lemma dcg_ideal:
  assumes "grades_ok relevance" "distinct ids"
  shows "dcg relevance (int n) ids \<le> dcg relevance (int n) (ideal_ids relevance)"
  unfolding dcg_sum
proof (rule weighted_sum_mono)
  fix m
  let ?keys = "fst ` set relevance" and ?g = "gain relevance"
  have ys: "distinct (ideal_ids relevance)" "set (ideal_ids relevance) = ?keys"
    using assms(1) by (simp_all add: ideal_ids_def grades_ok_def)
  let ?S = "set (take m ids) \<inter> ?keys"
  have "card ?S \<le> m" using card_mono [of "set (take m ids)" ?S] card_length [of "take m ids"] by simp
  then have "sum ?g ?S \<le> sum ?g (set (take m (ideal_ids relevance)))"
    using top_sum [OF ys(1) ideal_ids_sorted [OF assms(1)], of ?S m] ys(2) gain_nonneg [OF assms(1)] by simp
  moreover have "sum ?g (set (take m ids)) = sum ?g ?S"
    by (rule sum.mono_neutral_right) (force simp: gain_grade split: option.split_asm dest: map_of_SomeD)+
  ultimately show "sum (gain_at relevance ids) {..<m} \<le> sum (gain_at relevance (ideal_ids relevance)) {..<m}"
    by (simp add: gain_at_sum assms(2) ys(1))
qed (rule rank_weight_nonneg rank_weight_down)+

lemma ndcg_share:
  assumes "grades_ok relevance" "distinct ranked"
  shows "share (ndcg_at_k ranked relevance (int n))"
  using dcg_ideal [OF assms, of n] dcg_nonneg [OF assms(1), of n ranked]
    dcg_nonneg [OF assms(1), of n "ideal_ids relevance"]
  by (simp add: ndcg_at_k_def ideal_ids_def share_def Let_def divide_le_eq_1)

section \<open>Percentiles\<close>

lemma sorted_nth_filter:
  fixes ys :: "'a :: linorder list"
  assumes "sorted ys" "i < length ys"
  shows "Suc i \<le> length (filter (\<lambda>y. y \<le> ys ! i) ys)" "length (filter (\<lambda>y. y < ys ! i) ys) \<le> i"
proof -
  have "filter (\<lambda>y. y \<le> ys ! i) (take (Suc i) ys) = take (Suc i) ys"
    using assms by (auto simp: filter_id_conv in_set_conv_nth sorted_iff_nth_mono)
  then have "length (filter (\<lambda>y. y \<le> ys ! i) (take (Suc i) ys)) = Suc i" using assms(2) by simp
  moreover have "length (filter P (take k ys)) \<le> length (filter P ys)" for P k
    by (metis append_take_drop_id filter_append length_append le_add1)
  ultimately show "Suc i \<le> length (filter (\<lambda>y. y \<le> ys ! i) ys)" by metis
  have "filter (\<lambda>y. y < ys ! i) (drop i ys) = []"
    using assms by (auto simp: filter_empty_conv in_set_conv_nth sorted_iff_nth_mono not_less)
  then have "filter (\<lambda>y. y < ys ! i) ys = filter (\<lambda>y. y < ys ! i) (take i ys)"
    by (metis append_Nil2 append_take_drop_id filter_append)
  then show "length (filter (\<lambda>y. y < ys ! i) ys) \<le> i"
    using length_filter_le [of "\<lambda>y. y < ys ! i" "take i ys"] assms(2) by simp
qed

lemma length_filter_sort: "length (filter P (sort xs)) = length (filter P xs)"
  by (metis mset_filter mset_sort size_mset)

lemma percentile_rank:
  assumes "percentile xs p = Inr v"
  shows "v \<in> set xs" "p * int (length xs) \<le> 100 * int (length (filter (\<lambda>x. x \<le> v) xs))"
    "100 * int (length (filter (\<lambda>x. x < v) xs)) < p * int (length xs)"
proof -
  let ?n = "int (length xs)"
  let ?i = "max 0 ((?n * p + 99) div 100 - 1)"
  have xs: "xs \<noteq> []" and p: "0 < p" "p \<le> 100" and v: "v = sort xs ! nat ?i"
    using assms by (auto simp: percentile_def Let_def split: if_splits)
  have n: "0 < ?n" using xs by simp
  have np: "0 < ?n * p" using n p by simp
  have le: "?n * p \<le> ?n * 100" using n p by (intro mult_left_mono) auto
  have i: "?i = (?n * p + 99) div 100 - 1" using np by linarith
  have "(?n * p + 99) div 100 \<le> (?n * 100 + 99) div 100" using le by (intro zdiv_mono1) auto
  then have lt: "nat ?i < length (sort xs)" using n i by (simp add: nat_less_iff)
  note f = sorted_nth_filter [OF sorted_sort lt, folded v, unfolded length_filter_sort]
  show "v \<in> set xs" unfolding v using nth_mem [OF lt] by simp
  have "int (Suc (nat ?i)) = (?n * p + 99) div 100" using i by linarith
  then have "(?n * p + 99) div 100 \<le> int (length (filter (\<lambda>x. x \<le> v) xs))" using f(1) by linarith
  then show "p * ?n \<le> 100 * int (length (filter (\<lambda>x. x \<le> v) xs))" by (simp add: mult.commute)
  have "int (length (filter (\<lambda>x. x < v) xs)) \<le> ?i" using f(2) by linarith
  then show "100 * int (length (filter (\<lambda>x. x < v) xs)) < p * ?n" using i by (simp add: mult.commute)
qed

section \<open>What the loop over the cases collects\<close>

lemma mean_share:
  assumes "list_all share xs" "xs \<noteq> []"
  shows "\<exists>m. mean xs = Inr m \<and> share m"
proof -
  have "0 \<le> sum_list xs \<and> sum_list xs \<le> real (length xs)"
    using assms(1) by (induction xs) (auto simp: share_def)
  then show ?thesis using assms(2) by (auto simp: mean_def share_def divide_le_eq_1)
qed

lemma mean_mono:
  assumes "list_all2 (\<le>) xs ys" "mean xs = Inr a" "mean ys = Inr b"
  shows "a \<le> b"
proof -
  have "sum_list xs \<le> sum_list ys" using assms(1) by (induction rule: list_all2_induct) auto
  then show ?thesis
    using assms list_all2_lengthD [OF assms(1)] by (auto simp: mean_def divide_right_mono split: if_splits)
qed

text \<open>\<open>graded\<close>: whether the nDCG samples are shares too, as they are when no grade is negative.\<close>

definition samples_ok :: "bool \<Rightarrow> samples \<Rightarrow> bool" where
  "samples_ok graded sa \<longleftrightarrow> list_all share (sa_recall5 sa) \<and> list_all share (sa_recall20 sa) \<and> list_all share (sa_mrr sa)
     \<and> (graded \<longrightarrow> list_all share (sa_ndcg sa)) \<and> list_all share (sa_citation_precision sa)
     \<and> list_all share (sa_citation_recall sa) \<and> list_all share (sa_abstention sa)
     \<and> list_all2 (\<le>) (sa_recall5 sa) (sa_recall20 sa)
     \<and> length (sa_mrr sa) = length (sa_recall5 sa) \<and> length (sa_ndcg sa) = length (sa_recall5 sa)
     \<and> length (sa_citation_recall sa) = length (sa_citation_precision sa)
     \<and> length (sa_abstention sa) = length (sa_citation_precision sa)"

lemma samples_ok_none: "samples_ok graded no_samples"
  by (simp add: samples_ok_def no_samples_def)

lemma sample_case_ok:
  assumes "samples_ok graded sa" "graded \<Longrightarrow> grades_ok (ec_relevance c)" "distinct (er_retrieved r)"
  shows "samples_ok graded (sample_case m r c sa)"
  using assms(1) recall_share [of "er_retrieved r" "ec_relevant_chunk_ids c"]
    recall_mono [of 5 20 "er_retrieved r" "ec_relevant_chunk_ids c"] ndcg_share [OF assms(2,3), of 20]
    precision_recall_share [of "er_cited r" "ec_expected_citations c"]
    reciprocal_rank_share [of "er_retrieved r" "ec_relevant_chunk_ids c"]
  by (auto simp: samples_ok_def sample_case_def Let_def list_all2_appendI abstention_accuracy_def share_def)

lemma sample_case_counts:
  "sa_recall5 (sample_case m r c sa) = [] \<longleftrightarrow> sa_recall5 sa = [] \<and> ec_relevant_chunk_ids c = []"
  "length (sa_citation_precision (sample_case m r c sa)) = length (sa_citation_precision sa) + (if m then 1 else 0)"
  "length (sa_latency (sample_case m r c sa)) = Suc (length (sa_latency sa))"
  by (simp_all add: sample_case_def Let_def)

lemma sample_cases_ok:
  assumes "samples_ok graded sa"
    "\<forall>c \<in> set cs. (graded \<longrightarrow> grades_ok (ec_relevance c)) \<and> (\<exists>r. result_of rs (ec_case_id c) = Some r)"
    "\<forall>r \<in> set rs. distinct (er_retrieved r)"
  shows "samples_ok graded (sample_cases m rs sa cs)
    \<and> (sa_recall5 (sample_cases m rs sa cs) = [] \<longleftrightarrow> sa_recall5 sa = [] \<and> (\<forall>c \<in> set cs. ec_relevant_chunk_ids c = []))
    \<and> length (sa_citation_precision (sample_cases m rs sa cs))
        = length (sa_citation_precision sa) + (if m then length cs else 0)
    \<and> length (sa_latency (sample_cases m rs sa cs)) = length (sa_latency sa) + length cs"
  using assms(1,2)
proof (induction cs arbitrary: sa)
  case (Cons c cs)
  then obtain r where r: "result_of rs (ec_case_id c) = Some r" by auto
  then have "r \<in> set rs" by (auto simp: result_of_def dest!: map_of_SomeD)
  then have "samples_ok graded (sample_case m r c sa)" using Cons.prems sample_case_ok assms(3) by simp
  from Cons.IH [OF this] Cons.prems(2) show ?case by (simp add: r sample_case_counts)
qed simp

section \<open>Reports\<close>

definition quality_metrics :: "bool \<Rightarrow> bool \<Rightarrow> ustr list" where
  "quality_metrics graded answer_mode =
     [asc ''recall_at_5'', asc ''recall_at_20'', asc ''mrr''] @ (if graded then [asc ''ndcg_at_20''] else [])
     @ (if answer_mode then [asc ''citation_precision'', asc ''citation_recall'', asc ''abstention_accuracy''] else [])"

definition metric :: "report \<Rightarrow> string \<Rightarrow> real" where
  "metric report name = (case map_of report (asc name) of Some x \<Rightarrow> as_float x | None \<Rightarrow> - 1)"

lemma percentile_50_95:
  assumes "xs \<noteq> []"
  shows "\<exists>a b. percentile xs 50 = Inr a \<and> percentile xs 95 = Inr b \<and> a \<le> b"
proof -
  let ?i = "\<lambda>p. nat (max 0 ((int (length xs) * p + 99) div 100 - 1))"
  have "(int (length xs) * 95 + 99) div 100 \<le> (int (length xs) * 100 + 99) div 100" by (intro zdiv_mono1) auto
  moreover have "0 < length xs" using assms by simp
  ultimately have "?i 95 < length (sort xs)" by (simp add: nat_less_iff)
  moreover have "?i 50 \<le> ?i 95"
    using zdiv_mono1 [of "int (length xs) * 50 + 99" "int (length xs) * 95 + 99" 100] by (intro nat_mono) simp
  ultimately have "sort xs ! ?i 50 \<le> sort xs ! ?i 95" using sorted_sort sorted_nth_mono by blast
  then show ?thesis using assms by (simp add: percentile_def Let_def)
qed

lemma report_of_ok:
  assumes "samples_ok graded sa" "sa_recall5 sa \<noteq> []" "sa_latency sa \<noteq> []"
    "m \<Longrightarrow> sa_citation_precision sa \<noteq> []"
  shows "\<exists>report. report_of m n rs sa = Inr report
    \<and> (\<forall>x \<in> set (quality_metrics graded m). \<exists>v. map_of report x = Some (Num_float v) \<and> share v)
    \<and> metric report ''recall_at_5'' \<le> metric report ''recall_at_20''
    \<and> metric report ''latency_p50_ms'' \<le> metric report ''latency_p95_ms''"
proof -
  note ok = assms(1) [unfolded samples_ok_def]
  have ne: "sa_recall20 sa \<noteq> []" "sa_mrr sa \<noteq> []" "sa_ndcg sa \<noteq> []"
    using ok assms(2) list_all2_lengthD by (metis length_0_conv)+
  obtain r5 r20 mrr where q: "mean (sa_recall5 sa) = Inr r5" "share r5" "mean (sa_recall20 sa) = Inr r20" "share r20"
    "mean (sa_mrr sa) = Inr mrr" "share mrr"
    using mean_share ok assms(2) ne by meson
  obtain nd where nd: "mean (sa_ndcg sa) = Inr nd" "graded \<Longrightarrow> share nd"
    using mean_share [of "sa_ndcg sa"] ok ne(3) by (cases graded) (auto simp: mean_def)
  have le: "r5 \<le> r20" using mean_mono [OF _ q(1,3)] ok by blast
  obtain a b where p: "percentile (sa_latency sa) 50 = Inr a" "percentile (sa_latency sa) 95 = Inr b" "a \<le> b"
    using percentile_50_95 [OF assms(3)] by blast
  show ?thesis
  proof (cases m)
    case True
    then have "sa_citation_precision sa \<noteq> []" "sa_citation_recall sa \<noteq> []" "sa_abstention sa \<noteq> []"
      using assms(4) ok by (metis length_0_conv)+
    then obtain cp cr ab where c: "mean (sa_citation_precision sa) = Inr cp" "share cp"
      "mean (sa_citation_recall sa) = Inr cr" "share cr" "mean (sa_abstention sa) = Inr ab" "share ab"
      using mean_share ok by meson
    show ?thesis
      by (simp add: report_of_def q nd p c True le quality_metrics_def metric_def asc_def)
  next
    case False
    show ?thesis by (simp add: report_of_def q nd p False le quality_metrics_def metric_def asc_def)
  qed
qed

section \<open>Runs of the executor\<close>

lemma bounded_context_chosen:
  assumes "build_bounded_context sources ms mt = Inr sel"
  shows "\<exists>chosen. subseq chosen sources \<and> list_all2 truncated_from (cs_sources sel) chosen"
proof -
  have pos: "1 \<le> ms" "1 \<le> mt" using assms by (auto simp: build_bounded_context_def split: if_splits)
  have "\<exists>chosen. subseq chosen [] \<and> list_all2 truncated_from [] chosen
      \<and> distinct (map source_key chosen) \<and> set [] = set (map source_key chosen)"
    by (rule exI [of _ "[]"]) simp
  then have "selection_inv (mt * 4) ms [] 0 [] []"
    using pos by (simp add: selection_inv_def units_of_parts_def)
  then obtain used seen where "selection_inv (mt * 4) ms sources used seen (select_sources (mt * 4) ms 0 [] [] sources)"
    using select_sources_inv [of _ _ "[]" 0 "[]" "[]" sources] by fastforce
  then show ?thesis using assms pos by (auto simp: build_bounded_context_def selection_inv_def Let_def)
qed

lemma answer_sources_distinct:
  assumes "answer E s emb rr chat t l u adm obj db = Inr (db', a)" "1 \<le> rp_top_k obj"
  shows "distinct (map sd_chunk_id (ad_sources a))"
proof -
  obtain sources where src: "retrieve E s emb rr u adm obj db = Inr sources" "answer_from s chat obj t sources = Inr a"
    using assms(1) by (auto simp: answer_def res_iffs)
  have d: "distinct (map sd_chunk_id sources)" by (rule retrieve_chunks_distinct [OF src(1) assms(2)])
  show ?thesis
  proof (cases "has_sufficient_scope_evidence (rp_question obj) sources")
    case True
    then obtain sel where sel: "build_bounded_context sources (qs_final_context_k s) (qs_context_max_tokens s) = Inr sel"
      "ad_sources a = cs_sources sel"
      using src(2) by (auto simp: answer_from_def Let_def res_iffs)
    obtain chosen where c: "subseq chosen sources" "list_all2 truncated_from (cs_sources sel) chosen"
      using bounded_context_chosen [OF sel(1)] by blast
    have "map sd_chunk_id (cs_sources sel) = map sd_chunk_id chosen"
      using c(2)
    proof (induction rule: list_all2_induct)
      case (Cons x xs y ys)
      then have "x = y\<lparr>sd_content := sd_content x\<rparr>" by (simp add: truncated_from_def)
      then have "sd_chunk_id x = sd_chunk_id (y\<lparr>sd_content := sd_content x\<rparr>)" by (rule arg_cong)
      then show ?case using Cons by simp
    qed simp
    then show ?thesis using subseq_distinct [OF subseq_map [OF c(1), of sd_chunk_id] d] sel(2) by simp
  next
    case False
    then show ?thesis using src(2) by (auto simp: answer_from_def Let_def)
  qed
qed

definition mode_of :: "query_mode option \<Rightarrow> ustr" where
  "mode_of answer_mode = (case answer_mode of None \<Rightarrow> asc ''retrieval'' | Some _ \<Rightarrow> asc ''answer'')"

lemma run_case_ok:
  assumes "(case mode of None \<Rightarrow> rmap (Pair db) (run_retrieval_case X u adm n c db)
      | Some m \<Rightarrow> run_answer_case X u adm m n c db) = Inr (db1, r)"
  shows "er_case_id r = ec_case_id c \<and> er_mode r = mode_of mode \<and> distinct (er_retrieved r)"
proof (cases mode)
  case None
  have "distinct (map sd_chunk_id sources)"
    if "retrieve E s emb rr u adm \<lparr>rp_question = q, rp_knowledge_base_ids = ks, rp_top_k = 20\<rparr> db = Inr sources"
    for E s emb rr q ks sources by (rule retrieve_chunks_distinct [OF that]) simp
  then show ?thesis
    using assms None by (auto simp: run_retrieval_case_def run_retrieve_def Let_def res_iffs mode_of_def split: if_splits)
next
  case (Some m)
  have "distinct (map sd_chunk_id (ad_sources a))"
    if "answer E s emb rr chat t l u adm \<lparr>rp_question = q, rp_knowledge_base_ids = ks, rp_top_k = 20, ap_mode = m\<rparr> db
      = Inr (db', a)" for E s emb rr chat t l q ks db' a by (rule answer_sources_distinct [OF that]) simp
  then show ?thesis
    using assms Some by (auto simp: run_answer_case_def Let_def res_iffs mode_of_def split: if_splits)
qed

lemma run_cases_ok:
  assumes "run_cases X u adm mode n cs db = Inr (db', rs)"
  shows "map er_case_id rs = map ec_case_id cs
    \<and> (\<forall>r \<in> set rs. er_mode r = mode_of mode \<and> distinct (er_retrieved r))"
  using assms
proof (induction cs arbitrary: n db db' rs)
  case (Cons c cs)
  then obtain db1 r rs' where r: "(case mode of None \<Rightarrow> rmap (Pair db) (run_retrieval_case X u adm n c db)
      | Some m \<Rightarrow> run_answer_case X u adm m n c db) = Inr (db1, r)"
    and rs: "run_cases X u adm mode (Suc n) cs db1 = Inr (db', rs')" "rs = r # rs'"
    by (auto simp: res_iffs)
  then show ?case using run_case_ok [OF r] Cons.IH [OF rs(1)] by simp
qed simp

lemma relevance_distinct:
  assumes "relevance_of raw = Inr rel"
  shows "distinct (map fst rel)"
proof -
  have "distinct (map fst (foldl (\<lambda>d (k, v). AList.update k v d) d ps))" if "distinct (map fst d)"
    for d :: "(int \<times> int) list" and ps
    using that
  proof (induction ps arbitrary: d)
    case (Cons p ps)
    obtain k v where "p = (k, v)" by fastforce
    then show ?case using Cons.IH [OF distinct_update [OF Cons.prems, of k v]] by simp
  qed simp
  then show ?thesis using assms by (auto simp: relevance_of_def res_iffs)
qed

lemma load_lines_relevance:
  assumes "load_lines pr js appr n cases lines = Inr cases'" "\<forall>c \<in> set cases. distinct (map fst (ec_relevance c))"
  shows "\<forall>c \<in> set cases'. distinct (map fst (ec_relevance c))"
  using assms
proof (induction lines arbitrary: n cases)
  case (Cons line lines)
  show ?case
  proof (cases "strip line = []")
    case True
    then have "load_lines pr js appr (Suc n) cases lines = Inr cases'" using Cons.prems(1) by simp
    then show ?thesis by (rule Cons.IH [OF _ Cons.prems(2)])
  next
    case False
    then obtain raw rel where rel: "relevance_of (case rc_relevance raw of Some r \<Rightarrow> r | None \<Rightarrow> []) = Inr rel"
      and rest: "load_lines pr js appr (Suc n) (cases @ [case_of raw rel]) lines = Inr cases'"
      using Cons.prems(1) by (auto simp: rbind_Inr_iff split: if_splits)
    have "\<forall>c \<in> set (cases @ [case_of raw rel]). distinct (map fst (ec_relevance c))"
      using Cons.prems(2) relevance_distinct [OF rel] by (auto simp: case_of_def)
    then show ?thesis by (rule Cons.IH [OF rest])
  qed
qed simp

section \<open>Properties\<close>

text \<open>
  \<open>load_dataset\<close> takes any whole number for a grade. A chunk with a negative one lowers the ideal, and a ranking
  without it scores more than 1.
\<close>

lemma negative_grade: "1 < ndcg_at_k [2] [(1, - 1), (2, 1)] 20"
proof -
  have l: "1 < log 2 (3 :: real)" by (simp add: less_log_iff)
  have i: "sorted_desc (\<lambda>p. real_of_int (snd p)) [(1, - 1), (2, 1)] = [(2, 1), (1, - 1) :: int \<times> int]"
    by (simp add: sorted_desc_def)
  have a: "dcg [(1, - 1), (2, 1)] 20 [2] = 1"
    by (simp add: dcg_def slice_to_def slice_bound_def enumerate1_def gain_def)
  have d: "dcg [(1, - 1), (2, 1)] 20 [2, 1] = 1 - 1 / 2 / log 2 3"
    by (simp add: dcg_def slice_to_def slice_bound_def enumerate1_def gain_def power_int_minus)
  have "1 / 2 / log 2 (3 :: real) < 1" "0 < 1 / 2 / log 2 (3 :: real)" using l by (simp_all add: divide_less_eq_1) (use l in linarith)
  then have "0 < 1 - 1 / 2 / log 2 (3 :: real)" "1 - 1 / 2 / log 2 (3 :: real) < 1" by linarith+
  then show ?thesis by (simp add: ndcg_at_k_def i a d less_divide_eq_1)
qed

text \<open>C33: Whatever the services answer, a completed run over a dataset can be reported, unless no question names a
relevant chunk; then there is no sample and the report fails. Recall, reciprocal rank, citation precision and
recall and the accuracy of abstention are shares in every report, and nDCG is one when no grade of the dataset is
negative. Recall does not go down with its cut-off, nor latency with its percentile.\<close>

theorem service_reports:
  assumes "load_dataset pr js appr dataset = Inr cases"
    "run_service_evaluation X cases u adm profile mode db = Inr (db', results)"
  shows "if \<forall>c \<in> set cases. ec_relevant_chunk_ids c = []
    then build_report pr cases results = Inl (ValueError msg_no_samples)
    else \<exists>report. build_report pr cases results = Inr report
      \<and> (\<forall>m \<in> set (quality_metrics (\<forall>c \<in> set cases. \<forall>p \<in> set (ec_relevance c). 0 \<le> snd p) (mode \<noteq> None)).
           \<exists>v. map_of report m = Some (Num_float v) \<and> 0 \<le> v \<and> v \<le> 1)
      \<and> metric report ''recall_at_5'' \<le> metric report ''recall_at_20''
      \<and> metric report ''latency_p50_ms'' \<le> metric report ''latency_p95_ms''"
proof -
  let ?g = "\<forall>c \<in> set cases. \<forall>p \<in> set (ec_relevance c). 0 \<le> snd p"
  have grades: "\<forall>c \<in> set cases. ?g \<longrightarrow> grades_ok (ec_relevance c)"
    using assms(1) load_lines_relevance [of pr js appr 1 "[]"]
    by (auto simp: load_dataset_def grades_ok_def rbind_Inr_iff split: if_splits)
  have ne: "cases \<noteq> []" using assms(1) by (auto simp: load_dataset_def rbind_Inr_iff split: if_splits)
  have run: "map er_case_id results = map ec_case_id cases"
    "\<forall>r \<in> set results. er_mode r = mode_of mode \<and> distinct (er_retrieved r)"
    using assms(2) run_cases_ok by (auto simp: run_service_evaluation_def rbind_Inr_iff)
  have "result_of results (ec_case_id c) \<noteq> None" if "c \<in> set cases" for c
  proof -
    have "ec_case_id c \<in> set (map er_case_id results)" using that run(1) by simp
    then show ?thesis unfolding result_of_def map_of_eq_None_iff by force
  qed
  then have found: "\<forall>c \<in> set cases. \<exists>r. result_of results (ec_case_id c) = Some r" by blast
  let ?m = "mode \<noteq> None"
  let ?sa = "sample_cases ?m results no_samples cases"
  have "remdups (map er_mode results) = [mode_of mode]"
  proof -
    have "map er_mode results = replicate (length results) (mode_of mode)"
      using run(2) by (simp add: list_eq_iff_nth_eq)
    moreover have "length results \<noteq> 0" using ne run(1) by (metis length_map length_0_conv)
    moreover have "remdups (replicate (Suc k) x) = [x]" for k and x :: ustr by (induction k) auto
    ultimately show ?thesis by (metis not0_implies_Suc)
  qed
  moreover have "filter (\<lambda>i. result_of results i = None) (map ec_case_id cases) = []"
    using found by (auto simp: filter_empty_conv)
  moreover have "mode_of mode = asc ''answer'' \<longleftrightarrow> ?m" "mode_of mode \<in> {asc ''retrieval'', asc ''answer''}"
    by (auto simp: mode_of_def asc_def split: option.splits)
  ultimately have b: "build_report pr cases results = report_of ?m (length cases) results ?sa"
    by (simp add: build_report_def Let_def)
  have ok: "samples_ok ?g ?sa" "sa_recall5 ?sa = [] \<longleftrightarrow> (\<forall>c \<in> set cases. ec_relevant_chunk_ids c = [])"
    "length (sa_citation_precision ?sa) = (if ?m then length cases else 0)" "length (sa_latency ?sa) = length cases"
    using sample_cases_ok [OF samples_ok_none, where graded = ?g and cs = cases and rs = results and m = ?m] grades found run(2)
    by (auto simp: no_samples_def)
  show ?thesis
  proof (cases "\<forall>c \<in> set cases. ec_relevant_chunk_ids c = []")
    case True
    then have "sa_recall5 ?sa = []" using ok(2) by simp
    then show ?thesis using True b by (simp add: report_of_def mean_def)
  next
    case False
    then have "sa_recall5 ?sa \<noteq> []" "sa_latency ?sa \<noteq> []" "?m \<Longrightarrow> sa_citation_precision ?sa \<noteq> []"
      using ok(2-4) ne by auto
    from report_of_ok [OF ok(1) this, where n = "length cases" and rs = results] show ?thesis
      using False b unfolding share_def by auto
  qed
qed

section \<open>A concrete run\<close>

definition sample_raw :: raw_case where
  "sample_raw = \<lparr>rc_case_id = Some (asc ''c1''), rc_question = Some [97], rc_category = Some (asc ''fact''),
     rc_knowledge_base_ids = Some [1], rc_relevant_chunk_ids = Some [1], rc_relevance = Some [([49], 2)],
     rc_expected_citations = None, rc_expected_abstain = Some False, rc_review_status = Some (asc ''approved'')\<rparr>"

definition sample_cases_of_run :: "evaluation_case list" where
  "sample_cases_of_run = [case_of sample_raw [(1, 2)]]"

definition sample_services :: run_services where
  "sample_services = \<lparr>rn_engine = sample_engine, rn_settings = sample_query_settings, rn_embed = (\<lambda>_. Inr [[1]]),
     rn_rerank = (\<lambda>_ _. (Inr [], no_rerank_usage)), rn_chat = (\<lambda>_ _. (Inr (asc ''hi [S1]''), no_chat_usage)),
     rn_rerank_price = 0, rn_chat_input_price = 0, rn_chat_output_price = 0, rn_trace = (\<lambda>_. asc ''t''),
     rn_log_latency = (\<lambda>_. 12), rn_latency = (\<lambda>_. 12)\<rparr>"

definition sample_run :: "(rag_db \<times> evaluation_result list) res" where
  "sample_run = run_service_evaluation sample_services sample_cases_of_run 7 False
     (ip_profile_hash (hd (t_profiles (w_db (run index_acts))))) (Some Mode_auto) (w_db (run index_acts))"

theorem service_reports_witness:
  "\<exists>db results report. sample_run = Inr (db, results)
     \<and> build_report (\<lambda>_. True) sample_cases_of_run results = Inr report \<and> metric report ''ndcg_at_20'' \<le> 1"
proof -
  have "rmap (\<lambda>(db, rs). map er_case_id rs) sample_run = Inr [asc ''c1'']" by code_simp
  then obtain db results where run: "sample_run = Inr (db, results)" by (auto simp: rmap_Inr_iff)
  have "load_dataset (\<lambda>_. True) (\<lambda>_. Inr sample_raw) True [123, 125] = Inr sample_cases_of_run" by code_simp
  moreover have nonneg: "\<forall>c \<in> set sample_cases_of_run. \<forall>p \<in> set (ec_relevance c). 0 \<le> snd p"
    and some: "\<not> (\<forall>c \<in> set sample_cases_of_run. ec_relevant_chunk_ids c = [])"
    by (simp_all add: sample_cases_of_run_def case_of_def sample_raw_def)
  ultimately obtain report where "build_report (\<lambda>_. True) sample_cases_of_run results = Inr report"
    "\<forall>m \<in> set (quality_metrics (\<forall>c \<in> set sample_cases_of_run. \<forall>p \<in> set (ec_relevance c). 0 \<le> snd p)
      (Some Mode_auto \<noteq> None)). \<exists>v. map_of report m = Some (Num_float v) \<and> 0 \<le> v \<and> v \<le> 1"
    using service_reports [OF _ run [unfolded sample_run_def], unfolded if_not_P [OF some]] by blast
  then show ?thesis using run nonneg by (force simp: metric_def quality_metrics_def)
qed

end
