(* ===== verification/PublicSources.thy ===== *)
theory PublicSources
  imports Errors
begin

text \<open>
  \<open>backend/app/rag/evaluation/public_sources.py\<close>: the text of a public help page. The events of
  \<open>HTMLParser\<close> and the decoding of the page state are parameters; \<open>_StructuredTextParser\<close> is the fold of
  its handlers over the events.
\<close>

section \<open>Structured text\<close>

datatype html_event = Start_tag ustr | End_tag ustr | Html_data ustr

record text_parser =
  tp_parts :: "ustr list"
  tp_cell_index :: int
  tp_item_depth :: int
  tp_cell_depth :: int

definition block_tags :: "ustr list" where
  "block_tags = [asc ''article'', asc ''blockquote'', asc ''div'', asc ''main'', asc ''p'', asc ''section'']"

definition heading_tags :: "ustr list" where
  "heading_tags = [asc ''h1'', asc ''h2'', asc ''h3'', asc ''h4'', asc ''h5'', asc ''h6'']"

definition handle_starttag :: "ustr \<Rightarrow> text_parser \<Rightarrow> text_parser" where
  "handle_starttag tag st =
     (if List.member block_tags tag
         \<and> \<not> (tag = asc ''p'' \<and> (tp_item_depth st \<noteq> 0 \<or> tp_cell_depth st \<noteq> 0))
      then st\<lparr>tp_parts := tp_parts st @ [[10, 10]]\<rparr>
      else if List.member heading_tags tag
      then st\<lparr>tp_parts := tp_parts st @ [[10, 10] @ replicate (tag ! 1 - 48) 35 @ [32]]\<rparr>
      else if tag = asc ''li''
      then st\<lparr>tp_parts := tp_parts st @ [[10, 45, 32]], tp_item_depth := tp_item_depth st + 1\<rparr>
      else if tag = asc ''br'' then st\<lparr>tp_parts := tp_parts st @ [[10]]\<rparr>
      else if tag = asc ''tr'' then st\<lparr>tp_parts := tp_parts st @ [[10]], tp_cell_index := 0\<rparr>
      else if tag = asc ''td'' \<or> tag = asc ''th''
      then st\<lparr>tp_parts := tp_parts st @ (if tp_cell_index st \<noteq> 0 then [[32, 124, 32]] else []),
              tp_cell_index := tp_cell_index st + 1, tp_cell_depth := tp_cell_depth st + 1\<rparr>
      else st)"

definition handle_endtag :: "ustr \<Rightarrow> text_parser \<Rightarrow> text_parser" where
  "handle_endtag tag st =
     (if tag = asc ''li'' then st\<lparr>tp_item_depth := max 0 (tp_item_depth st - 1)\<rparr>
      else if tag = asc ''td'' \<or> tag = asc ''th'' then st\<lparr>tp_cell_depth := max 0 (tp_cell_depth st - 1)\<rparr>
      else st)"

definition handle_data :: "ustr \<Rightarrow> text_parser \<Rightarrow> text_parser" where
  "handle_data data st = st\<lparr>tp_parts := tp_parts st @ [data]\<rparr>"

fun handle_event :: "html_event \<Rightarrow> text_parser \<Rightarrow> text_parser" where
  "handle_event (Start_tag tag) st = handle_starttag tag st"
| "handle_event (End_tag tag) st = handle_endtag tag st"
| "handle_event (Html_data data) st = handle_data data st"

definition new_text_parser :: text_parser where
  "new_text_parser = \<lparr>tp_parts = [], tp_cell_index = 0, tp_item_depth = 0, tp_cell_depth = 0\<rparr>"

section \<open>Normal form\<close>

text \<open>\<open>re.sub(r'[ \t]+', ' ', line)\<close>\<close>

fun squeeze_blanks :: "ustr \<Rightarrow> ustr" where
  "squeeze_blanks [] = []"
| "squeeze_blanks (c # s) =
     (if c = 32 \<or> c = 9
      then (case s of d # _ \<Rightarrow> if d = 32 \<or> d = 9 then squeeze_blanks s else 32 # squeeze_blanks s | [] \<Rightarrow> [32])
      else c # squeeze_blanks s)"

definition add_line :: "ustr list \<Rightarrow> ustr \<Rightarrow> ustr list" where
  "add_line normalized line =
     (if line \<noteq> [] then normalized @ [line]
      else if normalized \<noteq> [] \<and> last normalized \<noteq> [] then normalized @ [[]]
      else normalized)"

definition normalize_text :: "ustr \<Rightarrow> ustr" where
  "normalize_text text =
     (let lines = map (\<lambda>line. strip (squeeze_blanks line)) (splitlines (filter (\<lambda>c. c \<noteq> 13) text))
      in strip (join [10] (foldl add_line [] lines)))"

section \<open>Documents\<close>

definition page_state_prefix :: ustr where
  "page_state_prefix = asc ''window.__ICE_PAGE_PROPS__=''"

definition noise_markers :: "ustr list" where
  "noise_markers = [asc ''window.pageStartTime'', asc ''__ICE_PAGE_PROPS__'', asc ''\"@context\"'', asc ''<script'']"

text \<open>\<open>str.find\<close>\<close>

fun find_text :: "ustr \<Rightarrow> ustr \<Rightarrow> nat option" where
  "find_text p [] = (if p = [] then Some 0 else None)"
| "find_text p (c # s) = (if prefix p (c # s) then Some 0 else map_option Suc (find_text p s))"

text \<open>\<open>decode\<close> reads title and content from the state that follows the prefix.\<close>

definition extract_aliyun_document ::
  "(ustr \<Rightarrow> html_event list) \<Rightarrow> (ustr \<Rightarrow> (ustr \<times> ustr) res) \<Rightarrow> int \<Rightarrow> ustr \<Rightarrow> ustr res" where
  "extract_aliyun_document html_events decode min_chars page_html =
     (case find_text page_state_prefix page_html of
        None \<Rightarrow> Inl (ValueError msg_page_state)
      | Some start \<Rightarrow>
          (case decode (drop (start + length page_state_prefix) page_html) of
             Inl e \<Rightarrow> Inl (case e of KeyError \<Rightarrow> ValueError msg_page_struct | TypeError \<Rightarrow> ValueError msg_page_struct
                           | ValueError _ \<Rightarrow> ValueError msg_page_struct | _ \<Rightarrow> e)
           | Inr (doc_title, content) \<Rightarrow>
               (let title = strip doc_title; content_html = strip content
                in if title = [] \<or> content_html = [] then Inl (ValueError msg_page_empty)
                   else let body = normalize_text (concat (tp_parts
                              (fold handle_event (html_events content_html) new_text_parser)))
                        in if int (length body) < min_chars then Inl (ValueError msg_page_short)
                           else let text = normalize_text ([35, 32] @ title @ [10, 10] @ body)
                                in if list_ex (\<lambda>marker. contains marker text) noise_markers
                                   then Inl (ValueError msg_page_noise)
                                   else Inr text)))"

section \<open>The text of a document\<close>

text \<open>At most one empty line in a row, and no line with blanks at its ends.\<close>

definition lines_normal :: "ustr list \<Rightarrow> bool" where
  "lines_normal ls \<longleftrightarrow> list_all stripped ls \<and> successively (\<lambda>a b. a \<noteq> [] \<or> b \<noteq> []) ls
     \<and> (ls \<noteq> [] \<longrightarrow> hd ls \<noteq> [])"

lemma add_line_normal:
  "lines_normal ls \<Longrightarrow> stripped line \<Longrightarrow> lines_normal (add_line ls line)"
  by (cases "ls = []") (auto simp: add_line_def lines_normal_def successively_append_iff stripped_def hd_append)

lemma foldl_add_line: "\<forall>l \<in> set lines. stripped l \<Longrightarrow> lines_normal ls \<Longrightarrow> lines_normal (foldl add_line ls lines)"
  by (induction lines arbitrary: ls) (simp_all add: add_line_normal)

lemma normalize_lines:
  "\<exists>ls. lines_normal ls \<and> normalize_text text = strip (join [10] ls)"
  unfolding normalize_text_def Let_def
  by (rule exI, rule conjI [OF foldl_add_line refl]) (auto simp: stripped_strip lines_normal_def)

lemma extract_result:
  assumes "extract_aliyun_document html_events decode min_chars page = Inr text"
  shows "stripped text" "\<forall>m \<in> set noise_markers. \<not> sublist m text" "\<exists>ls. lines_normal ls \<and> text = strip (join [10] ls)"
proof -
  obtain raw where raw: "text = normalize_text raw" and n: "\<not> list_ex (\<lambda>marker. contains marker text) noise_markers"
    using assms by (auto simp: extract_aliyun_document_def Let_def split: option.splits sum.splits if_splits)
  show "stripped text" unfolding raw normalize_text_def Let_def by (rule stripped_strip)
  show "\<forall>m \<in> set noise_markers. \<not> sublist m text" using n by (simp add: list_ex_iff contains_iff_sublist)
  show "\<exists>ls. lines_normal ls \<and> text = strip (join [10] ls)" unfolding raw by (rule normalize_lines)
qed

end
