(* ===== verification/Cache.thy ===== *)
theory Cache
  imports Redis
begin

text \<open>
  \<open>backend/common/cache\<close>: the decorators \<open>cached\<close> and \<open>cache_invalidate\<close> (\<open>decorator.py\<close>), the cache inside a
  process (\<open>local.py\<close>) and the invalidation messages between processes (\<open>pubsub.py\<close>). A cluster is the
  committed database, the Redis store, and per process its cache and the messages it has yet to handle.
  JSON, the eviction of \<open>cachebox.TTLCache\<close> and the text of composite arguments are parameters; which
  Redis calls fail is an argument of each request.
\<close>

section \<open>Keys\<close>

text \<open>The arguments of a call, as far as a key is taken from them.\<close>

datatype arg =
    Arg_none
  | Arg_int int
  | Arg_str ustr
  | Arg_list "arg list"
  | Arg_object "(ustr \<times> arg) list"
  | Arg_dict "(ustr \<times> arg) list"

definition arg_text :: "(arg \<Rightarrow> ustr) \<Rightarrow> arg \<Rightarrow> ustr" where
  "arg_text render a = (case a of Arg_none \<Rightarrow> asc ''none'' | Arg_int i \<Rightarrow> str_int i | Arg_str s \<Rightarrow> s | _ \<Rightarrow> render a)"

text \<open>\<open>key.split('.', 1)\<close>\<close>

definition split_dot :: "ustr \<Rightarrow> ustr \<times> ustr" where
  "split_dot key = (takeWhile (\<lambda>c. c \<noteq> 46) key, tl (dropWhile (\<lambda>c. c \<noteq> 46) key))"

definition key_field :: "arg \<Rightarrow> ustr \<Rightarrow> arg res" where
  "key_field value field =
     (case value of
        Arg_list _ \<Rightarrow> Inl (ServerError msg_cache_list)
      | Arg_object fs \<Rightarrow> (case map_of fs field of Some v \<Rightarrow> Inr v
          | None \<Rightarrow> Inl (ServerError (msg_cache_field_pre @ field @ [34])))
      | Arg_dict fs \<Rightarrow> (case map_of fs field of Some v \<Rightarrow> Inr v
          | None \<Rightarrow> Inl (ServerError (msg_cache_field_pre @ field @ [34])))
      | _ \<Rightarrow> Inl (ServerError (msg_cache_field_pre @ field @ [34])))"

definition build_cache_key ::
  "(arg \<Rightarrow> ustr) \<Rightarrow> ustr \<Rightarrow> ustr option \<Rightarrow> ((ustr \<times> arg) list \<Rightarrow> arg res) option \<Rightarrow> (ustr \<times> arg) list \<Rightarrow> ustr res" where
  "build_cache_key render namespace key key_builder kwargs =
     (case key of
        Some (c # k) \<Rightarrow>
          rmap (\<lambda>value. namespace @ [58] @ arg_text render value)
            (if List.member (c # k) 46
             then (case split_dot (c # k) of (param, field) \<Rightarrow>
               (case map_of kwargs param of
                  None \<Rightarrow> Inl (ServerError (msg_cache_param_pre @ param @ msg_cache_param_post))
                | Some value \<Rightarrow> key_field value field))
             else (case map_of kwargs (c # k) of
                  None \<Rightarrow> Inl (ServerError (msg_cache_param_pre @ (c # k) @ msg_cache_param_post))
                | Some value \<Rightarrow> Inr value))
      | _ \<Rightarrow>
          (case key_builder of
             Some builder \<Rightarrow> rmap (\<lambda>value. namespace @ [58] @ arg_text render value) (builder kwargs)
           | None \<Rightarrow> Inr namespace))"

definition user_key_builder :: "int option \<Rightarrow> ustr res" where
  "user_key_builder user_id =
     (case user_id of None \<Rightarrow> Inl (ServerError msg_cache_user) | Some i \<Rightarrow> Inr (str_int i))"

section \<open>The cache of a process\<close>

text \<open>Each key with its value and the time at which the entry expires.\<close>

type_synonym 'j local_cache = "(ustr \<times> ('j \<times> int)) list"

definition local_get :: "int \<Rightarrow> ustr \<Rightarrow> 'j local_cache \<Rightarrow> 'j option" where
  "local_get now key c =
     (case map_of c key of None \<Rightarrow> None | Some (v, e) \<Rightarrow> if now < e then Some v else None)"

definition local_set ::
  "('j local_cache \<Rightarrow> 'j local_cache) \<Rightarrow> int \<Rightarrow> int \<Rightarrow> ustr \<Rightarrow> 'j \<Rightarrow> 'j local_cache \<Rightarrow> 'j local_cache" where
  "local_set evict ttl now key v c = evict (AList.update key (v, now + ttl * 1000) c)"

definition local_delete :: "ustr \<Rightarrow> 'j local_cache \<Rightarrow> 'j local_cache" where
  "local_delete key c = AList.delete key c"

definition local_delete_by_prefix :: "ustr \<Rightarrow> exclude \<Rightarrow> 'j local_cache \<Rightarrow> 'j local_cache" where
  "local_delete_by_prefix key_prefix exclude c =
     filter (\<lambda>(key, _). \<not> ((key = key_prefix \<or> below key_prefix key) \<and> \<not> List.member (exclude_set exclude) key)) c"

section \<open>The decorators\<close>

record cache_settings =
  CACHE_LOCAL_ENABLED :: bool
  CACHE_LOCAL_TTL :: int
  CACHE_REDIS_TTL :: int

definition default_cache_settings :: cache_settings where
  "default_cache_settings =
     \<lparr>CACHE_LOCAL_ENABLED = True, CACHE_LOCAL_TTL = 60 * 60 * 2, CACHE_REDIS_TTL = 60 * 60 * 2\<rparr>"

text \<open>
  \<open>_serialize_result\<close>, which may raise, and \<open>_deserialize_result\<close>, which falls back to the text itself. A
  cached call gives the result of the function or a decoded text.
\<close>

record ('v, 'j) codec =
  serialize_result :: "'v \<Rightarrow> ustr option"
  deserialize_result :: "ustr \<Rightarrow> 'j"

datatype ('v, 'j) cached_result = Fresh "'v option" | Hit 'j

text \<open>The Redis calls of a request that raise.\<close>

record faults =
  get_fails :: bool
  set_fails :: bool
  publish_fails :: bool
  delete_fails :: bool

definition no_faults :: faults where
  "no_faults = \<lparr>get_fails = False, set_fails = False, publish_fails = False, delete_fails = False\<rparr>"

text \<open>\<open>cached\<close>; \<open>result\<close> is what the decorated function would give, \<open>Inr None\<close> for Python's \<open>None\<close>.\<close>

definition fill_caches ::
  "cache_settings \<Rightarrow> ('v, 'j) codec \<Rightarrow> ('j local_cache \<Rightarrow> 'j local_cache) \<Rightarrow> faults \<Rightarrow> int \<Rightarrow> ustr \<Rightarrow> 'v
     \<Rightarrow> 'j local_cache \<times> redis \<Rightarrow> 'j local_cache \<times> redis" where
  "fill_caches C K evict F now cache_key v lr =
     (case serialize_result K v of
        None \<Rightarrow> lr
      | Some text \<Rightarrow>
          (if CACHE_LOCAL_ENABLED C
           then local_set evict (CACHE_LOCAL_TTL C) now cache_key (deserialize_result K text) (fst lr) else fst lr,
           if set_fails F then snd lr
           else r_set now cache_key text (if CACHE_REDIS_TTL C \<noteq> 0 then Some (CACHE_REDIS_TTL C) else None) (snd lr)))"

definition cached ::
  "cache_settings \<Rightarrow> ('v, 'j) codec \<Rightarrow> ('j local_cache \<Rightarrow> 'j local_cache) \<Rightarrow> faults \<Rightarrow> int \<Rightarrow> ustr res
     \<Rightarrow> 'v option res \<Rightarrow> 'j local_cache \<times> redis \<Rightarrow> ('j local_cache \<times> redis) \<times> ('v, 'j) cached_result res" where
  "cached C K evict F now key result lr =
     (case key of
        Inl e \<Rightarrow> (lr, Inl e)
      | Inr cache_key \<Rightarrow>
          (case (if CACHE_LOCAL_ENABLED C then local_get now cache_key (fst lr) else None) of
             Some j \<Rightarrow> (lr, Inr (Hit j))
           | None \<Rightarrow>
               (case (if get_fails F then None else r_get now cache_key (snd lr)) of
                  Some text \<Rightarrow>
                    (let j = deserialize_result K text
                     in ((if CACHE_LOCAL_ENABLED C then local_set evict (CACHE_LOCAL_TTL C) now cache_key j (fst lr)
                          else fst lr, snd lr), Inr (Hit j)))
                | None \<Rightarrow>
                    (case result of
                       Inl e \<Rightarrow> (lr, Inl e)
                     | Inr None \<Rightarrow> (lr, Inr (Fresh None))
                     | Inr (Some v) \<Rightarrow> (fill_caches C K evict F now cache_key v lr, Inr (Fresh (Some v)))))))"

section \<open>The cluster\<close>

record ('d, 'j) cluster =
  cl_db :: 'd
  cl_redis :: redis
  cl_local :: "nat \<Rightarrow> 'j local_cache"
  cl_queue :: "nat \<Rightarrow> (ustr \<times> bool) list"

text \<open>A cached call in process \<open>n\<close>.\<close>

definition read_node ::
  "cache_settings \<Rightarrow> ('v, 'j) codec \<Rightarrow> ('j local_cache \<Rightarrow> 'j local_cache) \<Rightarrow> faults \<Rightarrow> int \<Rightarrow> nat \<Rightarrow> ustr res
     \<Rightarrow> ('d \<Rightarrow> 'v option res) \<Rightarrow> ('d, 'j) cluster \<Rightarrow> ('d, 'j) cluster \<times> ('v, 'j) cached_result res" where
  "read_node C K evict F now n key func w =
     (case cached C K evict F now key (func (cl_db w)) (cl_local w n, cl_redis w) of
        ((l, st), r) \<Rightarrow> (w\<lparr>cl_local := (cl_local w)(n := l), cl_redis := st\<rparr>, r))"

text \<open>\<open>publish_invalidation\<close> reaches every process that listens; its failure is only logged.\<close>

definition publish_invalidation :: "faults \<Rightarrow> ustr \<Rightarrow> bool \<Rightarrow> ('d, 'j) cluster \<Rightarrow> ('d, 'j) cluster" where
  "publish_invalidation F cache_key by_prefix w =
     (if publish_fails F then w else w\<lparr>cl_queue := (\<lambda>n. cl_queue w n @ [(cache_key, by_prefix)])\<rparr>)"

text \<open>The body of \<open>subscribe_and_listen\<close> for one message.\<close>

definition handle_message :: "ustr \<times> bool \<Rightarrow> 'j local_cache \<Rightarrow> 'j local_cache" where
  "handle_message m c =
     (case m of (cache_key, by_prefix) \<Rightarrow>
        if \<not> by_prefix then local_delete cache_key c else local_delete_by_prefix cache_key No_exclude c)"

definition deliver :: "nat \<Rightarrow> ('d, 'j) cluster \<Rightarrow> ('d, 'j) cluster" where
  "deliver n w =
     (case cl_queue w n of
        [] \<Rightarrow> w
      | m # ms \<Rightarrow> w\<lparr>cl_local := (cl_local w)(n := handle_message m (cl_local w n)), cl_queue := (cl_queue w)(n := ms)\<rparr>)"

text \<open>The \<open>try\<close> of \<open>cache_invalidate\<close>: the caches of the process, the message, then Redis.\<close>

definition invalidate ::
  "cache_settings \<Rightarrow> faults \<Rightarrow> int \<Rightarrow> ustr \<Rightarrow> ustr res \<Rightarrow> nat \<Rightarrow> ('d, 'j) cluster \<Rightarrow> ('d, 'j) cluster \<times> bool" where
  "invalidate C F now namespace key n w =
     (case key of
        Inl _ \<Rightarrow> (w, False)
      | Inr k \<Rightarrow>
          (let w1 = (if CACHE_LOCAL_ENABLED C
                     then publish_invalidation F k (k = namespace)
                       (w\<lparr>cl_local := (cl_local w)(n :=
                            (if k = namespace then local_delete_by_prefix k No_exclude (cl_local w n)
                             else local_delete k (cl_local w n)))\<rparr>)
                     else w)
           in if delete_fails F then (w1, False)
              else (w1\<lparr>cl_redis := (if k = namespace then delete_by_prefix now k No_exclude 1000 (cl_redis w)
                                    else r_delete k (cl_redis w))\<rparr>, True)))"

text \<open>
  \<open>cache_invalidate\<close>: the decorated function works in the transaction of the request, so the new database
  is part of the result and not yet committed.
\<close>

definition cache_invalidate ::
  "cache_settings \<Rightarrow> faults \<Rightarrow> int \<Rightarrow> ustr \<Rightarrow> ustr res \<Rightarrow> bool \<Rightarrow> nat \<Rightarrow> ('d \<Rightarrow> ('d \<times> 'r) res)
     \<Rightarrow> ('d, 'j) cluster \<Rightarrow> ('d, 'j) cluster \<times> ('d \<times> 'r) res" where
  "cache_invalidate C F now namespace key atomic n func w =
     (case func (cl_db w) of
        Inl e \<Rightarrow> (w, Inl e)
      | Inr result \<Rightarrow>
          (case invalidate C F now namespace key n w of
             (w1, ok) \<Rightarrow> if atomic \<and> \<not> ok then (w1, Inl (ServerError msg_cache_inconsistent)) else (w1, Inr result)))"

text \<open>\<open>get_db_transaction\<close> commits when the request is done, and not at all after an exception.\<close>

definition commit :: "'d \<Rightarrow> ('d, 'j) cluster \<Rightarrow> ('d, 'j) cluster" where
  "commit db w = w\<lparr>cl_db := db\<rparr>"

definition write_request ::
  "cache_settings \<Rightarrow> faults \<Rightarrow> int \<Rightarrow> ustr \<Rightarrow> ustr res \<Rightarrow> nat \<Rightarrow> ('d \<Rightarrow> ('d \<times> 'r) res)
     \<Rightarrow> ('d, 'j) cluster \<Rightarrow> ('d, 'j) cluster \<times> 'r res" where
  "write_request C F now namespace key n func w =
     (case cache_invalidate C F now namespace key True n func w of
        (w1, Inl e) \<Rightarrow> (w1, Inl e)
      | (w1, Inr (db, r)) \<Rightarrow> (commit db w1, Inr r))"

section \<open>What the caches promise\<close>

lemma local_get_delete: "local_get t k (local_delete k' c) = (if k = k' then None else local_get t k c)"
  by (simp add: local_get_def local_delete_def delete_conv')

lemma map_of_filter_key: "map_of (filter (\<lambda>(k, _). P k) xs) k = (if P k then map_of xs k else None)"
  by (induction xs) auto

lemma local_get_delete_by_prefix:
  "local_get t k (local_delete_by_prefix p ex c)
     = (if (k = p \<or> below p k) \<and> k \<notin> set (exclude_set ex) then None else local_get t k c)"
  using map_of_filter_key [of "\<lambda>k. \<not> ((k = p \<or> below p k) \<and> k \<notin> set (exclude_set ex))" c k]
  by (simp add: local_get_def local_delete_by_prefix_def)

lemma local_get_later: "local_get t' k c = Some j \<Longrightarrow> t \<le> t' \<Longrightarrow> local_get t k c = Some j"
  by (auto simp: local_get_def split: option.splits if_splits)

definition covers :: "ustr \<times> bool \<Rightarrow> ustr \<Rightarrow> bool" where
  "covers m k \<longleftrightarrow> k = fst m \<or> snd m \<and> below (fst m) k"

lemma local_get_message: "local_get t k (handle_message m c) = (if covers m k then None else local_get t k c)"
  by (cases m) (auto simp: handle_message_def covers_def local_get_delete local_get_delete_by_prefix)

text \<open>
  Reads, writes that invalidate their namespace, and deliveries, at times that do not go back. A write is
  one step here, its commit included.
\<close>

inductive cluster_run ::
  "cache_settings \<Rightarrow> ('v, 'j) codec \<Rightarrow> ('j local_cache \<Rightarrow> 'j local_cache) \<Rightarrow> ustr
     \<Rightarrow> (ustr \<times> ('d \<Rightarrow> 'v option res)) set \<Rightarrow> ('d \<Rightarrow> ('d \<times> 'r) res) set \<Rightarrow> int \<Rightarrow> ('d, 'j) cluster \<Rightarrow> bool"
  for C :: cache_settings and K :: "('v, 'j) codec" and evict :: "'j local_cache \<Rightarrow> 'j local_cache" and ns :: ustr
    and queries :: "(ustr \<times> ('d \<Rightarrow> 'v option res)) set" and writes :: "('d \<Rightarrow> ('d \<times> 'r) res) set" where
  start: "(\<And>k. below ns k \<Longrightarrow> r_get t k st = None)
    \<Longrightarrow> cluster_run C K evict ns queries writes t \<lparr>cl_db = db, cl_redis = st, cl_local = (\<lambda>_. []), cl_queue = (\<lambda>_. [])\<rparr>"
| read: "cluster_run C K evict ns queries writes t w \<Longrightarrow> t \<le> t' \<Longrightarrow> (k, func) \<in> queries
    \<Longrightarrow> cluster_run C K evict ns queries writes t' (fst (read_node C K evict F t' n (Inr k) func w))"
| written: "cluster_run C K evict ns queries writes t w \<Longrightarrow> t \<le> t' \<Longrightarrow> func \<in> writes \<Longrightarrow> \<not> publish_fails F
    \<Longrightarrow> cluster_run C K evict ns queries writes t' (fst (write_request C F t' ns (Inr ns) n func w))"
| delivered: "cluster_run C K evict ns queries writes t w \<Longrightarrow> t \<le> t'
    \<Longrightarrow> cluster_run C K evict ns queries writes t' (deliver n w)"

text \<open>A result that the current database explains.\<close>

definition answers_current ::
  "('v, 'j) codec \<Rightarrow> 'v option res \<Rightarrow> ('v, 'j) cached_result res \<Rightarrow> bool" where
  "answers_current K current r \<longleftrightarrow>
     (case r of
        Inl e \<Rightarrow> current = Inl e
      | Inr (Fresh v) \<Rightarrow> current = Inr v
      | Inr (Hit j) \<Rightarrow> \<exists>v text. current = Inr (Some v) \<and> serialize_result K v = Some text \<and> j = deserialize_result K text)"

text \<open>An eviction only drops entries.\<close>

definition evict_ok :: "('j local_cache \<Rightarrow> 'j local_cache) \<Rightarrow> bool" where
  "evict_ok evict \<longleftrightarrow> (\<forall>c k x. map_of (evict c) k = Some x \<longrightarrow> map_of c k = Some x)"

definition current :: "('v, 'j) codec \<Rightarrow> 'd \<Rightarrow> ('d \<Rightarrow> 'v option res) \<Rightarrow> ustr \<Rightarrow> bool" where
  "current K db f s \<longleftrightarrow> (\<exists>v. f db = Inr (Some v) \<and> serialize_result K v = Some s)"

definition coherent ::
  "cache_settings \<Rightarrow> ('v, 'j) codec \<Rightarrow> (ustr \<times> ('d \<Rightarrow> 'v option res)) set \<Rightarrow> int \<Rightarrow> ('d, 'j) cluster \<Rightarrow> bool" where
  "coherent C K queries now w \<longleftrightarrow> (\<forall>t k f. now \<le> t \<longrightarrow> (k, f) \<in> queries \<longrightarrow>
     (\<forall>s. r_get t k (cl_redis w) = Some s \<longrightarrow> current K (cl_db w) f s)
     \<and> (\<forall>n j. CACHE_LOCAL_ENABLED C \<longrightarrow> local_get t k (cl_local w n) = Some j \<longrightarrow>
          (\<exists>m \<in> set (cl_queue w n). covers m k) \<or> (\<exists>s. current K (cl_db w) f s \<and> j = deserialize_result K s)))"

lemma coherentI:
  assumes "\<And>t k f s. now \<le> t \<Longrightarrow> (k, f) \<in> queries \<Longrightarrow> r_get t k (cl_redis w) = Some s \<Longrightarrow> current K (cl_db w) f s"
    "\<And>t k f n j. now \<le> t \<Longrightarrow> (k, f) \<in> queries \<Longrightarrow> CACHE_LOCAL_ENABLED C \<Longrightarrow> local_get t k (cl_local w n) = Some j
      \<Longrightarrow> (\<exists>m \<in> set (cl_queue w n). covers m k) \<or> (\<exists>s. current K (cl_db w) f s \<and> j = deserialize_result K s)"
  shows "coherent C K queries now w"
  unfolding coherent_def using assms by blast

lemma coherent_redis:
  "coherent C K queries now w \<Longrightarrow> now \<le> t \<Longrightarrow> (k, f) \<in> queries \<Longrightarrow> r_get t k (cl_redis w) = Some s \<Longrightarrow> current K (cl_db w) f s"
  unfolding coherent_def by blast

lemma coherent_local:
  "coherent C K queries now w \<Longrightarrow> now \<le> t \<Longrightarrow> (k, f) \<in> queries \<Longrightarrow> CACHE_LOCAL_ENABLED C \<Longrightarrow> local_get t k (cl_local w n) = Some j
    \<Longrightarrow> (\<exists>m \<in> set (cl_queue w n). covers m k) \<or> (\<exists>s. current K (cl_db w) f s \<and> j = deserialize_result K s)"
  unfolding coherent_def by blast

lemma cluster_coherent_later: "coherent C K queries now w \<Longrightarrow> now \<le> t' \<Longrightarrow> coherent C K queries t' w"
  unfolding coherent_def by (meson order_trans)

lemma local_get_set:
  assumes "evict_ok evict" "local_get t k (local_set evict ttl now k' j' c) = Some j"
  shows "k = k' \<and> j = j' \<or> local_get t k c = Some j"
proof -
  obtain e where "map_of (evict (AList.update k' (j', now + ttl * 1000) c)) k = Some (j, e)" "t < e"
    using assms(2) by (auto simp: local_get_def local_set_def split: option.splits if_splits)
  then have "map_of (AList.update k' (j', now + ttl * 1000) c) k = Some (j, e)" "t < e"
    using assms(1) unfolding evict_ok_def by blast+
  then show ?thesis by (auto simp: local_get_def update_conv' split: if_splits)
qed

text \<open>A read changes only its own key, to a current text.\<close>

lemma cached_frame:
  assumes "cached C K evict F now (Inr key) result (l, st) = ((l', st'), r)" "now \<le> t" "evict_ok evict"
  shows "r_get t k st' = Some s \<Longrightarrow> r_get t k st = Some s
      \<or> k = key \<and> (\<exists>v. result = Inr (Some v) \<and> serialize_result K v = Some s)"
    "CACHE_LOCAL_ENABLED C \<Longrightarrow> local_get t k l' = Some j \<Longrightarrow> local_get t k l = Some j
      \<or> k = key \<and> (\<exists>s. j = deserialize_result K s
          \<and> (r_get now key st = Some s \<or> (\<exists>v. result = Inr (Some v) \<and> serialize_result K v = Some s)))"
  using assms
  by (auto simp: cached_def fill_caches_def Let_def r_get_set dest!: local_get_set [OF assms(3)]
      split: option.splits sum.splits if_splits)

text \<open>
  The interface between the caches and a service: its queries have keys of their own, below its
  namespace.
\<close>

locale cached_service =
  fixes ns :: ustr and queries :: "(ustr \<times> ('d \<Rightarrow> 'v option res)) set"
  assumes one_key: "(k, f) \<in> queries \<Longrightarrow> (k, g) \<in> queries \<Longrightarrow> f = g"
    and below_ns: "(k, f) \<in> queries \<Longrightarrow> below ns k"
begin

lemma read_coherent:
  assumes "coherent C K queries now w" "now \<le> t'" "(key, func) \<in> queries" "evict_ok evict"
  shows "coherent C K queries t' (fst (read_node C K evict F t' n (Inr key) func w))"
proof -
  obtain l' st' r where c: "cached C K evict F t' (Inr key) (func (cl_db w)) (cl_local w n, cl_redis w) = ((l', st'), r)"
    by (metis surj_pair)
  then have w': "fst (read_node C K evict F t' n (Inr key) func w)
      = w\<lparr>cl_local := (cl_local w)(n := l'), cl_redis := st'\<rparr>" by (simp add: read_node_def)
  have own: "current K (cl_db w) f s" if "(key, f) \<in> queries" "func (cl_db w) = Inr (Some v)"
    "serialize_result K v = Some s" for f v s
    using that one_key [OF that(1) assms(3)] by (auto simp: current_def)
  let ?w' = "w\<lparr>cl_local := (cl_local w)(n := l'), cl_redis := st'\<rparr>"
  show ?thesis
    unfolding w'
  proof (rule coherentI)
    fix t k f s
    assume t: "t' \<le> t" and q: "(k, f) \<in> queries" and "r_get t k (cl_redis ?w') = Some s"
    then have g: "r_get t k st' = Some s" by simp
    have "now \<le> t" using t assms(2) by linarith
    then have "current K (cl_db w) f s"
      using cached_frame(1) [OF c t assms(4) g] coherent_redis [OF assms(1) _ q] own q by blast
    then show "current K (cl_db ?w') f s" by simp
  next
    fix t k f m j
    assume t: "t' \<le> t" and q: "(k, f) \<in> queries" and L: "CACHE_LOCAL_ENABLED C"
      and g: "local_get t k (cl_local ?w' m) = Some j"
    have tt: "now \<le> t" "now \<le> t'" using t assms(2) by simp_all
    have "(\<exists>m \<in> set (cl_queue w m). covers m k) \<or> (\<exists>s. current K (cl_db w) f s \<and> j = deserialize_result K s)"
    proof (cases "local_get t k (cl_local w m) = Some j")
      case True
      then show ?thesis by (rule coherent_local [OF assms(1) tt(1) q L])
    next
      case False
      then have "m = n" "local_get t k l' = Some j" using g by (auto split: if_splits)
      from cached_frame(2) [OF c t assms(4) L this(2)] False this(1) obtain s where
        k: "k = key" "j = deserialize_result K s"
        "r_get t' key (cl_redis w) = Some s \<or> (\<exists>v. func (cl_db w) = Inr (Some v) \<and> serialize_result K v = Some s)"
        by auto
      have "current K (cl_db w) f s"
        using k(3) coherent_redis [OF assms(1) tt(2) assms(3)] own q k(1) one_key [OF q [unfolded k(1)] assms(3)] by blast
      then show ?thesis using k(2) by blast
    qed
    then show "(\<exists>m \<in> set (cl_queue ?w' m). covers m k)
        \<or> (\<exists>s. current K (cl_db ?w') f s \<and> j = deserialize_result K s)" by simp
  qed
qed

lemma write_coherent:
  assumes "coherent C K queries now w" "now \<le> t'" "\<not> publish_fails F"
  shows "coherent C K queries t' (fst (write_request C F t' ns (Inr ns) n func w))"
proof (cases "func (cl_db w)")
  case (Inl e)
  then show ?thesis using cluster_coherent_later [OF assms(1,2)] by (simp add: write_request_def cache_invalidate_def)
next
  case (Inr p)
  obtain db r where p: "p = (db, r)" by fastforce
  let ?w1 = "fst (invalidate C F t' ns (Inr ns) n w)"
  have db1: "cl_db ?w1 = cl_db w"
    by (simp add: invalidate_def publish_invalidation_def Let_def)
  have queue: "(ns, True) \<in> set (cl_queue ?w1 m)" if "CACHE_LOCAL_ENABLED C" for m
    using that assms(3) by (simp add: invalidate_def publish_invalidation_def Let_def)
  have all: "\<exists>x \<in> set (cl_queue ?w1 m). covers x k" if "CACHE_LOCAL_ENABLED C" "(k, f) \<in> queries" for m k f
    using queue [OF that(1), of m] below_ns [OF that(2)] by (force simp: covers_def)
  have redis: "r_get t k (cl_redis ?w1) = (if delete_fails F then r_get t k (cl_redis w) else None)"
    if "t' \<le> t" "(k, f) \<in> queries" for t k f
    using that(1) below_ns [OF that(2)]
    by (simp add: invalidate_def publish_invalidation_def Let_def delete_by_prefix_get)
  have w': "fst (write_request C F t' ns (Inr ns) n func w) = (if delete_fails F then ?w1 else commit db ?w1)"
    by (simp add: write_request_def cache_invalidate_def Inr p case_prod_beta invalidate_def Let_def)
  show ?thesis
  proof (rule coherentI)
    fix t k f s
    assume "t' \<le> t" "(k, f) \<in> queries"
      "r_get t k (cl_redis (fst (write_request C F t' ns (Inr ns) n func w))) = Some s"
    then show "current K (cl_db (fst (write_request C F t' ns (Inr ns) n func w))) f s"
      using redis [of t k f] coherent_redis [OF assms(1), of t k f s] assms(2) db1
      by (auto simp: w' commit_def split: if_splits)
  next
    fix t k f m j
    assume "t' \<le> t" "(k, f) \<in> queries" "CACHE_LOCAL_ENABLED C"
    then show "(\<exists>x \<in> set (cl_queue (fst (write_request C F t' ns (Inr ns) n func w)) m). covers x k)
        \<or> (\<exists>s. current K (cl_db (fst (write_request C F t' ns (Inr ns) n func w))) f s \<and> j = deserialize_result K s)"
      using all by (auto simp: w' commit_def)
  qed
qed

lemma deliver_coherent:
  assumes "coherent C K queries now w" "now \<le> t'"
  shows "coherent C K queries t' (deliver n w)"
proof (cases "cl_queue w n")
  case Nil
  then show ?thesis using cluster_coherent_later [OF assms] by (simp add: deliver_def)
next
  case (Cons m ms)
  let ?w' = "w\<lparr>cl_local := (cl_local w)(n := handle_message m (cl_local w n)), cl_queue := (cl_queue w)(n := ms)\<rparr>"
  have w': "deliver n w = ?w'" using Cons by (simp add: deliver_def)
  show ?thesis
    unfolding w'
  proof (rule coherentI)
    fix t k f s
    assume a: "t' \<le> t" "(k, f) \<in> queries" "r_get t k (cl_redis ?w') = Some s"
    then have "now \<le> t" "r_get t k (cl_redis w) = Some s" using assms(2) by simp_all
    from coherent_redis [OF assms(1) this(1) a(2) this(2)] show "current K (cl_db ?w') f s" by simp
  next
    fix t k f p j
    assume a: "t' \<le> t" "(k, f) \<in> queries" "CACHE_LOCAL_ENABLED C" "local_get t k (cl_local ?w' p) = Some j"
    then have "local_get t k (cl_local w p) = Some j" "p = n \<Longrightarrow> \<not> covers m k"
      by (auto simp: local_get_message split: if_splits)
    moreover have "now \<le> t" using a(1) assms(2) by linarith
    ultimately show "(\<exists>x \<in> set (cl_queue ?w' p). covers x k)
        \<or> (\<exists>s. current K (cl_db ?w') f s \<and> j = deserialize_result K s)"
      using coherent_local [OF assms(1) _ a(2,3), of t p j] Cons by (cases "p = n") auto
  qed
qed

lemma run_coherent:
  assumes "cluster_run C K evict ns queries writes now w" "evict_ok evict"
  shows "coherent C K queries now w"
  using assms(1)
proof induction
  case (start t st db)
  show ?case
  proof (rule coherentI)
    fix t' k f s
    let ?w = "\<lparr>cl_db = db, cl_redis = st, cl_local = (\<lambda>_. []), cl_queue = (\<lambda>_. [])\<rparr> :: ('d, 'j) cluster"
    assume "t \<le> t'" "(k, f) \<in> queries" "r_get t' k (cl_redis ?w) = Some s"
    then show "current K (cl_db ?w) f s" using r_get_later [of t' k st s t] start below_ns by auto
  qed (simp add: local_get_def)
next
  case (read t w t' k func F n)
  show ?case by (rule read_coherent [OF read.IH read.hyps(2,3) assms(2)])
next
  case (written t w t' func F n)
  show ?case by (rule write_coherent [OF written.IH written.hyps(2,4)])
next
  case (delivered t w t' n)
  show ?case by (rule deliver_coherent [OF delivered.IH delivered.hyps(2)])
qed

lemma run_reads_current:
  assumes "cluster_run C K evict ns queries writes now w" "now \<le> t" "(k, f) \<in> queries" "cl_queue w n = []"
    "evict_ok evict"
  shows "answers_current K (f (cl_db w)) (snd (read_node C K evict F t n (Inr k) f w))"
proof -
  note c = run_coherent [OF assms(1,5)]
  show ?thesis
    using coherent_local [OF c assms(2,3), of n] coherent_redis [OF c assms(2,3)] assms(4)
    by (auto simp: read_node_def cached_def answers_current_def current_def Let_def split: option.splits sum.splits
        prod.splits if_splits)
qed

end

end
