(* ===== verification/Plugins.thy ===== *)
theory Plugins
  imports Cache AdminDb
begin

text \<open>
  The plugins whose reads are cached: \<open>plugin/config\<close> (parameters of the system) and \<open>plugin/dict\<close>
  (dictionaries): tables, queries (\<open>crud\<close>) and services. Row order stands for the order of a query without
  \<open>ORDER BY\<close>; creation and update times are left out. In a parameter, \<open>None\<close> outside is a field that was
  not sent.
\<close>

section \<open>Tables\<close>

record config =
  cf_id :: int
  cf_name :: ustr
  cf_type :: "ustr option"
  cf_key :: ustr
  cf_value :: ustr
  cf_is_frontend :: bool
  cf_remark :: "ustr option"
  cf_deleted :: int

record dict_type =
  dt_id :: int
  dt_name :: ustr
  dt_code :: ustr
  dt_remark :: "ustr option"
  dt_deleted :: int

record dict_data =
  dd_id :: int
  dd_type_code :: ustr
  dd_label :: ustr
  dd_value :: ustr
  dd_color :: "ustr option"
  dd_sort :: int
  dd_status :: int
  dd_remark :: "ustr option"
  dd_type_id :: int
  dd_deleted :: int

record plugin_db =
  p_configs :: "config list"
  p_types :: "dict_type list"
  p_datas :: "dict_data list"

section \<open>Parameters\<close>

record config_param =
  cp_name :: ustr
  cp_type :: "ustr option option"
  cp_key :: ustr
  cp_value :: ustr
  cp_is_frontend :: bool
  cp_remark :: "ustr option option"

record configs_param = config_param +
  cp_id :: int

text \<open>\<open>crud_config.py\<close>\<close>

definition config_get :: "int \<Rightarrow> plugin_db \<Rightarrow> config option" where
  "config_get pk db = find (\<lambda>c. cf_id c = pk \<and> cf_deleted c = 0) (p_configs db)"

definition config_get_all :: "ustr option \<Rightarrow> plugin_db \<Rightarrow> config list" where
  "config_get_all ty db = filter (\<lambda>c. cf_deleted c = 0 \<and> (ty = None \<or> cf_type c = ty)) (p_configs db)"

definition config_get_all_by_ids :: "int list \<Rightarrow> plugin_db \<Rightarrow> config list" where
  "config_get_all_by_ids pks db = filter (\<lambda>c. List.member pks (cf_id c) \<and> cf_deleted c = 0) (p_configs db)"

definition config_get_all_by_keys :: "ustr list \<Rightarrow> plugin_db \<Rightarrow> config list" where
  "config_get_all_by_keys keys db = filter (\<lambda>c. List.member keys (cf_key c) \<and> cf_deleted c = 0) (p_configs db)"

definition config_get_by_key :: "ustr \<Rightarrow> plugin_db \<Rightarrow> config option" where
  "config_get_by_key key db = find (\<lambda>c. cf_key c = key \<and> cf_deleted c = 0) (p_configs db)"

definition config_create :: "config_param \<Rightarrow> plugin_db \<Rightarrow> plugin_db" where
  "config_create obj db = db\<lparr>p_configs := p_configs db @
     [\<lparr>cf_id = fresh_id (map cf_id (p_configs db)), cf_name = cp_name obj, cf_type = sent (cp_type obj) None,
       cf_key = cp_key obj, cf_value = cp_value obj, cf_is_frontend = cp_is_frontend obj,
       cf_remark = sent (cp_remark obj) None, cf_deleted = 0\<rparr>]\<rparr>"

definition write_config :: "'a config_param_scheme \<Rightarrow> config \<Rightarrow> config" where
  "write_config obj c = c\<lparr>cf_name := cp_name obj, cf_type := sent (cp_type obj) (cf_type c), cf_key := cp_key obj,
     cf_value := cp_value obj, cf_is_frontend := cp_is_frontend obj, cf_remark := sent (cp_remark obj) (cf_remark c)\<rparr>"

definition config_update :: "int \<Rightarrow> config_param \<Rightarrow> plugin_db \<Rightarrow> plugin_db \<times> int" where
  "config_update pk obj db =
     (db\<lparr>p_configs := map (\<lambda>c. if cf_id c = pk \<and> cf_deleted c = 0 then write_config obj c else c) (p_configs db)\<rparr>,
      int (length (filter (\<lambda>c. cf_id c = pk \<and> cf_deleted c = 0) (p_configs db))))"

text \<open>One \<open>UPDATE\<close> by primary key per object.\<close>

definition config_bulk_update :: "configs_param list \<Rightarrow> plugin_db \<Rightarrow> plugin_db \<times> int" where
  "config_bulk_update objs db =
     (db\<lparr>p_configs := foldl (\<lambda>cs obj. map (\<lambda>c. if cf_id c = cp_id obj then write_config obj c else c) cs)
                        (p_configs db) objs\<rparr>,
      int (length objs))"

definition config_delete :: "int list \<Rightarrow> plugin_db \<Rightarrow> plugin_db \<times> int" where
  "config_delete pks db =
     (db\<lparr>p_configs := map (\<lambda>c. if List.member pks (cf_id c) \<and> cf_deleted c = 0 then c\<lparr>cf_deleted := cf_id c\<rparr> else c)
                        (p_configs db)\<rparr>,
      int (length (filter (\<lambda>c. List.member pks (cf_id c) \<and> cf_deleted c = 0) (p_configs db))))"

section \<open>The configuration service\<close>

definition CACHE_CONFIG_REDIS_PREFIX :: ustr where
  "CACHE_CONFIG_REDIS_PREFIX = asc ''fba:cache:config''"

text \<open>What the cached functions of both plugins return.\<close>

datatype plugin_value = One_config config | Configs "config list" | One_data dict_data | Datas "dict_data list"

definition config_service_get :: "int \<Rightarrow> plugin_db \<Rightarrow> plugin_value option res" where
  "config_service_get pk db =
     (case config_get pk db of None \<Rightarrow> Inl (NotFoundError msg_config_missing) | Some c \<Rightarrow> Inr (Some (One_config c)))"

definition config_service_get_all :: "ustr option \<Rightarrow> plugin_db \<Rightarrow> plugin_value option res" where
  "config_service_get_all ty db = Inr (Some (Configs (config_get_all ty db)))"

text \<open>The keys under which the two are cached.\<close>

definition config_get_key :: "(arg \<Rightarrow> ustr) \<Rightarrow> int \<Rightarrow> ustr res" where
  "config_get_key render pk =
     build_cache_key render CACHE_CONFIG_REDIS_PREFIX (Some (asc ''pk'')) None [(asc ''pk'', Arg_int pk)]"

definition config_get_all_key :: "(arg \<Rightarrow> ustr) \<Rightarrow> ustr option \<Rightarrow> ustr res" where
  "config_get_all_key render ty =
     build_cache_key render CACHE_CONFIG_REDIS_PREFIX (Some (asc ''type'')) None
       [(asc ''type'', case ty of None \<Rightarrow> Arg_none | Some t \<Rightarrow> Arg_str t)]"

definition config_service_create :: "config_param \<Rightarrow> plugin_db \<Rightarrow> (plugin_db \<times> int) res" where
  "config_service_create obj db =
     (if config_get_by_key (cp_key obj) db \<noteq> None
      then Inl (ConflictError (msg_config_pre @ cp_key obj @ msg_config_taken_post))
      else Inr (config_create obj db, 0))"

definition config_service_update :: "int \<Rightarrow> config_param \<Rightarrow> plugin_db \<Rightarrow> (plugin_db \<times> int) res" where
  "config_service_update pk obj db =
     (case config_get pk db of
        None \<Rightarrow> Inl (NotFoundError msg_config_missing)
      | Some c \<Rightarrow>
          if cf_key c \<noteq> cp_key obj \<and> config_get_by_key (cp_key obj) db \<noteq> None
          then Inl (ConflictError (msg_config_pre @ cp_key obj @ msg_config_taken_post))
          else Inr (config_update pk obj db))"

definition config_service_bulk_update :: "configs_param list \<Rightarrow> plugin_db \<Rightarrow> (plugin_db \<times> int) res" where
  "config_service_bulk_update objs db =
     (let config_map = map_of (rev (map (\<lambda>c. (cf_id c, c)) (config_get_all_by_ids (map cp_id objs) db)))
      in if list_ex (\<lambda>obj. config_map (cp_id obj) = None) objs then Inl (NotFoundError msg_config_missing)
         else
           let changes = (\<lambda>obj. cf_key (the (config_map (cp_id obj))) \<noteq> cp_key obj);
               changed_keys = map cp_key (filter changes objs)
           in if \<not> distinct changed_keys then Inl (ConflictError msg_config_keys)
              else
                let key_owner = map_of (rev (map (\<lambda>c. (cf_key c, cf_id c)) (config_get_all_by_keys changed_keys db)))
                in (case find (\<lambda>obj. changes obj \<and> (case key_owner (cp_key obj) of None \<Rightarrow> False
                                                    | Some i \<Rightarrow> i \<noteq> cp_id obj)) objs of
                      Some obj \<Rightarrow> Inl (ConflictError (msg_config_pre @ cp_key obj @ msg_config_taken_post))
                    | None \<Rightarrow> Inr (config_bulk_update objs db)))"

definition config_service_delete :: "int list \<Rightarrow> plugin_db \<Rightarrow> (plugin_db \<times> int) res" where
  "config_service_delete pks db = Inr (config_delete pks db)"

section \<open>Dictionaries: queries\<close>

record dict_type_param =
  tp_name :: ustr
  tp_code :: ustr
  tp_remark :: "ustr option option"

record dict_data_param =
  dp_type_id :: int
  dp_label :: ustr
  dp_value :: ustr
  dp_color :: "ustr option"
  dp_sort :: int
  dp_status :: int
  dp_remark :: "ustr option"

text \<open>\<open>crud_dict_data.py\<close>\<close>

definition data_get :: "int \<Rightarrow> plugin_db \<Rightarrow> dict_data option" where
  "data_get pk db = find (\<lambda>d. dd_id d = pk \<and> dd_deleted d = 0) (p_datas db)"

definition data_get_by_type_code :: "ustr \<Rightarrow> plugin_db \<Rightarrow> dict_data list" where
  "data_get_by_type_code code db =
     sort_key (\<lambda>d. - dd_sort d) (filter (\<lambda>d. dd_type_code d = code \<and> dd_status d = 1 \<and> dd_deleted d = 0) (p_datas db))"

definition data_get_all :: "plugin_db \<Rightarrow> dict_data list" where
  "data_get_all db = filter (\<lambda>d. dd_deleted d = 0) (p_datas db)"

definition data_get_by_label :: "ustr \<Rightarrow> ustr \<Rightarrow> plugin_db \<Rightarrow> dict_data option" where
  "data_get_by_label label type_code db =
     find (\<lambda>d. dd_label d = label \<and> dd_type_code d = type_code \<and> dd_deleted d = 0) (p_datas db)"

definition write_data :: "dict_data_param \<Rightarrow> ustr \<Rightarrow> dict_data \<Rightarrow> dict_data" where
  "write_data obj type_code d = d\<lparr>dd_type_code := type_code, dd_label := dp_label obj, dd_value := dp_value obj,
     dd_color := dp_color obj, dd_sort := dp_sort obj, dd_status := dp_status obj, dd_remark := dp_remark obj,
     dd_type_id := dp_type_id obj\<rparr>"

definition data_create :: "dict_data_param \<Rightarrow> ustr \<Rightarrow> plugin_db \<Rightarrow> plugin_db" where
  "data_create obj type_code db = db\<lparr>p_datas := p_datas db @
     [\<lparr>dd_id = fresh_id (map dd_id (p_datas db)), dd_type_code = type_code, dd_label = dp_label obj,
       dd_value = dp_value obj, dd_color = dp_color obj, dd_sort = dp_sort obj, dd_status = dp_status obj,
       dd_remark = dp_remark obj, dd_type_id = dp_type_id obj, dd_deleted = 0\<rparr>]\<rparr>"

definition data_update :: "int \<Rightarrow> dict_data_param \<Rightarrow> ustr \<Rightarrow> plugin_db \<Rightarrow> plugin_db \<times> int" where
  "data_update pk obj type_code db =
     (db\<lparr>p_datas := map (\<lambda>d. if dd_id d = pk \<and> dd_deleted d = 0 then write_data obj type_code d else d) (p_datas db)\<rparr>,
      int (length (filter (\<lambda>d. dd_id d = pk \<and> dd_deleted d = 0) (p_datas db))))"

definition data_delete :: "int list \<Rightarrow> plugin_db \<Rightarrow> plugin_db \<times> int" where
  "data_delete pks db =
     (db\<lparr>p_datas := map (\<lambda>d. if List.member pks (dd_id d) \<and> dd_deleted d = 0 then d\<lparr>dd_deleted := dd_id d\<rparr> else d)
                      (p_datas db)\<rparr>,
      int (length (filter (\<lambda>d. List.member pks (dd_id d) \<and> dd_deleted d = 0) (p_datas db))))"

definition data_delete_by_type_id :: "int list \<Rightarrow> plugin_db \<Rightarrow> plugin_db" where
  "data_delete_by_type_id type_ids db =
     db\<lparr>p_datas := map (\<lambda>d. if List.member type_ids (dd_type_id d) \<and> dd_deleted d = 0
                            then d\<lparr>dd_deleted := dd_id d\<rparr> else d) (p_datas db)\<rparr>"

text \<open>\<open>crud_dict_type.py\<close>\<close>

definition type_get :: "int \<Rightarrow> plugin_db \<Rightarrow> dict_type option" where
  "type_get pk db = find (\<lambda>t. dt_id t = pk \<and> dt_deleted t = 0) (p_types db)"

definition type_get_by_code :: "ustr \<Rightarrow> plugin_db \<Rightarrow> dict_type option" where
  "type_get_by_code code db = find (\<lambda>t. dt_code t = code \<and> dt_deleted t = 0) (p_types db)"

definition type_get_all :: "plugin_db \<Rightarrow> dict_type list" where
  "type_get_all db = filter (\<lambda>t. dt_deleted t = 0) (p_types db)"

definition type_create :: "dict_type_param \<Rightarrow> plugin_db \<Rightarrow> plugin_db" where
  "type_create obj db = db\<lparr>p_types := p_types db @
     [\<lparr>dt_id = fresh_id (map dt_id (p_types db)), dt_name = tp_name obj, dt_code = tp_code obj,
       dt_remark = sent (tp_remark obj) None, dt_deleted = 0\<rparr>]\<rparr>"

definition type_update :: "int \<Rightarrow> dict_type_param \<Rightarrow> plugin_db \<Rightarrow> plugin_db \<times> int" where
  "type_update pk obj db =
     (db\<lparr>p_types := map (\<lambda>t. if dt_id t = pk \<and> dt_deleted t = 0
                            then t\<lparr>dt_name := tp_name obj, dt_code := tp_code obj, dt_remark := sent (tp_remark obj) (dt_remark t)\<rparr>
                            else t) (p_types db)\<rparr>,
      int (length (filter (\<lambda>t. dt_id t = pk \<and> dt_deleted t = 0) (p_types db))))"

definition type_delete :: "int list \<Rightarrow> plugin_db \<Rightarrow> plugin_db \<times> int" where
  "type_delete pks db =
     (let db1 = data_delete_by_type_id pks db
      in (db1\<lparr>p_types := map (\<lambda>t. if List.member pks (dt_id t) \<and> dt_deleted t = 0 then t\<lparr>dt_deleted := dt_id t\<rparr> else t)
                           (p_types db1)\<rparr>,
          int (length (filter (\<lambda>t. List.member pks (dt_id t) \<and> dt_deleted t = 0) (p_types db1)))))"

section \<open>Dictionaries: services\<close>

definition CACHE_DICT_REDIS_PREFIX :: ustr where
  "CACHE_DICT_REDIS_PREFIX = asc ''fba:cache:dict''"

definition data_service_get :: "int \<Rightarrow> plugin_db \<Rightarrow> plugin_value option res" where
  "data_service_get pk db =
     (case data_get pk db of None \<Rightarrow> Inl (NotFoundError msg_dict_data_missing) | Some d \<Rightarrow> Inr (Some (One_data d)))"

definition data_service_get_by_type_code :: "ustr \<Rightarrow> plugin_db \<Rightarrow> plugin_value option res" where
  "data_service_get_by_type_code code db =
     (let ds = data_get_by_type_code code db
      in if ds = [] then Inl (NotFoundError msg_dict_data_missing) else Inr (Some (Datas ds)))"

definition data_get_key :: "(arg \<Rightarrow> ustr) \<Rightarrow> int \<Rightarrow> ustr res" where
  "data_get_key render pk =
     build_cache_key render CACHE_DICT_REDIS_PREFIX (Some (asc ''pk'')) None [(asc ''pk'', Arg_int pk)]"

definition data_type_code_key :: "(arg \<Rightarrow> ustr) \<Rightarrow> ustr \<Rightarrow> ustr res" where
  "data_type_code_key render code =
     build_cache_key render CACHE_DICT_REDIS_PREFIX None
       (Some (\<lambda>kwargs. Inr (Arg_str (asc ''type:'' @ (case map_of kwargs (asc ''code'') of Some (Arg_str c) \<Rightarrow> c | _ \<Rightarrow> [])))))
       [(asc ''code'', Arg_str code)]"

definition data_service_create :: "dict_data_param \<Rightarrow> plugin_db \<Rightarrow> (plugin_db \<times> int) res" where
  "data_service_create obj db =
     (case type_get (dp_type_id obj) db of
        None \<Rightarrow> Inl (NotFoundError msg_dict_type_missing)
      | Some t \<Rightarrow>
          if data_get_by_label (dp_label obj) (dt_code t) db \<noteq> None then Inl (ConflictError msg_dict_data_exists)
          else Inr (data_create obj (dt_code t) db, 0))"

definition data_service_update :: "int \<Rightarrow> dict_data_param \<Rightarrow> plugin_db \<Rightarrow> (plugin_db \<times> int) res" where
  "data_service_update pk obj db =
     (case data_get pk db of
        None \<Rightarrow> Inl (NotFoundError msg_dict_data_missing)
      | Some d \<Rightarrow>
          (case type_get (dp_type_id obj) db of
             None \<Rightarrow> Inl (NotFoundError msg_dict_type_missing)
           | Some t \<Rightarrow>
               if (dd_label d \<noteq> dp_label obj \<or> dd_type_code d \<noteq> dt_code t)
                 \<and> (case data_get_by_label (dp_label obj) (dt_code t) db of None \<Rightarrow> False | Some n \<Rightarrow> dd_id n \<noteq> pk)
               then Inl (ConflictError msg_dict_data_exists)
               else Inr (data_update pk obj (dt_code t) db)))"

definition data_service_delete :: "int list \<Rightarrow> plugin_db \<Rightarrow> (plugin_db \<times> int) res" where
  "data_service_delete pks db = Inr (data_delete pks db)"

text \<open>The service of the types has no decorator.\<close>

definition type_service_get :: "int \<Rightarrow> plugin_db \<Rightarrow> dict_type res" where
  "type_service_get pk db =
     (case type_get pk db of None \<Rightarrow> Inl (NotFoundError msg_dict_type_missing) | Some t \<Rightarrow> Inr t)"

definition type_service_create :: "dict_type_param \<Rightarrow> plugin_db \<Rightarrow> (plugin_db \<times> int) res" where
  "type_service_create obj db =
     (if type_get_by_code (tp_code obj) db \<noteq> None then Inl (ConflictError msg_dict_type_exists)
      else Inr (type_create obj db, 0))"

definition type_service_update :: "int \<Rightarrow> dict_type_param \<Rightarrow> plugin_db \<Rightarrow> (plugin_db \<times> int) res" where
  "type_service_update pk obj db =
     (case type_get pk db of
        None \<Rightarrow> Inl (NotFoundError msg_dict_type_missing)
      | Some t \<Rightarrow>
          if dt_code t \<noteq> tp_code obj \<and> type_get_by_code (tp_code obj) db \<noteq> None
          then Inl (ConflictError msg_dict_type_exists)
          else Inr (type_update pk obj db))"

definition type_service_delete :: "int list \<Rightarrow> plugin_db \<Rightarrow> (plugin_db \<times> int) res" where
  "type_service_delete pks db = Inr (type_delete pks db)"

end
