(* ===== verification/UniqueRows.thy ===== *)
theory UniqueRows
  imports AdminDb
begin

text \<open>
  Tables with a primary key, logical deletion (the column is 0 for a live row and its own id for a deleted
  one) and a key that no two live rows may share: what inserting, changing and deleting rows keeps of that.
\<close>

definition unique_live :: "('a \<Rightarrow> int) \<Rightarrow> ('a \<Rightarrow> int) \<Rightarrow> ('a \<Rightarrow> 'k) \<Rightarrow> 'a list \<Rightarrow> bool" where
  "unique_live rid deleted key rows \<longleftrightarrow> distinct (map rid rows) \<and> (\<forall>r \<in> set rows. 0 < rid r)
     \<and> (\<forall>r \<in> set rows. \<forall>s \<in> set rows. deleted r = 0 \<longrightarrow> deleted s = 0 \<longrightarrow> key r = key s \<longrightarrow> rid r = rid s)"

lemma fresh_id_pos: "0 < fresh_id ids"
proof -
  have "0 \<le> foldr max ids (0 :: int)" by (induction ids) auto
  then show ?thesis by (simp add: fresh_id_def)
qed

lemma unique_liveI:
  assumes "distinct (map rid rows)" "\<And>r. r \<in> set rows \<Longrightarrow> 0 < rid r"
    "\<And>r s. r \<in> set rows \<Longrightarrow> s \<in> set rows \<Longrightarrow> deleted r = 0 \<Longrightarrow> deleted s = 0 \<Longrightarrow> key r = key s \<Longrightarrow> rid r = rid s"
  shows "unique_live rid deleted key rows"
  unfolding unique_live_def using assms by blast

lemma unique_liveD:
  assumes "unique_live rid deleted key rows"
  shows "distinct (map rid rows)" "r \<in> set rows \<Longrightarrow> 0 < rid r"
    "r \<in> set rows \<Longrightarrow> s \<in> set rows \<Longrightarrow> deleted r = 0 \<Longrightarrow> deleted s = 0 \<Longrightarrow> key r = key s \<Longrightarrow> rid r = rid s"
  using assms unfolding unique_live_def by blast+

lemma unique_live_insert:
  assumes "unique_live rid deleted key rows" "rid r = fresh_id (map rid rows)"
    "\<And>s. s \<in> set rows \<Longrightarrow> deleted s = 0 \<Longrightarrow> key s \<noteq> key r"
  shows "unique_live rid deleted key (rows @ [r])"
proof (rule unique_liveI)
  show "distinct (map rid (rows @ [r]))"
    using unique_liveD(1) [OF assms(1)] fresh_id_not_in [of "map rid rows"] assms(2) by simp
  show "0 < rid x" if "x \<in> set (rows @ [r])" for x
    using that unique_liveD(2) [OF assms(1), of x] fresh_id_pos assms(2) by auto
  show "rid x = rid y" if "x \<in> set (rows @ [r])" "y \<in> set (rows @ [r])" "deleted x = 0" "deleted y = 0" "key x = key y" for x y
    using that unique_liveD(3) [OF assms(1), of x y] assms(3) [of x] assms(3) [of y] by auto
qed

text \<open>A change of rows that keeps ids, brings nothing back, and gives no live key that another row has.\<close>

lemma unique_live_map:
  assumes "unique_live rid deleted key rows" "\<And>r. r \<in> set rows \<Longrightarrow> rid (f r) = rid r"
    "\<And>r. r \<in> set rows \<Longrightarrow> deleted (f r) = 0 \<Longrightarrow> deleted r = 0"
    "\<And>r s. r \<in> set rows \<Longrightarrow> s \<in> set rows \<Longrightarrow> deleted r = 0 \<Longrightarrow> deleted s = 0 \<Longrightarrow> deleted (f r) = 0 \<Longrightarrow> deleted (f s) = 0
      \<Longrightarrow> key (f r) = key (f s) \<Longrightarrow> rid r = rid s"
  shows "unique_live rid deleted key (map f rows)"
proof (rule unique_liveI)
  have "map rid (map f rows) = map rid rows" using assms(2) by simp
  then show "distinct (map rid (map f rows))" using unique_liveD(1) [OF assms(1)] by argo
  show "0 < rid x" if "x \<in> set (map f rows)" for x
    using that unique_liveD(2) [OF assms(1)] assms(2) by auto
  fix x y
  assume xy: "x \<in> set (map f rows)" "y \<in> set (map f rows)" "deleted x = 0" "deleted y = 0" "key x = key y"
  then obtain r s where "x = f r" "r \<in> set rows" "y = f s" "s \<in> set rows" by auto
  then show "rid x = rid y" using xy(3-5) assms(2-4) by metis
qed

lemma unique_live_delete:
  assumes "unique_live rid deleted key rows" "\<And>r. rid (del r) = rid r" "\<And>r. deleted (del r) = rid r"
    "\<And>r. key (del r) = key r"
  shows "unique_live rid deleted key (map (\<lambda>r. if P r then del r else r) rows)"
proof (rule unique_live_map [OF assms(1)])
  fix r assume "r \<in> set rows" "deleted (if P r then del r else r) = 0"
  then show "deleted r = 0" using unique_liveD(2) [OF assms(1), of r] assms(3) by (cases "P r") auto
next
  fix r s
  assume rs: "r \<in> set rows" "s \<in> set rows" "deleted r = 0" "deleted s = 0"
    "key (if P r then del r else r) = key (if P s then del s else s)"
  have k: "key (if P x then del x else x) = key x" for x by (simp add: assms(4))
  have "key r = key s" using rs(5) unfolding k .
  then show "rid r = rid s" by (rule unique_liveD(3) [OF assms(1) rs(1-4)])
qed (simp add: assms(2))

lemma find_eq_NoneD: "find P xs = None \<Longrightarrow> x \<in> set xs \<Longrightarrow> \<not> P x"
  by (simp add: find_None_iff)

text \<open>One row gets a new content, under a key that no other live row has.\<close>

lemma unique_live_write:
  assumes "unique_live rid deleted key rows" "\<And>r. rid (wr r) = rid r" "\<And>r. deleted (wr r) = deleted r"
    "\<And>r. key (wr r) = k" "\<And>s. s \<in> set rows \<Longrightarrow> deleted s = 0 \<Longrightarrow> key s = k \<Longrightarrow> rid s = pk"
  shows "unique_live rid deleted key (map (\<lambda>r. if rid r = pk \<and> deleted r = 0 then wr r else r) rows)"
proof (rule unique_live_map [OF assms(1)])
  fix r s
  assume rs: "r \<in> set rows" "s \<in> set rows" "deleted r = 0" "deleted s = 0"
    "key (if rid r = pk \<and> deleted r = 0 then wr r else r) = key (if rid s = pk \<and> deleted s = 0 then wr s else s)"
  have own: "rid x = pk" if "x \<in> set rows" "deleted x = 0" "key x = k" for x using that by (rule assms(5))
  show "rid r = rid s"
    using rs own [of r] own [of s] unique_liveD(3) [OF assms(1) rs(1-4)] assms(4)
    by (cases "rid r = pk"; cases "rid s = pk") auto
qed (simp_all add: assms(2,3) split: if_splits)

lemma unique_live_find:
  assumes "unique_live rid deleted key rows" "find (\<lambda>r. rid r = pk \<and> deleted r = 0) rows = Some r"
  shows "s \<in> set rows \<Longrightarrow> deleted s = 0 \<Longrightarrow> key s = key r \<Longrightarrow> rid s = pk"
proof -
  assume s: "s \<in> set rows" "deleted s = 0" "key s = key r"
  have "r \<in> set rows" "rid r = pk" "deleted r = 0" using assms(2) by (auto simp: find_Some_iff)
  then show ?thesis using unique_liveD(3) [OF assms(1) s(1), of r] s by simp
qed

end
