(* ===== verification/PluginProps.thy ===== *)
theory PluginProps
  imports Plugins UniqueRows
begin

text \<open>
  When the cached reads of the plugins are right, and when not: coherence of the cluster for the queries
  and writes of both services, the keys the configuration service shares, and the window between an
  invalidation and its commit. And what the writes keep of the tables.
\<close>

section \<open>Keys\<close>

lemma config_get_key_value: "config_get_key render pk = Inr (CACHE_CONFIG_REDIS_PREFIX @ [58] @ str_int pk)"
  by (simp add: config_get_key_def build_cache_key_def arg_text_def asc_def)

lemma config_get_all_key_value:
  "config_get_all_key render ty
     = Inr (CACHE_CONFIG_REDIS_PREFIX @ [58] @ (case ty of None \<Rightarrow> asc ''none'' | Some t \<Rightarrow> t))"
  by (simp add: config_get_all_key_def build_cache_key_def arg_text_def asc_def split: option.splits)

lemma data_get_key_value: "data_get_key render pk = Inr (CACHE_DICT_REDIS_PREFIX @ [58] @ str_int pk)"
  by (simp add: data_get_key_def build_cache_key_def arg_text_def asc_def)

lemma data_type_code_key_value:
  "data_type_code_key render code = Inr (CACHE_DICT_REDIS_PREFIX @ [58] @ asc ''type:'' @ code)"
  by (simp add: data_type_code_key_def build_cache_key_def arg_text_def asc_def)

lemma str_int_not_letter: "c # s \<noteq> str_int i" if "58 < c"
  using that str_int_chars [of c i] by (cases "str_int i") auto

section \<open>Reads of a coherent cluster\<close>

text \<open>A type that is no number and not the text of a missing one.\<close>

definition proper_type :: "ustr \<Rightarrow> bool" where
  "proper_type t \<longleftrightarrow> t \<noteq> asc ''none'' \<and> (\<forall>i. t \<noteq> str_int i)"

definition config_queries :: "(ustr \<times> (plugin_db \<Rightarrow> plugin_value option res)) set" where
  "config_queries =
     range (\<lambda>pk. (CACHE_CONFIG_REDIS_PREFIX @ [58] @ str_int pk, config_service_get pk))
     \<union> {(CACHE_CONFIG_REDIS_PREFIX @ [58] @ asc ''none'', config_service_get_all None)}
     \<union> {(CACHE_CONFIG_REDIS_PREFIX @ [58] @ t, config_service_get_all (Some t)) | t. proper_type t}"

definition config_writes :: "(plugin_db \<Rightarrow> (plugin_db \<times> int) res) set" where
  "config_writes = range config_service_create \<union> range (case_prod config_service_update)
     \<union> range config_service_bulk_update \<union> range config_service_delete"

definition dict_queries :: "(ustr \<times> (plugin_db \<Rightarrow> plugin_value option res)) set" where
  "dict_queries =
     range (\<lambda>pk. (CACHE_DICT_REDIS_PREFIX @ [58] @ str_int pk, data_service_get pk))
     \<union> range (\<lambda>code. (CACHE_DICT_REDIS_PREFIX @ [58] @ asc ''type:'' @ code, data_service_get_by_type_code code))"

definition dict_writes :: "(plugin_db \<Rightarrow> (plugin_db \<times> int) res) set" where
  "dict_writes = range data_service_create \<union> range (case_prod data_service_update) \<union> range data_service_delete"

lemma none_no_number: "asc ''none'' \<noteq> str_int i" "asc ''type:'' @ s \<noteq> str_int i"
  using str_int_not_letter [of 110 "asc ''one''" i] str_int_not_letter [of 116 "asc ''ype:'' @ s" i]
  by (simp_all add: asc_def)

interpretation config_cache: cached_service CACHE_CONFIG_REDIS_PREFIX config_queries
proof
  fix k f g
  assume "(k, f) \<in> config_queries" "(k, g) \<in> config_queries"
  then show "f = g"
    using none_no_number(1) none_no_number(1) [symmetric]
    by (auto simp: config_queries_def proper_type_def str_int_inj)
qed (auto simp: config_queries_def below_def)

interpretation dict_cache: cached_service CACHE_DICT_REDIS_PREFIX dict_queries
proof
  fix k f g
  assume "(k, f) \<in> dict_queries" "(k, g) \<in> dict_queries"
  then show "f = g"
    using none_no_number(2) none_no_number(2) [symmetric] by (auto simp: dict_queries_def str_int_inj)
qed (auto simp: dict_queries_def below_def)

lemma dict_reads_current:
  assumes "cluster_run C K evict CACHE_DICT_REDIS_PREFIX dict_queries dict_writes now w" "evict_ok evict"
    "now \<le> t" "cl_queue w n = []"
  shows "answers_current K (data_service_get pk (cl_db w))
        (snd (read_node C K evict F t n (data_get_key render pk) (data_service_get pk) w))
    \<and> answers_current K (data_service_get_by_type_code code (cl_db w))
        (snd (read_node C K evict F t n (data_type_code_key render code) (data_service_get_by_type_code code) w))"
  unfolding data_get_key_value data_type_code_key_value
  using assms by (intro conjI dict_cache.run_reads_current) (auto simp: dict_queries_def)

section \<open>What the writes keep\<close>

text \<open>
  Ids are positive and differ, and so do, among the rows that are not deleted, the keys of the
  configurations, the codes of the types, and the labels within a type code.
\<close>

definition plugin_ok :: "plugin_db \<Rightarrow> bool" where
  "plugin_ok db \<longleftrightarrow> unique_live cf_id cf_deleted cf_key (p_configs db)
     \<and> unique_live dt_id dt_deleted dt_code (p_types db)
     \<and> unique_live dd_id dd_deleted (\<lambda>d. (dd_type_code d, dd_label d)) (p_datas db)"

lemma foldl_map_rows: "foldl (\<lambda>cs obj. map (g obj) cs) cs objs = map (\<lambda>c. foldl (\<lambda>c obj. g obj c) c objs) cs"
  by (induction objs arbitrary: cs) auto

definition write_all :: "configs_param list \<Rightarrow> config \<Rightarrow> config" where
  "write_all objs c = foldl (\<lambda>c obj. if cf_id c = cp_id obj then write_config obj c else c) c objs"

lemma write_all_keeps: "cf_id (write_all objs c) = cf_id c \<and> cf_deleted (write_all objs c) = cf_deleted c"
  unfolding write_all_def by (induction objs arbitrary: c) (auto simp: write_config_def)

lemma write_all_key:
  "cf_key (write_all objs c) = cf_key c
   \<or> (\<exists>obj \<in> set objs. cp_id obj = cf_id c \<and> cp_key obj = cf_key (write_all objs c))"
proof (induction objs arbitrary: c)
  case (Cons obj objs)
  let ?c = "if cf_id c = cp_id obj then write_config obj c else c"
  have "write_all (obj # objs) c = write_all objs ?c" by (simp add: write_all_def)
  then show ?case using Cons [of ?c] by (auto simp: write_config_def split: if_splits)
qed (simp add: write_all_def)

lemma map_of_rev_key:
  assumes "inj_on h (set xs)" "x \<in> set xs"
  shows "map_of (rev (map (\<lambda>x. (h x, g x)) xs)) (h x) = Some (g x)"
proof (cases "map_of (rev (map (\<lambda>x. (h x, g x)) xs)) (h x)")
  case None
  then have "h x \<notin> h ` set xs" by (simp add: map_of_eq_None_iff image_image)
  then show ?thesis using assms(2) by blast
next
  case (Some v)
  from map_of_SomeD [OF this] obtain y where "y \<in> set xs" "h y = h x" "v = g y" by auto
  then show ?thesis using Some assms by (auto simp: inj_on_def)
qed

lemma bulk_update_ok:
  assumes u: "unique_live cf_id cf_deleted cf_key (p_configs db)" and r: "config_service_bulk_update objs db = Inr (db', n)"
  shows "db' = db\<lparr>p_configs := map (write_all objs) (p_configs db)\<rparr>
    \<and> unique_live cf_id cf_deleted cf_key (map (write_all objs) (p_configs db))"
proof -
  let ?map = "map_of (rev (map (\<lambda>c. (cf_id c, c)) (config_get_all_by_ids (map cp_id objs) db)))"
  let ?changes = "\<lambda>obj. cf_key (the (?map (cp_id obj))) \<noteq> cp_key obj"
  let ?keys = "map cp_key (filter ?changes objs)"
  let ?owner = "map_of (rev (map (\<lambda>c. (cf_key c, cf_id c)) (config_get_all_by_keys ?keys db)))"
  have d: "distinct ?keys" and none: "find (\<lambda>obj. ?changes obj \<and> (case ?owner (cp_key obj) of None \<Rightarrow> False
      | Some i \<Rightarrow> i \<noteq> cp_id obj)) objs = None" and db': "db' = fst (config_bulk_update objs db)"
    using r by (auto simp: config_service_bulk_update_def Let_def split: if_splits option.splits)
  have eq: "db' = db\<lparr>p_configs := map (write_all objs) (p_configs db)\<rparr>"
    by (simp add: db' config_bulk_update_def foldl_map_rows write_all_def)
  have ids: "inj_on cf_id (set (p_configs db))" using unique_liveD(1) [OF u] by (simp add: distinct_map)
  have changed: "cf_key (write_all objs c) \<noteq> cf_key c \<Longrightarrow> \<exists>obj \<in> set (filter ?changes objs).
      cp_id obj = cf_id c \<and> cp_key obj = cf_key (write_all objs c)"
    if c: "c \<in> set (p_configs db)" "cf_deleted c = 0" for c
  proof -
    assume ne: "cf_key (write_all objs c) \<noteq> cf_key c"
    then obtain obj where o: "obj \<in> set objs" "cp_id obj = cf_id c" "cp_key obj = cf_key (write_all objs c)"
      using write_all_key [of objs c] by blast
    have "?map (cf_id c) = Some c"
    proof (rule map_of_rev_key [where g = "\<lambda>c. c"])
      show "inj_on cf_id (set (config_get_all_by_ids (map cp_id objs) db))"
        by (rule inj_on_subset [OF ids]) (auto simp: config_get_all_by_ids_def)
      show "c \<in> set (config_get_all_by_ids (map cp_id objs) db)"
        using c o(1) o(2) [symmetric] by (simp add: config_get_all_by_ids_def)
    qed
    then have "obj \<in> set (filter ?changes objs)" using o ne by simp
    then show ?thesis using o by blast
  qed
  have owner: "cf_id s = cf_id c" if c: "c \<in> set (p_configs db)" "cf_deleted c = 0" "s \<in> set (p_configs db)" "cf_deleted s = 0"
      "cf_key (write_all objs c) \<noteq> cf_key c" "cf_key (write_all objs c) = cf_key s" for c s
  proof -
    obtain obj where o: "obj \<in> set (filter ?changes objs)" "cp_id obj = cf_id c" "cp_key obj = cf_key s"
      using changed [OF c(1,2,5)] c(6) by auto
    have "?owner (cf_key s) = Some (cf_id s)"
    proof (rule map_of_rev_key)
      show "inj_on cf_key (set (config_get_all_by_keys ?keys db))"
        using unique_liveD(3) [OF u] inj_onD [OF ids] by (auto simp: config_get_all_by_keys_def intro!: inj_onI)
      show "s \<in> set (config_get_all_by_keys ?keys db)"
        using c(3,4) o(1) o(3) [symmetric] by (simp add: config_get_all_by_keys_def)
    qed
    then show ?thesis using o find_eq_NoneD [OF none, of obj] by simp
  qed
  have "unique_live cf_id cf_deleted cf_key (map (write_all objs) (p_configs db))"
  proof (rule unique_live_map [OF u])
    fix r s
    assume rs: "r \<in> set (p_configs db)" "s \<in> set (p_configs db)" "cf_deleted r = 0" "cf_deleted s = 0"
      "cf_key (write_all objs r) = cf_key (write_all objs s)"
    show "cf_id r = cf_id s"
    proof (cases "cf_key (write_all objs r) = cf_key r")
      case r: True
      show ?thesis
      proof (cases "cf_key (write_all objs s) = cf_key s")
        case True
        then show ?thesis using unique_liveD(3) [OF u rs(1-4)] r rs(5) by simp
      next
        case False
        then show ?thesis using owner [OF rs(2,4,1,3)] r rs(5) by simp
      qed
    next
      case r: False
      show ?thesis
      proof (cases "cf_key (write_all objs s) = cf_key s")
        case True
        then show ?thesis using owner [OF rs(1,3,2,4) r] rs(5) by simp
      next
        case False
        obtain o1 o2 where "o1 \<in> set (filter ?changes objs)" "cp_id o1 = cf_id r" "cp_key o1 = cf_key (write_all objs r)"
          "o2 \<in> set (filter ?changes objs)" "cp_id o2 = cf_id s" "cp_key o2 = cf_key (write_all objs s)"
          using changed [OF rs(1,3) r] changed [OF rs(2,4) False] by blast
        note o = this
        have "inj_on cp_key (set (filter ?changes objs))" using d unfolding distinct_map by blast
        from inj_onD [OF this _ o(1,4)] o(3,6) rs(5) have "o1 = o2" by simp
        then show ?thesis using o(2,5) by simp
      qed
    qed
  qed (simp_all add: write_all_keeps)
  then show ?thesis using eq by blast
qed

lemma config_writes_ok:
  assumes "f \<in> config_writes" "unique_live cf_id cf_deleted cf_key (p_configs db)" "f db = Inr (db', n)"
  shows "unique_live cf_id cf_deleted cf_key (p_configs db') \<and> p_types db' = p_types db \<and> p_datas db' = p_datas db"
proof -
  note u = assms(2)
  consider (create) obj where "f = config_service_create obj" | (update) pk obj where "f = config_service_update pk obj"
    | (bulk) objs where "f = config_service_bulk_update objs" | (delete) pks where "f = config_service_delete pks"
    using assms(1) by (auto simp: config_writes_def)
  then show ?thesis
  proof cases
    case create
    then have "config_get_by_key (cp_key obj) db = None" "db' = config_create obj db"
      using assms(3) by (auto simp: config_service_create_def split: if_splits)
    then show ?thesis
      using u by (auto simp: config_create_def config_get_by_key_def intro!: unique_live_insert dest: find_eq_NoneD)
  next
    case update
    then obtain c where c: "config_get pk db = Some c"
      "cf_key c = cp_key obj \<or> config_get_by_key (cp_key obj) db = None" "db' = fst (config_update pk obj db)"
      using assms(3) by (auto simp: config_service_update_def split: option.splits if_splits)
    have "s \<in> set (p_configs db) \<Longrightarrow> cf_deleted s = 0 \<Longrightarrow> cf_key s = cp_key obj \<Longrightarrow> cf_id s = pk" for s
      using c(2) unique_live_find [OF u c(1) [unfolded config_get_def], of s]
      by (auto simp: config_get_by_key_def dest: find_eq_NoneD)
    then show ?thesis
      using unique_live_write [OF u, of "write_config obj" "cp_key obj" pk] c(3)
      by (simp add: config_update_def write_config_def)
  next
    case delete
    then show ?thesis
      using assms(3) unique_live_delete [OF u, of "\<lambda>c. c\<lparr>cf_deleted := cf_id c\<rparr>"]
      by (auto simp: config_service_delete_def config_delete_def)
  next
    case bulk
    then have "config_service_bulk_update objs db = Inr (db', n)" using assms(3) by simp
    from bulk_update_ok [OF u this] show ?thesis by simp
  qed
qed

definition type_writes :: "(plugin_db \<Rightarrow> (plugin_db \<times> int) res) set" where
  "type_writes = range type_service_create \<union> range (case_prod type_service_update) \<union> range type_service_delete"

abbreviation data_key :: "dict_data \<Rightarrow> ustr \<times> ustr" where
  "data_key \<equiv> \<lambda>d. (dd_type_code d, dd_label d)"

lemma dict_writes_ok:
  assumes "f \<in> dict_writes" "unique_live dd_id dd_deleted data_key (p_datas db)" "f db = Inr (db', n)"
  shows "unique_live dd_id dd_deleted data_key (p_datas db') \<and> p_types db' = p_types db \<and> p_configs db' = p_configs db"
proof -
  note u = assms(2)
  consider (create) obj where "f = data_service_create obj" | (update) pk obj where "f = data_service_update pk obj"
    | (delete) pks where "f = data_service_delete pks"
    using assms(1) by (auto simp: dict_writes_def)
  then show ?thesis
  proof cases
    case create
    then obtain t where "type_get (dp_type_id obj) db = Some t" using assms(3)
      by (cases "type_get (dp_type_id obj) db") (simp_all add: data_service_create_def)
    then have "data_get_by_label (dp_label obj) (dt_code t) db = None" "db' = data_create obj (dt_code t) db"
      using assms(3) create by (auto simp: data_service_create_def split: if_splits)
    then show ?thesis
      using u by (auto simp: data_create_def data_get_by_label_def intro!: unique_live_insert dest: find_eq_NoneD)
  next
    case update
    then obtain d where d0: "data_get pk db = Some d" using assms(3)
      by (cases "data_get pk db") (simp_all add: data_service_update_def)
    then obtain t where t: "type_get (dp_type_id obj) db = Some t" using assms(3) update
      by (cases "type_get (dp_type_id obj) db") (simp_all add: data_service_update_def)
    have d: "data_get pk db = Some d" "db' = fst (data_update pk obj (dt_code t) db)"
      "dd_label d = dp_label obj \<and> dd_type_code d = dt_code t \<or> data_get_by_label (dp_label obj) (dt_code t) db = None
        \<or> (\<exists>n. data_get_by_label (dp_label obj) (dt_code t) db = Some n \<and> dd_id n = pk)"
      using assms(3) update d0 t by (auto simp: data_service_update_def split: option.splits if_splits)
    have "dd_id s = pk" if s: "s \<in> set (p_datas db)" "dd_deleted s = 0" "data_key s = (dt_code t, dp_label obj)" for s
      using d(3)
    proof (elim disjE exE conjE)
      assume "dd_label d = dp_label obj" "dd_type_code d = dt_code t"
      then show ?thesis using unique_live_find [OF u d(1) [unfolded data_get_def] s(1,2)] s(3) by simp
    next
      assume "data_get_by_label (dp_label obj) (dt_code t) db = None"
      then show ?thesis using s by (auto simp: data_get_by_label_def dest: find_eq_NoneD)
    next
      fix n
      assume "data_get_by_label (dp_label obj) (dt_code t) db = Some n" "dd_id n = pk"
      then have "n \<in> set (p_datas db)" "dd_deleted n = 0" "data_key n = data_key s" "dd_id n = pk"
        using s(3) by (auto simp: data_get_by_label_def find_Some_iff)
      then show ?thesis using unique_liveD(3) [OF u s(1), of n] s(2) by simp
    qed
    then show ?thesis
      using unique_live_write [OF u, of "write_data obj (dt_code t)" "(dt_code t, dp_label obj)" pk] d(2)
      by (simp add: data_update_def write_data_def)
  next
    case delete
    then show ?thesis
      using assms(3) unique_live_delete [OF u, of "\<lambda>d. d\<lparr>dd_deleted := dd_id d\<rparr>"]
      by (auto simp: data_service_delete_def data_delete_def)
  qed
qed

lemma type_writes_ok:
  assumes "f \<in> type_writes" "plugin_ok db" "f db = Inr (db', n)"
  shows "plugin_ok db'"
proof -
  note u = assms(2) [unfolded plugin_ok_def]
  have t: "unique_live dt_id dt_deleted dt_code (p_types db)" using u by blast
  have d: "unique_live dd_id dd_deleted data_key (p_datas db)" using u by blast
  consider (create) obj where "f = type_service_create obj" | (update) pk obj where "f = type_service_update pk obj"
    | (delete) pks where "f = type_service_delete pks"
    using assms(1) by (auto simp: type_writes_def)
  then show ?thesis
  proof cases
    case create
    then have "type_get_by_code (tp_code obj) db = None" "db' = type_create obj db"
      using assms(3) by (auto simp: type_service_create_def split: if_splits)
    then have "unique_live dt_id dt_deleted dt_code (p_types db')"
      "p_configs db' = p_configs db" "p_datas db' = p_datas db"
      using t by (auto simp: type_create_def type_get_by_code_def intro!: unique_live_insert dest: find_eq_NoneD)
    then show ?thesis using u by (simp add: plugin_ok_def)
  next
    case update
    then obtain x where x: "type_get pk db = Some x"
      "dt_code x = tp_code obj \<or> type_get_by_code (tp_code obj) db = None" "db' = fst (type_update pk obj db)"
      using assms(3) by (auto simp: type_service_update_def split: option.splits if_splits)
    have "dt_id s = pk" if "s \<in> set (p_types db)" "dt_deleted s = 0" "dt_code s = tp_code obj" for s
      using x(2) unique_live_find [OF t x(1) [unfolded type_get_def], of s] that
      by (auto simp: type_get_by_code_def dest: find_eq_NoneD)
    then have "unique_live dt_id dt_deleted dt_code (p_types db')"
      using unique_live_write [OF t, of "\<lambda>t. t\<lparr>dt_name := tp_name obj, dt_code := tp_code obj,
        dt_remark := sent (tp_remark obj) (dt_remark t)\<rparr>" "tp_code obj" pk] x(3) by (simp add: type_update_def)
    then show ?thesis using u x(3) by (simp add: plugin_ok_def type_update_def)
  next
    case delete
    then have db': "db' = fst (type_delete pks db)" using assms(3) by (simp add: type_service_delete_def)
    show ?thesis
      using u unique_live_delete [OF t, of "\<lambda>t. t\<lparr>dt_deleted := dt_id t\<rparr>"]
        unique_live_delete [OF d, of "\<lambda>d. d\<lparr>dd_deleted := dd_id d\<rparr>"]
      unfolding db' by (simp add: plugin_ok_def type_delete_def data_delete_by_type_id_def Let_def)
  qed
qed

section \<open>Stale reads\<close>

text \<open>
  Deleting a type, or changing its code, leaves the cached entries of its data: a cached read gives them
  back until they expire.
\<close>

lemma type_writes_keep_caches:
  assumes "type_service_delete pks (cl_db w) = Inr (db', n)" "r_get t k (cl_redis w) = Some text'"
  shows "r_get t k (cl_redis (commit db' w)) = Some text'"
  using assms by (simp add: commit_def)

lemma read_hits_redis:
  assumes "r_get t k (cl_redis w) = Some text'" "local_get t k (cl_local w n) = None" "\<not> get_fails F"
  shows "snd (read_node C K evict F t n (Inr k) func w) = Inr (Hit (deserialize_result K text'))"
  using assms by (simp add: read_node_def cached_def Let_def)

lemma read_fills_redis:
  assumes "r_get t k (cl_redis w) = None" "local_get t k (cl_local w n) = None" "\<not> set_fails F"
    "func (cl_db w) = Inr (Some v)" "serialize_result K v = Some text'" "CACHE_REDIS_TTL C \<noteq> 0"
    "t \<le> t'" "t' < t + CACHE_REDIS_TTL C * 1000"
  shows "r_get t' k (cl_redis (fst (read_node C K evict F t n (Inr k) func w))) = Some text'"
  using assms by (simp add: read_node_def cached_def fill_caches_def Let_def r_get_set alive_def)

lemma read_node_others: "m \<noteq> n \<Longrightarrow> cl_local (fst (read_node C K evict F t n key func w)) m = cl_local w m"
  by (simp add: read_node_def case_prod_beta)

section \<open>Properties\<close>

text \<open>A configuration, and a cluster of empty caches over it; texts are their lengths and never leave a cache.\<close>

definition sample_config :: config where
  "sample_config = \<lparr>cf_id = 5, cf_name = asc ''site'', cf_type = None, cf_key = asc ''title'', cf_value = asc ''Docs'',
     cf_is_frontend = True, cf_remark = None, cf_deleted = 0\<rparr>"

definition sample_codec :: "(plugin_value, ustr) codec" where
  "sample_codec = \<lparr>serialize_result = (\<lambda>v. case v of One_config c \<Rightarrow> Some (cf_value c)
      | Configs cs \<Rightarrow> Some (91 # join [44] (map cf_value cs) @ [93]) | _ \<Rightarrow> None), deserialize_result = (\<lambda>s. s)\<rparr>"

definition sample_cluster :: "(plugin_db, ustr) cluster" where
  "sample_cluster = \<lparr>cl_db = \<lparr>p_configs = [sample_config], p_types = [], p_datas = []\<rparr>, cl_redis = [],
     cl_local = (\<lambda>_. []), cl_queue = (\<lambda>_. [])\<rparr>"

definition sample_change :: config_param where
  "sample_change = \<lparr>cp_name = asc ''site'', cp_type = None, cp_key = asc ''title'', cp_value = asc ''Wiki'',
     cp_is_frontend = True, cp_remark = None\<rparr>"

lemma evict_ok_id: "evict_ok (\<lambda>c. c)"
  by (simp add: evict_ok_def)

text \<open>C34: When every write commits before anything else happens, cached reads are right: whatever reads, writes
and deliveries came before, at whatever times and with whatever failures of Redis but lost messages, a
process with no message waiting answers \<open>get\<close> and \<open>get_all\<close> of the configuration service with what the
database gives now - the function's own result or exception, or the decoding of its encoding.\<close>

theorem config_reads_current:
  assumes "cluster_run C K evict CACHE_CONFIG_REDIS_PREFIX config_queries config_writes now w" "evict_ok evict"
    "now \<le> t" "cl_queue w n = []" "case ty of None \<Rightarrow> True | Some s \<Rightarrow> proper_type s"
  shows "answers_current K (config_service_get pk (cl_db w))
        (snd (read_node C K evict F t n (config_get_key render pk) (config_service_get pk) w))
    \<and> answers_current K (config_service_get_all ty (cl_db w))
        (snd (read_node C K evict F t n (config_get_all_key render ty) (config_service_get_all ty) w))"
  unfolding config_get_key_value config_get_all_key_value
  using assms by (intro conjI config_cache.run_reads_current) (auto simp: config_queries_def split: option.splits)

theorem config_reads_current_witness:
  "snd (read_node default_cache_settings sample_codec (\<lambda>c. c) no_faults 3 0 (config_get_key (\<lambda>_. []) 5) (config_service_get 5)
     (fst (write_request default_cache_settings no_faults 2 CACHE_CONFIG_REDIS_PREFIX (Inr CACHE_CONFIG_REDIS_PREFIX) 0
       (config_service_update 5 sample_change) sample_cluster)))
    \<noteq> Inr (Hit (asc ''Docs''))"
proof -
  let ?w = "fst (write_request default_cache_settings no_faults 2 CACHE_CONFIG_REDIS_PREFIX (Inr CACHE_CONFIG_REDIS_PREFIX) 0
       (config_service_update 5 sample_change) sample_cluster)"
  let ?run = "cluster_run default_cache_settings sample_codec (\<lambda>c. c) CACHE_CONFIG_REDIS_PREFIX config_queries config_writes"
  have s: "?run 1 sample_cluster"
    unfolding sample_cluster_def by (rule cluster_run.start) (simp add: r_get_def)
  have f: "config_service_update 5 sample_change \<in> config_writes" by (auto simp: config_writes_def)
  have w: "?run 2 ?w" by (rule cluster_run.written [OF s _ f]) (simp_all add: no_faults_def)
  have d: "?run 2 (deliver 0 ?w)" by (rule cluster_run.delivered [OF w]) simp
  have q: "cl_queue (deliver 0 ?w) 0 = []" "cl_db (deliver 0 ?w) = cl_db ?w" by code_simp+
  have v: "config_service_get 5 (cl_db ?w) = Inr (Some (One_config (sample_config\<lparr>cf_value := asc ''Wiki''\<rparr>)))" by code_simp
  have "snd (read_node default_cache_settings sample_codec (\<lambda>c. c) no_faults 3 0 (config_get_key (\<lambda>_. []) 5)
      (config_service_get 5) ?w)
    = snd (read_node default_cache_settings sample_codec (\<lambda>c. c) no_faults 3 0 (config_get_key (\<lambda>_. []) 5)
      (config_service_get 5) (deliver 0 ?w))" by code_simp
  then show ?thesis
    using config_reads_current [OF d evict_ok_id _ q(1), of 3 None 5 no_faults "\<lambda>_. []"] v q(2)
    by (auto simp: answers_current_def sample_codec_def sample_config_def asc_def)
qed

text \<open>Keys of configurations are not distinct: \<open>get(pk)\<close> and \<open>get_all(type)\<close> use the namespace followed by the id or
by the type, so a call of \<open>get_all\<close> whose type is the text of an id takes the place of that configuration. From
then on, until the entry expires, every process that has nothing cached itself answers \<open>get(pk)\<close> with the
encoded list, without asking the database - also when no such configuration exists.\<close>

theorem config_keys_collide:
  assumes "r_get now (CACHE_CONFIG_REDIS_PREFIX @ [58] @ str_int pk) (cl_redis w) = None"
    "local_get now (CACHE_CONFIG_REDIS_PREFIX @ [58] @ str_int pk) (cl_local w n) = None"
    "serialize_result K (Configs (config_get_all (Some (str_int pk)) (cl_db w))) = Some listed_text"
    "\<not> set_fails F" "\<not> get_fails F'" "CACHE_REDIS_TTL C \<noteq> 0" "now \<le> t" "t < now + CACHE_REDIS_TTL C * 1000"
    "m \<noteq> n" "local_get t (CACHE_CONFIG_REDIS_PREFIX @ [58] @ str_int pk) (cl_local w m) = None"
  shows "snd (read_node C K evict F' t m (config_get_key render pk) (config_service_get pk)
      (fst (read_node C K evict F now n (config_get_all_key render (Some (str_int pk)))
        (config_service_get_all (Some (str_int pk))) w)))
    = Inr (Hit (deserialize_result K listed_text))"
proof -
  let ?k = "CACHE_CONFIG_REDIS_PREFIX @ [58] @ str_int pk"
  let ?w = "fst (read_node C K evict F now n (Inr ?k) (config_service_get_all (Some (str_int pk))) w)"
  have "r_get t ?k (cl_redis ?w) = Some listed_text"
    by (rule read_fills_redis [where v = "Configs (config_get_all (Some (str_int pk)) (cl_db w))"])
      (use assms in \<open>simp_all add: config_service_get_all_def\<close>)
  moreover have "local_get t ?k (cl_local ?w m) = None"
    using assms(10) by (subst read_node_others [OF assms(9)])
  ultimately have "snd (read_node C K evict F' t m (Inr ?k) (config_service_get pk) ?w)
      = Inr (Hit (deserialize_result K listed_text))"
    by (rule read_hits_redis [OF _ _ assms(5)])
  then show ?thesis by (simp add: config_get_key_value config_get_all_key_value)
qed

theorem config_keys_collide_witness:
  "snd (read_node default_cache_settings sample_codec (\<lambda>c. c) no_faults 3 1 (config_get_key (\<lambda>_. []) 5) (config_service_get 5)
      (fst (read_node default_cache_settings sample_codec (\<lambda>c. c) no_faults 2 0 (config_get_all_key (\<lambda>_. []) (Some (str_int 5)))
        (config_service_get_all (Some (str_int 5))) sample_cluster)))
    = Inr (Hit (asc ''[]''))"
  using config_keys_collide [of 2 5 sample_cluster 0 sample_codec "asc ''[]''" no_faults no_faults default_cache_settings 3 1
      "\<lambda>c. c" "\<lambda>_. []"]
  by (simp add: sample_cluster_def sample_config_def config_get_all_def r_get_def local_get_def sample_codec_def no_faults_def
      default_cache_settings_def asc_def)

text \<open>C35: The services invalidate before their transaction commits. A cached read between the two fills Redis with the
value from before the write, and nothing removes it when the write commits, whatever messages are delivered:
until it expires, two hours by default, every process without an entry of its own answers with the old
value.\<close>

theorem read_before_commit_stays:
  assumes "cache_invalidate C no_faults now ns (Inr ns) True n func w = (w1, Inr (db', r))" "below ns k"
    "f (cl_db w) = Inr (Some v)" "serialize_result K v = Some old_text" "CACHE_REDIS_TTL C \<noteq> 0"
    "local_get now k (cl_local w1 m) = None" "now \<le> t" "t < now + CACHE_REDIS_TTL C * 1000"
  shows "let w2 = commit db' (fst (read_node C K evict no_faults now m (Inr k) f w1)) in
    cl_db w2 = db'
    \<and> (\<forall>ps p F. local_get t k (cl_local (fold deliver ps w2) p) = None \<and> \<not> get_fails F
        \<longrightarrow> snd (read_node C K evict F t p (Inr k) f (fold deliver ps w2)) = Inr (Hit (deserialize_result K old_text)))"
proof -
  have w1: "cl_db w1 = cl_db w" "r_get now k (cl_redis w1) = None"
    using assms(1,2)
    by (auto simp: cache_invalidate_def invalidate_def publish_invalidation_def no_faults_def Let_def
        delete_by_prefix_get split: sum.splits)
  let ?w2 = "commit db' (fst (read_node C K evict no_faults now m (Inr k) f w1))"
  have "r_get t k (cl_redis ?w2) = Some old_text"
    unfolding commit_def
    by (simp, rule read_fills_redis [OF w1(2) assms(6) _ _ assms(4,5,7,8)]) (simp_all add: no_faults_def w1(1) assms(3))
  moreover have "cl_redis (fold deliver ps x) = cl_redis x" for ps and x :: "('a, 'b) cluster"
    by (induction ps arbitrary: x) (simp_all add: deliver_def split: list.splits)
  ultimately show ?thesis
    by (auto simp: Let_def intro!: read_hits_redis) (simp add: commit_def)
qed

theorem read_before_commit_stays_witness:
  "let w1 = fst (cache_invalidate default_cache_settings no_faults 2 CACHE_CONFIG_REDIS_PREFIX (Inr CACHE_CONFIG_REDIS_PREFIX)
        True 0 (config_service_update 5 sample_change) sample_cluster);
      db' = \<lparr>p_configs = [sample_config\<lparr>cf_value := asc ''Wiki''\<rparr>], p_types = [], p_datas = []\<rparr>;
      k = CACHE_CONFIG_REDIS_PREFIX @ [58] @ str_int 5;
      w2 = commit db' (fst (read_node default_cache_settings sample_codec (\<lambda>c. c) no_faults 2 1 (Inr k) (config_service_get 5) w1))
   in config_service_get 5 (cl_db w2) = Inr (Some (One_config (sample_config\<lparr>cf_value := asc ''Wiki''\<rparr>)))
      \<and> snd (read_node default_cache_settings sample_codec (\<lambda>c. c) no_faults 3 7 (Inr k) (config_service_get 5) w2)
        = Inr (Hit (asc ''Docs''))"
proof -
  let ?w1 = "fst (cache_invalidate default_cache_settings no_faults 2 CACHE_CONFIG_REDIS_PREFIX (Inr CACHE_CONFIG_REDIS_PREFIX)
        True 0 (config_service_update 5 sample_change) sample_cluster)"
  let ?db = "\<lparr>p_configs = [sample_config\<lparr>cf_value := asc ''Wiki''\<rparr>], p_types = [], p_datas = []\<rparr>"
  let ?k = "CACHE_CONFIG_REDIS_PREFIX @ [58] @ str_int 5"
  have upd: "config_service_update 5 sample_change (cl_db sample_cluster) = Inr (?db, 1)" by code_simp
  have c: "cache_invalidate default_cache_settings no_faults 2 CACHE_CONFIG_REDIS_PREFIX (Inr CACHE_CONFIG_REDIS_PREFIX)
      True 0 (config_service_update 5 sample_change) sample_cluster = (?w1, Inr (?db, 1))"
    by (simp add: cache_invalidate_def upd invalidate_def no_faults_def Let_def)
  have g: "config_service_get 5 (cl_db sample_cluster) = Inr (Some (One_config sample_config))" by code_simp
  have l: "local_get t ?k (cl_local ?w1 p) = None" for t p
  proof -
    have "cl_local sample_cluster p = []" "local_get t ?k ([] :: ustr local_cache) = None" for p
      by (simp_all add: sample_cluster_def local_get_def)
    then show ?thesis
      by (simp add: cache_invalidate_def upd invalidate_def publish_invalidation_def no_faults_def Let_def
          local_get_delete_by_prefix)
  qed
  let ?w2 = "commit ?db (fst (read_node default_cache_settings sample_codec (\<lambda>c. c) no_faults 2 1 (Inr ?k)
      (config_service_get 5) ?w1))"
  have l7: "local_get 3 ?k (cl_local ?w2 7) = None"
    using l [of 3 7] by (simp add: commit_def read_node_others)
  have t: "cl_db ?w2 = ?db \<and> snd (read_node default_cache_settings sample_codec (\<lambda>c. c) no_faults 3 7 (Inr ?k)
      (config_service_get 5) ?w2) = Inr (Hit (asc ''Docs''))"
  proof -
    have "below CACHE_CONFIG_REDIS_PREFIX ?k" by (simp add: below_def)
    note rule = read_before_commit_stays [where f = "config_service_get 5" and K = sample_codec
        and old_text = "asc ''Docs''" and m = 1 and t = 3 and evict = "\<lambda>c. c", OF c this g, unfolded Let_def]
    have d: "deserialize_result sample_codec (asc ''Docs'') = asc ''Docs''" by (simp add: sample_codec_def)
    show ?thesis
    proof (rule conjI [OF conjunct1 [OF rule]])
      show "snd (read_node default_cache_settings sample_codec (\<lambda>c. c) no_faults 3 7 (Inr ?k) (config_service_get 5) ?w2)
          = Inr (Hit (asc ''Docs''))"
        using conjunct2 [OF rule, rule_format, of "[]" 7 no_faults] l [of 2 1] l7 d
        by (simp add: sample_codec_def sample_config_def default_cache_settings_def no_faults_def)
    qed (use l [of 2 1] in \<open>simp_all add: sample_codec_def sample_config_def default_cache_settings_def\<close>)
  qed
  have "config_service_get 5 ?db = Inr (Some (One_config (sample_config\<lparr>cf_value := asc ''Wiki''\<rparr>)))" by code_simp
  then show ?thesis using t unfolding Let_def by simp
qed

text \<open>C36: The writes of both services keep the tables well-formed: ids stay distinct and positive, and among the rows
that are not deleted no two configurations have one key, no two dictionary types one code, and no two
dictionary entries one label within a type code - the unique constraints of the tables, which the services
check before they write, also for a bulk update that exchanges or repeats keys.\<close>

theorem plugin_keys_unique:
  assumes "f \<in> config_writes \<union> dict_writes \<union> type_writes" "plugin_ok db" "f db = Inr (db', n)"
  shows "plugin_ok db'"
  using assms(1)
proof (elim UnE)
  assume "f \<in> config_writes"
  from config_writes_ok [OF this _ assms(3)] show ?thesis using assms(2) by (simp add: plugin_ok_def)
next
  assume "f \<in> dict_writes"
  from dict_writes_ok [OF this _ assms(3)] show ?thesis using assms(2) by (simp add: plugin_ok_def)
next
  assume "f \<in> type_writes"
  from type_writes_ok [OF this assms(2,3)] show ?thesis .
qed

theorem plugin_keys_unique_witness:
  "plugin_ok \<lparr>p_configs = [sample_config\<lparr>cf_value := asc ''Wiki''\<rparr>], p_types = [], p_datas = []\<rparr>"
proof -
  have f: "config_service_update 5 sample_change \<in> config_writes \<union> dict_writes \<union> type_writes"
    by (auto simp: config_writes_def)
  have "plugin_ok (cl_db sample_cluster)" by (simp add: plugin_ok_def unique_live_def sample_cluster_def sample_config_def)
  moreover have "config_service_update 5 sample_change (cl_db sample_cluster)
      = Inr (\<lparr>p_configs = [sample_config\<lparr>cf_value := asc ''Wiki''\<rparr>], p_types = [], p_datas = []\<rparr>, 1)" by code_simp
  ultimately show ?thesis by (rule plugin_keys_unique [OF f])
qed

end
