(* ===== verification/Beat.thy ===== *)
theory Beat
  imports AdminDb
begin

text \<open>
  The Celery scheduler of \<open>backend/app/task\<close>: the table of periodic tasks (\<open>model/scheduler.py\<close>,
  \<open>crud/crud_scheduler.py\<close>), the service that administrators change it with (\<open>service/scheduler_service.py\<close>)
  and the process that reads it and sends the tasks (\<open>utils/schedulers.py\<close>, \<open>utils/tzcrontab.py\<close>). The two
  only meet in the database and in one Redis key, the time of the last change. Celery calls the methods of
  the scheduler; when a schedule is due, the JSON format, crontab parsing and the text of a time are
  parameters. Times are milliseconds.
\<close>

section \<open>Rows\<close>

datatype scheduler_type = INTERVAL | CRONTAB

datatype period_type = DAYS | HOURS | MINUTES | SECONDS | MICROSECONDS

text \<open>
  A value of a JSON column: a string, a value that Python counts as false (an empty list or object, 0,
  \<open>false\<close>), or any other value.
\<close>

datatype json = J_text ustr | J_false | J_data ustr

definition j_true :: "json option \<Rightarrow> bool" where
  "j_true j = (case j of None \<Rightarrow> False | Some (J_text s) \<Rightarrow> s \<noteq> [] | Some J_false \<Rightarrow> False | Some (J_data _) \<Rightarrow> True)"

record task_row =
  ts_id :: int
  ts_name :: ustr
  ts_task :: ustr
  ts_args :: "json option"
  ts_kwargs :: "json option"
  ts_queue :: "ustr option"
  ts_exchange :: "ustr option"
  ts_routing_key :: "ustr option"
  ts_start_time :: "int option"
  ts_expire_time :: "int option"
  ts_expire_seconds :: "int option"
  ts_type :: scheduler_type
  ts_interval_every :: "int option"
  ts_interval_period :: "period_type option"
  ts_crontab :: "ustr option"
  ts_one_off :: bool
  ts_enabled :: bool
  ts_total_run_count :: int
  ts_last_run_time :: "int option"
  ts_remark :: "ustr option"
  ts_deleted :: int

text \<open>\<open>before_insert_or_update\<close>, then the widths of the columns.\<close>

definition before_insert_or_update :: "task_row \<Rightarrow> task_row res" where
  "before_insert_or_update r =
     (if ts_expire_seconds r \<noteq> None \<and> ts_expire_time r \<noteq> None then Inl (ConflictError msg_expires) else Inr r)"

definition fits :: "nat \<Rightarrow> ustr option \<Rightarrow> bool" where
  "fits n s = (case s of None \<Rightarrow> True | Some x \<Rightarrow> length x \<le> n)"

definition flush_row :: "task_row \<Rightarrow> task_row res" where
  "flush_row r =
     rbind (before_insert_or_update r) (\<lambda>r.
       if length (ts_name r) \<le> 64 \<and> length (ts_task r) \<le> 256 \<and> fits 256 (ts_queue r) \<and> fits 256 (ts_exchange r)
          \<and> fits 256 (ts_routing_key r) \<and> fits 64 (ts_crontab r)
       then Inr r else Inl SQLAlchemyError)"

section \<open>Surroundings and state\<close>

text \<open>The schedules of Celery: an interval in microseconds, or a crontab expression.\<close>

datatype sched = Every int | Cron ustr

record beat_deps =
  bd_to_str :: "int \<Rightarrow> ustr"
  bd_from_str :: "ustr \<Rightarrow> int"
  bd_due :: "sched \<Rightarrow> int \<Rightarrow> int \<Rightarrow> bool \<times> int"
  bd_json_ok :: "ustr \<Rightarrow> bool"
  bd_crontab_ok :: "ustr \<Rightarrow> bool"

datatype option_value = Opt_text ustr | Opt_seconds int | Opt_time int

text \<open>
  \<open>ModelEntry\<close>. The row object is shared by an entry and the one that follows it, so an entry stands for the
  latest one of its name; \<open>no_changes\<close> is the attribute of that object.
\<close>

record entry =
  en_model :: task_row
  en_no_changes :: bool
  en_schedule :: "sched option"
  en_args :: "ustr option"
  en_kwargs :: "ustr option"
  en_options :: "(ustr \<times> option_value) list"
  en_last_run_at :: int

text \<open>
  The database, Redis and the scheduler process: the fields of \<open>DatabaseScheduler\<close>, the coroutines
  \<open>_disable\<close> that still have to run, and what was sent. \<open>set.pop\<close> takes any element: here the head.
\<close>

record beat =
  be_rows :: "task_row list"
  be_redis :: redis
  be_schedule :: "(ustr \<times> entry) list"
  be_last_update :: "int option"
  be_initial_read :: bool
  be_heap_invalidated :: bool
  be_dirty :: "ustr list"
  be_disabling :: "int list"
  be_sent :: "ustr list"

definition last_update_key :: ustr where
  "last_update_key = asc ''fba:celery:last_update''"

definition live_row :: "int \<Rightarrow> task_row list \<Rightarrow> task_row option" where
  "live_row pk rows = find (\<lambda>r. ts_id r = pk \<and> ts_deleted r = 0) rows"

definition write_row :: "task_row \<Rightarrow> task_row list \<Rightarrow> task_row list" where
  "write_row r' rows = map (\<lambda>r. if ts_id r = ts_id r' then r' else r) rows"

text \<open>\<open>update_changed_async\<close>\<close>

definition update_changed :: "beat_deps \<Rightarrow> int \<Rightarrow> redis \<Rightarrow> redis" where
  "update_changed D now st = r_set now last_update_key (bd_to_str D now) None st"

text \<open>\<open>changed\<close>: the listener of \<open>after_update\<close>.\<close>

definition changed :: "beat_deps \<Rightarrow> int \<Rightarrow> bool \<Rightarrow> redis \<Rightarrow> redis" where
  "changed D now no_changes st = (if \<not> no_changes then update_changed D now st else st)"

section \<open>Entries\<close>

fun microseconds :: "period_type \<Rightarrow> int" where
  "microseconds DAYS = 86400000000"
| "microseconds HOURS = 3600000000"
| "microseconds MINUTES = 60000000"
| "microseconds SECONDS = 1000000"
| "microseconds MICROSECONDS = 1"

text \<open>\<open>timedelta(**{period: every})\<close> fails beyond 999999999 days.\<close>

definition timedelta :: "period_type \<Rightarrow> int \<Rightarrow> int option" where
  "timedelta period every =
     (let us = every * microseconds period
      in if abs (us div 86400000000) \<le> 999999999 then Some us else None)"

definition schedule_of :: "beat_deps \<Rightarrow> task_row \<Rightarrow> sched option" where
  "schedule_of D r =
     (case (ts_type r, ts_interval_every r, ts_interval_period r, ts_crontab r) of
        (INTERVAL, Some every, Some period, _) \<Rightarrow> map_option Every (timedelta period every)
      | (CRONTAB, _, _, Some c) \<Rightarrow> if bd_crontab_ok D c then Some (Cron c) else None
      | _ \<Rightarrow> None)"

text \<open>\<open>json.loads(x) if x else None\<close>: only a string can be parsed.\<close>

definition loads :: "beat_deps \<Rightarrow> json option \<Rightarrow> ustr option res" where
  "loads D j =
     (if \<not> j_true j then Inr None
      else case j of
        Some (J_text s) \<Rightarrow> if bd_json_ok D s then Inr (Some s) else Inl (ValueError s)
      | _ \<Rightarrow> Inl TypeError)"

definition options_of :: "task_row \<Rightarrow> (ustr \<times> option_value) list" where
  "options_of r =
     (case ts_queue r of None \<Rightarrow> [] | Some s \<Rightarrow> [(asc ''queue'', Opt_text s)])
     @ (case ts_exchange r of None \<Rightarrow> [] | Some s \<Rightarrow> [(asc ''exchange'', Opt_text s)])
     @ (case ts_routing_key r of None \<Rightarrow> [] | Some s \<Rightarrow> [(asc ''routing_key'', Opt_text s)])
     @ (case (ts_expire_seconds r, ts_expire_time r) of
          (Some n, _) \<Rightarrow> [(asc ''expires'', Opt_seconds n)]
        | (None, Some t) \<Rightarrow> [(asc ''expires'', Opt_time t)]
        | (None, None) \<Rightarrow> [])
     @ [(asc ''periodic_task_name'', Opt_text (ts_name r))]"

text \<open>
  \<open>ModelEntry(model)\<close> with whether the row is to be disabled: its schedule is unusable, or its arguments are
  no JSON; then what was not assigned keeps the defaults of \<open>ScheduleEntry\<close>. A value that \<open>json.loads\<close> does not
  take is not caught.
\<close>

definition entry_args :: "beat_deps \<Rightarrow> task_row \<Rightarrow> (ustr option \<times> ustr option \<times> bool) res" where
  "entry_args D r =
     (case loads D (ts_args r) of
        Inl (ValueError _) \<Rightarrow> Inr (None, None, True)
      | Inl e \<Rightarrow> Inl e
      | Inr a \<Rightarrow>
          (case loads D (ts_kwargs r) of
             Inl (ValueError _) \<Rightarrow> Inr (a, None, True)
           | Inl e \<Rightarrow> Inl e
           | Inr k \<Rightarrow> Inr (a, k, False)))"

definition with_last_run :: "int \<Rightarrow> task_row \<Rightarrow> task_row" where
  "with_last_run now r =
     (case ts_last_run_time r of
        Some _ \<Rightarrow> r
      | None \<Rightarrow> r\<lparr>ts_last_run_time := Some (case ts_start_time r of None \<Rightarrow> now | Some t \<Rightarrow> t - 31536000000)\<rparr>)"

definition model_entry :: "beat_deps \<Rightarrow> int \<Rightarrow> bool \<Rightarrow> task_row \<Rightarrow> (entry \<times> bool) res" where
  "model_entry D now no_changes r =
     rbind (entry_args D r) (\<lambda>(a, k, bad).
       let r' = with_last_run now r
       in Inr (\<lparr>en_model = r', en_no_changes = no_changes, en_schedule = schedule_of D r, en_args = a, en_kwargs = k,
                en_options = options_of r, en_last_run_at = the (ts_last_run_time r')\<rparr>,
              bad \<or> schedule_of D r = None))"

text \<open>\<open>save\<close>: the row keeps everything but the run state and the other \<open>fields\<close>, here only \<open>enabled\<close>.\<close>

definition entry_save :: "beat_deps \<Rightarrow> int \<Rightarrow> bool \<Rightarrow> entry \<Rightarrow> beat \<Rightarrow> beat" where
  "entry_save D now with_enabled en w =
     (let m = en_model en in
      case live_row (ts_id m) (be_rows w) of
        None \<Rightarrow> w
      | Some task \<Rightarrow>
          let task1 = task\<lparr>ts_last_run_time := ts_last_run_time m, ts_total_run_count := ts_total_run_count m\<rparr>;
              task2 = (if with_enabled then task1\<lparr>ts_enabled := ts_enabled m\<rparr> else task1)
          in w\<lparr>be_rows := write_row task2 (be_rows w), be_redis := changed D now (en_no_changes en) (be_redis w)\<rparr>)"

text \<open>\<open>_disable\<close>, when its coroutine runs: the row and the entry that share the object.\<close>

definition run_disable :: "beat_deps \<Rightarrow> int \<Rightarrow> beat \<Rightarrow> beat" where
  "run_disable D now w =
     (case be_disabling w of
        [] \<Rightarrow> w
      | pk # pks \<Rightarrow>
          w\<lparr>be_disabling := pks,
            be_schedule := map (\<lambda>(n, en). (n, if ts_id (en_model en) = pk
              then en\<lparr>en_model := (en_model en)\<lparr>ts_enabled := False\<rparr>, en_no_changes := True\<rparr> else en)) (be_schedule w),
            be_rows := (case live_row pk (be_rows w) of None \<Rightarrow> be_rows w
                        | Some r \<Rightarrow> write_row (r\<lparr>ts_enabled := False\<rparr>) (be_rows w))\<rparr>)"

definition set_entry :: "ustr \<Rightarrow> entry \<Rightarrow> beat \<Rightarrow> beat" where
  "set_entry name en w = w\<lparr>be_schedule := AList.update name en (be_schedule w)\<rparr>"

text \<open>
  \<open>is_due\<close>: whether to run, and the seconds until the next check. A task that is to run once is disabled at
  the check after its run.
\<close>

definition due_now :: "beat_deps \<Rightarrow> int \<Rightarrow> ustr \<Rightarrow> entry \<Rightarrow> beat \<Rightarrow> beat \<times> (bool \<times> int) res" where
  "due_now D now name en w =
     (let m = en_model en in
      if ts_one_off m \<and> ts_enabled m \<and> 0 < ts_total_run_count m
      then let en' = en\<lparr>en_model := m\<lparr>ts_enabled := False, ts_total_run_count := 0\<rparr>, en_no_changes := False\<rparr>
           in (entry_save D now True en' (set_entry name en' w), Inr (False, 1000000000))
      else case en_schedule en of
             None \<Rightarrow> (w, Inl (OtherError (asc ''AttributeError'')))
           | Some s \<Rightarrow> (w, Inr (bd_due D s (en_last_run_at en) now)))"

definition is_due :: "beat_deps \<Rightarrow> int \<Rightarrow> ustr \<Rightarrow> entry \<Rightarrow> beat \<Rightarrow> beat \<times> (bool \<times> int) res" where
  "is_due D now name en w =
     (let m = en_model en in
      if \<not> ts_enabled m then (w, Inr (False, 5))
      else case ts_start_time m of
        Some start \<Rightarrow>
          if now < start then (w, Inr (False, - ((now - start) div 1000))) else due_now D now name en w
      | None \<Rightarrow> due_now D now name en w)"

text \<open>
  \<open>reserve\<close> with \<open>__next__\<close>: the run is recorded on the shared row object before the new entry is built; to
  disable a row from here fails, for no event loop is running.
\<close>

definition reserve :: "beat_deps \<Rightarrow> int \<Rightarrow> ustr \<Rightarrow> entry \<Rightarrow> beat \<Rightarrow> beat \<times> unit res" where
  "reserve D now name en w =
     (let m = (en_model en)\<lparr>ts_last_run_time := Some now, ts_total_run_count := ts_total_run_count (en_model en) + 1\<rparr>;
          kept = set_entry name (en\<lparr>en_model := m, en_no_changes := True\<rparr>) w
      in if schedule_of D m = None then (kept, Inl (OtherError (asc ''RuntimeError'')))
         else case model_entry D now True m of
           Inl e \<Rightarrow> (kept, Inl e)
         | Inr (en', bad) \<Rightarrow>
             if bad then (kept, Inl (OtherError (asc ''RuntimeError'')))
             else (set_entry name en' w\<lparr>be_dirty := List.insert (ts_name m) (be_dirty w)\<rparr>, Inr ()))"

section \<open>The scheduler\<close>

definition schedule_changed :: "beat_deps \<Rightarrow> int \<Rightarrow> beat \<Rightarrow> beat \<times> bool" where
  "schedule_changed D now w =
     (case r_get now last_update_key (be_redis w) of
        Some (c # s) \<Rightarrow>
          let ts = bd_from_str D (c # s);
              last = (case be_last_update w of None \<Rightarrow> ts | Some l \<Rightarrow> l)
          in (w\<lparr>be_last_update := Some now\<rparr>, last < ts)
      | _ \<Rightarrow> (w\<lparr>be_redis := update_changed D now (be_redis w)\<rparr>, False))"

text \<open>
  The rows as entries by name, with the rows to disable. Building an entry may fail; the coroutine that was
  started for an unusable schedule then fails too, for the entry has no \<open>model\<close> yet, and disables nothing.
\<close>

fun read_entries ::
  "beat_deps \<Rightarrow> int \<Rightarrow> task_row list \<Rightarrow> (ustr \<times> entry) list \<Rightarrow> int list \<Rightarrow> int list \<times> (ustr \<times> entry) list res" where
  "read_entries D now [] s disabling = (disabling, Inr s)"
| "read_entries D now (r # rs) s disabling =
     (case model_entry D now False r of
        Inl e \<Rightarrow> (disabling, Inl e)
      | Inr (en, bad) \<Rightarrow>
          read_entries D now rs (AList.update (ts_name r) en s) (disabling @ (if bad then [ts_id r] else [])))"

definition get_all_task_schedulers :: "beat_deps \<Rightarrow> int \<Rightarrow> beat \<Rightarrow> int list \<times> (ustr \<times> entry) list res" where
  "get_all_task_schedulers D now w =
     read_entries D now (filter (\<lambda>r. ts_enabled r \<and> ts_deleted r = 0) (be_rows w)) [] []"

definition refetch :: "beat_deps \<Rightarrow> int \<Rightarrow> bool \<Rightarrow> beat \<Rightarrow> beat \<times> exc option" where
  "refetch D now initial w =
     (case get_all_task_schedulers D now w of
        (pks, Inl e) \<Rightarrow> (w\<lparr>be_disabling := be_disabling w @ pks\<rparr>, Some e)
      | (pks, Inr s) \<Rightarrow>
          (w\<lparr>be_disabling := be_disabling w @ pks, be_schedule := s,
             be_heap_invalidated := (\<not> initial \<or> be_heap_invalidated w)\<rparr>, None))"

text \<open>The property \<open>schedule\<close>; \<open>sync\<close> is the call inside it.\<close>

definition schedule_with ::
  "beat_deps \<Rightarrow> int \<Rightarrow> (beat \<Rightarrow> beat \<times> exc option) \<Rightarrow> beat \<Rightarrow> beat \<times> exc option" where
  "schedule_with D now sync w =
     (case (if be_initial_read w then (w\<lparr>be_initial_read := False\<rparr>, True) else schedule_changed D now w) of
        (w1, update) \<Rightarrow>
          if update
          then (case sync w1 of
                  (w2, Some e) \<Rightarrow> (w2, Some e)
                | (w2, None) \<Rightarrow> refetch D now (be_initial_read w) w2)
          else (w1, None))"

text \<open>
  \<open>sync\<close>: names are popped, and every access to \<open>schedule\<close> may read the table again, with a \<open>sync\<close> of its own.
  The names that were not found are put back at the end. Each level pops one, so as many levels as names
  are enough.
\<close>

definition put_back :: "ustr list \<Rightarrow> beat \<Rightarrow> beat" where
  "put_back failed w = w\<lparr>be_dirty := List.union failed (be_dirty w)\<rparr>"

fun sync_loop :: "beat_deps \<Rightarrow> int \<Rightarrow> nat \<Rightarrow> ustr list \<Rightarrow> beat \<Rightarrow> beat \<times> exc option" where
  "sync_loop D now 0 failed w = (put_back failed w, None)"
| "sync_loop D now (Suc n) failed w =
     (case be_dirty w of
        [] \<Rightarrow> (put_back failed w, None)
      | name # names \<Rightarrow>
          (case schedule_with D now (sync_loop D now n []) (w\<lparr>be_dirty := names\<rparr>) of
             (w1, Some e) \<Rightarrow> (put_back failed w1, Some e)
           | (w1, None) \<Rightarrow>
               (case map_of (be_schedule w1) name of
                  None \<Rightarrow> sync_loop D now n (List.insert name failed) w1
                | Some en \<Rightarrow> sync_loop D now n failed (entry_save D now False en w1))))"

definition sync :: "beat_deps \<Rightarrow> int \<Rightarrow> beat \<Rightarrow> beat \<times> exc option" where
  "sync D now w = sync_loop D now (length (be_dirty w)) [] w"

definition schedule_prop :: "beat_deps \<Rightarrow> int \<Rightarrow> beat \<Rightarrow> beat \<times> exc option" where
  "schedule_prop D now w = schedule_with D now (sync D now) w"

definition schedules_equal :: "(beat \<Rightarrow> bool) \<Rightarrow> beat \<Rightarrow> beat \<times> bool" where
  "schedules_equal base w =
     (if be_heap_invalidated w then (w\<lparr>be_heap_invalidated := False\<rparr>, False) else (w, base w))"

text \<open>
  What \<open>Scheduler.tick\<close> does with the entry at the top of its heap: a due entry is reserved and then sent.
\<close>

definition run_entry :: "beat_deps \<Rightarrow> int \<Rightarrow> ustr \<Rightarrow> beat \<Rightarrow> beat" where
  "run_entry D now name w =
     (case map_of (be_schedule w) name of
        None \<Rightarrow> w
      | Some en \<Rightarrow>
          (case is_due D now name en w of
             (w1, Inr (True, _)) \<Rightarrow>
               (case reserve D now name en w1 of
                  (w2, Inr _) \<Rightarrow> w2\<lparr>be_sent := be_sent w2 @ [name]\<rparr>
                | (w2, Inl _) \<Rightarrow> w2)
           | (w1, _) \<Rightarrow> w1))"

section \<open>Tasks of the configuration\<close>

datatype expires = Exp_seconds int | Exp_delta int | Exp_time int

record local_entry =
  le_task :: ustr
  le_schedule :: sched
  le_args :: "ustr option"
  le_kwargs :: "ustr option"
  le_queue :: "ustr option"
  le_exchange :: "ustr option"
  le_routing_key :: "ustr option"
  le_start_time :: "int option"
  le_expires :: "expires option"
  le_expire_seconds :: "int option"
  le_one_off :: bool

text \<open>\<open>'{minute} {hour} \<dots>'.split(' ')\<close> must have five parts that Celery can parse.\<close>

definition crontab_verify :: "beat_deps \<Rightarrow> ustr \<Rightarrow> unit res" where
  "crontab_verify D crontab =
     (if length (split_on 32 crontab) \<noteq> 5 \<or> \<not> bd_crontab_ok D crontab
      then Inl (RequestError 400 msg_crontab) else Inr ())"

definition new_scheduler :: "ustr \<Rightarrow> ustr \<Rightarrow> scheduler_type \<Rightarrow> task_row" where
  "new_scheduler name task type =
     \<lparr>ts_id = 0, ts_name = name, ts_task = task, ts_args = None, ts_kwargs = None, ts_queue = None, ts_exchange = None,
      ts_routing_key = None, ts_start_time = None, ts_expire_time = None, ts_expire_seconds = None, ts_type = type,
      ts_interval_every = None, ts_interval_period = None, ts_crontab = Some (asc ''* * * * *''), ts_one_off = False,
      ts_enabled = True, ts_total_run_count = 0, ts_last_run_time = None, ts_remark = None, ts_deleted = 0\<rparr>"

text \<open>
  \<open>to_model_schedule\<close>: the row with this very schedule, or a new one. An interval of a fraction of a second is
  no \<open>int\<close>.
\<close>

definition to_model_schedule ::
  "beat_deps \<Rightarrow> ustr \<Rightarrow> ustr \<Rightarrow> sched \<Rightarrow> task_row list \<Rightarrow> task_row res" where
  "to_model_schedule D name task schedule rows =
     (case schedule of
        Every us \<Rightarrow>
          let every = max us 0; obj = find (\<lambda>r. ts_name r = name \<and> ts_type r = INTERVAL
                \<and> map_option (\<lambda>n. n * 1000000) (ts_interval_every r) = Some every
                \<and> ts_interval_period r = Some SECONDS \<and> ts_deleted r = 0) rows
          in (case obj of
                Some r \<Rightarrow> Inr r
              | None \<Rightarrow> if every mod 1000000 \<noteq> 0 then Inl (OtherError (asc ''ValidationError''))
                        else Inr ((new_scheduler name task INTERVAL)\<lparr>ts_interval_every := Some (every div 1000000),
                                                                      ts_interval_period := Some SECONDS\<rparr>))
      | Cron c \<Rightarrow>
          rbind (crontab_verify D c) (\<lambda>_.
            case find (\<lambda>r. ts_name r = name \<and> ts_type r = CRONTAB \<and> ts_crontab r = Some c \<and> ts_deleted r = 0) rows of
              Some r \<Rightarrow> Inr r
            | None \<Rightarrow> Inr ((new_scheduler name task CRONTAB)\<lparr>ts_crontab := Some c\<rparr>)))"

text \<open>\<open>_unpack_fields\<close> with \<open>_unpack_options\<close>; an empty time or number of seconds counts as none.\<close>

definition unpack_options :: "int \<Rightarrow> local_entry \<Rightarrow> task_row \<Rightarrow> task_row" where
  "unpack_options now le r =
     (let r1 = r\<lparr>ts_queue := le_queue le, ts_exchange := le_exchange le, ts_routing_key := le_routing_key le,
               ts_start_time := le_start_time le, ts_expire_time := None, ts_expire_seconds := le_expire_seconds le,
               ts_one_off := le_one_off le\<rparr>
      in case le_expires le of
           None \<Rightarrow> r1
         | Some (Exp_seconds n) \<Rightarrow> if n = 0 then r1 else r1\<lparr>ts_expire_seconds := Some n\<rparr>
         | Some (Exp_delta d) \<Rightarrow> if d = 0 then r1 else r1\<lparr>ts_expire_time := Some (now + d)\<rparr>
         | Some (Exp_time t) \<Rightarrow> r1\<lparr>ts_expire_time := Some t\<rparr>)"

definition unpack_fields ::
  "beat_deps \<Rightarrow> int \<Rightarrow> ustr \<Rightarrow> local_entry \<Rightarrow> task_row list \<Rightarrow> task_row res" where
  "unpack_fields D now name le rows =
     rmap (\<lambda>r. unpack_options now le
         (r\<lparr>ts_args := map_option J_text (le_args le), ts_kwargs := map_option J_text (le_kwargs le)\<rparr>))
       (to_model_schedule D name (le_task le) (le_schedule le) rows)"

text \<open>
  \<open>from_entry\<close>: the row is inserted or overwritten, the entry built and the transaction committed; the time of
  the last run that the entry sets is part of it, and every write signals a change.
\<close>

definition from_entry ::
  "beat_deps \<Rightarrow> int \<Rightarrow> ustr \<Rightarrow> local_entry \<Rightarrow> beat \<Rightarrow> beat \<times> entry res" where
  "from_entry D now name le w =
     (case rbind (unpack_fields D now name le (be_rows w)) (\<lambda>temp.
          let task = (case find (\<lambda>r. ts_name r = name \<and> ts_deleted r = 0) (be_rows w) of
                        None \<Rightarrow> temp\<lparr>ts_id := fresh_id (map ts_id (be_rows w)), ts_deleted := 0\<rparr>
                      | Some old \<Rightarrow> temp\<lparr>ts_id := ts_id old, ts_deleted := 0\<rparr>)
          in rbind (model_entry D now False task) (\<lambda>(en, bad). rmap (\<lambda>r. (r, en, bad)) (flush_row (en_model en)))) of
        Inl e \<Rightarrow> (w, Inl e)
      | Inr (r, en, bad) \<Rightarrow>
          (w\<lparr>be_rows := (if ts_id r \<in> ts_id ` set (be_rows w) then write_row r (be_rows w) else be_rows w @ [r]),
             be_redis := update_changed D now (be_redis w),
             be_disabling := be_disabling w @ (if bad then [ts_id r] else [])\<rparr>, Inr en))"

fun local_entries ::
  "beat_deps \<Rightarrow> int \<Rightarrow> (ustr \<times> local_entry) list \<Rightarrow> (ustr \<times> entry) list \<Rightarrow> beat \<Rightarrow> beat \<times> (ustr \<times> entry) list res" where
  "local_entries D now [] s w = (w, Inr s)"
| "local_entries D now ((name, le) # les) s w =
     (case from_entry D now name le w of
        (w1, Inl e) \<Rightarrow> (w1, Inl e)
      | (w1, Inr en) \<Rightarrow>
          local_entries D now les (if ts_enabled (en_model en) then AList.update name en s else s) w1)"

definition update_from_dict :: "beat_deps \<Rightarrow> int \<Rightarrow> (ustr \<times> local_entry) list \<Rightarrow> beat \<Rightarrow> beat \<times> exc option" where
  "update_from_dict D now beat_dict w =
     (case local_entries D now beat_dict [] w of
        (w1, Inl e) \<Rightarrow> (w1, Some e)
      | (w1, Inr s) \<Rightarrow>
          (case schedule_prop D now w1 of
             (w2, Some e) \<Rightarrow> (w2, Some e)
           | (w2, None) \<Rightarrow> (w2\<lparr>be_schedule := AList.updates (map fst s) (map snd s) (be_schedule w2)\<rparr>, None)))"

text \<open>\<open>setup_schedule\<close>; \<open>defaults\<close> are the entries of \<open>install_default_entries\<close>.\<close>

definition setup_schedule ::
  "beat_deps \<Rightarrow> int \<Rightarrow> (ustr \<times> local_entry) list \<Rightarrow> (ustr \<times> local_entry) list \<Rightarrow> beat \<Rightarrow> beat \<times> exc option" where
  "setup_schedule D now defaults beat_schedule w =
     (case schedule_prop D now w of
        (w1, Some e) \<Rightarrow> (w1, Some e)
      | (w1, None) \<Rightarrow>
          (case update_from_dict D now defaults w1 of
             (w2, Some e) \<Rightarrow> (w2, Some e)
           | (w2, None) \<Rightarrow> update_from_dict D now beat_schedule w2))"

definition plain_entry :: "ustr \<Rightarrow> sched \<Rightarrow> local_entry" where
  "plain_entry task schedule =
     \<lparr>le_task = task, le_schedule = schedule, le_args = None, le_kwargs = None, le_queue = None, le_exchange = None,
      le_routing_key = None, le_start_time = None, le_expires = None, le_expire_seconds = None, le_one_off = False\<rparr>"

definition get_local_beat_schedule :: "int \<Rightarrow> int \<Rightarrow> (ustr \<times> local_entry) list" where
  "get_local_beat_schedule RAG_OUTBOX_DISPATCH_INTERVAL_SECONDS RAG_REPAIR_INTERVAL_SECONDS =
     [(txt_beat_outbox, plain_entry (asc ''rag_dispatch_outbox'') (Every (RAG_OUTBOX_DISPATCH_INTERVAL_SECONDS * 1000000))),
      (txt_beat_repair, plain_entry (asc ''rag_repair_stuck_document'') (Every (RAG_REPAIR_INTERVAL_SECONDS * 1000000))),
      (txt_beat_opera, plain_entry (asc ''backend.app.task.tasks.db_log.tasks.delete_db_opera_log'') (Cron (asc ''0 0 * * 6''))),
      (txt_beat_login, plain_entry (asc ''backend.app.task.tasks.db_log.tasks.delete_db_login_log'') (Cron (asc ''0 0 15 * *'')))]"

section \<open>The service\<close>

text \<open>The outer \<open>None\<close> is a field that was not sent.\<close>

record scheduler_param =
  sp_name :: ustr
  sp_task :: ustr
  sp_args :: "json option option"
  sp_kwargs :: "json option option"
  sp_queue :: "ustr option option"
  sp_exchange :: "ustr option option"
  sp_routing_key :: "ustr option option"
  sp_start_time :: "int option option"
  sp_expire_time :: "int option option"
  sp_expire_seconds :: "int option option"
  sp_type :: scheduler_type
  sp_interval_every :: "int option option"
  sp_interval_period :: "period_type option option"
  sp_crontab :: "ustr option"
  sp_one_off :: "bool option"
  sp_remark :: "ustr option option"

definition given :: "'a option \<Rightarrow> 'a \<Rightarrow> 'a" where
  "given x d = (case x of None \<Rightarrow> d | Some v \<Rightarrow> v)"

text \<open>\<open>setattr\<close> for every field that was sent; a new row starts from the defaults.\<close>

definition set_fields :: "scheduler_param \<Rightarrow> task_row \<Rightarrow> task_row" where
  "set_fields obj r =
     r\<lparr>ts_name := sp_name obj, ts_task := sp_task obj, ts_args := given (sp_args obj) (ts_args r),
       ts_kwargs := given (sp_kwargs obj) (ts_kwargs r), ts_queue := given (sp_queue obj) (ts_queue r),
       ts_exchange := given (sp_exchange obj) (ts_exchange r), ts_routing_key := given (sp_routing_key obj) (ts_routing_key r),
       ts_start_time := given (sp_start_time obj) (ts_start_time r),
       ts_expire_time := given (sp_expire_time obj) (ts_expire_time r),
       ts_expire_seconds := given (sp_expire_seconds obj) (ts_expire_seconds r), ts_type := sp_type obj,
       ts_interval_every := given (sp_interval_every obj) (ts_interval_every r),
       ts_interval_period := given (sp_interval_period obj) (ts_interval_period r),
       ts_crontab := given (map_option Some (sp_crontab obj)) (ts_crontab r), ts_one_off := given (sp_one_off obj) (ts_one_off r),
       ts_remark := given (sp_remark obj) (ts_remark r)\<rparr>"

definition get_by_name :: "ustr \<Rightarrow> task_row list \<Rightarrow> task_row option" where
  "get_by_name name rows = find (\<lambda>r. ts_name r = name \<and> ts_deleted r = 0) rows"

definition verify_type :: "beat_deps \<Rightarrow> scheduler_param \<Rightarrow> unit res" where
  "verify_type D obj =
     (if sp_type obj = CRONTAB then crontab_verify D (given (sp_crontab obj) (asc ''* * * * *'')) else Inr ())"

text \<open>
  The operations on the rows. The listeners run with the flush, so a row that they refuse rolls back the
  request.
\<close>

definition scheduler_get :: "int \<Rightarrow> task_row list \<Rightarrow> task_row res" where
  "scheduler_get pk rows =
     (case live_row pk rows of None \<Rightarrow> Inl (NotFoundError msg_scheduler_missing) | Some r \<Rightarrow> Inr r)"

definition scheduler_create :: "beat_deps \<Rightarrow> scheduler_param \<Rightarrow> task_row list \<Rightarrow> task_row list res" where
  "scheduler_create D obj rows =
     (if get_by_name (sp_name obj) rows \<noteq> None then Inl (ConflictError msg_scheduler_exists)
      else rbind (verify_type D obj) (\<lambda>_.
        rmap (\<lambda>r. rows @ [r])
          (flush_row ((set_fields obj (new_scheduler (sp_name obj) (sp_task obj) (sp_type obj)))
             \<lparr>ts_id := fresh_id (map ts_id rows)\<rparr>))))"

definition scheduler_update :: "beat_deps \<Rightarrow> int \<Rightarrow> scheduler_param \<Rightarrow> task_row list \<Rightarrow> task_row list res" where
  "scheduler_update D pk obj rows =
     rbind (scheduler_get pk rows) (\<lambda>r.
       if ts_name r \<noteq> sp_name obj \<and> get_by_name (sp_name obj) rows \<noteq> None then Inl (ConflictError msg_scheduler_exists)
       else rbind (verify_type D obj) (\<lambda>_. rmap (\<lambda>r'. write_row r' rows) (flush_row (set_fields obj r))))"

definition scheduler_update_status :: "int \<Rightarrow> task_row list \<Rightarrow> task_row list res" where
  "scheduler_update_status pk rows =
     rbind (scheduler_get pk rows) (\<lambda>r. rmap (\<lambda>r'. write_row r' rows) (flush_row (r\<lparr>ts_enabled := \<not> ts_enabled r\<rparr>)))"

text \<open>A logical deletion is one \<open>UPDATE\<close> statement; no listener of the rows runs.\<close>

definition scheduler_delete :: "int \<Rightarrow> task_row list \<Rightarrow> task_row list res" where
  "scheduler_delete pk rows =
     rmap (\<lambda>_. map (\<lambda>r. if ts_id r = pk \<and> ts_deleted r = 0 then r\<lparr>ts_deleted := ts_id r\<rparr> else r) rows) (scheduler_get pk rows)"

text \<open>\<open>execute\<close>: what is sent at once.\<close>

definition scheduler_execute ::
  "beat_deps \<Rightarrow> bool \<Rightarrow> int \<Rightarrow> task_row list \<Rightarrow> (ustr \<times> ustr option \<times> ustr option) res" where
  "scheduler_execute D workers pk rows =
     (if \<not> workers then Inl (ServerError msg_no_worker)
      else rbind (scheduler_get pk rows) (\<lambda>r.
        case rbind (loads D (ts_args r)) (\<lambda>a. rmap (Pair a) (loads D (ts_kwargs r))) of
          Inl _ \<Rightarrow> Inl (RequestError 400 msg_task_args)
        | Inr (a, k) \<Rightarrow> Inr (ts_task r, a, k)))"

datatype scheduler_request =
  Create scheduler_param | Update int scheduler_param | Update_status int | Delete_task int

text \<open>
  A request with its commit. \<open>after_insert\<close> and \<open>after_update\<close> store the time of the change; the rows are
  written anyway or not at all.
\<close>

definition scheduler_request :: "beat_deps \<Rightarrow> int \<Rightarrow> scheduler_request \<Rightarrow> beat \<Rightarrow> beat \<times> unit res" where
  "scheduler_request D now q w =
     (case (case q of
              Create obj \<Rightarrow> scheduler_create D obj (be_rows w)
            | Update pk obj \<Rightarrow> scheduler_update D pk obj (be_rows w)
            | Update_status pk \<Rightarrow> scheduler_update_status pk (be_rows w)
            | Delete_task pk \<Rightarrow> scheduler_delete pk (be_rows w)) of
        Inl e \<Rightarrow> (w, Inl e)
      | Inr rows \<Rightarrow>
          (w\<lparr>be_rows := rows,
             be_redis := (case q of Delete_task _ \<Rightarrow> be_redis w | _ \<Rightarrow> changed D now False (be_redis w))\<rparr>, Inr ()))"

section \<open>Runs\<close>

text \<open>The calls of Celery and the requests of administrators, in any order.\<close>

datatype beat_act =
  Read_schedule | Run_entry ustr | Sync_states | Run_disable
| Setup "(ustr \<times> local_entry) list" "(ustr \<times> local_entry) list" | Request scheduler_request

definition beat_act :: "beat_deps \<Rightarrow> int \<Rightarrow> beat_act \<Rightarrow> beat \<Rightarrow> beat" where
  "beat_act D now a w =
     (case a of
        Read_schedule \<Rightarrow> fst (schedule_prop D now w)
      | Run_entry name \<Rightarrow> run_entry D now name w
      | Sync_states \<Rightarrow> fst (sync D now w)
      | Run_disable \<Rightarrow> run_disable D now w
      | Setup defaults beat_schedule \<Rightarrow> fst (setup_schedule D now defaults beat_schedule w)
      | Request q \<Rightarrow> fst (scheduler_request D now q w))"

definition new_beat :: "task_row list \<Rightarrow> redis \<Rightarrow> beat" where
  "new_beat rows st =
     \<lparr>be_rows = rows, be_redis = st, be_schedule = [], be_last_update = None, be_initial_read = True,
      be_heap_invalidated = False, be_dirty = [], be_disabling = [], be_sent = []\<rparr>"

fun beat_run :: "beat_deps \<Rightarrow> (int \<times> beat_act) list \<Rightarrow> beat \<Rightarrow> beat" where
  "beat_run D [] w = w"
| "beat_run D ((now, a) # as) w = beat_run D as (beat_act D now a w)"

end
