(* ===== verification/BeatProps.thy ===== *)
theory BeatProps
  imports Beat UniqueRows
begin

text \<open>
  What the scheduler keeps of its table, which changes it notices, and how often it sends a task that is to
  run once.
\<close>

section \<open>The table\<close>

definition expiry_ok :: "task_row \<Rightarrow> bool" where
  "expiry_ok r \<longleftrightarrow> ts_expire_seconds r = None \<or> ts_expire_time r = None"

definition table_ok :: "task_row list \<Rightarrow> bool" where
  "table_ok rows \<longleftrightarrow> unique_live ts_id ts_deleted ts_name rows \<and> list_all expiry_ok rows"

lemma live_row_SomeD:
  assumes "live_row pk rows = Some r"
  shows "r \<in> set rows" "ts_id r = pk" "ts_deleted r = 0"
  using assms by (auto simp: live_row_def find_Some_iff)

text \<open>A write of a row that exists, under a name no other live row has.\<close>

lemma table_ok_write:
  assumes "table_ok rows" "expiry_ok r'" "r \<in> set rows" "ts_id r' = ts_id r" "ts_deleted r' = ts_deleted r"
    "\<And>s. s \<in> set rows \<Longrightarrow> ts_deleted s = 0 \<Longrightarrow> ts_deleted r = 0 \<Longrightarrow> ts_name s = ts_name r' \<Longrightarrow> ts_id s = ts_id r"
  shows "table_ok (write_row r' rows)"
proof -
  have u: "unique_live ts_id ts_deleted ts_name rows" using assms(1) by (simp add: table_ok_def)
  have same: "x = r" if "x \<in> set rows" "ts_id x = ts_id r" for x
    using unique_liveD(1) [OF u] assms(3) that by (auto simp: distinct_map dest: inj_onD)
  have "unique_live ts_id ts_deleted ts_name (write_row r' rows)"
    unfolding write_row_def
  proof (rule unique_live_map [OF u])
    fix x assume "x \<in> set rows"
    then show "ts_id (if ts_id x = ts_id r' then r' else x) = ts_id x" by simp
    assume "ts_deleted (if ts_id x = ts_id r' then r' else x) = 0"
    then show "ts_deleted x = 0" using same [of x] \<open>x \<in> set rows\<close> assms(4,5) by (auto split: if_splits)
  next
    fix x y
    assume xy: "x \<in> set rows" "y \<in> set rows" "ts_deleted x = 0" "ts_deleted y = 0"
      "ts_name (if ts_id x = ts_id r' then r' else x) = ts_name (if ts_id y = ts_id r' then r' else y)"
    show "ts_id x = ts_id y"
    proof (cases "ts_id x = ts_id r \<or> ts_id y = ts_id r")
      case True
      then show ?thesis using xy same [of x] same [of y] assms(4) assms(6) [of x] assms(6) [of y] by (auto split: if_splits)
    next
      case False
      then have "ts_name x = ts_name y" using xy(5) assms(4) by simp
      then show ?thesis by (rule unique_liveD(3) [OF u xy(1-4)])
    qed
  qed
  moreover have "list_all expiry_ok (write_row r' rows)"
    using assms(1,2) by (auto simp: table_ok_def write_row_def list_all_iff)
  ultimately show ?thesis by (simp add: table_ok_def)
qed

lemma table_ok_same:
  assumes "table_ok rows" "r \<in> set rows" "ts_id r' = ts_id r" "ts_name r' = ts_name r" "ts_deleted r' = ts_deleted r" "expiry_ok r'"
  shows "table_ok (write_row r' rows)"
proof (rule table_ok_write [OF assms(1,6,2,3,5)])
  fix s assume "s \<in> set rows" "ts_deleted s = 0" "ts_deleted r = 0" "ts_name s = ts_name r'"
  then show "ts_id s = ts_id r"
    using unique_liveD(3) [of ts_id ts_deleted ts_name rows s r] assms(1,2,4) by (simp add: table_ok_def)
qed

lemma table_ok_expiry: "table_ok rows \<Longrightarrow> r \<in> set rows \<Longrightarrow> expiry_ok r"
  by (simp add: table_ok_def list_all_iff)

lemma table_ok_insert:
  assumes "table_ok rows" "expiry_ok r'" "find (\<lambda>r. ts_name r = ts_name r' \<and> ts_deleted r = 0) rows = None"
    "ts_id r' = fresh_id (map ts_id rows)"
  shows "table_ok (rows @ [r'])"
proof -
  have "s \<in> set rows \<Longrightarrow> ts_deleted s = 0 \<Longrightarrow> ts_name s \<noteq> ts_name r'" for s using find_eq_NoneD [OF assms(3)] by blast
  then show ?thesis using assms(1,2,4) by (auto simp: table_ok_def intro!: unique_live_insert)
qed

lemma flush_row_InrD: "flush_row r = Inr r' \<Longrightarrow> r' = r \<and> expiry_ok r"
  by (auto simp: flush_row_def before_insert_or_update_def expiry_ok_def split: if_splits)

lemma table_ok_delete:
  assumes "table_ok rows" "scheduler_delete pk rows = Inr rows'"
  shows "table_ok rows'"
proof -
  let ?f = "\<lambda>r. if ts_id r = pk \<and> ts_deleted r = 0 then r\<lparr>ts_deleted := ts_id r\<rparr> else r"
  have "rows' = map ?f rows" using assms(2) by (auto simp: scheduler_delete_def rmap_Inr_iff)
  moreover have "list_all expiry_ok rows'"
  proof -
    have "expiry_ok (?f r) = expiry_ok r" for r by (simp add: expiry_ok_def)
    then have "list_all (expiry_ok \<circ> ?f) rows = list_all expiry_ok rows" unfolding comp_def by presburger
    then show ?thesis using assms(1) \<open>rows' = _\<close> by (simp only: list.pred_map table_ok_def)
  qed
  ultimately show ?thesis
    using assms(1) unique_live_delete [of ts_id ts_deleted ts_name rows "\<lambda>r. r\<lparr>ts_deleted := ts_id r\<rparr>"]
    by (simp add: table_ok_def list_all_iff)
qed

section \<open>Requests\<close>

lemma set_fields_sel [simp]:
  "ts_id (set_fields obj r) = ts_id r" "ts_name (set_fields obj r) = sp_name obj" "ts_deleted (set_fields obj r) = ts_deleted r"
  by (simp_all add: set_fields_def)

lemma scheduler_create_InrD:
  assumes "scheduler_create D obj rows = Inr rows'"
  obtains r where "rows' = rows @ [r]" "expiry_ok r" "ts_name r = sp_name obj" "ts_id r = fresh_id (map ts_id rows)"
    "get_by_name (sp_name obj) rows = None" "ts_deleted r = 0"
  using assms
  by (auto simp: scheduler_create_def res_iffs new_scheduler_def split: if_splits dest!: flush_row_InrD)

lemma scheduler_update_InrD:
  assumes "scheduler_update D pk obj rows = Inr rows'"
  obtains r where "live_row pk rows = Some r" "expiry_ok (set_fields obj r)" "rows' = write_row (set_fields obj r) rows"
    "ts_name r = sp_name obj \<or> get_by_name (sp_name obj) rows = None"
proof -
  obtain r r' where "live_row pk rows = Some r" "flush_row (set_fields obj r) = Inr r'" "rows' = write_row r' rows"
    "\<not> (ts_name r \<noteq> sp_name obj \<and> get_by_name (sp_name obj) rows \<noteq> None)"
    using assms by (auto simp: scheduler_update_def scheduler_get_def res_iffs split: if_splits option.splits)
  then show ?thesis using that flush_row_InrD by blast
qed

lemma scheduler_status_InrD:
  assumes "scheduler_update_status pk rows = Inr rows'"
  obtains r where "live_row pk rows = Some r" "rows' = write_row (r\<lparr>ts_enabled := \<not> ts_enabled r\<rparr>) rows"
proof -
  obtain r r' where "live_row pk rows = Some r" "flush_row (r\<lparr>ts_enabled := \<not> ts_enabled r\<rparr>) = Inr r'" "rows' = write_row r' rows"
    using assms by (auto simp: scheduler_update_status_def scheduler_get_def res_iffs split: option.splits)
  then show ?thesis using that flush_row_InrD by blast
qed

definition request_rows :: "beat_deps \<Rightarrow> scheduler_request \<Rightarrow> task_row list \<Rightarrow> task_row list res" where
  "request_rows D q rows =
     (case q of
        Create obj \<Rightarrow> scheduler_create D obj rows
      | Update pk obj \<Rightarrow> scheduler_update D pk obj rows
      | Update_status pk \<Rightarrow> scheduler_update_status pk rows
      | Delete_task pk \<Rightarrow> scheduler_delete pk rows)"

lemma scheduler_request_rows:
  "scheduler_request D now q w =
     (case request_rows D q (be_rows w) of
        Inl e \<Rightarrow> (w, Inl e)
      | Inr rows \<Rightarrow>
          (w\<lparr>be_rows := rows,
             be_redis := (case q of Delete_task _ \<Rightarrow> be_redis w | _ \<Rightarrow> changed D now False (be_redis w))\<rparr>, Inr ()))"
  by (simp add: scheduler_request_def request_rows_def)

lemma table_ok_request:
  assumes "table_ok rows" "request_rows D q rows = Inr rows'"
  shows "table_ok rows'"
proof (cases q)
  case (Create obj)
  then have "scheduler_create D obj rows = Inr rows'" using assms(2) by (simp add: request_rows_def)
  then show ?thesis
    by (rule scheduler_create_InrD) (auto simp: get_by_name_def intro!: table_ok_insert assms(1))
next
  case (Update pk obj)
  then have "scheduler_update D pk obj rows = Inr rows'" using assms(2) by (simp add: request_rows_def)
  then obtain r where r: "live_row pk rows = Some r" "expiry_ok (set_fields obj r)" "rows' = write_row (set_fields obj r) rows"
    "ts_name r = sp_name obj \<or> get_by_name (sp_name obj) rows = None" by (rule scheduler_update_InrD)
  have "ts_id s = ts_id r" if "s \<in> set rows" "ts_deleted s = 0" "ts_name s = sp_name obj" for s
  proof (cases "ts_name r = sp_name obj")
    case True
    then show ?thesis
      using that assms(1) live_row_SomeD [OF r(1)] unique_liveD(3) [of ts_id ts_deleted ts_name rows s r]
      by (simp add: table_ok_def)
  next
    case False
    then show ?thesis using r(4) find_eq_NoneD [of _ rows s] that by (auto simp: get_by_name_def)
  qed
  then show ?thesis
    unfolding r(3) using live_row_SomeD(1) [OF r(1)] by (intro table_ok_write [OF assms(1) r(2)]) simp_all
next
  case (Update_status pk)
  then have "scheduler_update_status pk rows = Inr rows'" using assms(2) by (simp add: request_rows_def)
  then obtain r where r: "live_row pk rows = Some r" "rows' = write_row (r\<lparr>ts_enabled := \<not> ts_enabled r\<rparr>) rows"
    by (rule scheduler_status_InrD)
  note m = live_row_SomeD(1) [OF r(1)]
  show ?thesis
    unfolding r(2) using table_ok_expiry [OF assms(1) m] by (intro table_ok_same [OF assms(1) m]) (simp_all add: expiry_ok_def)
next
  case (Delete_task pk)
  then show ?thesis using assms table_ok_delete by (simp add: request_rows_def)
qed

section \<open>What the scheduler keeps\<close>

text \<open>
  The contract of a fact about the scheduler: the elementary steps of \<open>schedule\<close> and \<open>sync\<close> keep it. Then their
  recursion does, and every call that is made of them.
\<close>

locale beat_invariant =
  fixes D :: beat_deps and now :: int and P :: "beat \<Rightarrow> bool"
  assumes popped: "\<And>w names. P w \<Longrightarrow> P (w\<lparr>be_dirty := names\<rparr>)"
    and first_read: "\<And>w. P w \<Longrightarrow> P (w\<lparr>be_initial_read := False\<rparr>)"
    and looked: "\<And>w. P w \<Longrightarrow> P (fst (schedule_changed D now w))"
    and fetched: "\<And>w i. P w \<Longrightarrow> P (fst (refetch D now i w))"
    and saved: "\<And>w e name en. P w \<Longrightarrow> (name, en) \<in> set (be_schedule w) \<Longrightarrow> P (entry_save D now e en w)"
begin

lemma schedule_with_keeps:
  assumes "\<And>w. P w \<Longrightarrow> P (fst (s w))" "P w"
  shows "P (fst (schedule_with D now s w))"
  using assms first_read [of w] looked [of w] fetched
  by (auto simp: schedule_with_def split: prod.splits option.splits if_splits) (metis fst_conv)+

lemma sync_loop_keeps: "P w \<Longrightarrow> P (fst (sync_loop D now n failed w))"
proof (induction n arbitrary: failed w)
  case 0
  then show ?case using popped by (simp add: put_back_def)
next
  case (Suc n)
  show ?case
  proof (cases "be_dirty w")
    case Nil
    then show ?thesis using Suc.prems popped by (simp add: put_back_def)
  next
    case (Cons name names)
    obtain w1 e where s: "schedule_with D now (sync_loop D now n []) (w\<lparr>be_dirty := names\<rparr>) = (w1, e)"
      by fastforce
    have w1: "P w1" using schedule_with_keeps [of "sync_loop D now n []" "w\<lparr>be_dirty := names\<rparr>"] Suc.IH popped [OF Suc.prems] s by simp
    then show ?thesis
      using Cons s popped [of w1] Suc.IH saved [OF w1 map_of_SomeD]
      by (auto simp: put_back_def split: option.splits)
  qed
qed

lemma sync_keeps: "P w \<Longrightarrow> P (fst (sync D now w))"
  by (simp add: sync_def sync_loop_keeps)

lemma schedule_prop_keeps: "P w \<Longrightarrow> P (fst (schedule_prop D now w))"
  by (simp add: schedule_prop_def schedule_with_keeps sync_keeps)

end

lemma schedule_changed_frame:
  "be_rows (fst (schedule_changed D now w)) = be_rows w" "be_schedule (fst (schedule_changed D now w)) = be_schedule w"
  "be_dirty (fst (schedule_changed D now w)) = be_dirty w" "be_sent (fst (schedule_changed D now w)) = be_sent w"
  "be_initial_read (fst (schedule_changed D now w)) = be_initial_read w"
  "be_disabling (fst (schedule_changed D now w)) = be_disabling w"
  by (auto simp: schedule_changed_def Let_def split: option.splits list.splits)

lemma refetch_frame:
  "be_rows (fst (refetch D now i w)) = be_rows w" "be_redis (fst (refetch D now i w)) = be_redis w"
  "be_dirty (fst (refetch D now i w)) = be_dirty w" "be_sent (fst (refetch D now i w)) = be_sent w"
  "be_initial_read (fst (refetch D now i w)) = be_initial_read w" "be_last_update (fst (refetch D now i w)) = be_last_update w"
  by (auto simp: refetch_def split: prod.splits sum.splits)

lemma entry_save_frame [simp]:
  "be_schedule (entry_save D now e en w) = be_schedule w" "be_dirty (entry_save D now e en w) = be_dirty w"
  "be_sent (entry_save D now e en w) = be_sent w" "be_initial_read (entry_save D now e en w) = be_initial_read w"
  "be_last_update (entry_save D now e en w) = be_last_update w" "be_disabling (entry_save D now e en w) = be_disabling w"
  by (auto simp: entry_save_def Let_def split: option.splits)

lemma table_ok_save: "table_ok (be_rows w) \<Longrightarrow> table_ok (be_rows (entry_save D now e en w))"
  using live_row_SomeD(1) table_ok_expiry
  by (fastforce simp: entry_save_def Let_def expiry_ok_def split: option.splits intro!: table_ok_same)

interpretation table: beat_invariant D now "\<lambda>w. table_ok (be_rows w)" for D now
  by unfold_locales (simp_all add: schedule_changed_frame refetch_frame table_ok_save)

lemma with_last_run_sel [simp]:
  "ts_id (with_last_run now r) = ts_id r" "ts_name (with_last_run now r) = ts_name r"
  "ts_deleted (with_last_run now r) = ts_deleted r" "ts_one_off (with_last_run now r) = ts_one_off r"
  "ts_enabled (with_last_run now r) = ts_enabled r" "ts_total_run_count (with_last_run now r) = ts_total_run_count r"
  by (auto simp: with_last_run_def split: option.splits)

lemma model_entry_InrD: "model_entry D now c r = Inr (en, bad) \<Longrightarrow> en_model en = with_last_run now r \<and> en_no_changes en = c"
  by (auto simp: model_entry_def res_iffs Let_def)

lemma model_entry_scheduled: "model_entry D now c r = Inr (en, False) \<Longrightarrow> schedule_of D r \<noteq> None"
  by (auto simp: model_entry_def res_iffs Let_def)

lemma run_disable_rows: "table_ok (be_rows w) \<Longrightarrow> table_ok (be_rows (run_disable D now w))"
  using live_row_SomeD(1) table_ok_expiry
  by (fastforce simp: run_disable_def expiry_ok_def split: list.splits option.splits intro!: table_ok_same)

lemma reserve_rows: "reserve D now name en v = (v', r) \<Longrightarrow> be_rows v' = be_rows v"
  by (auto simp: reserve_def Let_def set_entry_def split: sum.splits prod.splits if_splits)

lemma run_entry_cases:
  obtains (none) "run_entry D now name w = w"
  | (idle) en w1 r where "map_of (be_schedule w) name = Some en" "is_due D now name en w = (w1, r)" "\<forall>x. r \<noteq> Inr (True, x)"
      "run_entry D now name w = w1"
  | (failed) en w1 x w2 e where "map_of (be_schedule w) name = Some en" "is_due D now name en w = (w1, Inr (True, x))"
      "reserve D now name en w1 = (w2, Inl e)" "run_entry D now name w = w2"
  | (sent) en w1 x w2 where "map_of (be_schedule w) name = Some en" "is_due D now name en w = (w1, Inr (True, x))"
      "reserve D now name en w1 = (w2, Inr ())" "run_entry D now name w = w2\<lparr>be_sent := be_sent w2 @ [name]\<rparr>"
proof (cases "map_of (be_schedule w) name")
  case None
  then show ?thesis using none by (simp add: run_entry_def)
next
  case (Some en)
  obtain w1 r where d: "is_due D now name en w = (w1, r)" by fastforce
  show ?thesis
  proof (cases "\<exists>x. r = Inr (True, x)")
    case False
    then have "run_entry D now name w = w1" using Some d by (auto simp: run_entry_def split: sum.splits bool.splits)
    then show ?thesis using idle Some d False by blast
  next
    case True
    then obtain x where x: "r = Inr (True, x)" by blast
    obtain w2 q where q: "reserve D now name en w1 = (w2, q)" by fastforce
    show ?thesis
      using Some d x q by (cases q) (auto simp: run_entry_def intro: sent failed)
  qed
qed

lemma run_entry_rows: "table_ok (be_rows w) \<Longrightarrow> table_ok (be_rows (run_entry D now name w))"
proof -
  assume ok: "table_ok (be_rows w)"
  have due: "table_ok (be_rows (fst (due_now D now name en w)))" for en
    using ok table_ok_save [of "set_entry name _ w"] by (auto simp: due_now_def Let_def set_entry_def split: option.splits)
  have "table_ok (be_rows (fst (is_due D now name en w)))" for en
    using ok due by (simp add: is_due_def Let_def split: option.splits)
  then have is_due: "is_due D now name en w = (w1, r) \<Longrightarrow> table_ok (be_rows w1)" for en w1 r by (metis fst_conv)
  show ?thesis
    by (cases rule: run_entry_cases [of D now name w]) (use ok is_due reserve_rows in fastforce)+
qed

lemma unpack_fields_name: "unpack_fields D now name le rows = Inr r \<Longrightarrow> ts_name r = name"
proof -
  assume "unpack_fields D now name le rows = Inr r"
  then obtain x where x: "to_model_schedule D name (le_task le) (le_schedule le) rows = Inr x"
    "r = unpack_options now le (x\<lparr>ts_args := map_option J_text (le_args le), ts_kwargs := map_option J_text (le_kwargs le)\<rparr>)"
    by (auto simp: unpack_fields_def rmap_Inr_iff)
  have "ts_name x = name"
    using x(1) by (auto simp: to_model_schedule_def res_iffs Let_def new_scheduler_def find_Some_iff
        split: sched.splits option.splits if_splits)
  then show ?thesis by (simp add: x(2) unpack_options_def Let_def split: option.split expires.split)
qed

lemma from_entry_cases:
  assumes "from_entry D now name le w = (w', Inr en)"
  obtains r where "be_redis w' = update_changed D now (be_redis w)" "be_schedule w' = be_schedule w"
    "be_last_update w' = be_last_update w" "be_initial_read w' = be_initial_read w" "be_dirty w' = be_dirty w" "be_sent w' = be_sent w"
    "r = en_model en" "ts_name r = name" "ts_deleted r = 0" "expiry_ok r"
    "case find (\<lambda>r. ts_name r = name \<and> ts_deleted r = 0) (be_rows w) of
       None \<Rightarrow> ts_id r = fresh_id (map ts_id (be_rows w)) \<and> be_rows w' = be_rows w @ [r]
     | Some old \<Rightarrow> ts_id r = ts_id old \<and> be_rows w' = write_row r (be_rows w)"
proof -
  obtain temp where temp: "unpack_fields D now name le (be_rows w) = Inr temp"
    using assms by (auto simp: from_entry_def split: sum.splits prod.splits dest!: rbind_Inr_iff [THEN iffD1])
  let ?task = "case find (\<lambda>r. ts_name r = name \<and> ts_deleted r = 0) (be_rows w) of
      None \<Rightarrow> temp\<lparr>ts_id := fresh_id (map ts_id (be_rows w)), ts_deleted := 0\<rparr>
    | Some old \<Rightarrow> temp\<lparr>ts_id := ts_id old, ts_deleted := 0\<rparr>"
  obtain bad where m: "model_entry D now False ?task = Inr (en, bad)" "flush_row (en_model en) = Inr (en_model en)"
    "w' = w\<lparr>be_rows := (if ts_id (en_model en) \<in> ts_id ` set (be_rows w) then write_row (en_model en) (be_rows w)
              else be_rows w @ [en_model en]),
            be_redis := update_changed D now (be_redis w),
            be_disabling := be_disabling w @ (if bad then [ts_id (en_model en)] else [])\<rparr>"
    using assms flush_row_InrD
    by (auto simp: from_entry_def temp Let_def res_iffs split: sum.splits prod.splits)
  note en = model_entry_InrD [OF m(1), THEN conjunct1]
  have name: "ts_name (en_model en) = name" "ts_deleted (en_model en) = 0"
    using unpack_fields_name [OF temp] by (auto simp: en split: option.splits)
  show ?thesis
    using m(3) en name flush_row_InrD [OF m(2)] fresh_id_not_in [of "map ts_id (be_rows w)"]
    by (intro that [of "en_model en"]) (auto split: option.splits dest: find_Some_iff [THEN iffD1])
qed

lemma from_entry_rows:
  assumes "table_ok (be_rows w)"
  shows "table_ok (be_rows (fst (from_entry D now name le w)))"
proof (cases "from_entry D now name le w")
  case (Pair w' x)
  show ?thesis
  proof (cases x)
    case (Inl e)
    then have "w' = w" using Pair by (auto simp: from_entry_def split: sum.splits prod.splits)
    then show ?thesis using assms Pair by simp
  next
    case (Inr en)
    then have "from_entry D now name le w = (w', Inr en)" using Pair by simp
    then show ?thesis
    proof (rule from_entry_cases)
      fix r
      assume r: "ts_name r = name" "ts_deleted r = 0" "expiry_ok r"
        "case find (\<lambda>r. ts_name r = name \<and> ts_deleted r = 0) (be_rows w) of
           None \<Rightarrow> ts_id r = fresh_id (map ts_id (be_rows w)) \<and> be_rows w' = be_rows w @ [r]
         | Some old \<Rightarrow> ts_id r = ts_id old \<and> be_rows w' = write_row r (be_rows w)"
      show ?thesis
      proof (cases "find (\<lambda>r. ts_name r = name \<and> ts_deleted r = 0) (be_rows w)")
        case None
        then show ?thesis using r table_ok_insert [OF assms r(3)] Pair by simp
      next
        case (Some old)
        have old: "old \<in> set (be_rows w)" "ts_name old = name" "ts_deleted old = 0"
          using Some by (auto simp: find_Some_iff)
        then show ?thesis
          using r Some table_ok_same [OF assms old(1), of r] Pair by simp
      qed
    qed
  qed
qed

lemma local_entries_rows: "table_ok (be_rows w) \<Longrightarrow> table_ok (be_rows (fst (local_entries D now les s w)))"
proof (induction les arbitrary: s w)
  case (Cons x les)
  obtain name le where x: "x = (name, le)" by fastforce
  obtain w1 r where f: "from_entry D now name le w = (w1, r)" by fastforce
  then have "table_ok (be_rows w1)" using from_entry_rows [OF Cons.prems, of D now name le] by simp
  then show ?case using Cons.IH by (cases r) (auto simp: x f)
qed simp

lemma update_from_dict_rows: "table_ok (be_rows w) \<Longrightarrow> table_ok (be_rows (fst (update_from_dict D now d w)))"
proof -
  assume ok: "table_ok (be_rows w)"
  obtain w1 r where l: "local_entries D now d [] w = (w1, r)" by fastforce
  obtain w2 e where p: "schedule_prop D now w1 = (w2, e)" by fastforce
  have "table_ok (be_rows w1)" using local_entries_rows [OF ok] l by (metis fst_conv)
  moreover from table.schedule_prop_keeps [OF this] have "table_ok (be_rows w2)" using p by (metis fst_conv)
  ultimately show ?thesis by (cases r) (auto simp: update_from_dict_def l p split: option.splits)
qed

lemma setup_schedule_rows: "table_ok (be_rows w) \<Longrightarrow> table_ok (be_rows (fst (setup_schedule D now a b w)))"
proof -
  assume ok: "table_ok (be_rows w)"
  obtain w1 e1 where s: "schedule_prop D now w = (w1, e1)" by fastforce
  obtain w2 e2 where u: "update_from_dict D now a w1 = (w2, e2)" by fastforce
  have "table_ok (be_rows w1)" using table.schedule_prop_keeps [OF ok] s by (metis fst_conv)
  moreover from this have "table_ok (be_rows w2)" using update_from_dict_rows u by (metis fst_conv)
  ultimately show ?thesis
    using update_from_dict_rows [of w2 D now b] by (auto simp: setup_schedule_def s u split: option.splits)
qed

lemma beat_act_rows: "table_ok (be_rows w) \<Longrightarrow> table_ok (be_rows (beat_act D now a w))"
proof (cases a)
  case (Request q)
  assume "table_ok (be_rows w)"
  then show ?thesis
    using table_ok_request [of "be_rows w" D q]
    by (auto simp: beat_act_def Request scheduler_request_rows split: sum.splits)
qed (simp_all add: beat_act_def table.schedule_prop_keeps table.sync_keeps run_entry_rows run_disable_rows setup_schedule_rows)

lemma beat_run_rows: "table_ok (be_rows w) \<Longrightarrow> table_ok (be_rows (beat_run D acts w))"
  by (induction D acts w rule: beat_run.induct) (auto simp: beat_act_rows)

text \<open>Whatever Celery and the administrators do, in any order, ids stay unique, no two live tasks have the same name, and
no task has both kinds of expiry.\<close>

theorem scheduler_table_kept:
  assumes "table_ok (be_rows w)"
  shows "table_ok (be_rows (beat_run D acts w))"
  using assms by (rule beat_run_rows)

section \<open>Time\<close>

text \<open>
  The text of a time has no fractions of a second, so reading it back gives the start of its second
  (\<open>DATETIME_FORMAT\<close>).
\<close>

definition second_texts :: "beat_deps \<Rightarrow> bool" where
  "second_texts D \<longleftrightarrow> (\<forall>t. bd_to_str D t \<noteq> [] \<and> bd_from_str D (bd_to_str D t) = t - t mod 1000)"

text \<open>The stored time of the last change is not in the future; there is none only before the first access.\<close>

definition clock_ok :: "beat_deps \<Rightarrow> int \<Rightarrow> beat \<Rightarrow> bool" where
  "clock_ok D now w \<longleftrightarrow>
     (case map_of (be_redis w) last_update_key of
        None \<Rightarrow> be_last_update w = None
      | Some (s, e) \<Rightarrow> e = None \<and> s \<noteq> [] \<and> bd_from_str D s \<le> now)"

text \<open>The next access will not read the table again.\<close>

definition seen :: "beat_deps \<Rightarrow> beat \<Rightarrow> bool" where
  "seen D w \<longleftrightarrow> \<not> be_initial_read w
     \<and> (case (map_of (be_redis w) last_update_key, be_last_update w) of
          (Some (s, _), Some l) \<Rightarrow> bd_from_str D s \<le> l | _ \<Rightarrow> True)"

lemma stored_update [simp]: "map_of (update_changed D now st) last_update_key = Some (bd_to_str D now, None)"
  by (simp add: update_changed_def r_set_def update_conv')

lemma stored_get:
  assumes "clock_ok D now w"
  shows "r_get t last_update_key (be_redis w) = map_option fst (map_of (be_redis w) last_update_key)"
  using assms by (auto simp: clock_ok_def r_get_def alive_def split: option.splits prod.splits)

lemma second_textsD:
  assumes "second_texts D"
  shows "bd_to_str D t \<noteq> []" "bd_from_str D (bd_to_str D t) = t - t mod 1000"
  using assms by (simp_all add: second_texts_def)

lemma clock_ok_update:
  assumes "second_texts D"
  shows "clock_ok D now (w\<lparr>be_redis := update_changed D now (be_redis w)\<rparr>)"
  using second_textsD [OF assms] by (simp add: clock_ok_def)

lemma clock_ok_later: "clock_ok D now w \<Longrightarrow> now \<le> t \<Longrightarrow> clock_ok D t w"
  by (auto simp: clock_ok_def split: option.splits)

lemma schedule_changed_seen:
  assumes "clock_ok D now w" "\<not> be_initial_read w"
  shows "snd (schedule_changed D now w) = (\<not> seen D w)"
  using assms stored_get [OF assms(1), of now]
  by (auto simp: schedule_changed_def clock_ok_def seen_def Let_def split: option.splits list.splits)

text \<open>After an access nothing is left to be noticed.\<close>

lemma schedule_changed_after:
  assumes "second_texts D" "clock_ok D now w"
  shows "clock_ok D now (fst (schedule_changed D now w))"
    "\<not> be_initial_read w \<Longrightarrow> seen D (fst (schedule_changed D now w))"
    "map_of (be_redis w) last_update_key \<noteq> None \<Longrightarrow> be_last_update (fst (schedule_changed D now w)) = Some now"
  using assms(2) stored_get [OF assms(2), of now] second_textsD [OF assms(1)] clock_ok_update [OF assms(1)]
  by (auto simp: schedule_changed_def clock_ok_def seen_def Let_def split: option.splits list.splits)

text \<open>An access that has nothing to notice only moves the time of the last check.\<close>

lemma schedule_with_seen:
  assumes "clock_ok D now w" "seen D w"
  shows "schedule_with D now s w = (fst (schedule_changed D now w), None)"
  using schedule_changed_seen [OF assms(1)] assms(2)
  by (cases "schedule_changed D now w") (auto simp: schedule_with_def seen_def)

definition reads :: "beat_deps \<Rightarrow> int list \<Rightarrow> beat \<Rightarrow> beat" where
  "reads D ts w = foldl (\<lambda>w t. fst (schedule_prop D t w)) w ts"

lemma reads_seen:
  assumes "second_texts D" "clock_ok D now w" "seen D w" "sorted (now # ts)"
  shows "be_schedule (reads D ts w) = be_schedule w \<and> be_sent (reads D ts w) = be_sent w \<and> be_rows (reads D ts w) = be_rows w"
  using assms(2-4)
proof (induction ts arbitrary: now w)
  case (Cons t ts)
  have c: "clock_ok D t w" using Cons.prems by (auto intro: clock_ok_later)
  have s: "schedule_prop D t w = (fst (schedule_changed D t w), None)"
    unfolding schedule_prop_def by (rule schedule_with_seen [OF c Cons.prems(2)])
  have "\<not> be_initial_read w" using Cons.prems(2) by (simp add: seen_def)
  note after = schedule_changed_after(1) [OF assms(1) c] schedule_changed_after(2) [OF assms(1) c this]
  have "reads D (t # ts) w = reads D ts (fst (schedule_changed D t w))" by (simp add: reads_def s)
  then show ?case using Cons.IH [OF after] Cons.prems(3) by (simp add: schedule_changed_frame)
qed (simp add: reads_def)

lemma refetch_schedule:
  "refetch D now i w = (w', None) \<Longrightarrow> snd (get_all_task_schedulers D now w') = Inr (be_schedule w')"
  by (auto simp: refetch_def get_all_task_schedulers_def split: prod.splits sum.splits)

text \<open>A read that notices something ends with the enabled rows of the table.\<close>

lemma schedule_prop_unseen:
  assumes "clock_ok D now w" "\<not> seen D w" "schedule_prop D now w = (w', None)"
  shows "snd (get_all_task_schedulers D now w') = Inr (be_schedule w')"
proof (cases "be_initial_read w")
  case True
  then show ?thesis
    using assms(3) refetch_schedule by (auto simp: schedule_prop_def schedule_with_def split: prod.splits option.splits)
next
  case False
  then have "snd (schedule_changed D now w)" using schedule_changed_seen [OF assms(1)] assms(2) by simp
  then show ?thesis
    using False assms(3) refetch_schedule
    by (auto simp: schedule_prop_def schedule_with_def split: prod.splits option.splits)
qed

lemma request_clock:
  assumes "scheduler_request D t q w = (w1, Inr ())" "second_texts D" "clock_ok D t w"
  shows "clock_ok D t w1" "be_schedule w1 = be_schedule w" "be_sent w1 = be_sent w" "be_last_update w1 = be_last_update w"
    "be_initial_read w1 = be_initial_read w"
    "be_redis w1 = (case q of Delete_task _ \<Rightarrow> be_redis w | _ \<Rightarrow> update_changed D t (be_redis w))"
  using assms clock_ok_update [OF assms(2), of t w]
  by (auto simp: scheduler_request_rows changed_def clock_ok_def split: sum.splits scheduler_request.splits option.splits)

text \<open>C37: After a successful request to create, change or switch a task, the scheduler reads the table at its next access
exactly when its last check was before the second of the change; then it holds the enabled rows. A change within
the second of a check is not noticed: later accesses, however many, keep the old schedule until another
change is made.\<close>

theorem change_noticed:
  assumes "second_texts D" "clock_ok D t w" "seen D w" "be_last_update w = Some c" "scheduler_request D t q w = (w1, Inr ())"
    "\<forall>pk. q \<noteq> Delete_task pk"
  shows "if c < t - t mod 1000
    then \<forall>t1 \<ge> t. \<forall>w2. schedule_prop D t1 w1 = (w2, None) \<longrightarrow> snd (get_all_task_schedulers D t1 w2) = Inr (be_schedule w2)
    else \<forall>ts. sorted (t # ts) \<longrightarrow> be_schedule (reads D ts w1) = be_schedule w"
proof -
  note w1 = request_clock [OF assms(5,1,2)]
  have "be_redis w1 = update_changed D t (be_redis w)" using w1(6) assms(6) by (auto split: scheduler_request.splits)
  then have seen: "seen D w1 \<longleftrightarrow> t - t mod 1000 \<le> c"
    using assms(3,4) w1(4,5) second_textsD [OF assms(1)] by (simp add: seen_def)
  show ?thesis
    using seen schedule_prop_unseen [OF clock_ok_later [OF w1(1)]] reads_seen [OF assms(1) w1(1)] w1(2) by auto
qed

text \<open>C38: A deletion is not noticed: whatever the scheduler reads afterwards, until another change is made, the deleted
task stays in its schedule and is sent when it is due.\<close>

theorem deleted_task_sent:
  assumes "second_texts D" "clock_ok D t w" "seen D w" "scheduler_request D t (Delete_task pk) w = (w1, Inr ())"
    "sorted (t # ts)" "map_of (be_schedule w) name = Some en" "ts_enabled (en_model en)" "\<not> ts_one_off (en_model en)"
    "ts_start_time (en_model en) = None" "model_entry D t0 False (en_model en) = Inr (en', False)"
    "en_schedule en = Some s" "bd_due D s (en_last_run_at en) t1 = (True, next_time)"
  shows "be_sent (run_entry D t1 name (reads D ts w1)) = be_sent w @ [name]"
proof -
  note w1 = request_clock [OF assms(4,1,2)]
  have "seen D w1" using assms(3) w1(4,5,6) by (simp add: seen_def)
  from reads_seen [OF assms(1) w1(1) this assms(5)] w1(2,3)
  have r: "be_schedule (reads D ts w1) = be_schedule w" "be_sent (reads D ts w1) = be_sent w" by simp_all
  let ?m = "(en_model en)\<lparr>ts_last_run_time := Some t1, ts_total_run_count := ts_total_run_count (en_model en) + 1\<rparr>"
  have "ts_args ?m = ts_args (en_model en)" "ts_kwargs ?m = ts_kwargs (en_model en)" by simp_all
  then have same: "entry_args D ?m = entry_args D (en_model en)" "schedule_of D ?m = schedule_of D (en_model en)"
    by (simp_all only: entry_args_def) (simp add: schedule_of_def)
  have "\<exists>en2. model_entry D t1 True ?m = Inr (en2, False)"
    using assms(10) unfolding model_entry_def same by (auto simp: res_iffs Let_def)
  then obtain en2 where "model_entry D t1 True ?m = Inr (en2, False)" "schedule_of D ?m \<noteq> None"
    using model_entry_scheduled by blast
  moreover have "is_due D t1 name en (reads D ts w1) = (reads D ts w1, Inr (True, next_time))"
    using assms(7-9,11,12) by (simp add: is_due_def due_now_def)
  ultimately show ?thesis using assms(6) r by (auto simp: run_entry_def reserve_def set_entry_def Let_def)
qed

section \<open>Arguments that stop the scheduler\<close>

definition is_data :: "json option \<Rightarrow> bool" where
  "is_data j \<longleftrightarrow> (\<exists>x. j = Some (J_data x))"

definition malformed :: "beat_deps \<Rightarrow> json option \<Rightarrow> bool" where
  "malformed D j \<longleftrightarrow> (\<exists>s. j = Some (J_text s) \<and> s \<noteq> [] \<and> \<not> bd_json_ok D s)"

lemma loads_cases:
  "loads D j = (if is_data j then Inl TypeError
     else if malformed D j then Inl (ValueError (case j of Some (J_text s) \<Rightarrow> s | _ \<Rightarrow> []))
     else Inr (case j of Some (J_text s) \<Rightarrow> if s = [] then None else Some s | _ \<Rightarrow> None))"
  by (auto simp: loads_def j_true_def is_data_def malformed_def split: option.split json.split)

lemma entry_args_error:
  "entry_args D r = Inl e \<longleftrightarrow> e = TypeError \<and> (is_data (ts_args r) \<or> is_data (ts_kwargs r) \<and> \<not> malformed D (ts_args r))"
  by (auto simp: entry_args_def loads_cases)

lemma read_entries_error:
  "case snd (read_entries D now rs s d) of
     Inl e \<Rightarrow> e = TypeError \<and> (\<exists>r \<in> set rs. \<exists>e. entry_args D r = Inl e)
   | Inr _ \<Rightarrow> \<forall>r \<in> set rs. \<forall>e. entry_args D r \<noteq> Inl e"
proof (induction rs arbitrary: s d)
  case (Cons r rs)
  show ?case
  proof (cases "entry_args D r")
    case (Inl e)
    then show ?thesis using entry_args_error [of D r e] by (simp add: model_entry_def)
  next
    case (Inr x)
    then obtain en bad where m: "model_entry D now False r = Inr (en, bad)"
      by (cases x) (simp add: model_entry_def Let_def)
    show ?thesis
      using Cons.IH [of "AList.update (ts_name r) en s" "d @ (if bad then [ts_id r] else [])"] Inr
      by (cases "snd (read_entries D now rs (AList.update (ts_name r) en s) (d @ (if bad then [ts_id r] else [])))")
        (auto simp: m)
  qed
qed simp

text \<open>C39: The first read of the table fails, and with a \<open>TypeError\<close>, exactly when some enabled task has arguments that were
stored as JSON data instead of text; malformed text only disables its task.\<close>

theorem data_arguments_stop_reading:
  "snd (schedule_prop D now (new_beat rows st)) =
     (if \<exists>r \<in> set rows. ts_enabled r \<and> ts_deleted r = 0
         \<and> (is_data (ts_args r) \<or> is_data (ts_kwargs r) \<and> \<not> malformed D (ts_args r))
      then Some TypeError else None)"
proof -
  let ?w = "new_beat rows st\<lparr>be_initial_read := False\<rparr>"
  let ?rs = "filter (\<lambda>r. ts_enabled r \<and> ts_deleted r = 0) rows"
  have "snd (schedule_prop D now (new_beat rows st)) = snd (refetch D now True ?w)"
    by (simp add: schedule_prop_def schedule_with_def sync_def new_beat_def put_back_def List.union_def)
  also have "\<dots> = (case snd (read_entries D now ?rs [] []) of Inl e \<Rightarrow> Some e | Inr _ \<Rightarrow> None)"
    by (auto simp: refetch_def get_all_task_schedulers_def new_beat_def split: prod.split sum.split)
  also have "\<dots> = (if \<exists>r \<in> set ?rs. \<exists>e. entry_args D r = Inl e then Some TypeError else None)"
    using read_entries_error [where D = D and now = now and rs = ?rs and s = "[]" and d = "[]"]
    by (cases "snd (read_entries D now ?rs [] [])") auto
  finally show ?thesis by (auto simp: entry_args_error)
qed

section \<open>A concrete scheduler\<close>

definition sample_beat_deps :: beat_deps where
  "sample_beat_deps = \<lparr>bd_to_str = (\<lambda>t. str_int (t div 1000)),
     bd_from_str = (\<lambda>s. case parse_int s of Some n \<Rightarrow> n * 1000 | None \<Rightarrow> 0),
     bd_due = (\<lambda>s last now. (last + 1000 \<le> now, 1)), bd_json_ok = (\<lambda>_. True), bd_crontab_ok = (\<lambda>_. True)\<rparr>"

definition sample_task :: task_row where
  "sample_task = (new_scheduler (asc ''a'') (asc ''t'') INTERVAL)
     \<lparr>ts_id := 1, ts_interval_every := Some 5, ts_interval_period := Some SECONDS\<rparr>"

text \<open>The third access is the first that knows a time of change.\<close>

definition sample_beat :: beat where
  "sample_beat = beat_run sample_beat_deps [(1000, Read_schedule), (2000, Read_schedule), (10200, Read_schedule)]
     (new_beat [sample_task] [])"

lemma sample_second_texts: "second_texts sample_beat_deps"
proof -
  have "parse_int [] = None" by code_simp
  then have "str_int n \<noteq> []" for n using parse_int_str_int [of n] by (metis option.distinct(1))
  then show ?thesis by (simp add: second_texts_def sample_beat_deps_def minus_mod_eq_div_mult parse_int_str_int)
qed

lemma sample_beat_ok:
  "clock_ok sample_beat_deps 10200 sample_beat" "seen sample_beat_deps sample_beat" "be_last_update sample_beat = Some 10200"
  by code_simp+

theorem scheduler_table_kept_witness: "table_ok (be_rows sample_beat)"
proof -
  have "table_ok (be_rows (new_beat [sample_task] []))" by code_simp
  from scheduler_table_kept [OF this] show ?thesis by (simp only: sample_beat_def)
qed

theorem change_noticed_witness:
  "\<exists>w1. scheduler_request sample_beat_deps 10700 (Update_status 1) sample_beat = (w1, Inr ())
     \<and> map (ts_enabled \<circ> en_model \<circ> snd) (be_schedule (reads sample_beat_deps [15000, 20000] w1)) = [True]
     \<and> map ts_enabled (be_rows w1) = [False]"
proof -
  obtain w1 where w1: "scheduler_request sample_beat_deps 10700 (Update_status 1) sample_beat = (w1, Inr ())"
    "map ts_enabled (be_rows w1) = [False]"
  proof -
    have "(case scheduler_request sample_beat_deps 10700 (Update_status 1) sample_beat of (w1, r) \<Rightarrow>
        (r, map ts_enabled (be_rows w1))) = (Inr (), [False])" by code_simp
    then show ?thesis using that by (auto split: prod.splits)
  qed
  have "clock_ok sample_beat_deps 10700 sample_beat" using sample_beat_ok(1) by (rule clock_ok_later) simp
  from change_noticed [OF sample_second_texts this sample_beat_ok(2,3) w1(1)]
  have "\<forall>ts. sorted (10700 # ts) \<longrightarrow> be_schedule (reads sample_beat_deps ts w1) = be_schedule sample_beat" by simp
  then have "be_schedule (reads sample_beat_deps [15000, 20000] w1) = be_schedule sample_beat" by simp
  moreover have "map (ts_enabled \<circ> en_model \<circ> snd) (be_schedule sample_beat) = [True]" by code_simp
  ultimately show ?thesis using w1 by simp
qed

theorem deleted_task_sent_witness:
  "\<exists>w1. scheduler_request sample_beat_deps 12000 (Delete_task 1) sample_beat = (w1, Inr ())
     \<and> be_sent (run_entry sample_beat_deps 25000 (asc ''a'') (reads sample_beat_deps [15000, 20000] w1)) = [asc ''a'']"
proof -
  have "snd (scheduler_request sample_beat_deps 12000 (Delete_task 1) sample_beat) = Inr ()" by code_simp
  then obtain w1 where w1: "scheduler_request sample_beat_deps 12000 (Delete_task 1) sample_beat = (w1, Inr ())"
    by (metis prod.collapse)
  have c: "clock_ok sample_beat_deps 12000 sample_beat" using sample_beat_ok(1) by (rule clock_ok_later) simp
  have "rmap fst (model_entry sample_beat_deps 1000 False sample_task) = Inr (snd (hd (be_schedule sample_beat)))
      \<and> rmap snd (model_entry sample_beat_deps 1000 False (en_model (snd (hd (be_schedule sample_beat))))) = Inr False"
    by code_simp
  then obtain en en' where en: "en = snd (hd (be_schedule sample_beat))"
    "model_entry sample_beat_deps 1000 False (en_model en) = Inr (en', False)" by (auto simp: rmap_Inr_iff)
  have "map_of (be_schedule sample_beat) (asc ''a'') = Some en"
    "ts_enabled (en_model en) \<and> \<not> ts_one_off (en_model en) \<and> ts_start_time (en_model en) = None"
    "en_schedule en = Some (Every 5000000)" "bd_due sample_beat_deps (Every 5000000) (en_last_run_at en) 25000 = (True, 1)"
    "be_sent sample_beat = []"
    unfolding en(1) by code_simp+
  with deleted_task_sent [OF sample_second_texts c sample_beat_ok(2) w1, of "[15000, 20000]" "asc ''a''" en 1000 en'] en(2) w1
  show ?thesis by simp
qed

end
