(* ===== verification/BeatOnce.thy ===== *)
theory BeatOnce
  imports BeatProps
begin

text \<open>
  A task that is to run once: however the calls of Celery and the requests for other tasks interleave, it is
  sent at most once, as long as no \<open>sync\<close> meets a change of the table that was not read yet. If one does, the
  run is forgotten.
\<close>

section \<open>Rows by their live id\<close>

definition map_live :: "int \<Rightarrow> (task_row \<Rightarrow> task_row) \<Rightarrow> task_row list \<Rightarrow> task_row list" where
  "map_live pk f rows = map (\<lambda>r. if ts_id r = pk \<and> ts_deleted r = 0 then f r else r) rows"

lemma set_map_live: "set (map_live pk f rows) = (\<lambda>r. if ts_id r = pk \<and> ts_deleted r = 0 then f r else r) ` set rows"
  by (simp only: map_live_def set_map)

lemma mem_map_live:
  assumes "x \<in> set (map_live pk f rows)"
  obtains r where "r \<in> set rows" "ts_id r = pk" "ts_deleted r = 0" "x = f r"
  | "x \<in> set rows" "\<not> (ts_id x = pk \<and> ts_deleted x = 0)"
proof -
  obtain r where r: "r \<in> set rows" "x = (if ts_id r = pk \<and> ts_deleted r = 0 then f r else r)"
    using assms unfolding set_map_live by (rule imageE)
  show thesis
  proof (cases "ts_id r = pk \<and> ts_deleted r = 0")
    case True
    then show ?thesis using r that(1) by simp
  next
    case False
    have "x = r" by (rule trans [OF r(2) if_not_P [OF False]])
    then show ?thesis using r(1) False that(2) by blast
  qed
qed

lemma map_live_none:
  assumes "live_row pk rows = None"
  shows "map_live pk f rows = rows"
proof -
  have "r \<in> set rows \<Longrightarrow> \<not> (ts_id r = pk \<and> ts_deleted r = 0)" for r
    using assms by (auto simp: live_row_def find_None_iff)
  then show ?thesis unfolding map_live_def by (intro map_idI) auto
qed

lemma write_row_map_live:
  assumes "live_row pk rows = Some r" "distinct (map ts_id rows)" "ts_id (f r) = ts_id r"
  shows "write_row (f r) rows = map_live pk f rows"
proof -
  note r = live_row_SomeD [OF assms(1)]
  have same: "x = r" if "x \<in> set rows" "ts_id x = pk" for x
    using assms(2) that r(1,2) by (auto simp: distinct_map dest: inj_onD)
  have "(if ts_id x = ts_id (f r) then f r else x) = (if ts_id x = pk \<and> ts_deleted x = 0 then f x else x)"
    if "x \<in> set rows" for x
  proof (cases "ts_id x = pk")
    case True
    then have "x = r" by (rule same [OF that])
    then show ?thesis using r assms(3) by simp
  next
    case False
    then show ?thesis using r(2) assms(3) by simp
  qed
  then show ?thesis unfolding write_row_def map_live_def by (intro map_cong refl)
qed

definition saved :: "bool \<Rightarrow> task_row \<Rightarrow> task_row \<Rightarrow> task_row" where
  "saved e m r = (let r' = r\<lparr>ts_last_run_time := ts_last_run_time m, ts_total_run_count := ts_total_run_count m\<rparr>
     in if e then r'\<lparr>ts_enabled := ts_enabled m\<rparr> else r')"

lemma saved_sel [simp]:
  "ts_id (saved e m r) = ts_id r" "ts_name (saved e m r) = ts_name r" "ts_deleted (saved e m r) = ts_deleted r"
  "ts_one_off (saved e m r) = ts_one_off r" "ts_total_run_count (saved e m r) = ts_total_run_count m"
  "ts_enabled (saved e m r) = (if e then ts_enabled m else ts_enabled r)"
  by (simp_all add: saved_def Let_def)

lemma entry_save_rows:
  assumes "distinct (map ts_id (be_rows w))"
  shows "be_rows (entry_save D now e en w) = map_live (ts_id (en_model en)) (saved e (en_model en)) (be_rows w)"
proof (cases "live_row (ts_id (en_model en)) (be_rows w)")
  case None
  then show ?thesis by (simp add: entry_save_def map_live_none)
next
  case (Some r)
  have "be_rows (entry_save D now e en w) = write_row (saved e (en_model en) r) (be_rows w)"
    by (simp add: entry_save_def Some saved_def Let_def)
  then show ?thesis using write_row_map_live [OF Some assms, of "saved e (en_model en)"] by simp
qed

section \<open>What is known of one task\<close>

definition rows_ok :: "int \<Rightarrow> ustr \<Rightarrow> task_row list \<Rightarrow> bool" where
  "rows_ok pk n rows \<longleftrightarrow> distinct (map ts_id rows) \<and> pk \<in> ts_id ` set rows
     \<and> (\<forall>r \<in> set rows. ts_id r = pk \<longrightarrow> ts_name r = n \<and> ts_one_off r \<and> 0 \<le> ts_total_run_count r)
     \<and> (\<forall>r \<in> set rows. ts_deleted r = 0 \<and> ts_name r = n \<longrightarrow> ts_id r = pk)"

definition entry_ok :: "int \<Rightarrow> ustr \<Rightarrow> ustr \<times> entry \<Rightarrow> bool" where
  "entry_ok pk n p \<longleftrightarrow> ts_name (en_model (snd p)) = fst p
     \<and> (fst p = n \<longrightarrow> ts_id (en_model (snd p)) = pk \<and> ts_one_off (en_model (snd p)) \<and> 0 \<le> ts_total_run_count (en_model (snd p)))
     \<and> (fst p \<noteq> n \<longrightarrow> ts_id (en_model (snd p)) \<noteq> pk)"

definition off :: "int \<Rightarrow> task_row list \<Rightarrow> bool" where
  "off pk rows \<longleftrightarrow> (\<forall>r \<in> set rows. ts_id r = pk \<and> ts_deleted r = 0 \<longrightarrow> \<not> ts_enabled r)"

definition counted :: "int \<Rightarrow> task_row list \<Rightarrow> bool" where
  "counted pk rows \<longleftrightarrow> (\<forall>r \<in> set rows. ts_id r = pk \<and> ts_deleted r = 0 \<longrightarrow> 0 < ts_total_run_count r \<or> \<not> ts_enabled r)"

text \<open>The entry of the task will not be sent again, and neither will one that is read from the table.\<close>

definition spent :: "int \<Rightarrow> ustr \<Rightarrow> (ustr \<times> entry) list \<Rightarrow> task_row list \<Rightarrow> bool" where
  "spent pk n s rows \<longleftrightarrow> (\<forall>en. map_of s n = Some en \<longrightarrow>
     0 < ts_total_run_count (en_model en) \<or> \<not> ts_enabled (en_model en) \<and> off pk rows)"

definition once :: "int \<Rightarrow> ustr \<Rightarrow> beat \<Rightarrow> bool" where
  "once pk n w \<longleftrightarrow> spent pk n (be_schedule w) (be_rows w)
     \<and> (counted pk (be_rows w) \<or> n \<in> set (be_dirty w) \<and> map_of (be_schedule w) n \<noteq> None)"

definition base_ok :: "beat_deps \<Rightarrow> int \<Rightarrow> int \<Rightarrow> ustr \<Rightarrow> beat \<Rightarrow> bool" where
  "base_ok D now pk n w \<longleftrightarrow> clock_ok D now w \<and> rows_ok pk n (be_rows w) \<and> (\<forall>p \<in> set (be_schedule w). entry_ok pk n p)
     \<and> (be_initial_read w \<longrightarrow> be_schedule w = [] \<and> be_last_update w = None)"

definition once_ok :: "beat_deps \<Rightarrow> int \<Rightarrow> int \<Rightarrow> ustr \<Rightarrow> beat \<Rightarrow> bool" where
  "once_ok D now pk n w \<longleftrightarrow> base_ok D now pk n w
     \<and> (count_list (be_sent w) n = 0
        \<or> count_list (be_sent w) n = 1 \<and> \<not> be_initial_read w \<and> once pk n w)"

lemma off_counted: "off pk rows \<Longrightarrow> counted pk rows"
  by (auto simp: off_def counted_def)

text \<open>A change of the live row of another id, which may not take the name.\<close>

lemma map_live_other:
  assumes "rows_ok pk n rows" "pk' \<noteq> pk" "\<And>r. ts_id (f r) = ts_id r" "\<And>r. ts_name r \<noteq> n \<Longrightarrow> ts_name (f r) \<noteq> n"
  shows "rows_ok pk n (map_live pk' f rows)" "off pk (map_live pk' f rows) = off pk rows"
    "counted pk (map_live pk' f rows) = counted pk rows"
proof -
  have ids: "map ts_id (map_live pk' f rows) = map ts_id rows" using assms(3) by (simp add: map_live_def)
  have img: "ts_id ` set (map_live pk' f rows) = ts_id ` set rows" using arg_cong [OF ids, of set] by simp
  have mem: "x \<in> set (map_live pk' f rows) \<and> ts_id x = pk \<longleftrightarrow> x \<in> set rows \<and> ts_id x = pk" for x
  proof
    assume "x \<in> set (map_live pk' f rows) \<and> ts_id x = pk"
    then show "x \<in> set rows \<and> ts_id x = pk" using assms(2,3) by (auto elim: mem_map_live)
  next
    assume x: "x \<in> set rows \<and> ts_id x = pk"
    then have "x = (if ts_id x = pk' \<and> ts_deleted x = 0 then f x else x)" using assms(2) by simp
    then show "x \<in> set (map_live pk' f rows) \<and> ts_id x = pk" unfolding set_map_live using x by blast
  qed
  show "off pk (map_live pk' f rows) = off pk rows" "counted pk (map_live pk' f rows) = counted pk rows"
    unfolding off_def counted_def using mem by blast+
  have "ts_id x = pk" if x: "x \<in> set (map_live pk' f rows)" "ts_deleted x = 0" "ts_name x = n" for x
    using x(1)
  proof (cases rule: mem_map_live)
    case (1 r)
    then have "ts_name r = n" using x(3) assms(4) by blast
    then show ?thesis using 1 assms(1,2) by (auto simp: rows_ok_def)
  next
    case 2
    then show ?thesis using x assms(1) by (auto simp: rows_ok_def)
  qed
  then show "rows_ok pk n (map_live pk' f rows)"
    using assms(1) mem unfolding rows_ok_def ids img by blast
qed

text \<open>A change of the row itself.\<close>

lemma map_live_own:
  assumes "rows_ok pk n rows"
    "\<And>r. ts_id (f r) = ts_id r \<and> ts_name (f r) = ts_name r \<and> ts_one_off (f r) = ts_one_off r
       \<and> (0 \<le> ts_total_run_count r \<longrightarrow> 0 \<le> ts_total_run_count (f r))"
  shows "rows_ok pk n (map_live pk f rows)"
proof -
  have ids: "map ts_id (map_live pk f rows) = map ts_id rows" using assms(2) by (simp add: map_live_def)
  have img: "ts_id ` set (map_live pk f rows) = ts_id ` set rows" using arg_cong [OF ids, of set] by simp
  have "ts_name x = n \<and> ts_one_off x \<and> 0 \<le> ts_total_run_count x" if "x \<in> set (map_live pk f rows)" "ts_id x = pk" for x
    using that(1)
  proof (cases rule: mem_map_live)
    case (1 r)
    then have "ts_name r = n \<and> ts_one_off r \<and> 0 \<le> ts_total_run_count r" using assms(1) unfolding rows_ok_def by blast
    then show ?thesis using 1(4) assms(2) [of r] by simp
  next
    case 2
    then show ?thesis using that(2) assms(1) unfolding rows_ok_def by blast
  qed
  moreover have "ts_id x = pk" if "x \<in> set (map_live pk f rows)" "ts_deleted x = 0" "ts_name x = n" for x
    using that(1)
  proof (cases rule: mem_map_live)
    case (1 r)
    then show ?thesis using assms(2) [of r] by simp
  next
    case 2
    then show ?thesis using that(2,3) assms(1) unfolding rows_ok_def by blast
  qed
  ultimately show ?thesis using assms(1) unfolding rows_ok_def ids img by blast
qed

section \<open>Saving and reading\<close>

lemma save_clock:
  assumes "second_texts D" "clock_ok D now w"
  shows "clock_ok D now (entry_save D now e en w)"
  using assms clock_ok_update [OF assms(1), of now w]
  by (auto simp: entry_save_def changed_def clock_ok_def Let_def split: option.splits)

lemma save_rows:
  assumes "rows_ok pk n (be_rows w)" "entry_ok pk n (nm, en)"
  shows "rows_ok pk n (be_rows (entry_save D now e en w))"
    "nm \<noteq> n \<Longrightarrow> off pk (be_rows (entry_save D now e en w)) = off pk (be_rows w)"
    "nm \<noteq> n \<Longrightarrow> counted pk (be_rows (entry_save D now e en w)) = counted pk (be_rows w)"
    "nm = n \<Longrightarrow> off pk (be_rows w) \<and> \<not> e \<or> e \<and> \<not> ts_enabled (en_model en) \<Longrightarrow> off pk (be_rows (entry_save D now e en w))"
    "nm = n \<Longrightarrow> 0 < ts_total_run_count (en_model en) \<Longrightarrow> counted pk (be_rows (entry_save D now e en w))"
proof -
  let ?m = "en_model en"
  have rows: "be_rows (entry_save D now e en w) = map_live (ts_id ?m) (saved e ?m) (be_rows w)"
    using assms(1) by (intro entry_save_rows) (simp add: rows_ok_def)
  note other = map_live_other [OF assms(1), of "ts_id ?m" "saved e ?m"]
  show "rows_ok pk n (be_rows (entry_save D now e en w))"
  proof (cases "nm = n")
    case True
    then show ?thesis using assms map_live_own [OF assms(1), of "saved e ?m"] by (simp add: rows entry_ok_def)
  next
    case False
    then show ?thesis using assms(2) other(1) by (simp add: rows entry_ok_def)
  qed
  show "off pk (be_rows (entry_save D now e en w)) = off pk (be_rows w)"
    "counted pk (be_rows (entry_save D now e en w)) = counted pk (be_rows w)" if "nm \<noteq> n"
    using that assms(2) other(2,3) by (simp_all add: rows entry_ok_def)
  assume n: "nm = n"
  then have pk: "ts_id ?m = pk" using assms(2) by (simp add: entry_ok_def)
  show "off pk (be_rows (entry_save D now e en w))" if "off pk (be_rows w) \<and> \<not> e \<or> e \<and> \<not> ts_enabled ?m"
    unfolding off_def rows pk
  proof (intro ballI impI)
    fix x assume "x \<in> set (map_live pk (saved e ?m) (be_rows w))" "ts_id x = pk \<and> ts_deleted x = 0"
    then show "\<not> ts_enabled x"
      using that by (cases rule: mem_map_live) (auto simp: off_def)
  qed
  show "counted pk (be_rows (entry_save D now e en w))" if "0 < ts_total_run_count ?m"
    unfolding counted_def rows pk
  proof (intro ballI impI)
    fix x assume "x \<in> set (map_live pk (saved e ?m) (be_rows w))" "ts_id x = pk \<and> ts_deleted x = 0"
    then show "0 < ts_total_run_count x \<or> \<not> ts_enabled x"
      using that by (cases rule: mem_map_live) auto
  qed
qed

text \<open>\<open>schedule\<close> was accessed at this moment, so no other access finds anything new.\<close>

definition checked :: "beat_deps \<Rightarrow> int \<Rightarrow> beat \<Rightarrow> bool" where
  "checked D now w \<longleftrightarrow> seen D w \<and> clock_ok D now w \<and> (be_last_update w = None \<or> be_last_update w = Some now)"

lemma checked_after:
  assumes "second_texts D" "clock_ok D now w" "\<not> be_initial_read w"
  shows "checked D now (fst (schedule_changed D now w))"
proof -
  have "be_last_update (fst (schedule_changed D now w)) = None" if "map_of (be_redis w) last_update_key = None"
    using that assms(2) stored_get [OF assms(2), of now] by (simp add: schedule_changed_def clock_ok_def)
  then show ?thesis
    using schedule_changed_after [OF assms(1,2)] assms(3) unfolding checked_def by blast
qed

lemma checked_save:
  assumes "second_texts D" "checked D now w"
  shows "checked D now (entry_save D now e en w)"
proof -
  have "be_redis (entry_save D now e en w) = be_redis w \<or> be_redis (entry_save D now e en w) = update_changed D now (be_redis w)"
    by (auto simp: entry_save_def changed_def Let_def split: option.splits)
  then show ?thesis
    using assms(2) save_clock [OF assms(1), of now w e en] second_textsD(2) [OF assms(1), of now]
    by (auto simp: checked_def seen_def)
qed

lemma checked_dirty [simp]: "checked D now (w\<lparr>be_dirty := names\<rparr>) = checked D now w"
  "clock_ok D now (w\<lparr>be_dirty := names\<rparr>) = clock_ok D now w" "seen D (w\<lparr>be_dirty := names\<rparr>) = seen D w"
  by (auto simp: checked_def seen_def clock_ok_def split: option.split prod.split)

text \<open>\<open>sync\<close> then saves every entry it finds, and the run of the task is in the table.\<close>

lemma sync_loop_once:
  assumes "second_texts D" "clock_ok D now w" "seen D w" "rows_ok pk n (be_rows w)" "\<forall>p \<in> set (be_schedule w). entry_ok pk n p"
    "length (be_dirty w) \<le> m"
  shows "\<exists>w'. sync_loop D now m failed w = (w', None) \<and> seen D w' \<and> clock_ok D now w' \<and> be_schedule w' = be_schedule w
    \<and> be_sent w' = be_sent w \<and> be_initial_read w' = be_initial_read w \<and> rows_ok pk n (be_rows w')
    \<and> (once pk n w \<longrightarrow> counted pk (be_rows w') \<and> once pk n w')"
  using assms(2-)
proof (induction m arbitrary: failed w)
  case 0
  then show ?case by (auto simp: put_back_def once_def)
next
  case (Suc m)
  show ?case
  proof (cases "be_dirty w")
    case Nil
    then show ?thesis using Suc.prems by (auto simp: put_back_def once_def)
  next
    case (Cons name names)
    let ?w0 = "w\<lparr>be_dirty := names\<rparr>"
    let ?w1 = "fst (schedule_changed D now ?w0)"
    have init: "\<not> be_initial_read w" using Suc.prems(2) by (simp add: seen_def)
    have s: "schedule_with D now (sync_loop D now m []) ?w0 = (?w1, None)"
      by (rule schedule_with_seen) (use Suc.prems in simp_all)
    have c1: "checked D now ?w1" by (rule checked_after [OF assms(1)]) (use Suc.prems init in simp_all)
    note w1 = schedule_changed_frame [of D now ?w0, simplified]
    show ?thesis
    proof (cases "map_of (be_schedule w) name")
      case None
      have ok: "clock_ok D now ?w1" "seen D ?w1" "rows_ok pk n (be_rows ?w1)" "\<forall>p \<in> set (be_schedule ?w1). entry_ok pk n p"
        "length (be_dirty ?w1) \<le> m"
        using c1 Suc.prems Cons by (simp_all add: checked_def w1)
      have "once pk n w \<Longrightarrow> once pk n ?w1" using None Cons by (auto simp: once_def w1)
      then show ?thesis
        using Suc.IH [OF ok, of "List.insert name failed"] None by (auto simp: Cons s w1)
    next
      case (Some en)
      let ?w2 = "entry_save D now False en ?w1"
      have en: "entry_ok pk n (name, en)" using Suc.prems(4) map_of_SomeD [OF Some] by blast
      note save = save_rows [where w = ?w1 and e = False, OF _ en, unfolded w1, OF Suc.prems(3)]
      have ok: "clock_ok D now ?w2" "seen D ?w2" "rows_ok pk n (be_rows ?w2)" "\<forall>p \<in> set (be_schedule ?w2). entry_ok pk n p"
        "length (be_dirty ?w2) \<le> m"
        using checked_save [OF assms(1) c1, of False en] save(1) Suc.prems Cons by (simp_all add: checked_def w1)
      have "once pk n ?w2" if once: "once pk n w"
      proof (cases "name = n")
        case True
        then have "0 < ts_total_run_count (en_model en) \<or> off pk (be_rows w)"
          using once Some by (auto simp: once_def spent_def)
        then have "counted pk (be_rows ?w2)" using save(4,5) True off_counted by (auto simp: w1)
        moreover have "spent pk n (be_schedule ?w2) (be_rows ?w2)"
          using once save(4) True by (auto simp: once_def spent_def w1)
        ultimately show ?thesis by (simp add: once_def)
      next
        case False
        then show ?thesis using once Cons save(2,3) by (auto simp: once_def spent_def w1)
      qed
      then show ?thesis
        using Suc.IH [OF ok, of failed] Some by (auto simp: Cons s w1)
    qed
  qed
qed

section \<open>Every call\<close>

lemma once_okI:
  assumes "base_ok D now pk n w"
    "count_list (be_sent w) n = 0 \<or> count_list (be_sent w) n = 1 \<and> \<not> be_initial_read w \<and> once pk n w"
  shows "once_ok D now pk n w"
  using assms by (simp add: once_ok_def)

lemma mem_update: "p \<in> set (AList.update k v al) \<Longrightarrow> p = (k, v) \<or> p \<in> set al"
  using set_update_subset [of k v al] by auto

lemma read_entries_model:
  assumes "read_entries D now rs s d = (d', Inr s')" "p \<in> set s'"
  shows "p \<in> set s \<or> (\<exists>r \<in> set rs. fst p = ts_name r \<and> en_model (snd p) = with_last_run now r)"
  using assms
proof (induction rs arbitrary: s d)
  case (Cons r rs)
  then obtain en bad where m: "model_entry D now False r = Inr (en, bad)"
    by (cases "model_entry D now False r") auto
  from Cons have "p \<in> set (AList.update (ts_name r) en s)
      \<or> (\<exists>r \<in> set rs. fst p = ts_name r \<and> en_model (snd p) = with_last_run now r)"
    by (simp add: m)
  then show ?case
    using model_entry_InrD [OF m] mem_update [of p "ts_name r" en s] by (cases p) auto
qed simp

lemma refetch_once:
  assumes "rows_ok pk n (be_rows w)" "\<forall>p \<in> set (be_schedule w). entry_ok pk n p"
  shows "\<forall>p \<in> set (be_schedule (fst (refetch D now i w))). entry_ok pk n p"
    "counted pk (be_rows w) \<Longrightarrow> spent pk n (be_schedule w) (be_rows w)
      \<Longrightarrow> spent pk n (be_schedule (fst (refetch D now i w))) (be_rows w)"
proof -
  obtain d r where g: "get_all_task_schedulers D now w = (d, r)" by fastforce
  have "(\<forall>p \<in> set (be_schedule (fst (refetch D now i w))). entry_ok pk n p)
    \<and> (counted pk (be_rows w) \<longrightarrow> spent pk n (be_schedule w) (be_rows w)
        \<longrightarrow> spent pk n (be_schedule (fst (refetch D now i w))) (be_rows w))"
  proof (cases r)
    case (Inl e)
    then show ?thesis using assms by (simp add: refetch_def g)
  next
    case (Inr s)
    then have sch: "be_schedule (fst (refetch D now i w)) = s" by (simp add: refetch_def g)
    have from_row: "\<exists>r \<in> set (be_rows w). ts_enabled r \<and> ts_deleted r = 0 \<and> fst p = ts_name r
        \<and> en_model (snd p) = with_last_run now r" if "p \<in> set s" for p
      using read_entries_model [OF g [unfolded get_all_task_schedulers_def Inr] that] by auto
    have "entry_ok pk n p" if p: "p \<in> set s" for p
    proof -
      obtain r where r: "r \<in> set (be_rows w)" "ts_deleted r = 0" "fst p = ts_name r" "en_model (snd p) = with_last_run now r"
        using from_row [OF p] by blast
      have n: "ts_name r = n \<longleftrightarrow> ts_id r = pk" using assms(1) r(1,2) unfolding rows_ok_def by blast
      have "ts_id r = pk \<Longrightarrow> ts_one_off r \<and> 0 \<le> ts_total_run_count r" using assms(1) r(1) unfolding rows_ok_def by blast
      then show ?thesis using n by (simp add: entry_ok_def r(3,4))
    qed
    moreover have "spent pk n s (be_rows w)" if "counted pk (be_rows w)"
      unfolding spent_def
    proof (intro allI impI)
      fix en assume "map_of s n = Some en"
      then obtain r where r: "r \<in> set (be_rows w)" "ts_enabled r" "ts_deleted r = 0" "n = ts_name r" "en_model en = with_last_run now r"
        using from_row [OF map_of_SomeD] by fastforce
      then have "ts_id r = pk" using assms(1) unfolding rows_ok_def by blast
      then show "0 < ts_total_run_count (en_model en) \<or> \<not> ts_enabled (en_model en) \<and> off pk (be_rows w)"
        using that r by (auto simp: counted_def)
    qed
    ultimately show ?thesis by (simp add: sch)
  qed
  then show "\<forall>p \<in> set (be_schedule (fst (refetch D now i w))). entry_ok pk n p"
    "counted pk (be_rows w) \<Longrightarrow> spent pk n (be_schedule w) (be_rows w)
      \<Longrightarrow> spent pk n (be_schedule (fst (refetch D now i w))) (be_rows w)" by blast+
qed

lemma sync_once:
  assumes "second_texts D" "once_ok D now pk n w" "seen D w"
  shows "\<exists>w'. sync D now w = (w', None) \<and> once_ok D now pk n w' \<and> seen D w'
    \<and> (count_list (be_sent w) n = 1 \<longrightarrow> counted pk (be_rows w')) \<and> be_sent w' = be_sent w"
proof -
  have b: "base_ok D now pk n w" using assms(2) by (simp add: once_ok_def)
  have init: "\<not> be_initial_read w" using assms(3) by (simp add: seen_def)
  obtain w' where w': "sync_loop D now (length (be_dirty w)) [] w = (w', None)" "seen D w'" "clock_ok D now w'"
    "be_schedule w' = be_schedule w" "be_sent w' = be_sent w" "be_initial_read w' = be_initial_read w" "rows_ok pk n (be_rows w')"
    "once pk n w \<longrightarrow> counted pk (be_rows w') \<and> once pk n w'"
    using sync_loop_once [OF assms(1) _ assms(3), of now pk n "length (be_dirty w)" "[]"] b by (auto simp: base_ok_def)
  have "base_ok D now pk n w'" using w' b init by (simp add: base_ok_def)
  then have "once_ok D now pk n w'" using assms(2) w'(5,6,8) by (auto simp: once_ok_def)
  moreover have "count_list (be_sent w) n = 1 \<longrightarrow> counted pk (be_rows w')" using assms(2) w'(8) by (auto simp: once_ok_def)
  ultimately show ?thesis using w'(1,2,5) by (auto simp: sync_def)
qed

text \<open>The state before \<open>sync\<close> inside an access that reads the table.\<close>

lemma schedule_prop_once:
  assumes "second_texts D" "once_ok D now pk n w"
  shows "once_ok D now pk n (fst (schedule_prop D now w))" "\<not> be_initial_read (fst (schedule_prop D now w))"
proof -
  let ?start = "if be_initial_read w then (w\<lparr>be_initial_read := False\<rparr>, True) else schedule_changed D now w"
  obtain w1 up where start: "?start = (w1, up)" by fastforce
  have b: "base_ok D now pk n w" using assms(2) by (simp add: once_ok_def)
  have w1: "be_rows w1 = be_rows w" "be_schedule w1 = be_schedule w" "be_dirty w1 = be_dirty w" "be_sent w1 = be_sent w"
    "\<not> be_initial_read w1" "clock_ok D now w1" "seen D w1"
  proof -
    have *: "be_rows w1 = be_rows w \<and> be_schedule w1 = be_schedule w \<and> be_dirty w1 = be_dirty w \<and> be_sent w1 = be_sent w
        \<and> \<not> be_initial_read w1 \<and> clock_ok D now w1 \<and> seen D w1"
    proof (cases "be_initial_read w")
      case True
      then have "w1 = w\<lparr>be_initial_read := False\<rparr>" using start by simp
      then show ?thesis using True b by (auto simp: base_ok_def clock_ok_def seen_def split: option.split prod.split)
    next
      case False
      then have e: "w1 = fst (schedule_changed D now w)" using start by simp
      have "checked D now w1" unfolding e by (rule checked_after [OF assms(1)]) (use b False in \<open>simp_all add: base_ok_def\<close>)
      then show ?thesis using False by (simp add: e schedule_changed_frame checked_def)
    qed
    then show "be_rows w1 = be_rows w" "be_schedule w1 = be_schedule w" "be_dirty w1 = be_dirty w" "be_sent w1 = be_sent w"
      "\<not> be_initial_read w1" "clock_ok D now w1" "seen D w1" by blast+
  qed
  have ok1: "once_ok D now pk n w1"
  proof (rule once_okI)
    show "base_ok D now pk n w1" using b w1 by (simp add: base_ok_def)
    show "count_list (be_sent w1) n = 0 \<or> count_list (be_sent w1) n = 1 \<and> \<not> be_initial_read w1 \<and> once pk n w1"
      using assms(2) w1 by (auto simp: once_ok_def once_def)
  qed
  obtain w2 where w2: "sync D now w1 = (w2, None)" "once_ok D now pk n w2" "seen D w2" "be_sent w2 = be_sent w1"
    "count_list (be_sent w1) n = 1 \<longrightarrow> counted pk (be_rows w2)"
    using sync_once [OF assms(1) ok1 w1(7)] by blast
  let ?w3 = "fst (refetch D now (be_initial_read w) w2)"
  have b2: "base_ok D now pk n w2" "\<not> be_initial_read w2" using w2(2,3) by (auto simp: once_ok_def seen_def)
  have ok3: "once_ok D now pk n ?w3"
  proof (rule once_okI)
    have "rows_ok pk n (be_rows w2)" "\<forall>p \<in> set (be_schedule w2). entry_ok pk n p" "clock_ok D now w2"
      using b2(1) by (simp_all add: base_ok_def)
    note refetch = refetch_once [OF this(1,2), of D now "be_initial_read w"] and this(3)
    have "clock_ok D now ?w3" using \<open>clock_ok D now w2\<close> by (simp only: clock_ok_def refetch_frame)
    then show "base_ok D now pk n ?w3"
      using b2 refetch(1) by (simp add: base_ok_def refetch_frame)
    show "count_list (be_sent ?w3) n = 0 \<or> count_list (be_sent ?w3) n = 1 \<and> \<not> be_initial_read ?w3 \<and> once pk n ?w3"
      using w2(2,4,5) refetch(2) b2(2) by (auto simp: once_ok_def once_def refetch_frame)
  qed
  have eq: "fst (schedule_prop D now w) = (if up then ?w3 else w1)"
    unfolding schedule_prop_def schedule_with_def start
    using w2(1) by (auto split: option.split prod.split)
  show "once_ok D now pk n (fst (schedule_prop D now w))" "\<not> be_initial_read (fst (schedule_prop D now w))"
    using ok1 ok3 w1(5) b2(2) by (simp_all add: eq refetch_frame)
qed

text \<open>Steps that change neither the entries nor what was sent.\<close>

lemma once_ok_rows:
  assumes "once_ok D now pk n w" "clock_ok D now (f w)" "rows_ok pk n (be_rows (f w))"
    "be_schedule (f w) = be_schedule w" "be_dirty (f w) = be_dirty w" "be_sent (f w) = be_sent w"
    "be_initial_read (f w) = be_initial_read w" "be_last_update (f w) = be_last_update w"
    "off pk (be_rows w) \<Longrightarrow> off pk (be_rows (f w))" "counted pk (be_rows w) \<Longrightarrow> counted pk (be_rows (f w))"
  shows "once_ok D now pk n (f w)"
  using assms by (auto simp: once_ok_def base_ok_def once_def spent_def)

definition leaves_alone :: "int \<Rightarrow> ustr \<Rightarrow> beat_act \<Rightarrow> bool" where
  "leaves_alone pk n a =
     (case a of
        Request (Create obj) \<Rightarrow> sp_name obj \<noteq> n
      | Request (Update pk' obj) \<Rightarrow> pk' \<noteq> pk \<and> sp_name obj \<noteq> n
      | Request (Update_status pk') \<Rightarrow> pk' \<noteq> pk
      | Setup defaults beat_schedule \<Rightarrow> n \<notin> fst ` set (defaults @ beat_schedule)
      | _ \<Rightarrow> True)"

lemma rows_append:
  assumes "rows_ok pk n rows" "ts_id r = fresh_id (map ts_id rows)" "ts_name r \<noteq> n"
  shows "rows_ok pk n (rows @ [r])" "off pk rows \<Longrightarrow> off pk (rows @ [r])" "counted pk rows \<Longrightarrow> counted pk (rows @ [r])"
proof -
  have new: "ts_id r \<notin> ts_id ` set rows" using fresh_id_not_in [of "map ts_id rows"] assms(2) by simp
  then have pk: "ts_id r \<noteq> pk" using assms(1) by (auto simp: rows_ok_def)
  show "rows_ok pk n (rows @ [r])" using assms(1,3) new pk by (auto simp: rows_ok_def)
  show "off pk rows \<Longrightarrow> off pk (rows @ [r])" "counted pk rows \<Longrightarrow> counted pk (rows @ [r])"
    using pk by (auto simp: off_def counted_def)
qed

lemma request_once:
  assumes "second_texts D" "once_ok D now pk n w" "leaves_alone pk n (Request q)"
  shows "once_ok D now pk n (fst (scheduler_request D now q w))"
proof (cases "request_rows D q (be_rows w)")
  case (Inl e)
  then show ?thesis using assms(2) by (simp add: scheduler_request_rows)
next
  case (Inr rows)
  have ok: "rows_ok pk n (be_rows w)" using assms(2) by (simp add: once_ok_def base_ok_def)
  then have distinct: "distinct (map ts_id (be_rows w))" by (simp add: rows_ok_def)
  have "rows_ok pk n rows \<and> (off pk (be_rows w) \<longrightarrow> off pk rows) \<and> (counted pk (be_rows w) \<longrightarrow> counted pk rows)"
  proof (cases q)
    case (Create obj)
    then have "scheduler_create D obj (be_rows w) = Inr rows" "sp_name obj \<noteq> n"
      using Inr assms(3) by (simp_all add: request_rows_def leaves_alone_def)
    then show ?thesis by (elim scheduler_create_InrD) (use rows_append [OF ok] in auto)
  next
    case (Update pk' obj)
    then have u: "scheduler_update D pk' obj (be_rows w) = Inr rows" "pk' \<noteq> pk" "sp_name obj \<noteq> n"
      using Inr assms(3) by (simp_all add: request_rows_def leaves_alone_def)
    then obtain r where "live_row pk' (be_rows w) = Some r" "rows = write_row (set_fields obj r) (be_rows w)"
      by (blast elim: scheduler_update_InrD)
    then have "rows = map_live pk' (set_fields obj) (be_rows w)" by (simp add: write_row_map_live distinct)
    then show ?thesis using map_live_other [OF ok u(2), of "set_fields obj"] u(3) by simp
  next
    case (Update_status pk')
    let ?f = "\<lambda>r. r\<lparr>ts_enabled := \<not> ts_enabled r\<rparr>"
    have u: "scheduler_update_status pk' (be_rows w) = Inr rows" "pk' \<noteq> pk"
      using Update_status Inr assms(3) by (simp_all add: request_rows_def leaves_alone_def)
    then obtain r where "live_row pk' (be_rows w) = Some r" "rows = write_row (?f r) (be_rows w)"
      by (blast elim: scheduler_status_InrD)
    then have "rows = map_live pk' ?f (be_rows w)" using write_row_map_live [of _ _ _ ?f] distinct by simp
    then show ?thesis using map_live_other [OF ok u(2), of ?f] by simp
  next
    case (Delete_task pk')
    let ?f = "\<lambda>r. r\<lparr>ts_deleted := ts_id r\<rparr>"
    have rows: "rows = map_live pk' ?f (be_rows w)"
      using Inr by (auto simp: Delete_task request_rows_def scheduler_delete_def rmap_Inr_iff map_live_def)
    show ?thesis
    proof (cases "pk' = pk")
      case False
      then show ?thesis using map_live_other [OF ok, of pk' ?f] rows by simp
    next
      case True
      have "off pk rows" if "off pk (be_rows w)"
        unfolding off_def rows True
      proof (intro ballI impI)
        fix x assume "x \<in> set (map_live pk ?f (be_rows w))" "ts_id x = pk \<and> ts_deleted x = 0"
        then show "\<not> ts_enabled x" using that by (cases rule: mem_map_live) (auto simp: off_def)
      qed
      moreover have "counted pk rows" if "counted pk (be_rows w)"
        unfolding counted_def rows True
      proof (intro ballI impI)
        fix x assume "x \<in> set (map_live pk ?f (be_rows w))" "ts_id x = pk \<and> ts_deleted x = 0"
        then show "0 < ts_total_run_count x \<or> \<not> ts_enabled x"
          using that by (cases rule: mem_map_live) (auto simp: counted_def)
      qed
      moreover have "rows_ok pk n rows" using map_live_own [OF ok, of ?f] by (simp add: rows True)
      ultimately show ?thesis by blast
    qed
  qed
  moreover obtain w1 where w1: "scheduler_request D now q w = (w1, Inr ())" "be_rows w1 = rows" "be_dirty w1 = be_dirty w"
    by (simp add: scheduler_request_rows Inr)
  moreover have "clock_ok D now w" using assms(2) by (simp add: once_ok_def base_ok_def)
  ultimately show ?thesis
    using once_ok_rows [OF assms(2), of "\<lambda>_. w1"] request_clock [OF w1(1) assms(1)] by simp
qed

lemma set_entry_sel [simp]:
  "be_rows (set_entry nm en w) = be_rows w" "be_redis (set_entry nm en w) = be_redis w" "be_sent (set_entry nm en w) = be_sent w"
  "be_dirty (set_entry nm en w) = be_dirty w" "be_initial_read (set_entry nm en w) = be_initial_read w"
  "be_last_update (set_entry nm en w) = be_last_update w"
  by (simp_all add: set_entry_def)

lemma set_entry_base:
  assumes "base_ok D now pk n w" "entry_ok pk n (nm, en)" "\<not> be_initial_read w"
  shows "base_ok D now pk n (set_entry nm en w)"
proof -
  have "clock_ok D now (set_entry nm en w)" using assms(1) by (simp only: base_ok_def clock_ok_def set_entry_sel)
  moreover have "entry_ok pk n p" if "p \<in> set (be_schedule (set_entry nm en w))" for p
  proof -
    have "p = (nm, en) \<or> p \<in> set (be_schedule w)" using that mem_update [of p nm en] by (simp add: set_entry_def)
    then show ?thesis using assms(1,2) unfolding base_ok_def by blast
  qed
  ultimately show ?thesis using assms(1,3) by (simp add: base_ok_def)
qed

lemma base_save:
  assumes "second_texts D" "base_ok D now pk n w" "entry_ok pk n (nm, en)"
  shows "base_ok D now pk n (entry_save D now e en w)"
  using assms(2) save_clock [OF assms(1)] save_rows(1) [OF _ assms(3)] by (simp add: base_ok_def)

lemma map_of_set_entry: "map_of (be_schedule (set_entry nm en w)) k = (if k = nm then Some en else map_of (be_schedule w) k)"
  by (simp add: set_entry_def update_conv')

text \<open>What \<open>is_due\<close> can do to the state.\<close>

lemma is_due_cases:
  assumes "is_due D now nm en w = (w', r)"
  obtains "w' = w" "ts_one_off (en_model en) \<and> 0 < ts_total_run_count (en_model en) \<or> \<not> ts_enabled (en_model en) \<Longrightarrow> \<forall>x. r \<noteq> Inr (True, x)"
  | en' where "ts_one_off (en_model en)" "0 < ts_total_run_count (en_model en)" "r = Inr (False, 1000000000)"
    "en_model en' = (en_model en)\<lparr>ts_enabled := False, ts_total_run_count := 0\<rparr>" "w' = entry_save D now True en' (set_entry nm en' w)"
proof -
  let ?m = "en_model en"
  let ?wait = "\<exists>start. ts_start_time ?m = Some start \<and> now < start"
  show thesis
  proof (cases "ts_enabled ?m \<and> \<not> ?wait")
    case False
    then have "w' = w \<and> (\<forall>x. r \<noteq> Inr (True, x))"
      using assms by (auto simp: is_due_def Let_def split: option.splits if_splits)
    then show ?thesis using that(1) by blast
  next
    case True
    then have d: "due_now D now nm en w = (w', r)" using assms by (auto simp: is_due_def Let_def split: option.splits)
    show ?thesis
    proof (cases "ts_one_off ?m \<and> 0 < ts_total_run_count ?m")
      case one: True
      then show ?thesis
        using d True that(2) [of "en\<lparr>en_model := ?m\<lparr>ts_enabled := False, ts_total_run_count := 0\<rparr>, en_no_changes := False\<rparr>"]
        by (simp add: due_now_def Let_def)
    next
      case False
      then have "w' = w" using d by (auto simp: due_now_def Let_def split: option.splits if_splits)
      then show ?thesis using that(1) False True by blast
    qed
  qed
qed

lemma reserve_result:
  assumes "reserve D now nm en w = (w', r)"
  shows "\<exists>en'. ts_id (en_model en') = ts_id (en_model en) \<and> ts_name (en_model en') = ts_name (en_model en)
    \<and> ts_one_off (en_model en') = ts_one_off (en_model en)
    \<and> ts_total_run_count (en_model en') = ts_total_run_count (en_model en) + 1
    \<and> (r = Inr () \<and> w' = set_entry nm en' w\<lparr>be_dirty := List.insert (ts_name (en_model en)) (be_dirty w)\<rparr>
       \<or> (\<exists>e. r = Inl e) \<and> w' = set_entry nm en' w)"
proof -
  let ?m = "(en_model en)\<lparr>ts_last_run_time := Some now, ts_total_run_count := ts_total_run_count (en_model en) + 1\<rparr>"
  let ?kept = "en\<lparr>en_model := ?m, en_no_changes := True\<rparr>"
  show ?thesis
  proof (cases "\<exists>en2. model_entry D now True ?m = Inr (en2, False)")
    case True
    then obtain en2 where "model_entry D now True ?m = Inr (en2, False)" by blast
    then show ?thesis
      using assms model_entry_InrD [of D now True ?m en2 False] model_entry_scheduled [of D now True ?m en2]
      by (intro exI [of _ en2]) (auto simp: reserve_def)
  next
    case False
    then have "(\<exists>e. r = Inl e) \<and> w' = set_entry nm ?kept w"
      using assms by (auto simp: reserve_def Let_def split: sum.splits prod.splits if_splits)
    then show ?thesis by (intro exI [of _ ?kept]) auto
  qed
qed

lemma count_list_snoc: "count_list (xs @ [x]) y = count_list xs y + (if x = y then 1 else 0)"
  by simp

lemma run_entry_once:
  assumes "second_texts D" "once_ok D now pk n w"
  shows "once_ok D now pk n (run_entry D now nm w)"
proof (cases "map_of (be_schedule w) nm")
  case None
  then show ?thesis using assms(2) by (simp add: run_entry_def)
next
  case (Some en)
  have b: "base_ok D now pk n w" using assms(2) by (simp add: once_ok_def)
  have en: "entry_ok pk n (nm, en)" using b map_of_SomeD [OF Some] by (simp add: base_ok_def)
  have init: "\<not> be_initial_read w" using b Some by (auto simp: base_ok_def)
  obtain w1 r where d: "is_due D now nm en w = (w1, r)" by fastforce
  show ?thesis
    using d
  proof (cases rule: is_due_cases)
    case (2 en')
    have en': "entry_ok pk n (nm, en')" using en 2(4) by (simp add: entry_ok_def)
    have run: "run_entry D now nm w = w1" by (simp add: run_entry_def Some d 2(3))
    have rows: "rows_ok pk n (be_rows (set_entry nm en' w))" using b by (simp add: base_ok_def)
    note save = save_rows [where w = "set_entry nm en' w" and e = True, OF rows en']
    have "base_ok D now pk n w1"
      unfolding 2(5) by (rule base_save [OF assms(1) set_entry_base [OF b en' init] en'])
    moreover have "once pk n w1" if o: "once pk n w"
    proof (cases "nm = n")
      case True
      then have "off pk (be_rows w1)" using save(4) by (simp add: 2(4,5))
      then show ?thesis using True off_counted by (simp add: once_def spent_def 2(4,5) map_of_set_entry)
    next
      case False
      then show ?thesis using o save(2,3) by (auto simp: once_def spent_def 2(5) map_of_set_entry)
    qed
    ultimately show ?thesis
      using assms(2) by (auto simp: run once_ok_def 2(5))
  next
    case 1
    show ?thesis
    proof (cases "\<exists>x. r = Inr (True, x)")
      case False
      then have "run_entry D now nm w = w" using Some d 1(1) by (auto simp: run_entry_def split: sum.splits bool.splits)
      then show ?thesis using assms(2) by simp
    next
      case True
      then obtain x where x: "r = Inr (True, x)" by blast
      obtain w2 q where q: "reserve D now nm en w = (w2, q)" by fastforce
      have run: "run_entry D now nm w = (case q of Inr _ \<Rightarrow> w2\<lparr>be_sent := be_sent w2 @ [nm]\<rparr> | Inl _ \<Rightarrow> w2)"
        using Some d x q 1(1) by (simp add: run_entry_def)
      obtain en' where e: "ts_id (en_model en') = ts_id (en_model en)" "ts_name (en_model en') = ts_name (en_model en)"
        "ts_one_off (en_model en') = ts_one_off (en_model en)" "ts_total_run_count (en_model en') = ts_total_run_count (en_model en) + 1"
        "q = Inr () \<and> w2 = set_entry nm en' w\<lparr>be_dirty := List.insert (ts_name (en_model en)) (be_dirty w)\<rparr>
         \<or> (\<exists>e. q = Inl e) \<and> w2 = set_entry nm en' w"
        using reserve_result [OF q] by blast
      have en': "entry_ok pk n (nm, en')" using en e(1-4) by (auto simp: entry_ok_def split: if_splits)
      have b1: "base_ok D now pk n (set_entry nm en' w)" by (rule set_entry_base [OF b en' init])
      then have b2: "base_ok D now pk n (w2\<lparr>be_sent := s\<rparr>)" "base_ok D now pk n w2" for s
        using e(5) by (auto simp: base_ok_def clock_ok_def split: option.splits)
      have name: "ts_name (en_model en) = nm" using en by (simp add: entry_ok_def)
      show ?thesis
      proof (cases "nm = n")
        case True
        have "count_list (be_sent w) n = 0"
        proof (rule ccontr)
          assume "count_list (be_sent w) n \<noteq> 0"
          then have "spent pk n (be_schedule w) (be_rows w)" using assms(2) by (auto simp: once_ok_def once_def)
          then have "0 < ts_total_run_count (en_model en) \<or> \<not> ts_enabled (en_model en)" using Some True by (auto simp: spent_def)
          then have "\<forall>x. r \<noteq> Inr (True, x)" using 1(2) en True by (auto simp: entry_ok_def)
          then show False using x by blast
        qed
        moreover have "once pk n (w2\<lparr>be_sent := s\<rparr>)" if "q = Inr ()" for s
          using that e(4,5) en True name by (auto simp: once_def spent_def set_entry_def update_conv' entry_ok_def)
        ultimately show ?thesis
          unfolding run using e(5) b2 init True by (auto simp: once_ok_def)
      next
        case False
        have "once pk n w2 \<and> (\<forall>s. once pk n (w2\<lparr>be_sent := s\<rparr>))" if "once pk n w"
          using that e(5) False by (auto simp: once_def spent_def set_entry_def update_conv')
        then show ?thesis
          unfolding run using e(5) b2 init False assms(2) by (auto simp: once_ok_def)
      qed
    qed
  qed
qed

lemma run_disable_once:
  assumes "once_ok D now pk n w"
  shows "once_ok D now pk n (run_disable D now w)"
proof (cases "be_disabling w")
  case Nil
  then show ?thesis using assms by (simp add: run_disable_def)
next
  case (Cons pk' pks)
  let ?f = "\<lambda>r. r\<lparr>ts_enabled := False\<rparr>"
  let ?h = "\<lambda>en. if ts_id (en_model en) = pk'
    then en\<lparr>en_model := (en_model en)\<lparr>ts_enabled := False\<rparr>, en_no_changes := True\<rparr> else en"
  let ?g = "\<lambda>(nm :: ustr, en). (nm, ?h en)"
  have b: "base_ok D now pk n w" using assms by (simp add: once_ok_def)
  then have ok: "rows_ok pk n (be_rows w)" by (simp add: base_ok_def)
  have rows: "be_rows (run_disable D now w) = map_live pk' ?f (be_rows w)"
  proof (cases "live_row pk' (be_rows w)")
    case None
    then show ?thesis by (simp add: run_disable_def Cons map_live_none)
  next
    case (Some r)
    have "distinct (map ts_id (be_rows w))" using ok by (simp add: rows_ok_def)
    from write_row_map_live [OF Some this, of ?f] show ?thesis by (simp add: run_disable_def Cons Some)
  qed
  have sched: "be_schedule (run_disable D now w) = map ?g (be_schedule w)" by (simp add: run_disable_def Cons)
  have frame: "be_redis (run_disable D now w) = be_redis w" "be_last_update (run_disable D now w) = be_last_update w"
    "be_initial_read (run_disable D now w) = be_initial_read w" "be_dirty (run_disable D now w) = be_dirty w"
    "be_sent (run_disable D now w) = be_sent w" by (simp_all add: run_disable_def Cons)
  have lookup: "map_of (map ?g xs) n = map_option ?h (map_of xs n)" for xs
    by (rule map_of_map [THEN fun_cong, unfolded comp_apply])
  have rows': "rows_ok pk n (map_live pk' ?f (be_rows w))" "off pk (be_rows w) \<Longrightarrow> off pk (map_live pk' ?f (be_rows w))"
    "counted pk (be_rows w) \<Longrightarrow> counted pk (map_live pk' ?f (be_rows w))" "pk' = pk \<Longrightarrow> off pk (map_live pk' ?f (be_rows w))"
  proof -
    have own: "off pk (map_live pk ?f (be_rows w))"
      unfolding off_def
    proof (intro ballI impI)
      fix x assume "x \<in> set (map_live pk ?f (be_rows w))" "ts_id x = pk \<and> ts_deleted x = 0"
      then show "\<not> ts_enabled x" by (cases rule: mem_map_live) auto
    qed
    show "rows_ok pk n (map_live pk' ?f (be_rows w))"
      using map_live_own [OF ok, of ?f] map_live_other(1) [OF ok, of pk' ?f] by (cases "pk' = pk") auto
    show "off pk (map_live pk' ?f (be_rows w))" if "pk' = pk" using own that by simp
    show "off pk (map_live pk' ?f (be_rows w))" if "off pk (be_rows w)"
      using own that map_live_other(2) [OF ok, of pk' ?f] by (cases "pk' = pk") auto
    show "counted pk (map_live pk' ?f (be_rows w))" if "counted pk (be_rows w)"
      using own off_counted that map_live_other(3) [OF ok, of pk' ?f] by (cases "pk' = pk") auto
  qed
  have "clock_ok D now (run_disable D now w)" using b by (simp only: base_ok_def clock_ok_def frame)
  moreover have "\<forall>p \<in> set (be_schedule (run_disable D now w)). entry_ok pk n p"
    using b by (auto simp: sched base_ok_def entry_ok_def split: if_splits)
  ultimately have "base_ok D now pk n (run_disable D now w)"
    using b rows'(1) by (auto simp: base_ok_def rows frame sched)
  moreover have "once pk n (run_disable D now w)" if o: "once pk n w"
  proof -
    have "spent pk n (be_schedule (run_disable D now w)) (be_rows (run_disable D now w))"
      unfolding spent_def sched lookup rows
    proof (intro allI impI)
      fix en assume "map_option ?h (map_of (be_schedule w) n) = Some en"
      then obtain en0 where en0: "map_of (be_schedule w) n = Some en0" "en = ?h en0" by blast
      have "entry_ok pk n (n, en0)" using b map_of_SomeD [OF en0(1)] by (simp add: base_ok_def)
      then show "0 < ts_total_run_count (en_model en) \<or> \<not> ts_enabled (en_model en) \<and> off pk (map_live pk' ?f (be_rows w))"
        using o en0 rows'(2,4) by (auto simp: once_def spent_def entry_ok_def)
    qed
    then show ?thesis using o rows'(3) by (auto simp: once_def sched lookup rows frame)
  qed
  ultimately show ?thesis using assms by (auto simp: once_ok_def frame)
qed

text \<open>The configuration writes rows and entries of other names.\<close>

lemma from_entry_once:
  assumes "second_texts D" "once_ok D now pk n w" "nm \<noteq> n" "from_entry D now nm le w = (w', r)"
  shows "once_ok D now pk n w' \<and> be_initial_read w' = be_initial_read w \<and> (\<forall>en. r = Inr en \<longrightarrow> entry_ok pk n (nm, en))"
proof (cases r)
  case (Inl e)
  then have "w' = w" using assms(4) by (auto simp: from_entry_def split: sum.splits prod.splits)
  then show ?thesis using assms(2) Inl by simp
next
  case (Inr en)
  then have "from_entry D now nm le w = (w', Inr en)" using assms(4) by simp
  then obtain x where x: "be_redis w' = update_changed D now (be_redis w)" "be_schedule w' = be_schedule w"
    "be_last_update w' = be_last_update w" "be_initial_read w' = be_initial_read w" "be_dirty w' = be_dirty w" "be_sent w' = be_sent w"
    "x = en_model en" "ts_name x = nm" "ts_deleted x = 0"
    "case find (\<lambda>r. ts_name r = nm \<and> ts_deleted r = 0) (be_rows w) of
       None \<Rightarrow> ts_id x = fresh_id (map ts_id (be_rows w)) \<and> be_rows w' = be_rows w @ [x]
     | Some old \<Rightarrow> ts_id x = ts_id old \<and> be_rows w' = write_row x (be_rows w)"
    by (rule from_entry_cases) blast
  have ok: "rows_ok pk n (be_rows w)" using assms(2) by (simp add: once_ok_def base_ok_def)
  have "rows_ok pk n (be_rows w') \<and> (off pk (be_rows w) \<longrightarrow> off pk (be_rows w')) \<and> (counted pk (be_rows w) \<longrightarrow> counted pk (be_rows w'))
      \<and> ts_id x \<noteq> pk"
  proof (cases "find (\<lambda>r. ts_name r = nm \<and> ts_deleted r = 0) (be_rows w)")
    case None
    then have n: "ts_id x = fresh_id (map ts_id (be_rows w))" "be_rows w' = be_rows w @ [x]" using x(10) by simp_all
    have "ts_id x \<noteq> pk" using ok fresh_id_not_in [of "map ts_id (be_rows w)"] by (auto simp: rows_ok_def n(1))
    then show ?thesis using rows_append [OF ok n(1)] x(8) assms(3) by (simp add: n(2))
  next
    case (Some old)
    then have "old \<in> set (be_rows w) \<and> ts_name old = nm \<and> ts_deleted old = 0" by (auto simp: find_Some_iff)
    moreover have "ts_id x = ts_id old \<and> be_rows w' = write_row x (be_rows w)" using x(10) by (simp add: Some)
    ultimately have o: "old \<in> set (be_rows w)" "ts_name old = nm" "ts_deleted old = 0" "ts_id x = ts_id old"
      "be_rows w' = write_row x (be_rows w)" by blast+
    have distinct: "distinct (map ts_id (be_rows w))" using ok by (simp add: rows_ok_def)
    have "live_row (ts_id old) (be_rows w) = Some old"
    proof -
      obtain y where y: "live_row (ts_id old) (be_rows w) = Some y"
        using o(1,3) by (cases "live_row (ts_id old) (be_rows w)") (auto simp: live_row_def find_None_iff)
      then have "y = old" using live_row_SomeD [OF y] o(1) distinct by (auto simp: distinct_map dest: inj_onD)
      then show ?thesis using y by simp
    qed
    from write_row_map_live [OF this distinct, of "\<lambda>_. x"]
    have rows: "be_rows w' = map_live (ts_id old) (\<lambda>r. x\<lparr>ts_id := ts_id r\<rparr>) (be_rows w)"
      unfolding o(5) using o(4) by (auto simp: map_live_def intro!: map_cong)
    have pk: "ts_id old \<noteq> pk" using ok o(1,2) assms(3) by (auto simp: rows_ok_def)
    show ?thesis
      using map_live_other [OF ok pk, of "\<lambda>r. x\<lparr>ts_id := ts_id r\<rparr>"] x(8) assms(3) pk o(4) by (simp add: rows)
  qed
  moreover have "clock_ok D now w'"
    using clock_ok_update [OF assms(1), of now w'] x(1) by (simp add: clock_ok_def)
  ultimately show ?thesis
    using once_ok_rows [OF assms(2), of "\<lambda>_. w'"] x assms(3) Inr by (simp add: entry_ok_def)
qed

lemma local_entries_once:
  assumes "second_texts D" "once_ok D now pk n w" "n \<notin> fst ` set les" "\<forall>p \<in> set s. entry_ok pk n p \<and> fst p \<noteq> n"
    "local_entries D now les s w = (w', r)"
  shows "once_ok D now pk n w' \<and> be_initial_read w' = be_initial_read w
    \<and> (\<forall>s'. r = Inr s' \<longrightarrow> (\<forall>p \<in> set s'. entry_ok pk n p \<and> fst p \<noteq> n))"
  using assms(2-)
proof (induction les arbitrary: s w)
  case (Cons x les)
  obtain nm le where x: "x = (nm, le)" by fastforce
  then have nm: "nm \<noteq> n" using Cons.prems(2) by auto
  obtain w1 q where f: "from_entry D now nm le w = (w1, q)" by fastforce
  note w1 = from_entry_once [OF assms(1) Cons.prems(1) nm f]
  show ?case
  proof (cases q)
    case (Inl e)
    then show ?thesis using Cons.prems(4) w1 by (auto simp: x f)
  next
    case (Inr en)
    let ?s = "if ts_enabled (en_model en) then AList.update nm en s else s"
    have "entry_ok pk n p \<and> fst p \<noteq> n" if "p \<in> set ?s" for p
    proof -
      have "p = (nm, en) \<or> p \<in> set s" using that mem_update [of p nm en s] by (auto split: if_splits)
      then show ?thesis using Cons.prems(3) w1 Inr nm by auto
    qed
    moreover have "local_entries D now les ?s w1 = (w', r)" using Cons.prems(4) by (simp add: x f Inr)
    ultimately show ?thesis using Cons.IH [of w1 ?s] w1 Cons.prems(2) by simp
  qed
qed auto

lemma mem_updates: "length ks = length vs \<Longrightarrow> p \<in> set (AList.updates ks vs al) \<Longrightarrow> p \<in> set (zip ks vs) \<or> p \<in> set al"
proof (induction ks vs arbitrary: al rule: list_induct2)
  case (Cons k ks v vs)
  then show ?case using mem_update [of p k v al] by auto
qed simp

lemma update_from_dict_once:
  assumes "second_texts D" "once_ok D now pk n w" "n \<notin> fst ` set d"
  shows "once_ok D now pk n (fst (update_from_dict D now d w))"
proof -
  obtain w1 r where l: "local_entries D now d [] w = (w1, r)" by fastforce
  have w1: "once_ok D now pk n w1" "\<forall>s. r = Inr s \<longrightarrow> (\<forall>p \<in> set s. entry_ok pk n p \<and> fst p \<noteq> n)"
    using local_entries_once [OF assms _ l] by simp_all
  obtain w2 e where p: "schedule_prop D now w1 = (w2, e)" by fastforce
  have w2: "once_ok D now pk n w2" "\<not> be_initial_read w2" using schedule_prop_once [OF assms(1) w1(1)] p by simp_all
  show ?thesis
  proof (cases r)
    case (Inl e)
    then show ?thesis using w1(1) by (simp add: update_from_dict_def l)
  next
    case (Inr s)
    show ?thesis
    proof (cases e)
      case (Some x)
      then show ?thesis using w2(1) by (simp add: update_from_dict_def l Inr p)
    next
      case None
      let ?s = "AList.updates (map fst s) (map snd s) (be_schedule w2)"
      have eq: "fst (update_from_dict D now d w) = w2\<lparr>be_schedule := ?s\<rparr>" by (simp add: update_from_dict_def l Inr p None)
      have zip: "zip (map fst s) (map snd s) = s" by (simp add: zip_map_fst_snd)
      have "entry_ok pk n p" if "p \<in> set ?s" for p
      proof -
        have "p \<in> set s \<or> p \<in> set (be_schedule w2)" using mem_updates [of "map fst s" "map snd s" p] that unfolding zip by simp
        then show ?thesis using w1(2) Inr w2(1) by (auto simp: once_ok_def base_ok_def)
      qed
      moreover have "map_of ?s n = map_of (be_schedule w2) n"
      proof -
        have "n \<notin> set (map fst s)" using w1(2) Inr by auto
        then show ?thesis by (simp add: updates_conv' map_upds_apply_nontin)
      qed
      ultimately show ?thesis
        unfolding eq using w2 by (auto simp: once_ok_def base_ok_def once_def spent_def clock_ok_def split: option.splits)
    qed
  qed
qed

lemma setup_once:
  assumes "second_texts D" "once_ok D now pk n w" "n \<notin> fst ` set (a @ b)"
  shows "once_ok D now pk n (fst (setup_schedule D now a b w))"
proof -
  obtain w1 e1 where s: "schedule_prop D now w = (w1, e1)" by fastforce
  obtain w2 e2 where u: "update_from_dict D now a w1 = (w2, e2)" by fastforce
  have w1: "once_ok D now pk n w1" using schedule_prop_once(1) [OF assms(1,2)] s by (metis fst_conv)
  have ab: "n \<notin> fst ` set a" "n \<notin> fst ` set b" using assms(3) by auto
  have w2: "once_ok D now pk n w2" using update_from_dict_once [OF assms(1) w1 ab(1)] u by simp
  show ?thesis
    using w1 w2 update_from_dict_once [OF assms(1) w2 ab(2)]
    by (auto simp: setup_schedule_def s u split: option.splits)
qed

lemma beat_act_once:
  assumes "second_texts D" "once_ok D now pk n w" "leaves_alone pk n a" "a = Sync_states \<Longrightarrow> seen D w"
  shows "once_ok D now pk n (beat_act D now a w)"
proof (cases a)
  case Sync_states
  then show ?thesis using sync_once [OF assms(1,2)] assms(4) by (auto simp: beat_act_def)
next
  case (Setup x y)
  then show ?thesis using setup_once [OF assms(1,2), of x y] assms(3) by (simp add: beat_act_def leaves_alone_def)
qed (use assms in \<open>simp_all add: beat_act_def schedule_prop_once run_entry_once run_disable_once request_once\<close>)

lemma once_ok_later: "once_ok D now pk n w \<Longrightarrow> now \<le> t \<Longrightarrow> once_ok D t pk n w"
  by (auto simp: once_ok_def base_ok_def intro: clock_ok_later)

section \<open>Runs\<close>

text \<open>No \<open>sync\<close> meets a change that was not read yet.\<close>

fun calm :: "beat_deps \<Rightarrow> (int \<times> beat_act) list \<Rightarrow> beat \<Rightarrow> bool" where
  "calm D [] w = True"
| "calm D ((now, a) # as) w = ((a = Sync_states \<longrightarrow> seen D w) \<and> calm D as (beat_act D now a w))"

lemma beat_run_once:
  assumes "second_texts D" "once_ok D now pk n w" "sorted (now # map fst as)" "list_all (leaves_alone pk n \<circ> snd) as" "calm D as w"
  shows "\<exists>t. once_ok D t pk n (beat_run D as w)"
  using assms(2-)
proof (induction as arbitrary: now w)
  case (Cons x as)
  obtain t a where x: "x = (t, a)" by fastforce
  have "once_ok D t pk n (beat_act D t a w)"
    by (rule beat_act_once [OF assms(1) once_ok_later [OF Cons.prems(1)]]) (use Cons.prems in \<open>auto simp: x\<close>)
  then show ?case using Cons.IH [of t "beat_act D t a w"] Cons.prems by (simp add: x)
qed auto

text \<open>C40: A task that is to run once is sent at most once, however checks, runs, writes of the run state, set-up and requests
for other tasks follow each other, as long as nobody changes the task and no \<open>sync\<close> meets an unread change.\<close>

theorem one_off_sent_once:
  assumes "second_texts D" "table_ok rows" "r \<in> set rows" "ts_deleted r = 0" "ts_one_off r" "0 \<le> ts_total_run_count r"
    "clock_ok D now (new_beat rows st)" "sorted (now # map fst as)" "list_all (leaves_alone (ts_id r) (ts_name r) \<circ> snd) as"
    "calm D as (new_beat rows st)"
  shows "count_list (be_sent (beat_run D as (new_beat rows st))) (ts_name r) \<le> 1"
proof -
  note u = assms(2) [unfolded table_ok_def, THEN conjunct1]
  have same: "x = r" if "x \<in> set rows" "ts_id x = ts_id r" for x
    using unique_liveD(1) [OF u] that assms(3) by (auto simp: distinct_map dest: inj_onD)
  have "rows_ok (ts_id r) (ts_name r) rows"
    using unique_liveD(1) [OF u] unique_liveD(3) [OF u _ assms(3) _ assms(4)] assms(3,5,6) same
    unfolding rows_ok_def by blast
  then have "once_ok D now (ts_id r) (ts_name r) (new_beat rows st)"
    using assms(7) by (simp add: once_ok_def base_ok_def new_beat_def)
  from beat_run_once [OF assms(1) this assms(8-10)] show ?thesis by (auto simp: once_ok_def)
qed

section \<open>A concrete run\<close>

definition sample_once :: task_row where
  "sample_once = sample_task\<lparr>ts_one_off := True\<rparr>"

definition sample_other :: task_row where
  "sample_other = sample_task\<lparr>ts_id := 2, ts_name := asc ''b''\<rparr>"

definition once_acts :: "(int \<times> beat_act) list" where
  "once_acts = [(1000, Read_schedule), (2000, Read_schedule), (3000, Read_schedule), (10000, Run_entry (asc ''a'')),
     (12000, Request (Update_status 2)), (12500, Read_schedule), (12600, Sync_states), (20000, Run_entry (asc ''a''))]"

theorem one_off_sent_once_witness:
  "be_sent (beat_run sample_beat_deps once_acts (new_beat [sample_once, sample_other] [])) = [asc ''a'']
   \<and> count_list (be_sent (beat_run sample_beat_deps once_acts (new_beat [sample_once, sample_other] []))) (asc ''a'') \<le> 1"
proof -
  have s: "table_ok [sample_once, sample_other]" "sample_once \<in> set [sample_once, sample_other]" "ts_deleted sample_once = 0"
    "ts_one_off sample_once" "0 \<le> ts_total_run_count sample_once"
    "clock_ok sample_beat_deps 1000 (new_beat [sample_once, sample_other] [])" "sorted (1000 # map fst once_acts)"
    "list_all (leaves_alone (ts_id sample_once) (ts_name sample_once) \<circ> snd) once_acts"
    "calm sample_beat_deps once_acts (new_beat [sample_once, sample_other] [])"
    by code_simp+
  have "ts_name sample_once = asc ''a''" by code_simp
  then have "count_list (be_sent (beat_run sample_beat_deps once_acts (new_beat [sample_once, sample_other] []))) (asc ''a'') \<le> 1"
    using one_off_sent_once [OF sample_second_texts s] by simp
  moreover have "be_sent (beat_run sample_beat_deps once_acts (new_beat [sample_once, sample_other] [])) = [asc ''a'']" by code_simp
  ultimately show ?thesis by blast
qed

text \<open>
  Without the access between the change and \<open>sync\<close>, the table is read again after the name of the task was popped and
  before its run was saved: the run is forgotten and the task sent twice.
\<close>

lemma sync_forgets_run:
  "be_sent (beat_run sample_beat_deps (filter (\<lambda>x. x \<noteq> (12500, Read_schedule)) once_acts)
     (new_beat [sample_once, sample_other] [])) = [asc ''a'', asc ''a'']"
  by code_simp

end
