(* ===== verification/Requests.thy ===== *)
theory Requests
  imports Rbac Parsers
begin

text \<open>
  What the middlewares and the exception handlers of the application work on: the request, the context
  of a request (\<open>common/context.py\<close>), the language of its messages (\<open>common/i18n.py\<close>,
  \<open>middleware/i18n_middleware.py\<close>), the handlers of \<open>common/exception/exception_handler.py\<close>, and where a
  request comes from (\<open>utils/request_parse.py\<close>, \<open>utils/trace_id.py\<close>).
\<close>

section \<open>Values\<close>

text \<open>
  The values of JSON, YAML and of the logged arguments. A float is kept as the text \<open>repr\<close> gives. The
  keys of a dictionary are distinct.
\<close>

datatype pyval =
    P_none
  | P_bool bool
  | P_int int
  | P_float ustr
  | P_text ustr
  | P_list "pyval list"
  | P_dict "(ustr \<times> pyval) list"

fun truthy :: "pyval \<Rightarrow> bool" where
  "truthy P_none = False"
| "truthy (P_bool b) = b"
| "truthy (P_int i) = (i \<noteq> 0)"
| "truthy (P_float s) = (s \<noteq> asc ''0.0'' \<and> s \<noteq> asc ''-0.0'')"
| "truthy (P_text s) = (s \<noteq> [])"
| "truthy (P_list xs) = (xs \<noteq> [])"
| "truthy (P_dict kvs) = (kvs \<noteq> [])"

text \<open>\<open>json.dumps(value, ensure_ascii=False)\<close>\<close>

definition hex_digit :: "nat \<Rightarrow> nat" where
  "hex_digit n = (if n < 10 then 48 + n else 87 + n)"

definition escape_char :: "nat \<Rightarrow> ustr" where
  "escape_char c =
     (if c = 34 then [92, 34] else if c = 92 then [92, 92]
      else if c = 8 then [92, 98] else if c = 9 then [92, 116] else if c = 10 then [92, 110]
      else if c = 12 then [92, 102] else if c = 13 then [92, 114]
      else if c < 32 then [92, 117, 48, 48, hex_digit (c div 16), hex_digit (c mod 16)]
      else [c])"

definition quoted :: "ustr \<Rightarrow> ustr" where
  "quoted s = 34 # concat (map escape_char s) @ [34]"

primrec dumps :: "pyval \<Rightarrow> ustr" where
  "dumps P_none = asc ''null''"
| "dumps (P_bool b) = (if b then asc ''true'' else asc ''false'')"
| "dumps (P_int i) = str_int i"
| "dumps (P_float s) = s"
| "dumps (P_text s) = quoted s"
| "dumps (P_list xs) = 91 # join (asc '', '') (map dumps xs) @ [93]"
| "dumps (P_dict kvs) =
     123 # join (asc '', '') (map (\<lambda>(k, v). quoted k @ asc '': '' @ v) (map (map_prod id dumps) kvs)) @ [125]"

text \<open>\<open>len(s.encode('utf-8'))\<close>, which fails when \<open>s\<close> has a lone surrogate.\<close>

definition encoded_size :: "ustr \<Rightarrow> int res" where
  "encoded_size s =
     (if list_all scalar s then Inr (int (length (utf8 s))) else Inl (OtherError (asc ''UnicodeEncodeError'')))"

section \<open>Requests and what they are served with\<close>

text \<open>
  A request with the headers the code reads. \<open>hq_query\<close> and \<open>hq_path_params\<close> are the dictionaries of
  the query string and of the path.
\<close>

record request =
  hq_method :: ustr
  hq_path :: ustr
  hq_query :: "(ustr \<times> ustr) list"
  hq_path_params :: "(ustr \<times> ustr) list"
  hq_authorization :: "ustr option"
  hq_accept_language :: "ustr option"
  hq_user_agent :: "ustr option"
  hq_real_ip :: "ustr option"
  hq_forwarded_for :: "ustr option"
  hq_content_type :: "ustr option"
  hq_content_length :: "ustr option"
  hq_origin :: "ustr option"
  hq_cookie :: "ustr option"
  hq_client :: "ustr option"
  hq_body :: bytes

datatype form_value = F_text ustr | F_upload "ustr option" "ustr option" "int option"

text \<open>A location as the services that look it up give it: country, region, city.\<close>

record ip_location =
  lo_country :: "ustr option"
  lo_region :: "ustr option"
  lo_city :: "ustr option"

text \<open>A value of \<open>error['ctx']\<close>: an exception with its text, or any other value.\<close>

datatype cval = C_exc ustr | C_val pyval

text \<open>
  The code outside the repository: \<open>request.json()\<close>, \<open>request.form()\<close>, \<open>bytes.decode('utf-8', 'ignore')\<close>, \<open>str\<close> of
  a value that is no text and of an exception, \<open>str.format\<close>, whether a status has a phrase, the
  parser of user agents, the two services of locations, and the summary of the route that matched.
\<close>

record req_deps =
  rd_json :: "bytes \<Rightarrow> pyval res"
  rd_form :: "request \<Rightarrow> (ustr \<times> form_value) list res"
  rd_decode :: "bytes \<Rightarrow> ustr"
  rd_str :: "pyval \<Rightarrow> ustr"
  rd_str_exc :: "exc \<Rightarrow> ustr"
  rd_format :: "ustr \<Rightarrow> (ustr \<times> cval) list \<Rightarrow> ustr res"
  rd_phrase :: "int \<Rightarrow> bool"
  rd_agent :: "ustr \<Rightarrow> ustr \<times> ustr \<times> ustr"
  rd_http :: "ustr \<Rightarrow> (int \<times> ip_location option) res"
  rd_search :: "ustr \<Rightarrow> ustr res"
  rd_summary :: "request \<Rightarrow> ustr"

datatype ip_parse = Parse_online | Parse_offline | Parse_false

record req_settings =
  ENVIRONMENT_DEV :: bool
  FASTAPI_API_V1_PATH :: ustr
  TOKEN_REQUEST_UNDERLYING_SECURITY :: bool
  IP_LOCATION_PARSE :: ip_parse
  IP_LOCATION_EXPIRE_SECONDS :: int
  OPERA_LOG_PATH_EXCLUDE :: "ustr list"
  OPERA_LOG_REDACT_KEYS :: "ustr list"
  OPERA_LOG_QUEUE_MAXSIZE :: nat
  OPERA_LOG_QUEUE_BATCH_CONSUME_SIZE :: nat
  OPERA_LOG_BODY_MAX_SIZE :: int
  I18N_DEFAULT_LANGUAGE :: ustr
  GRAFANA_METRICS_ENABLE :: bool

definition default_req_settings :: "bool \<Rightarrow> req_settings" where
  "default_req_settings dev =
     \<lparr>ENVIRONMENT_DEV = dev, FASTAPI_API_V1_PATH = asc ''/api/v1'',
      TOKEN_REQUEST_UNDERLYING_SECURITY = True,
      IP_LOCATION_PARSE = Parse_offline, IP_LOCATION_EXPIRE_SECONDS = 60 * 60 * 24,
      OPERA_LOG_PATH_EXCLUDE =
        [asc ''/favicon.ico'', asc ''/docs'', asc ''/redoc'', asc ''/openapi'', asc ''/api/v1/auth/login/swagger'',
         asc ''/api/v1/oauth2/github/callback'', asc ''/api/v1/oauth2/google/callback''],
      OPERA_LOG_REDACT_KEYS =
        [asc ''password'', asc ''old_password'', asc ''new_password'', asc ''confirm_password''],
      OPERA_LOG_QUEUE_MAXSIZE = 100000, OPERA_LOG_QUEUE_BATCH_CONSUME_SIZE = 100,
      OPERA_LOG_BODY_MAX_SIZE = 10240, I18N_DEFAULT_LANGUAGE = asc ''zh-CN'',
      GRAFANA_METRICS_ENABLE = \<not> dev\<rparr>"

section \<open>The context of a request\<close>

text \<open>What the exception handlers leave for the middlewares, under one key per handler.\<close>

datatype exc_key = K_authentication | K_http | K_validation | K_assertion | K_custom | K_unknown

record verror =
  ve_type :: ustr
  ve_field :: ustr
  ve_msg :: pyval
  ve_input :: ustr
  ve_ctx :: "(ustr \<times> cval) list option"

record content =
  ct_code :: int
  ct_msg :: ustr
  ct_errors :: "verror list option"

record rctx =
  cx_trace :: "ustr option"
  cx_language :: "ustr option"
  cx_ip :: "ustr option"
  cx_country :: "ustr option"
  cx_region :: "ustr option"
  cx_city :: "ustr option"
  cx_user_agent :: "ustr option"
  cx_os :: "ustr option"
  cx_browser :: "ustr option"
  cx_device :: "ustr option"
  cx_exc :: "exc_key \<Rightarrow> content option"

definition new_context :: "ustr option \<Rightarrow> rctx" where
  "new_context trace =
     \<lparr>cx_trace = trace, cx_language = None, cx_ip = None, cx_country = None, cx_region = None, cx_city = None,
      cx_user_agent = None, cx_os = None, cx_browser = None, cx_device = None, cx_exc = (\<lambda>_. None)\<rparr>"

definition set_exc :: "exc_key \<Rightarrow> content \<Rightarrow> rctx \<Rightarrow> rctx" where
  "set_exc k c cx = cx\<lparr>cx_exc := (cx_exc cx)(k := Some c)\<rparr>"

text \<open>\<open>get_request_trace_id\<close>; \<open>None\<close> is code that runs outside a request.\<close>

definition get_request_trace_id :: "rctx option \<Rightarrow> ustr" where
  "get_request_trace_id ctx =
     (case ctx of None \<Rightarrow> asc ''-'' | Some cx \<Rightarrow> (case cx_trace cx of None \<Rightarrow> asc ''-'' | Some t \<Rightarrow> t))"

text \<open>\<open>OtelTraceIdPlugin.process_request\<close>: the trace id of the current span when it is valid.\<close>

definition otel_trace_id :: "ustr option \<Rightarrow> ustr" where
  "otel_trace_id sp = (case sp of Some t \<Rightarrow> t | None \<Rightarrow> asc ''-'')"

section \<open>Languages\<close>

text \<open>
  Inside a request the language is \<open>ctx.language\<close>, which is \<open>None\<close> when nothing set it: \<open>__getattr__\<close> of the context
  raises nothing. The default language is only that of code outside a request.
\<close>

definition current_language :: "req_settings \<Rightarrow> rctx option \<Rightarrow> ustr option" where
  "current_language S ctx = (case ctx of None \<Rightarrow> Some (I18N_DEFAULT_LANGUAGE S) | Some cx \<Rightarrow> cx_language cx)"

type_synonym locales = "(ustr \<times> pyval) list"

fun walk :: "ustr list \<Rightarrow> pyval \<Rightarrow> pyval option" where
  "walk [] v = Some v"
| "walk (k # ks) (P_dict kvs) = (case map_of kvs k of None \<Rightarrow> None | Some v \<Rightarrow> walk ks v)"
| "walk (k # ks) _ = None"

definition format_value :: "req_deps \<Rightarrow> pyval \<Rightarrow> (ustr \<times> cval) list \<Rightarrow> pyval res" where
  "format_value D v kwargs =
     (case v of P_text s \<Rightarrow> rmap P_text (rd_format D s kwargs) | _ \<Rightarrow> Inl (OtherError (asc ''AttributeError'')))"

definition translate ::
  "req_deps \<Rightarrow> req_settings \<Rightarrow> locales \<Rightarrow> rctx option \<Rightarrow> ustr \<Rightarrow> pyval \<Rightarrow> (ustr \<times> cval) list \<Rightarrow> pyval res" where
  "translate D S L ctx key dflt kwargs =
     (case (case Option.bind (current_language S ctx) (map_of L) of
              Some tr \<Rightarrow> Inr (split_on 46 key, tr)
            | None \<Rightarrow> (case map_of L (I18N_DEFAULT_LANGUAGE S) of
                None \<Rightarrow> Inl KeyError
              | Some tr \<Rightarrow> Inr (split_on 46 (asc ''error.language_not_found''), tr))) of
        Inl e \<Rightarrow> Inl e
      | Inr (keys, tr) \<Rightarrow>
          (let translation = (case walk keys tr of
                 Some v \<Rightarrow> v
               | None \<Rightarrow> if hd keys = asc ''pydantic'' then P_none else P_text key)
           in rbind (if truthy translation \<and> kwargs \<noteq> [] then format_value D translation kwargs else Inr translation)
                (\<lambda>v. Inr (if truthy v then v else dflt))))"

text \<open>\<open>get_current_language\<close> of the middleware.\<close>

definition lang_mapping :: "(ustr \<times> ustr) list" where
  "lang_mapping =
     [(asc ''zh'', asc ''zh-CN''), (asc ''zh-cn'', asc ''zh-CN''), (asc ''zh-hans'', asc ''zh-CN''),
      (asc ''en'', asc ''en-US''), (asc ''en-us'', asc ''en-US'')]"

definition get_current_language :: "req_settings \<Rightarrow> auth_deps \<Rightarrow> request \<Rightarrow> ustr" where
  "get_current_language S A r =
     (case hq_accept_language r of
        None \<Rightarrow> I18N_DEFAULT_LANGUAGE S
      | Some accept \<Rightarrow>
          if accept = [] then I18N_DEFAULT_LANGUAGE S
          else (let lang = strip (d_lower A (hd (split_on 59 (hd (split_on 44 accept)))))
                in case map_of lang_mapping lang of Some l \<Rightarrow> l | None \<Rightarrow> lang))"

definition set_language :: "req_settings \<Rightarrow> auth_deps \<Rightarrow> request \<Rightarrow> rctx \<Rightarrow> rctx" where
  "set_language S A r cx =
     (let language = get_current_language S A r
      in if language \<noteq> [] \<and> current_language S (Some cx) \<noteq> Some language then cx\<lparr>cx_language := Some language\<rparr>
         else cx)"

section \<open>Responses\<close>

text \<open>\<open>CustomResponseCode\<close>, and a response with its body: the content of an error with its trace id, or
  what the endpoint answers.\<close>

datatype response_code = Code_200 | Code_400 | Code_500

fun code_value :: "response_code \<Rightarrow> int \<times> ustr" where
  "code_value Code_200 = (200, asc ''response.success'')"
| "code_value Code_400 = (400, asc ''response.error'')"
| "code_value Code_500 = (500, msg_internal)"

definition code_msg :: "req_deps \<Rightarrow> req_settings \<Rightarrow> locales \<Rightarrow> rctx option \<Rightarrow> response_code \<Rightarrow> ustr res" where
  "code_msg D S L ctx c =
     rbind (translate D S L ctx (snd (code_value c)) P_none [])
       (\<lambda>v. case v of P_text s \<Rightarrow> Inr s | _ \<Rightarrow> Inl (OtherError (asc ''ValidationError'')))"

text \<open>\<open>response_base.success\<close> and \<open>fail\<close> without data; a \<open>ResponseModel\<close> needs a text as message.\<close>

definition respond :: "req_deps \<Rightarrow> req_settings \<Rightarrow> locales \<Rightarrow> rctx option \<Rightarrow> response_code \<Rightarrow> content res" where
  "respond D S L ctx c =
     rmap (\<lambda>m. \<lparr>ct_code = fst (code_value c), ct_msg = m, ct_errors = None\<rparr>) (code_msg D S L ctx c)"

datatype body = Error_body content "ustr option" | Other_body ustr

record response =
  rs_status :: int
  rs_body :: body
  rs_headers :: "(ustr \<times> ustr) list"

section \<open>Exceptions and their handlers\<close>

text \<open>An exception that leaves an endpoint: one of \<open>exc\<close>, or a validation error of pydantic.\<close>

datatype raised = Raised exc | Invalid "verror list"

definition raised_name :: "raised \<Rightarrow> ustr" where
  "raised_name e = (case e of Raised x \<Rightarrow> exc_name x | Invalid _ \<Rightarrow> asc ''RequestValidationError'')"

text \<open>\<open>getattr(e, 'code', default)\<close> and \<open>getattr(e, 'msg', default)\<close>: the HTTP exceptions have no \<open>msg\<close>, and of them
  only \<open>TokenError\<close> has a \<open>code\<close>.\<close>

fun code_attr :: "exc \<Rightarrow> int option" where
  "code_attr (HTTPError c m) = None"
| "code_attr e = exc_code e"

fun msg_attr :: "exc \<Rightarrow> ustr option" where
  "msg_attr (RequestError _ m) = Some m"
| "msg_attr (ForbiddenError m) = Some m"
| "msg_attr (NotFoundError m) = Some m"
| "msg_attr (ServerError m) = Some m"
| "msg_attr (GatewayError m) = Some m"
| "msg_attr (AuthorizationError m) = Some m"
| "msg_attr (ConflictError m) = Some m"
| "msg_attr (CustomError _ m) = Some m"
| "msg_attr _ = None"

definition raised_code :: "raised \<Rightarrow> int" where
  "raised_code e = (case e of Raised x \<Rightarrow> (case code_attr x of Some c \<Rightarrow> c | None \<Rightarrow> 500) | Invalid _ \<Rightarrow> 500)"

definition raised_msg :: "req_deps \<Rightarrow> raised \<Rightarrow> ustr" where
  "raised_msg D e =
     (case e of
        Raised x \<Rightarrow> (case msg_attr x of Some m \<Rightarrow> m | None \<Rightarrow> rd_str_exc D x)
      | Invalid _ \<Rightarrow> rd_str_exc D (OtherError (asc ''ValidationError'')))"

definition get_exception_code :: "req_deps \<Rightarrow> int \<Rightarrow> int" where
  "get_exception_code D status = (if rd_phrase D status then status else 400)"

definition error_response :: "int \<Rightarrow> content \<Rightarrow> rctx option \<Rightarrow> response" where
  "error_response status c ctx =
     \<lparr>rs_status = status, rs_body = Error_body c (Some (get_request_trace_id ctx)), rs_headers = []\<rparr>"

text \<open>The content of an error that only development shows as it is.\<close>

definition content_for ::
  "req_deps \<Rightarrow> req_settings \<Rightarrow> locales \<Rightarrow> rctx option \<Rightarrow> response_code \<Rightarrow> int \<Rightarrow> ustr \<Rightarrow> content res" where
  "content_for D S L ctx c code msg =
     (if ENVIRONMENT_DEV S then Inr \<lparr>ct_code = code, ct_msg = msg, ct_errors = None\<rparr> else respond D S L ctx c)"

type_synonym handled = "rctx \<times> (raised + response)"

definition answered :: "exc_key \<Rightarrow> int \<Rightarrow> content res \<Rightarrow> rctx \<Rightarrow> handled" where
  "answered k status c cx =
     (case c of
        Inl e \<Rightarrow> (cx, Inl (Raised e))
      | Inr content \<Rightarrow> (set_exc k content cx, Inr (error_response status content (Some cx))))"

definition http_exception_handler ::
  "req_deps \<Rightarrow> req_settings \<Rightarrow> locales \<Rightarrow> int \<Rightarrow> ustr \<Rightarrow> rctx \<Rightarrow> handled" where
  "http_exception_handler D S L status detail cx =
     answered K_http (get_exception_code D status) (content_for D S L (Some cx) Code_400 status detail) cx"

definition assertion_error_handler ::
  "req_deps \<Rightarrow> req_settings \<Rightarrow> locales \<Rightarrow> rctx \<Rightarrow> handled" where
  "assertion_error_handler D S L cx =
     answered K_assertion 500 (content_for D S L (Some cx) Code_500 500 (rd_str_exc D AssertionError)) cx"

definition custom_exception_handler :: "req_deps \<Rightarrow> int \<Rightarrow> ustr \<Rightarrow> rctx \<Rightarrow> handled" where
  "custom_exception_handler D code msg cx =
     answered K_custom (get_exception_code D code) (Inr \<lparr>ct_code = code, ct_msg = msg, ct_errors = None\<rparr>) cx"

text \<open>The loop of \<open>_validation_exception_handler\<close> on one error, and the handler.\<close>

fun cval_true :: "cval \<Rightarrow> bool" where
  "cval_true (C_exc _) = True"
| "cval_true (C_val v) = truthy v"

fun requoted :: "cval \<Rightarrow> cval" where
  "requoted (C_exc s) = C_val (P_text (map (\<lambda>c. if c = 39 then 34 else c) s))"
| "requoted (C_val v) = C_val P_none"

definition localize :: "req_deps \<Rightarrow> req_settings \<Rightarrow> locales \<Rightarrow> rctx \<Rightarrow> verror \<Rightarrow> verror res" where
  "localize D S L cx err =
     (if current_language S (Some cx) = Some (asc ''en-US'') then Inr err
      else rbind (translate D S L (Some cx) (asc ''pydantic.'' @ ve_type err) P_none [])
        (\<lambda>custom. if \<not> truthy custom then Inr err
           else (case ve_ctx err of
               None \<Rightarrow> Inr (err\<lparr>ve_msg := custom\<rparr>)
             | Some ctx \<Rightarrow>
                 if ctx = [] then Inr (err\<lparr>ve_msg := custom\<rparr>)
                 else (case map_of ctx (asc ''error'') of
                     None \<Rightarrow> Inr err
                   | Some e \<Rightarrow>
                       if cval_true e
                       then rmap (\<lambda>m. err\<lparr>ve_msg := m, ve_ctx := Some (AList.update (asc ''error'') (requoted e) ctx)\<rparr>)
                              (format_value D custom ctx)
                       else Inr err))))"

definition pystr :: "req_deps \<Rightarrow> pyval \<Rightarrow> ustr" where
  "pystr D v = (case v of P_text s \<Rightarrow> s | _ \<Rightarrow> rd_str D v)"

definition validation_content :: "req_deps \<Rightarrow> req_settings \<Rightarrow> verror list \<Rightarrow> content res" where
  "validation_content D S errors =
     (case errors of
        [] \<Rightarrow> Inl IndexError
      | err # _ \<Rightarrow>
          (let message =
             (if ve_type err = asc ''json_invalid'' then msg_json_failed
              else if ENVIRONMENT_DEV S
              then ve_field err @ [32] @ pystr D (ve_msg err) @ msg_input_mid @ ve_input err
              else pystr D (ve_msg err))
           in Inr \<lparr>ct_code = 422, ct_msg = msg_param_pre @ message,
                   ct_errors = (if ENVIRONMENT_DEV S then Some errors else None)\<rparr>))"

definition validation_exception_handler ::
  "req_deps \<Rightarrow> req_settings \<Rightarrow> locales \<Rightarrow> verror list \<Rightarrow> rctx \<Rightarrow> handled" where
  "validation_exception_handler D S L errors cx =
     answered K_validation 422 (rbind (traverse (localize D S L cx) errors) (validation_content D S)) cx"

text \<open>
  The handler registered for the class of an exception; every other exception goes to the handler of
  \<open>Exception\<close>.
\<close>

fun handler_of :: "req_deps \<Rightarrow> req_settings \<Rightarrow> locales \<Rightarrow> raised \<Rightarrow> (rctx \<Rightarrow> handled) option" where
  "handler_of D S L (Invalid errors) = Some (validation_exception_handler D S L errors)"
| "handler_of D S L (Raised AssertionError) = Some (assertion_error_handler D S L)"
| "handler_of D S L (Raised (HTTPError c m)) = Some (http_exception_handler D S L c m)"
| "handler_of D S L (Raised (TokenError m)) = Some (http_exception_handler D S L 401 m)"
| "handler_of D S L (Raised e) =
     (case (exc_code e, msg_attr e) of
        (Some c, Some m) \<Rightarrow> Some (custom_exception_handler D c m)
      | _ \<Rightarrow> None)"

text \<open>
  The handlers of \<open>Exception\<close> and of status 500. They may run outside a request, where the assignment to
  the context raises.
\<close>

definition is_custom :: "raised \<Rightarrow> (int \<times> ustr) option" where
  "is_custom e =
     (case e of
        Raised x \<Rightarrow> (case (exc_code x, msg_attr x) of (Some c, Some m) \<Rightarrow> Some (c, m) | _ \<Rightarrow> None)
      | Invalid _ \<Rightarrow> None)"

definition outermost ::
  "exc_key \<Rightarrow> int \<Rightarrow> content res \<Rightarrow> (response \<Rightarrow> response) \<Rightarrow> rctx option \<Rightarrow> rctx option \<times> (raised + response)" where
  "outermost k status c finish ctx =
     (case c of
        Inl e \<Rightarrow> (ctx, Inl (Raised e))
      | Inr content \<Rightarrow>
          (case ctx of
             None \<Rightarrow> (None, Inl (Raised (OtherError (asc ''ContextDoesNotExistError''))))
           | Some cx \<Rightarrow> (Some (set_exc k content cx), Inr (finish (error_response status content ctx)))))"

definition all_unknown_exception_handler ::
  "req_deps \<Rightarrow> req_settings \<Rightarrow> locales \<Rightarrow> ustr \<Rightarrow> rctx option \<Rightarrow> rctx option \<times> (raised + response)" where
  "all_unknown_exception_handler D S L text_of_exc ctx =
     outermost K_unknown 500 (content_for D S L ctx Code_500 500 text_of_exc) id ctx"

text \<open>The CORS middleware built by the handler: its headers for every answer, and the origins it allows.\<close>

record cors =
  co_simple :: "(ustr \<times> ustr) list"
  co_all :: bool
  co_allowed :: "ustr \<Rightarrow> bool"

definition cors_headers :: "cors \<Rightarrow> request \<Rightarrow> response \<Rightarrow> response" where
  "cors_headers C r resp =
     (case hq_origin r of
        None \<Rightarrow> resp
      | Some origin \<Rightarrow>
          if origin = [] then resp
          else (let hs = rs_headers resp @ co_simple C
                in if co_all C \<and> hq_cookie r \<noteq> None
                   then resp\<lparr>rs_headers := AList.update (asc ''Access-Control-Allow-Origin'') origin hs\<rparr>
                   else if \<not> co_all C \<and> co_allowed C origin
                   then resp\<lparr>rs_headers := AList.update (asc ''Access-Control-Allow-Origin'') origin hs
                                @ [(asc ''Vary'', asc ''Origin'')]\<rparr>
                   else resp\<lparr>rs_headers := hs\<rparr>))"

definition cors_500_handler ::
  "req_deps \<Rightarrow> req_settings \<Rightarrow> locales \<Rightarrow> cors \<Rightarrow> request \<Rightarrow> raised \<Rightarrow> ustr \<Rightarrow> rctx option
     \<Rightarrow> rctx option \<times> (raised + response)" where
  "cors_500_handler D S L C r e text_of_exc ctx =
     (case is_custom e of
        Some (code, msg) \<Rightarrow>
          outermost K_custom code (Inr \<lparr>ct_code = code, ct_msg = msg, ct_errors = None\<rparr>) (cors_headers C r) ctx
      | None \<Rightarrow>
          outermost K_unknown 500 (content_for D S L ctx Code_500 500 text_of_exc) (cors_headers C r) ctx)"

section \<open>Where a request comes from\<close>

definition get_request_ip :: "request \<Rightarrow> ustr" where
  "get_request_ip r =
     (case hq_real_ip r of
        Some (c # s) \<Rightarrow> c # s
      | _ \<Rightarrow> (case hq_forwarded_for r of
          Some (c # forwarded) \<Rightarrow> hd (split_on 44 (c # forwarded))
        | _ \<Rightarrow> (case hq_client r of
            None \<Rightarrow> asc ''127.0.0.1''
          | Some host \<Rightarrow> if host = asc ''testclient'' then asc ''127.0.0.1'' else host)))"

definition get_location_online :: "req_deps \<Rightarrow> ustr \<Rightarrow> ip_location option" where
  "get_location_online D ip =
     (case rd_http D ip of Inl e \<Rightarrow> None | Inr (status, location) \<Rightarrow> if status = 200 then location else None)"

definition zero_none :: "ustr \<Rightarrow> ustr option" where
  "zero_none s = (if s = asc ''0'' then None else Some s)"

definition get_location_offline :: "req_deps \<Rightarrow> ustr \<Rightarrow> ip_location option" where
  "get_location_offline D ip =
     (case rd_search D ip of
        Inl e \<Rightarrow> None
      | Inr data \<Rightarrow>
          (case split_on 124 data of
             country # region # city # _ \<Rightarrow>
               Some \<lparr>lo_country = zero_none country, lo_region = zero_none region, lo_city = zero_none city\<rparr>
           | _ \<Rightarrow> None))"

record ip_info =
  ii_ip :: ustr
  ii_country :: "ustr option"
  ii_region :: "ustr option"
  ii_city :: "ustr option"

definition location_key :: "ustr \<Rightarrow> ustr" where
  "location_key ip = asc ''fba:ip:location:'' @ ip"

text \<open>A Python f-string renders an absent value as the text \<open>None\<close>.\<close>

definition rendered :: "ustr option \<Rightarrow> ustr" where
  "rendered x = (case x of None \<Rightarrow> asc ''None'' | Some s \<Rightarrow> s)"

definition location_text :: "ip_location \<Rightarrow> ustr" where
  "location_text l = rendered (lo_country l) @ [124] @ rendered (lo_region l) @ [124] @ rendered (lo_city l)"

definition find_location :: "req_deps \<Rightarrow> req_settings \<Rightarrow> ustr \<Rightarrow> ip_location option" where
  "find_location D S ip =
     (case IP_LOCATION_PARSE S of
        Parse_online \<Rightarrow> get_location_online D ip
      | Parse_offline \<Rightarrow> get_location_offline D ip
      | Parse_false \<Rightarrow> None)"

definition parse_ip_info :: "req_deps \<Rightarrow> req_settings \<Rightarrow> int \<Rightarrow> request \<Rightarrow> redis \<Rightarrow> redis \<times> ip_info res" where
  "parse_ip_info D S now r st =
     (let ip = get_request_ip r
      in case r_get now (location_key ip) st of
           Some (c # location) \<Rightarrow>
             (st, case split_on 124 (c # location) of
                    [country, region, city] \<Rightarrow>
                      Inr \<lparr>ii_ip = ip, ii_country = Some country, ii_region = Some region, ii_city = Some city\<rparr>
                  | _ \<Rightarrow> Inl (ValueError (c # location)))
         | _ \<Rightarrow>
             (case find_location D S ip of
                None \<Rightarrow> (st, Inr \<lparr>ii_ip = ip, ii_country = None, ii_region = None, ii_city = None\<rparr>)
              | Some l \<Rightarrow>
                  (r_set now (location_key ip) (location_text l) (Some (IP_LOCATION_EXPIRE_SECONDS S)) st,
                   Inr \<lparr>ii_ip = ip, ii_country = lo_country l, ii_region = lo_region l, ii_city = lo_city l\<rparr>)))"

record agent_info =
  ag_user_agent :: "ustr option"
  ag_os :: "ustr option"
  ag_browser :: "ustr option"
  ag_device :: "ustr option"

definition parse_user_agent_info :: "req_deps \<Rightarrow> request \<Rightarrow> agent_info" where
  "parse_user_agent_info D r =
     (case hq_user_agent r of
        Some (c # agent) \<Rightarrow>
          (case rd_agent D (c # agent) of (os, browser, device) \<Rightarrow>
             \<lparr>ag_user_agent = Some (c # agent), ag_os = Some os, ag_browser = Some browser, ag_device = Some device\<rparr>)
      | ua \<Rightarrow> \<lparr>ag_user_agent = ua, ag_os = None, ag_browser = None, ag_device = None\<rparr>)"

end
