(* ===== verification/Pipeline.thy ===== *)
theory Pipeline
  imports Requests
begin

text \<open>
  The middlewares of \<open>backend/middleware\<close> in the order \<open>core/registrar.py\<close> adds them, the queue of
  operation logs with its consumer (\<open>common/queue.py\<close>), and the table it fills. A middleware is a function of the next
  one; what the framework does between them is an argument.
\<close>

section \<open>Operation logs\<close>

record opera_log =
  ol_trace_id :: ustr
  ol_username :: "ustr option"
  ol_method :: ustr
  ol_title :: ustr
  ol_path :: ustr
  ol_ip :: ustr
  ol_country :: "ustr option"
  ol_region :: "ustr option"
  ol_city :: "ustr option"
  ol_user_agent :: "ustr option"
  ol_os :: "ustr option"
  ol_browser :: "ustr option"
  ol_device :: "ustr option"
  ol_args :: "(ustr \<times> pyval) list option"
  ol_status :: int
  ol_code :: ustr
  ol_msg :: ustr
  ol_cost_time :: int
  ol_opera_time :: int

text \<open>
  The world of a request: Redis and the database, the context, the entries put into the queue so far,
  and the metrics. The counters are those of \<open>prometheus/fastapi.py\<close>, per method and path.
\<close>

type_synonym endpoint_id = "ustr \<times> ustr"

record metrics =
  mt_in_progress :: "endpoint_id \<Rightarrow> int"
  mt_requests :: "endpoint_id \<Rightarrow> nat"
  mt_costs :: "endpoint_id \<Rightarrow> nat"
  mt_exceptions :: "endpoint_id \<times> ustr \<Rightarrow> nat"
  mt_responses :: "endpoint_id \<times> int \<Rightarrow> nat"

record pworld =
  pw_a :: aworld
  pw_ctx :: rctx
  pw_log :: "opera_log list"
  pw_metrics :: metrics

definition incr :: "'k \<Rightarrow> ('k \<Rightarrow> nat) \<Rightarrow> 'k \<Rightarrow> nat" where
  "incr k f = f(k := f k + 1)"

type_synonym outcome = "raised + response"
type_synonym app = "user_info option \<Rightarrow> request \<Rightarrow> pworld \<Rightarrow> pworld \<times> outcome"

section \<open>The arguments of a request\<close>

definition get_content_length :: "request \<Rightarrow> int option res" where
  "get_content_length r =
     (case hq_content_length r of
        None \<Rightarrow> Inr None
      | Some s \<Rightarrow> if s = [] then Inr None
                  else (case parse_int s of None \<Rightarrow> Inl (ValueError s) | Some n \<Rightarrow> Inr (Some n)))"

definition build_truncated_body :: "int option \<Rightarrow> int \<Rightarrow> (ustr \<times> pyval) list" where
  "build_truncated_body original_size max_size =
     [(asc ''_truncated'', P_bool True),
      (asc ''_original_size'', case original_size of None \<Rightarrow> P_none | Some n \<Rightarrow> P_int n),
      (asc ''_max_size'', P_int max_size),
      (asc ''_message'', P_text msg_truncated)]"

definition desensitization :: "req_settings \<Rightarrow> (ustr \<times> pyval) list \<Rightarrow> (ustr \<times> pyval) list" where
  "desensitization S args =
     map (\<lambda>(k, v). (k, if List.member (OPERA_LOG_REDACT_KEYS S) k then P_text (asc ''[REDACTED]'') else v)) args"

definition text_values :: "(ustr \<times> ustr) list \<Rightarrow> (ustr \<times> pyval) list" where
  "text_values kvs = map (\<lambda>(k, v). (k, P_text v)) kvs"

definition opt_text :: "ustr option \<Rightarrow> pyval" where
  "opt_text x = (case x of None \<Rightarrow> P_none | Some s \<Rightarrow> P_text s)"

fun form_field :: "form_value \<Rightarrow> pyval" where
  "form_field (F_text s) = P_text s"
| "form_field (F_upload filename content_type n) =
     P_dict [(asc ''filename'', opt_text filename), (asc ''content_type'', opt_text content_type),
       (asc ''size'', case n of None \<Rightarrow> P_none | Some i \<Rightarrow> P_int i)]"

definition content_types :: "auth_deps \<Rightarrow> request \<Rightarrow> ustr list" where
  "content_types A r =
     map (\<lambda>item. d_lower A (strip item)) (split_on 59 (case hq_content_type r of None \<Rightarrow> [] | Some s \<Rightarrow> s))"

definition is_multipart :: "auth_deps \<Rightarrow> request \<Rightarrow> bool" where
  "is_multipart A r = List.member (content_types A r) (asc ''multipart/form-data'')"

definition is_form :: "auth_deps \<Rightarrow> request \<Rightarrow> bool" where
  "is_form A r \<longleftrightarrow> is_multipart A r \<or> List.member (content_types A r) (asc ''application/x-www-form-urlencoded'')"

definition is_json :: "auth_deps \<Rightarrow> request \<Rightarrow> bool" where
  "is_json A r = List.member (content_types A r) (asc ''application/json'')"

definition url_args :: "req_settings \<Rightarrow> request \<Rightarrow> (ustr \<times> pyval) list" where
  "url_args S r =
     (if hq_query r = [] then []
      else [(asc ''query_params'', P_dict (desensitization S (text_values (hq_query r))))])
     @ (if hq_path_params r = [] then []
        else [(asc ''path_params'', P_dict (desensitization S (text_values (hq_path_params r))))])"

definition json_args :: "req_deps \<Rightarrow> req_settings \<Rightarrow> pyval \<Rightarrow> (ustr \<times> pyval) list" where
  "json_args D S json =
     (case json of
        P_dict kvs \<Rightarrow> [(asc ''json'', P_dict (desensitization S kvs))]
      | _ \<Rightarrow> [(asc ''data'', P_text (pystr D json))])"

definition body_args :: "req_deps \<Rightarrow> req_settings \<Rightarrow> auth_deps \<Rightarrow> request \<Rightarrow> (ustr \<times> pyval) list res" where
  "body_args D S A r =
     (if hq_body r = [] \<or> is_form A r then Inr []
      else if \<not> is_json A r then Inr [(asc ''data'', P_text (rd_decode D (hq_body r)))]
      else rmap (json_args D S) (rd_json D (hq_body r)))"

definition form_args :: "req_deps \<Rightarrow> req_settings \<Rightarrow> auth_deps \<Rightarrow> request \<Rightarrow> (ustr \<times> pyval) list res" where
  "form_args D S A r =
     (if \<not> is_form A r then Inr []
      else rmap (\<lambda>form. if form = [] then []
             else [(if is_multipart A r then asc ''form-data'' else asc ''x-www-form-urlencoded'',
                    P_dict (desensitization S (map (\<lambda>(k, v). (k, form_field v)) form)))]) (rd_form D r))"

text \<open>Arguments that cannot be rendered stay as they are.\<close>

definition bounded_args :: "req_settings \<Rightarrow> (ustr \<times> pyval) list \<Rightarrow> (ustr \<times> pyval) list" where
  "bounded_args S args =
     (if args = [] then []
      else (case encoded_size (dumps (P_dict args)) of
              Inl e \<Rightarrow> args
            | Inr n \<Rightarrow> if n > OPERA_LOG_BODY_MAX_SIZE S then build_truncated_body (Some n) (OPERA_LOG_BODY_MAX_SIZE S)
                       else args))"

definition or_none :: "'a list \<Rightarrow> 'a list option" where
  "or_none xs = (if xs = [] then None else Some xs)"

definition get_request_args ::
  "req_deps \<Rightarrow> req_settings \<Rightarrow> auth_deps \<Rightarrow> request \<Rightarrow> (ustr \<times> pyval) list option res" where
  "get_request_args D S A r =
     rbind (get_content_length r) (\<lambda>content_length.
       let max_size = OPERA_LOG_BODY_MAX_SIZE S;
           skipped = Inr (or_none (url_args S r @ [(asc ''body'', P_dict (build_truncated_body content_length max_size))]))
       in if (case content_length of None \<Rightarrow> False | Some n \<Rightarrow> n > max_size) then skipped
          else if is_multipart A r \<and> content_length = None then skipped
          else rbind (body_args D S A r) (\<lambda>body_part.
                 rmap (\<lambda>form_part. or_none (bounded_args S (url_args S r @ body_part @ form_part)))
                   (form_args D S A r)))"

section \<open>The middleware of operation logs\<close>

definition is_api :: "req_settings \<Rightarrow> request \<Rightarrow> bool" where
  "is_api S r = prefix (FASTAPI_API_V1_PATH S) (hq_path r)"

definition should_log :: "req_settings \<Rightarrow> request \<Rightarrow> bool" where
  "should_log S r \<longleftrightarrow> is_api S r \<and> \<not> List.member (OPERA_LOG_PATH_EXCLUDE S) (hq_path r)"

definition first_exc :: "exc_key list \<Rightarrow> rctx \<Rightarrow> content option" where
  "first_exc keys cx = (case List.map_filter (cx_exc cx) keys of [] \<Rightarrow> None | c # _ \<Rightarrow> Some c)"

definition logged_outcome :: "req_deps \<Rightarrow> rctx \<Rightarrow> outcome \<Rightarrow> int \<times> int \<times> ustr" where
  "logged_outcome D cx out =
     (case out of
        Inl e \<Rightarrow> (0, raised_code e, raised_msg D e)
      | Inr _ \<Rightarrow> (case first_exc [K_http, K_validation, K_assertion, K_custom, K_unknown] cx of
            None \<Rightarrow> (1, 200, asc ''Success'')
          | Some c \<Rightarrow> (0, ct_code c, ct_msg c)))"

definition log_entry ::
  "req_deps \<Rightarrow> request \<Rightarrow> user_info option \<Rightarrow> int \<Rightarrow> int \<Rightarrow> (ustr \<times> pyval) list option \<Rightarrow> rctx \<Rightarrow> outcome
     \<Rightarrow> opera_log" where
  "log_entry D r user start elapsed args cx out =
     (case logged_outcome D cx out of (status, code, msg) \<Rightarrow>
        \<lparr>ol_trace_id = get_request_trace_id (Some cx), ol_username = map_option ui_username user,
         ol_method = hq_method r, ol_title = rd_summary D r, ol_path = hq_path r,
         ol_ip = rendered (cx_ip cx), ol_country = cx_country cx, ol_region = cx_region cx, ol_city = cx_city cx,
         ol_user_agent = cx_user_agent cx, ol_os = cx_os cx, ol_browser = cx_browser cx, ol_device = cx_device cx,
         ol_args = args, ol_status = status, ol_code = str_int code, ol_msg = msg,
         ol_cost_time = elapsed, ol_opera_time = start\<rparr>)"

definition opera_dispatch ::
  "req_deps \<Rightarrow> req_settings \<Rightarrow> auth_deps \<Rightarrow> int \<Rightarrow> int \<Rightarrow> user_info option \<Rightarrow> request
     \<Rightarrow> (pworld \<Rightarrow> pworld \<times> outcome) \<Rightarrow> pworld \<Rightarrow> pworld \<times> outcome" where
  "opera_dispatch D S A start elapsed user r call_next w =
     (case get_request_args D S A r of
        Inl e \<Rightarrow> (w, Inl (Raised e))
      | Inr args \<Rightarrow>
          (case call_next w of (w1, out) \<Rightarrow>
             (if should_log S r \<and> hq_method r \<noteq> asc ''OPTIONS''
              then w1\<lparr>pw_log := pw_log w1 @ [log_entry D r user start elapsed args (pw_ctx w1) out]\<rparr>
              else w1, out)))"

section \<open>The other middlewares\<close>

definition state_dispatch ::
  "req_deps \<Rightarrow> req_settings \<Rightarrow> int \<Rightarrow> request \<Rightarrow> (pworld \<Rightarrow> pworld \<times> outcome) \<Rightarrow> pworld \<Rightarrow> pworld \<times> outcome" where
  "state_dispatch D S now r call_next w =
     (case parse_ip_info D S now r (red (pw_a w)) of
        (st, Inl e) \<Rightarrow> (w\<lparr>pw_a := (pw_a w)\<lparr>red := st\<rparr>\<rparr>, Inl (Raised e))
      | (st, Inr ip) \<Rightarrow>
          (let ag = parse_user_agent_info D r
           in call_next (w\<lparr>pw_a := (pw_a w)\<lparr>red := st\<rparr>,
                pw_ctx := (pw_ctx w)\<lparr>cx_ip := Some (ii_ip ip), cx_country := ii_country ip, cx_region := ii_region ip,
                  cx_city := ii_city ip, cx_user_agent := ag_user_agent ag, cx_os := ag_os ag,
                  cx_browser := ag_browser ag, cx_device := ag_device ag\<rparr>\<rparr>)))"

definition i18n_dispatch ::
  "req_settings \<Rightarrow> auth_deps \<Rightarrow> request \<Rightarrow> (pworld \<Rightarrow> pworld \<times> outcome) \<Rightarrow> pworld \<Rightarrow> pworld \<times> outcome" where
  "i18n_dispatch S A r call_next w = call_next (w\<lparr>pw_ctx := set_language S A r (pw_ctx w)\<rparr>)"

text \<open>Authentication: \<open>None\<close> is an anonymous request. The paths that need no token are those of the authorisation.\<close>

record auth_error =
  ae_code :: int
  ae_msg :: ustr

definition extract_token :: "rbac_settings \<Rightarrow> auth_deps \<Rightarrow> request \<Rightarrow> ustr option" where
  "extract_token R A r =
     (case hq_authorization r of
        None \<Rightarrow> None
      | Some authorization \<Rightarrow>
          if authorization = [] then None
          else if whitelisted R (hq_path r) then None
          else (case d_scheme A authorization of (scheme, token) \<Rightarrow>
                  if d_lower A scheme \<noteq> asc ''bearer'' then None else Some token))"

text \<open>When the underlying check is off, a bad token leaves the request anonymous.\<close>

definition authenticate ::
  "req_settings \<Rightarrow> rbac_settings \<Rightarrow> auth_deps \<Rightarrow> auth_settings \<Rightarrow> int \<Rightarrow> request \<Rightarrow> pworld
     \<Rightarrow> pworld \<times> (auth_error + user_info option)" where
  "authenticate S R A AS now r w =
     (case extract_token R A r of
        None \<Rightarrow> (w, Inr None)
      | Some token \<Rightarrow>
          (case jwt_authentication A AS now token (pw_a w) of
             (a, Inr user) \<Rightarrow> (w\<lparr>pw_a := a\<rparr>, Inr (Some user))
           | (a, Inl e) \<Rightarrow>
               (w\<lparr>pw_a := a\<rparr>,
                case e of
                  TokenError m \<Rightarrow>
                    if TOKEN_REQUEST_UNDERLYING_SECURITY S then Inl \<lparr>ae_code = 401, ae_msg = m\<rparr> else Inr None
                | _ \<Rightarrow> Inl \<lparr>ae_code = (case code_attr e of Some c \<Rightarrow> c | None \<Rightarrow> 500),
                           ae_msg = (case msg_attr e of Some m \<Rightarrow> m | None \<Rightarrow> asc ''Internal Server Error'')\<rparr>)))"

definition auth_exception_handler :: "auth_error \<Rightarrow> pworld \<Rightarrow> pworld \<times> response" where
  "auth_exception_handler e w =
     (let c = \<lparr>ct_code = ae_code e, ct_msg = ae_msg e, ct_errors = None\<rparr>
      in (w\<lparr>pw_ctx := set_exc K_authentication c (pw_ctx w)\<rparr>,
          \<lparr>rs_status = ae_code e, rs_body = Error_body c None, rs_headers = []\<rparr>))"

text \<open>Access and its metrics.\<close>

definition exc_type_name :: "exc_key \<Rightarrow> ustr" where
  "exc_type_name k =
     (case k of
        K_authentication \<Rightarrow> asc ''AuthenticationError''
      | K_http \<Rightarrow> asc ''HTTPException''
      | K_validation \<Rightarrow> asc ''RequestValidationError''
      | K_assertion \<Rightarrow> asc ''AssertionError''
      | K_custom \<Rightarrow> asc ''BaseExceptionError''
      | K_unknown \<Rightarrow> asc ''Exception'')"

definition first_key :: "rctx \<Rightarrow> exc_key option" where
  "first_key cx =
     find (\<lambda>k. cx_exc cx k \<noteq> None) [K_authentication, K_http, K_validation, K_assertion, K_custom, K_unknown]"

definition started :: "endpoint_id \<Rightarrow> metrics \<Rightarrow> metrics" where
  "started k m =
     m\<lparr>mt_in_progress := (mt_in_progress m)(k := mt_in_progress m k + 1), mt_requests := incr k (mt_requests m)\<rparr>"

definition observed :: "endpoint_id \<Rightarrow> ustr option \<Rightarrow> int \<Rightarrow> metrics \<Rightarrow> metrics" where
  "observed k exception_type status m =
     m\<lparr>mt_exceptions := (case exception_type of None \<Rightarrow> mt_exceptions m | Some t \<Rightarrow> incr (k, t) (mt_exceptions m)),
       mt_costs := incr k (mt_costs m),
       mt_responses := incr (k, status) (mt_responses m)\<rparr>"

definition finished :: "endpoint_id \<Rightarrow> metrics \<Rightarrow> metrics" where
  "finished k m = m\<lparr>mt_in_progress := (mt_in_progress m)(k := mt_in_progress m k - 1)\<rparr>"

definition access_dispatch ::
  "req_settings \<Rightarrow> request \<Rightarrow> (pworld \<Rightarrow> pworld \<times> outcome) \<Rightarrow> pworld \<Rightarrow> pworld \<times> outcome" where
  "access_dispatch S r call_next w =
     (let k = (hq_method r, hq_path r)
      in if \<not> (GRAFANA_METRICS_ENABLE S \<and> is_api S r) then call_next w
         else (case call_next (w\<lparr>pw_metrics := started k (pw_metrics w)\<rparr>) of (w1, out) \<Rightarrow>
           (w1\<lparr>pw_metrics := finished k
                (case out of
                   Inl e \<Rightarrow> observed k (Some (raised_name e)) (raised_code e) (pw_metrics w1)
                 | Inr resp \<Rightarrow>
                     (case first_key (pw_ctx w1) of
                        None \<Rightarrow> observed k None (rs_status resp) (pw_metrics w1)
                      | Some key \<Rightarrow>
                          observed k (Some (exc_type_name key))
                            (case cx_exc (pw_ctx w1) key of
                               None \<Rightarrow> rs_status resp
                             | Some c \<Rightarrow> if ct_code c = 0 then rs_status resp else ct_code c)
                            (pw_metrics w1)))\<rparr>, out)))"

section \<open>The whole stack\<close>

text \<open>
  The framework's part: the authentication middleware runs the backend it is given, and answers with
  \<open>on_error\<close> when the backend fails; the exception middleware runs the handler of an exception, when one is
  registered for its class. Both are arguments, with what they are documented to do.
\<close>

type_synonym auth_mw =
  "(request \<Rightarrow> pworld \<Rightarrow> pworld \<times> (auth_error + user_info option))
     \<Rightarrow> (auth_error \<Rightarrow> pworld \<Rightarrow> pworld \<times> response)
     \<Rightarrow> (user_info option \<Rightarrow> pworld \<Rightarrow> pworld \<times> outcome) \<Rightarrow> request \<Rightarrow> pworld \<Rightarrow> pworld \<times> outcome"

type_synonym exc_mw =
  "(raised \<Rightarrow> (rctx \<Rightarrow> handled) option) \<Rightarrow> (pworld \<Rightarrow> pworld \<times> outcome) \<Rightarrow> pworld \<Rightarrow> pworld \<times> outcome"

definition runs_backend :: "auth_mw \<Rightarrow> bool" where
  "runs_backend mw \<longleftrightarrow>
     (\<forall>backend on_error next r w. mw backend on_error next r w =
        (case backend r w of
           (w1, Inl e) \<Rightarrow> (case on_error e w1 of (w2, resp) \<Rightarrow> (w2, Inr resp))
         | (w1, Inr user) \<Rightarrow> next user w1))"

definition runs_handlers :: "exc_mw \<Rightarrow> bool" where
  "runs_handlers mw \<longleftrightarrow>
     (\<forall>handlers next w. mw handlers next w =
        (case next w of
           (w1, Inr resp) \<Rightarrow> (w1, Inr resp)
         | (w1, Inl e) \<Rightarrow>
             (case handlers e of
                None \<Rightarrow> (w1, Inl e)
              | Some h \<Rightarrow> (case h (pw_ctx w1) of (cx, out) \<Rightarrow> (w1\<lparr>pw_ctx := cx\<rparr>, out)))))"

record stack =
  sk_auth :: auth_mw
  sk_exc :: exc_mw
  sk_endpoint :: "user_info option \<Rightarrow> request \<Rightarrow> aworld \<Rightarrow> aworld \<times> outcome"

definition call_endpoint :: "stack \<Rightarrow> user_info option \<Rightarrow> request \<Rightarrow> pworld \<Rightarrow> pworld \<times> outcome" where
  "call_endpoint K user r w = (case sk_endpoint K user r (pw_a w) of (a, out) \<Rightarrow> (w\<lparr>pw_a := a\<rparr>, out))"

record config =
  cf_deps :: req_deps
  cf_settings :: req_settings
  cf_rbac :: rbac_settings
  cf_auth :: auth_deps
  cf_auth_settings :: auth_settings
  cf_locales :: locales

definition app_stack ::
  "config \<Rightarrow> stack \<Rightarrow> int \<Rightarrow> int \<Rightarrow> ustr option \<Rightarrow> request \<Rightarrow> pworld \<Rightarrow> pworld \<times> outcome" where
  "app_stack C K now elapsed trace r w =
     (let D = cf_deps C; S = cf_settings C; A = cf_auth C in
      access_dispatch S r
        (i18n_dispatch S A r
          (sk_auth K (authenticate S (cf_rbac C) A (cf_auth_settings C) now) auth_exception_handler
            (\<lambda>user. state_dispatch D S now r
              (opera_dispatch D S A now elapsed user r
                (sk_exc K (handler_of D S (cf_locales C)) (call_endpoint K user r))))
            r))
        (w\<lparr>pw_ctx := new_context trace\<rparr>))"

section \<open>The queue and its consumer\<close>

text \<open>The widths of the columns of \<open>sys_opera_log\<close>; the database refuses a longer text.\<close>

definition at_most :: "nat \<Rightarrow> ustr option \<Rightarrow> bool" where
  "at_most n x \<longleftrightarrow> (case x of None \<Rightarrow> True | Some s \<Rightarrow> length s \<le> n)"

definition fits_table :: "opera_log \<Rightarrow> bool" where
  "fits_table e \<longleftrightarrow>
     length (ol_trace_id e) \<le> 32 \<and> at_most 64 (ol_username e) \<and> length (ol_method e) \<le> 32
     \<and> length (ol_title e) \<le> 256 \<and> length (ol_path e) \<le> 512 \<and> length (ol_ip e) \<le> 64
     \<and> at_most 64 (ol_country e) \<and> at_most 64 (ol_region e) \<and> at_most 64 (ol_city e)
     \<and> at_most 512 (ol_user_agent e) \<and> at_most 64 (ol_os e) \<and> at_most 64 (ol_browser e)
     \<and> at_most 64 (ol_device e) \<and> length (ol_code e) \<le> 32"

text \<open>The table: each entry with its id and the time of its creation.\<close>

type_synonym log_table = "(int \<times> int \<times> opera_log) list"

definition next_log_id :: "log_table \<Rightarrow> int" where
  "next_log_id rows = fold max (map fst rows) 0 + 1"

fun insert_logs :: "int \<Rightarrow> opera_log list \<Rightarrow> log_table \<Rightarrow> log_table" where
  "insert_logs now [] rows = rows"
| "insert_logs now (e # es) rows = insert_logs now es (rows @ [(next_log_id rows, now, e)])"

text \<open>\<open>bulk_create\<close> in a transaction of its own: all the entries or none.\<close>

definition bulk_create :: "int \<Rightarrow> opera_log list \<Rightarrow> log_table \<Rightarrow> log_table \<times> unit res" where
  "bulk_create now logs rows =
     (if list_all fits_table logs then (insert_logs now logs rows, Inr ()) else (rows, Inl SQLAlchemyError))"

definition log_create :: "int \<Rightarrow> opera_log \<Rightarrow> log_table \<Rightarrow> log_table \<times> unit res" where
  "log_create now e rows =
     (if fits_table e then (rows @ [(next_log_id rows, now, e)], Inr ()) else (rows, Inl SQLAlchemyError))"

definition log_delete :: "int list \<Rightarrow> log_table \<Rightarrow> log_table \<times> int" where
  "log_delete pks rows =
     (filter (\<lambda>row. \<not> List.member pks (fst row)) rows, int (length (filter (\<lambda>row. List.member pks (fst row)) rows)))"

definition log_delete_all :: "log_table \<Rightarrow> log_table" where
  "log_delete_all rows = []"

text \<open>
  The queue, the batch in the consumer's hands, the table, what was lost, and the count of unfinished
  entries. A batch is collected until it has \<open>max_items\<close> or the time is over; the database may also fail
  for reasons of its own.
\<close>

record lqueue =
  lq_items :: "opera_log list"
  lq_batch :: "opera_log list"
  lq_handling :: bool
  lq_table :: log_table
  lq_lost :: "opera_log list"
  lq_unfinished :: nat

definition empty_queue :: "log_table \<Rightarrow> lqueue" where
  "empty_queue rows =
     \<lparr>lq_items = [], lq_batch = [], lq_handling = False, lq_table = rows, lq_lost = [], lq_unfinished = 0\<rparr>"

definition handle_batch :: "int \<Rightarrow> bool \<Rightarrow> lqueue \<Rightarrow> lqueue" where
  "handle_batch now down q =
     (case (if down then (lq_table q, Inl SQLAlchemyError) else bulk_create now (lq_batch q) (lq_table q)) of
        (rows, out) \<Rightarrow>
          q\<lparr>lq_table := rows, lq_lost := (if is_ok out then lq_lost q else lq_lost q @ lq_batch q),
            lq_batch := [], lq_handling := False, lq_unfinished := lq_unfinished q - length (lq_batch q)\<rparr>)"

datatype qaction =
    Put opera_log
  | Collect
  | Time_over
  | Handle int bool
  | Delete_logs "int list"
  | Delete_all_logs

fun qstep :: "req_settings \<Rightarrow> qaction \<Rightarrow> lqueue \<Rightarrow> lqueue option" where
  "qstep S (Put e) q =
     (if length (lq_items q) < OPERA_LOG_QUEUE_MAXSIZE S
      then Some (q\<lparr>lq_items := lq_items q @ [e], lq_unfinished := lq_unfinished q + 1\<rparr>) else None)"
| "qstep S Collect q =
     (if lq_handling q then None
      else (case lq_items q of
              [] \<Rightarrow> None
            | e # es \<Rightarrow>
                if length (lq_batch q) < OPERA_LOG_QUEUE_BATCH_CONSUME_SIZE S
                then Some (q\<lparr>lq_items := es, lq_batch := lq_batch q @ [e],
                       lq_handling := (length (lq_batch q) + 1 = OPERA_LOG_QUEUE_BATCH_CONSUME_SIZE S)\<rparr>)
                else None))"
| "qstep S Time_over q = (if lq_handling q then None else Some (q\<lparr>lq_handling := lq_batch q \<noteq> []\<rparr>))"
| "qstep S (Handle now down) q = (if lq_handling q then Some (handle_batch now down q) else None)"
| "qstep S (Delete_logs pks) q = Some (q\<lparr>lq_table := fst (log_delete pks (lq_table q))\<rparr>)"
| "qstep S Delete_all_logs q = Some (q\<lparr>lq_table := log_delete_all (lq_table q)\<rparr>)"

end
