(* ===== verification/PipelineProps.thy ===== *)
theory PipelineProps
  imports Pipeline AdminProps
begin

text \<open>
  What the middlewares leave in the log of operations: which requests are recorded and with what result, which
  values are hidden, and what the consumer of the queue stores.
\<close>

section \<open>Through the stack\<close>

lemma access_log: "pw_log (fst (access_dispatch S r f w)) =
    pw_log (fst (f (if GRAFANA_METRICS_ENABLE S \<and> is_api S r
                    then w\<lparr>pw_metrics := started (hq_method r, hq_path r) (pw_metrics w)\<rparr> else w)))"
  by (simp add: access_dispatch_def Let_def split: prod.split)

lemma access_out: "snd (access_dispatch S r f w) =
    snd (f (if GRAFANA_METRICS_ENABLE S \<and> is_api S r
            then w\<lparr>pw_metrics := started (hq_method r, hq_path r) (pw_metrics w)\<rparr> else w))"
  by (simp add: access_dispatch_def Let_def split: prod.split)

text \<open>The world in which authentication starts.\<close>

definition entered :: "config \<Rightarrow> ustr option \<Rightarrow> request \<Rightarrow> pworld \<Rightarrow> pworld" where
  "entered C trace r w =
     (let S = cf_settings C; w0 = w\<lparr>pw_ctx := new_context trace\<rparr>;
          w1 = (if GRAFANA_METRICS_ENABLE S \<and> is_api S r
                then w0\<lparr>pw_metrics := started (hq_method r, hq_path r) (pw_metrics w0)\<rparr> else w0)
      in w1\<lparr>pw_ctx := set_language S (cf_auth C) r (pw_ctx w1)\<rparr>)"

definition guarded ::
  "config \<Rightarrow> stack \<Rightarrow> int \<Rightarrow> int \<Rightarrow> request \<Rightarrow> user_info option \<Rightarrow> pworld \<Rightarrow> pworld \<times> outcome" where
  "guarded C K now elapsed r user =
     state_dispatch (cf_deps C) (cf_settings C) now r
       (opera_dispatch (cf_deps C) (cf_settings C) (cf_auth C) now elapsed user r
         (sk_exc K (handler_of (cf_deps C) (cf_settings C) (cf_locales C)) (call_endpoint K user r)))"

definition authenticated :: "config \<Rightarrow> int \<Rightarrow> request \<Rightarrow> pworld \<Rightarrow> pworld \<times> (auth_error + user_info option)" where
  "authenticated C now r w = authenticate (cf_settings C) (cf_rbac C) (cf_auth C) (cf_auth_settings C) now r w"

lemma app_stack_log_out:
  assumes "runs_backend (sk_auth K)"
  shows "map_prod pw_log id (app_stack C K now elapsed trace r w) =
    (case authenticated C now r (entered C trace r w) of
       (w1, Inl e) \<Rightarrow> (pw_log w1, Inr (snd (auth_exception_handler e w1)))
     | (w1, Inr user) \<Rightarrow> map_prod pw_log id (guarded C K now elapsed r user w1))"
  using assms
  by (auto simp: app_stack_def Let_def map_prod_def access_log access_out i18n_dispatch_def entered_def
      guarded_def [abs_def] authenticated_def runs_backend_def auth_exception_handler_def prod_eq_iff
      split: prod.split sum.split)

lemma entered_simps [simp]:
  "pw_log (entered C trace r w) = pw_log w" "pw_a (entered C trace r w) = pw_a w"
  by (simp_all add: entered_def Let_def)

lemma authenticate_log: "pw_log (fst (authenticate S R A AS now r w)) = pw_log w"
  by (simp add: authenticate_def split: option.split prod.split sum.split exc.split)

lemma authenticate_cong:
  assumes "pw_a w = pw_a v"
  shows "snd (authenticate S R A AS now r w) = snd (authenticate S R A AS now r v)"
    and "pw_a (fst (authenticate S R A AS now r w)) = pw_a (fst (authenticate S R A AS now r v))"
  using assms by (simp_all add: authenticate_def split: option.split prod.split sum.split exc.split)


lemma authenticate_ctx: "pw_ctx (fst (authenticate S R A AS now r w)) = pw_ctx w"
  by (simp add: authenticate_def split: option.split prod.split sum.split exc.split)

lemma entered_ctx: "cx_exc (pw_ctx (entered C trace r w)) = (\<lambda>_. None)"
  by (simp add: entered_def Let_def set_language_def new_context_def)

section \<open>What an answer says\<close>

text \<open>The status, code and message by which an outcome is known to the client.\<close>

definition answer_of :: "req_deps \<Rightarrow> outcome \<Rightarrow> int \<times> int \<times> ustr" where
  "answer_of D out =
     (case out of
        Inl e \<Rightarrow> (0, raised_code e, raised_msg D e)
      | Inr resp \<Rightarrow> (case rs_body resp of
            Error_body c _ \<Rightarrow> (0, ct_code c, ct_msg c)
          | Other_body _ \<Rightarrow> (1, 200, asc ''Success'')))"

definition plain_answers :: "stack \<Rightarrow> bool" where
  "plain_answers K \<longleftrightarrow> (\<forall>user r a a1 resp. sk_endpoint K user r a = (a1, Inr resp) \<longrightarrow> (\<exists>s. rs_body resp = Other_body s))"

lemma answered_logged:
  assumes "answered k status c cx = (cx1, out)" "k \<in> {K_http, K_validation, K_assertion, K_custom}"
    "cx_exc cx = (\<lambda>_. None)"
  shows "logged_outcome D cx1 out = answer_of D out"
  using assms by (auto simp: answered_def logged_outcome_def answer_of_def error_response_def set_exc_def
      first_exc_def List.map_filter_simps split: sum.splits)

lemma handler_answered:
  assumes "handler_of D S L e = Some h"
  obtains k status c where "h cx = answered k status c cx" "k \<in> {K_http, K_validation, K_assertion, K_custom}"
  using assms
  by (cases "(D, S, L, e)" rule: handler_of.cases)
    (auto simp: validation_exception_handler_def assertion_error_handler_def http_exception_handler_def
      custom_exception_handler_def)

lemma handlers_logged:
  assumes "runs_handlers (sk_exc K)" "plain_answers K" "cx_exc (pw_ctx w) = (\<lambda>_. None)"
    "sk_exc K (handler_of D S L) (call_endpoint K user r) w = (w1, out)"
  shows "logged_outcome D (pw_ctx w1) out = answer_of D out"
proof -
  obtain a res where ep: "sk_endpoint K user r (pw_a w) = (a, res)" by fastforce
  have step: "(case res of
      Inr resp \<Rightarrow> (w\<lparr>pw_a := a\<rparr>, Inr resp)
    | Inl e \<Rightarrow> (case handler_of D S L e of
          None \<Rightarrow> (w\<lparr>pw_a := a\<rparr>, Inl e)
        | Some h \<Rightarrow> (case h (pw_ctx w) of (cx, out) \<Rightarrow> (w\<lparr>pw_a := a, pw_ctx := cx\<rparr>, out)))) = (w1, out)"
    using assms(1,4) by (cases res) (auto simp: runs_handlers_def call_endpoint_def ep cong: option.case_cong)
  show ?thesis
  proof (cases res)
    case (Inr resp)
    then obtain s where "rs_body resp = Other_body s"
      using assms(2) ep unfolding plain_answers_def by blast
    with Inr step assms(3) show ?thesis
      by (auto simp: logged_outcome_def answer_of_def first_exc_def List.map_filter_simps)
  next
    case (Inl e)
    show ?thesis
    proof (cases "handler_of D S L e")
      case None
      with Inl step show ?thesis by (auto simp: logged_outcome_def answer_of_def)
    next
      case (Some h)
      obtain cx where h: "h (pw_ctx w) = (cx, out)" "w1 = w\<lparr>pw_a := a, pw_ctx := cx\<rparr>"
        using Inl Some step by (auto split: prod.splits)
      obtain k status c where k: "h (pw_ctx w) = answered k status c (pw_ctx w)"
        "k \<in> {K_http, K_validation, K_assertion, K_custom}"
        using Some by (rule handler_answered)
      have "answered k status c (pw_ctx w) = (cx, out)" using k(1) h(1) by simp
      from answered_logged [OF this k(2) assms(3), of D] h(2) show ?thesis by simp
    qed
  qed
qed

lemma handlers_keep_log:
  assumes "runs_handlers (sk_exc K)"
  shows "pw_log (fst (sk_exc K (handler_of D S L) (call_endpoint K user r) w)) = pw_log w"
  using assms by (auto simp: runs_handlers_def call_endpoint_def split: prod.split sum.split option.split)

lemma answered_ctx:
  "answered k status c cx = (cx1, out) \<Longrightarrow> cx1 = cx \<or> (\<exists>ct. cx1 = set_exc k ct cx)"
  by (auto simp: answered_def split: sum.splits)

text \<open>What the endpoint and its handlers leave of the context: where the request comes from.\<close>

lemma handlers_keep_ip:
  assumes "runs_handlers (sk_exc K)"
    "sk_exc K (handler_of D S L) (call_endpoint K user r) w = (w1, out)"
  shows "cx_ip (pw_ctx w1) = cx_ip (pw_ctx w)"
proof -
  have ip: "cx_ip cx1 = cx_ip cx" if e: "handler_of D S L e = Some h" and h: "h cx = (cx1, out1)" for e h cx cx1 out1
  proof -
    obtain k status c where "h cx = answered k status c cx" "k \<in> {K_http, K_validation, K_assertion, K_custom}"
      using e by (rule handler_answered)
    with h have "answered k status c cx = (cx1, out1)" by simp
    from answered_ctx [OF this] show ?thesis by (auto simp: set_exc_def)
  qed
  show ?thesis
    using assms by (auto simp: runs_handlers_def call_endpoint_def
        split: prod.splits sum.splits option.splits dest: ip)
qed


section \<open>One entry per request\<close>

text \<open>A request comes in when authentication does not refuse it and its origin can be read; it gets through to the
  endpoint when its arguments can be read, too.\<close>

definition comes_in :: "config \<Rightarrow> int \<Rightarrow> request \<Rightarrow> aworld \<Rightarrow> bool" where
  "comes_in C now r a =
     (case authenticate (cf_settings C) (cf_rbac C) (cf_auth C) (cf_auth_settings C) now r
             \<lparr>pw_a = a, pw_ctx = new_context None, pw_log = [],
              pw_metrics = \<lparr>mt_in_progress = (\<lambda>_. 0), mt_requests = (\<lambda>_. 0), mt_costs = (\<lambda>_. 0),
                mt_exceptions = (\<lambda>_. 0), mt_responses = (\<lambda>_. 0)\<rparr>\<rparr> of
        (_, Inl _) \<Rightarrow> False
      | (w, Inr _) \<Rightarrow> is_ok (snd (parse_ip_info (cf_deps C) (cf_settings C) now r (red (pw_a w)))))"

definition gets_through :: "config \<Rightarrow> int \<Rightarrow> request \<Rightarrow> aworld \<Rightarrow> bool" where
  "gets_through C now r a \<longleftrightarrow> comes_in C now r a \<and> is_ok (get_request_args (cf_deps C) (cf_settings C) (cf_auth C) r)"

definition recorded :: "req_settings \<Rightarrow> request \<Rightarrow> bool" where
  "recorded S r \<longleftrightarrow> should_log S r \<and> hq_method r \<noteq> asc ''OPTIONS''"

lemma comes_in_iff:
  "comes_in C now r (pw_a w) \<longleftrightarrow>
     (case authenticated C now r (entered C trace r w) of
        (_, Inl _) \<Rightarrow> False
      | (v, Inr _) \<Rightarrow> is_ok (snd (parse_ip_info (cf_deps C) (cf_settings C) now r (red (pw_a v)))))"
proof -
  obtain v res where au: "authenticated C now r (entered C trace r w) = (v, res)" by fastforce
  define u :: pworld where "u = \<lparr>pw_a = pw_a w, pw_ctx = new_context None, pw_log = [],
      pw_metrics = \<lparr>mt_in_progress = (\<lambda>_. 0), mt_requests = (\<lambda>_. 0), mt_costs = (\<lambda>_. 0),
        mt_exceptions = (\<lambda>_. 0), mt_responses = (\<lambda>_. 0)\<rparr>\<rparr>"
  have "pw_a (entered C trace r w) = pw_a u" by (simp add: u_def)
  from authenticate_cong [OF this, of "cf_settings C" "cf_rbac C" "cf_auth C" "cf_auth_settings C" now r] au
  have "snd (authenticate (cf_settings C) (cf_rbac C) (cf_auth C) (cf_auth_settings C) now r u) = res"
    "pw_a (fst (authenticate (cf_settings C) (cf_rbac C) (cf_auth C) (cf_auth_settings C) now r u)) = pw_a v"
    by (simp_all add: authenticated_def)
  then show ?thesis
    using au by (cases res) (auto simp: comes_in_def u_def [symmetric] split: prod.split)
qed

lemma guarded_log:
  assumes "runs_handlers (sk_exc K)" "plain_answers K" "cx_exc (pw_ctx w) = (\<lambda>_. None)"
    "guarded C K now elapsed r user w = (w1, out)"
  shows "pw_log w1 = pw_log w \<and> \<not> (is_ok (snd (parse_ip_info (cf_deps C) (cf_settings C) now r (red (pw_a w))))
          \<and> is_ok (get_request_args (cf_deps C) (cf_settings C) (cf_auth C) r) \<and> recorded (cf_settings C) r)
     \<or> (\<exists>args cx. pw_log w1 = pw_log w @ [log_entry (cf_deps C) r user now elapsed args cx out]
          \<and> get_request_args (cf_deps C) (cf_settings C) (cf_auth C) r = Inr args
          \<and> logged_outcome (cf_deps C) cx out = answer_of (cf_deps C) out
          \<and> cx_ip cx = Some (get_request_ip r)
          \<and> is_ok (snd (parse_ip_info (cf_deps C) (cf_settings C) now r (red (pw_a w))))
          \<and> recorded (cf_settings C) r)"
proof -
  obtain st ip where p: "parse_ip_info (cf_deps C) (cf_settings C) now r (red (pw_a w)) = (st, ip)" by fastforce
  show ?thesis
  proof (cases ip)
    case (Inl e)
    with assms(4) p show ?thesis by (auto simp: guarded_def state_dispatch_def)
  next
    case (Inr info)
    have ip: "ii_ip info = get_request_ip r"
      using p Inr by (auto simp: parse_ip_info_def Let_def split: option.splits list.splits)
    define v where "v = (let ag = parse_user_agent_info (cf_deps C) r
      in w\<lparr>pw_a := (pw_a w)\<lparr>red := st\<rparr>,
           pw_ctx := (pw_ctx w)\<lparr>cx_ip := Some (ii_ip info), cx_country := ii_country info,
             cx_region := ii_region info, cx_city := ii_city info, cx_user_agent := ag_user_agent ag,
             cx_os := ag_os ag, cx_browser := ag_browser ag, cx_device := ag_device ag\<rparr>\<rparr>)"
    have v: "pw_log v = pw_log w" "cx_exc (pw_ctx v) = (\<lambda>_. None)" "cx_ip (pw_ctx v) = Some (get_request_ip r)"
      using assms(3) ip by (simp_all add: v_def Let_def)
    have od: "opera_dispatch (cf_deps C) (cf_settings C) (cf_auth C) now elapsed user r
        (sk_exc K (handler_of (cf_deps C) (cf_settings C) (cf_locales C)) (call_endpoint K user r)) v = (w1, out)"
      using assms(4) p Inr by (simp add: guarded_def state_dispatch_def Let_def v_def)
    show ?thesis
    proof (cases "get_request_args (cf_deps C) (cf_settings C) (cf_auth C) r")
      case (Inl e)
      with od v(1) show ?thesis by (auto simp: opera_dispatch_def)
    next
      case args: (Inr args)
      obtain v1 where n: "sk_exc K (handler_of (cf_deps C) (cf_settings C) (cf_locales C)) (call_endpoint K user r) v
          = (v1, out)" and w1: "w1 = (if recorded (cf_settings C) r
            then v1\<lparr>pw_log := pw_log v1 @ [log_entry (cf_deps C) r user now elapsed args (pw_ctx v1) out]\<rparr> else v1)"
        using od args by (auto simp: opera_dispatch_def recorded_def split: prod.splits)
      have "pw_log v1 = pw_log w"
        using handlers_keep_log [OF assms(1), of "cf_deps C" "cf_settings C" "cf_locales C" user r v] n v(1) by simp
      moreover have "logged_outcome (cf_deps C) (pw_ctx v1) out = answer_of (cf_deps C) out"
        using handlers_logged [OF assms(1,2) v(2) n] .
      moreover have "cx_ip (pw_ctx v1) = Some (get_request_ip r)"
        using handlers_keep_ip [OF assms(1) n] v(3) by simp
      ultimately show ?thesis
        using w1 args p Inr by (cases "recorded (cf_settings C) r") auto
    qed
  qed
qed

text \<open>The log after a request: as before, or with one entry more.\<close>

lemma app_stack_log:
  assumes "runs_backend (sk_auth K)" "runs_handlers (sk_exc K)" "plain_answers K"
    "app_stack C K now elapsed trace r w = (w1, out)"
  shows "pw_log w1 = pw_log w \<and> \<not> (gets_through C now r (pw_a w) \<and> recorded (cf_settings C) r)
     \<or> (\<exists>user args cx. pw_log w1 = pw_log w @ [log_entry (cf_deps C) r user now elapsed args cx out]
          \<and> get_request_args (cf_deps C) (cf_settings C) (cf_auth C) r = Inr args
          \<and> logged_outcome (cf_deps C) cx out = answer_of (cf_deps C) out
          \<and> cx_ip cx = Some (get_request_ip r)
          \<and> gets_through C now r (pw_a w) \<and> recorded (cf_settings C) r)"
proof -
  let ?w = "entered C trace r w"
  obtain v res where au: "authenticated C now r ?w = (v, res)" by fastforce
  have v: "pw_log v = pw_log w" "cx_exc (pw_ctx v) = (\<lambda>_. None)"
    using au authenticate_log [of "cf_settings C" "cf_rbac C" "cf_auth C" "cf_auth_settings C" now r ?w]
      authenticate_ctx [of "cf_settings C" "cf_rbac C" "cf_auth C" "cf_auth_settings C" now r ?w] entered_ctx [of C trace r w]
    by (simp_all add: authenticated_def)
  have gt: "comes_in C now r (pw_a w) \<longleftrightarrow> (\<exists>user. res = Inr user)
      \<and> is_ok (snd (parse_ip_info (cf_deps C) (cf_settings C) now r (red (pw_a v))))"
    using comes_in_iff [of C now r w trace] au by (cases res) simp_all
  have lo: "(pw_log w1, out) = (case authenticated C now r ?w of
       (w1, Inl e) \<Rightarrow> (pw_log w1, Inr (snd (auth_exception_handler e w1)))
     | (w1, Inr user) \<Rightarrow> map_prod pw_log id (guarded C K now elapsed r user w1))"
    using app_stack_log_out [OF assms(1), of C now elapsed trace r w] assms(4) by simp
  show ?thesis
  proof (cases res)
    case (Inl e)
    with lo au v gt show ?thesis by (simp add: gets_through_def)
  next
    case (Inr user)
    obtain v1 where g: "guarded C K now elapsed r user v = (v1, out)" "pw_log w1 = pw_log v1"
      using lo au Inr by (cases "guarded C K now elapsed r user v") auto
    from guarded_log [OF assms(2,3) v(2) g(1)] show ?thesis
      unfolding g(2) v(1) gets_through_def gt using Inr by auto
  qed
qed






text \<open>
  A JSON body that cannot be parsed ends in the parser's exception before the endpoint and the handlers of exceptions,
  and is not recorded.
\<close>

theorem malformed_json_raises:
  assumes "runs_backend (sk_auth K)" "comes_in C now r (pw_a w)"
    "is_json (cf_auth C) r" "\<not> is_form (cf_auth C) r" "hq_body r \<noteq> []"
    "get_content_length r = Inr n" "\<forall>m. n = Some m \<longrightarrow> m \<le> OPERA_LOG_BODY_MAX_SIZE (cf_settings C)"
    "rd_json (cf_deps C) (hq_body r) = Inl e"
  shows "map_prod pw_log id (app_stack C K now elapsed trace r w) = (pw_log w, Inl (Raised e))"
proof -
  obtain v res where au: "authenticated C now r (entered C trace r w) = (v, res)" by fastforce
  then obtain user where user: "res = Inr user"
    and ip: "is_ok (snd (parse_ip_info (cf_deps C) (cf_settings C) now r (red (pw_a v))))"
    using assms(2) comes_in_iff [of C now r w trace] by (cases res) auto
  have v: "pw_log v = pw_log w"
    using au authenticate_log [of "cf_settings C" "cf_rbac C" "cf_auth C" "cf_auth_settings C" now r "entered C trace r w"]
    by (simp add: authenticated_def)
  have args: "get_request_args (cf_deps C) (cf_settings C) (cf_auth C) r = Inl e"
    using assms(3-8) by (auto simp: get_request_args_def body_args_def is_form_def Let_def split: option.split)
  obtain st info where p: "parse_ip_info (cf_deps C) (cf_settings C) now r (red (pw_a v)) = (st, Inr info)"
    using ip by (cases "parse_ip_info (cf_deps C) (cf_settings C) now r (red (pw_a v))") (auto simp: is_ok_iff)
  have "map_prod pw_log id (guarded C K now elapsed r user v) = (pw_log v, Inl (Raised e))"
    by (simp add: guarded_def state_dispatch_def p opera_dispatch_def args Let_def)
  then show ?thesis
    using app_stack_log_out [OF assms(1), of C now elapsed trace r w] au user v by simp
qed


section \<open>Hidden values\<close>

lemma desensitization_hides:
  "(k, v) \<in> set (desensitization S kvs) \<Longrightarrow> k \<in> set (OPERA_LOG_REDACT_KEYS S) \<Longrightarrow> v = P_text (asc ''[REDACTED]'')"
  by (auto simp: desensitization_def)

definition hides :: "req_settings \<Rightarrow> (ustr \<times> pyval) list \<Rightarrow> bool" where
  "hides S args \<longleftrightarrow> (\<forall>s kvs k v. (s, P_dict kvs) \<in> set args \<and> s \<noteq> asc ''body'' \<and> (k, v) \<in> set kvs
     \<and> k \<in> set (OPERA_LOG_REDACT_KEYS S) \<longrightarrow> v = P_text (asc ''[REDACTED]''))"

lemma hides_append: "hides S (xs @ ys) \<longleftrightarrow> hides S xs \<and> hides S ys"
  by (auto simp: hides_def)

lemma hides_parts:
  "hides S []" "hides S (url_args S r)" "hides S [(asc ''body'', x)]" "hides S (build_truncated_body n m)"
  by (auto simp: hides_def url_args_def build_truncated_body_def dest: desensitization_hides split: option.splits)

lemma hides_section: "hides S [(s, P_dict (desensitization S kvs))]" "hides S [(s, P_text t)]"
  by (auto simp: hides_def dest: desensitization_hides)

lemma hides_json_args: "hides S (json_args D S json)"
  by (cases json) (simp_all add: json_args_def hides_section)

lemma hides_body_args: "body_args D S A r = Inr xs \<Longrightarrow> hides S xs"
  by (cases "rd_json D (hq_body r)")
    (auto simp: body_args_def hides_section hides_parts hides_json_args split: if_splits)

lemma hides_form_args: "form_args D S A r = Inr xs \<Longrightarrow> hides S xs"
  by (auto simp: form_args_def res_iffs hides_section hides_parts split: if_splits)

lemma hides_bounded: "hides S xs \<Longrightarrow> hides S (bounded_args S xs)"
  by (auto simp: bounded_args_def hides_parts split: sum.split)

lemma get_request_args_hides:
  assumes "get_request_args D S A r = Inr (Some args)"
  shows "hides S args"
  using assms
  by (auto simp: get_request_args_def Let_def res_iffs or_none_def hides_append
      intro!: hides_bounded hides_parts dest!: hides_body_args hides_form_args split: if_splits)

text \<open>
  In the arguments of a recorded request, the value of every key that is to be hidden is replaced, in the query,
  the path, the JSON object and the form; only at their top level.
\<close>

theorem secrets_hidden:
  assumes "runs_backend (sk_auth K)" "runs_handlers (sk_exc K)" "plain_answers K"
    "app_stack C K now elapsed trace r w = (w1, out)"
    "e \<in> set (drop (length (pw_log w)) (pw_log w1))" "ol_args e = Some args"
    "(s, P_dict kvs) \<in> set args" "s \<noteq> asc ''body''" "(k, v) \<in> set kvs"
    "List.member (OPERA_LOG_REDACT_KEYS (cf_settings C)) k"
  shows "v = P_text (asc ''[REDACTED]'')"
proof -
  obtain user xs cx where e: "e = log_entry (cf_deps C) r user now elapsed xs cx out"
    and xs: "get_request_args (cf_deps C) (cf_settings C) (cf_auth C) r = Inr xs"
    using app_stack_log [OF assms(1-4)] assms(5) by auto
  have "xs = Some args" using assms(6) by (simp add: e log_entry_def split: prod.splits)
  with xs have "hides (cf_settings C) args" by (intro get_request_args_hides) simp
  with assms(7-10) show ?thesis unfolding hides_def List.member_iff by blast
qed

section \<open>The queue\<close>

lemma insert_logs_entries: "map (snd \<circ> snd) (insert_logs now es rows) = map (snd \<circ> snd) rows @ es"
  by (induction now es rows rule: insert_logs.induct) auto

lemma bulk_create_unfit:
  "e \<in> set logs \<Longrightarrow> \<not> fits_table e \<Longrightarrow> bulk_create now logs rows = (rows, Inl SQLAlchemyError)"
  by (auto simp: bulk_create_def list_all_iff)

text \<open>
  A request whose \<open>X-Real-IP\<close> header is longer than the column of addresses leaves an entry that no database
  accepts: the whole batch it is in is lost, the entries of other requests included.
\<close>

theorem long_address_loses_batch:
  assumes "runs_backend (sk_auth K)" "runs_handlers (sk_exc K)" "plain_answers K"
    "app_stack C K now elapsed trace r w = (w1, out)"
    "e \<in> set (drop (length (pw_log w)) (pw_log w1))"
    "hq_real_ip r = Some ip" "64 < length ip" "e \<in> set (lq_batch q)"
  shows "(lq_table (handle_batch t down q), lq_lost (handle_batch t down q)) = (lq_table q, lq_lost q @ lq_batch q)"
proof -
  obtain user xs cx where e: "e = log_entry (cf_deps C) r user now elapsed xs cx out"
    and cx: "cx_ip cx = Some (get_request_ip r)"
    using app_stack_log [OF assms(1-4)] assms(5) by auto
  have "get_request_ip r = ip"
    using assms(6,7) by (cases ip) (auto simp: get_request_ip_def)
  then have "ol_ip e = ip" using cx by (simp add: e log_entry_def rendered_def split: prod.split)
  then have "\<not> fits_table e" using assms(7) by (simp add: fits_table_def)
  with assms(8) show ?thesis by (simp add: handle_batch_def bulk_create_unfit)
qed

text \<open>The accepted entries and the queue they lead to, with an initial table.\<close>

inductive consumed :: "req_settings \<Rightarrow> log_table \<Rightarrow> opera_log list \<Rightarrow> lqueue \<Rightarrow> bool" for S rows where
  start: "consumed S rows [] (empty_queue rows)"
| accept: "consumed S rows puts q \<Longrightarrow> qstep S (Put e) q = Some q1 \<Longrightarrow> consumed S rows (puts @ [e]) q1"
| move: "consumed S rows puts q \<Longrightarrow> (\<And>e. a \<noteq> Put e) \<Longrightarrow> qstep S a q = Some q1 \<Longrightarrow> consumed S rows puts q1"

definition entries :: "log_table \<Rightarrow> opera_log list" where
  "entries rows = map (snd \<circ> snd) rows"

lemma handle_batch_entries:
  "subseq (entries (lq_table (handle_batch now down q)) @ lq_batch (handle_batch now down q) @ lq_items q)
     (entries (lq_table q) @ lq_batch q @ lq_items q)"
  by (auto simp: handle_batch_def bulk_create_def entries_def insert_logs_entries subseq_append'
      intro: list_emb_append2)

lemma qstep_entries:
  assumes "qstep S a q = Some q1" "\<And>e. a \<noteq> Put e"
  shows "subseq (entries (lq_table q1) @ lq_batch q1 @ lq_items q1) (entries (lq_table q) @ lq_batch q @ lq_items q)"
proof (cases a)
  case (Handle now down)
  with assms(1) have "q1 = handle_batch now down q" by (auto split: if_splits)
  moreover have "lq_items (handle_batch now down q) = lq_items q"
    by (simp add: handle_batch_def split: prod.split)
  ultimately show ?thesis using handle_batch_entries [of now down q] by simp
next
  case (Delete_logs pks)
  with assms(1) have "q1 = q\<lparr>lq_table := filter (\<lambda>row. \<not> List.member pks (fst row)) (lq_table q)\<rparr>"
    by (simp add: log_delete_def)
  then show ?thesis by (simp add: entries_def list_emb_append_mono subseq_map)
qed (use assms in \<open>auto simp: entries_def log_delete_all_def list_emb_append2 split: if_splits list.splits\<close>)

text \<open>The queue and the batch stay within their bounds, and \<open>task_done\<close> accounts for every entry.\<close>

lemma queue_bounds:
  assumes "consumed S rows puts q" "0 < OPERA_LOG_QUEUE_BATCH_CONSUME_SIZE S"
  shows "length (lq_items q) \<le> OPERA_LOG_QUEUE_MAXSIZE S \<and> length (lq_batch q) \<le> OPERA_LOG_QUEUE_BATCH_CONSUME_SIZE S
    \<and> lq_unfinished q = length (lq_batch q) + length (lq_items q)"
  using assms
proof (induction rule: consumed.induct)
  case start
  show ?case by (simp add: empty_queue_def)
next
  case (accept puts q e q1)
  then show ?case by (auto split: if_splits)
next
  case (move puts q a q1)
  show ?case
  proof (cases a)
    case (Handle now down)
    with move show ?thesis by (auto simp: handle_batch_def split: if_splits prod.splits)
  qed (use move in \<open>auto split: if_splits list.splits\<close>)
qed

text \<open>When every entry fits, the database never fails and nothing is deleted, every accepted entry is in the table, in the
  batch or in the queue.\<close>

inductive healthy :: "req_settings \<Rightarrow> log_table \<Rightarrow> opera_log list \<Rightarrow> lqueue \<Rightarrow> bool" for S rows where
  start: "healthy S rows [] (empty_queue rows)"
| accept: "healthy S rows puts q \<Longrightarrow> fits_table e \<Longrightarrow> qstep S (Put e) q = Some q1 \<Longrightarrow> healthy S rows (puts @ [e]) q1"
| move: "healthy S rows puts q \<Longrightarrow> a = Collect \<or> a = Time_over \<or> (\<exists>now. a = Handle now False)
    \<Longrightarrow> qstep S a q = Some q1 \<Longrightarrow> healthy S rows puts q1"

lemma healthy_complete:
  assumes "healthy S rows puts q"
  shows "entries (lq_table q) @ lq_batch q @ lq_items q = entries rows @ puts \<and> lq_lost q = []
    \<and> list_all fits_table (lq_batch q @ lq_items q)"
  using assms
proof (induction rule: healthy.induct)
  case start
  show ?case by (simp add: empty_queue_def entries_def)
next
  case (accept puts q e q1)
  then show ?case by (auto split: if_splits)
next
  case (move puts q a q1)
  then show ?case
    by (auto simp: handle_batch_def bulk_create_def entries_def insert_logs_entries split: if_splits list.splits)
qed

text \<open>
  The table holds, after what it held, entries in the order in which they were accepted, each at most once,
  followed by the batch being handled and by the queue.
\<close>

theorem log_in_order:
  assumes "consumed S rows puts q"
  shows "subseq (entries (lq_table q) @ lq_batch q @ lq_items q) (entries rows @ puts)"
  using assms
proof (induction rule: consumed.induct)
  case start
  show ?case by (simp add: empty_queue_def entries_def)
next
  case (accept puts q e q1)
  then have "q1 = q\<lparr>lq_items := lq_items q @ [e], lq_unfinished := lq_unfinished q + 1\<rparr>" by (simp split: if_splits)
  with accept.IH show ?case
    using list_emb_append_mono [OF accept.IH, of "[e]" "[e]"] by simp
next
  case (move puts q a q1)
  from qstep_entries [OF move.hyps(3,2)] move.IH show ?case by (rule subseq_order.order_trans)
qed


section \<open>Locations and languages\<close>

lemma split_on_aux_plain: "sep \<notin> set s \<Longrightarrow> split_on_aux sep cur s = [cur @ s]"
  by (induction s arbitrary: cur) auto

lemma split_on_aux_sep: "sep \<notin> set s \<Longrightarrow> split_on_aux sep cur (s @ sep # t) = (cur @ s) # split_on_aux sep [] t"
  by (induction s arbitrary: cur) auto

lemma split_on_three:
  "sep \<notin> set a \<Longrightarrow> sep \<notin> set b \<Longrightarrow> sep \<notin> set c \<Longrightarrow> split_on sep (a @ sep # b @ sep # c) = [a, b, c]"
  by (simp add: split_on_def split_on_aux_plain split_on_aux_sep)

definition no_bar :: "ip_location \<Rightarrow> bool" where
  "no_bar l \<longleftrightarrow> list_all (\<lambda>x. 124 \<notin> set (rendered x)) [lo_country l, lo_region l, lo_city l]"

text \<open>
  A location found for an address is given again to the next request from there, within its time, exactly when all its
  parts are known; a part that is not known comes back as the text \<open>None\<close>.
\<close>

theorem location_again:
  assumes "r_get now (location_key (get_request_ip r)) st = None"
    "find_location D S (get_request_ip r) = Some l" "no_bar l"
    "parse_ip_info D S now r st = (st1, Inr info)"
    "now' < now + IP_LOCATION_EXPIRE_SECONDS S * 1000" "get_request_ip r' = get_request_ip r"
  shows "snd (parse_ip_info D S now' r' st1) = Inr info \<longleftrightarrow>
    lo_country l \<noteq> None \<and> lo_region l \<noteq> None \<and> lo_city l \<noteq> None"
proof -
  let ?ip = "get_request_ip r"
  have st1: "st1 = r_set now (location_key ?ip) (location_text l) (Some (IP_LOCATION_EXPIRE_SECONDS S)) st"
    and info: "info = \<lparr>ii_ip = ?ip, ii_country = lo_country l, ii_region = lo_region l, ii_city = lo_city l\<rparr>"
    using assms(1,2,4) by (auto simp: parse_ip_info_def Let_def)
  have got: "r_get now' (location_key ?ip) st1 = Some (location_text l)"
    using assms(5) by (simp add: st1 r_get_set alive_def)
  have ne: "location_text l \<noteq> []" by (simp add: location_text_def)
  have "split_on 124 (location_text l) = [rendered (lo_country l), rendered (lo_region l), rendered (lo_city l)]"
    using assms(3) by (simp add: location_text_def no_bar_def split_on_three)
  with got ne have "snd (parse_ip_info D S now' r' st1) = Inr \<lparr>ii_ip = ?ip, ii_country = Some (rendered (lo_country l)),
      ii_region = Some (rendered (lo_region l)), ii_city = Some (rendered (lo_city l))\<rparr>"
    using assms(6) by (cases "location_text l") (simp_all add: parse_ip_info_def)
  then show ?thesis
    by (cases "lo_country l"; cases "lo_region l"; cases "lo_city l") (simp_all add: info rendered_def)
qed

text \<open>
  A request in a language without texts is answered, whatever the result, with the message that the
  language does not exist.
\<close>

theorem unknown_language:
  assumes "get_current_language S A r \<noteq> []" "map_of L (get_current_language S A r) = None"
    "map_of L (I18N_DEFAULT_LANGUAGE S) = Some tr" "m \<noteq> []"
    "walk [asc ''error'', asc ''language_not_found''] tr = Some (P_text m)"
  shows "code_msg D S L (Some (set_language S A r (new_context trace))) c = Inr m"
proof -
  have lang: "current_language S (Some (set_language S A r (new_context trace))) = Some (get_current_language S A r)"
    using assms(1) by (simp add: set_language_def current_language_def new_context_def Let_def)
  have keys: "split_on 46 (asc ''error.language_not_found'') = [asc ''error'', asc ''language_not_found'']"
    by code_simp
  have "translate D S L (Some (set_language S A r (new_context trace))) (snd (code_value c)) P_none [] = Inr (P_text m)"
    using assms by (simp add: translate_def lang keys Let_def)
  then show ?thesis by (simp add: code_msg_def)
qed

section \<open>Examples\<close>

definition sample_req_deps :: req_deps where
  "sample_req_deps = \<lparr>rd_json = (\<lambda>b. if b = [123, 125] then Inr (P_dict [(asc ''password'', P_text b)]) else Inl (ValueError b)),
     rd_form = (\<lambda>_. Inr []), rd_decode = id, rd_str = dumps, rd_str_exc = exc_name, rd_format = (\<lambda>s _. Inr s),
     rd_phrase = (\<lambda>c. c < 600), rd_agent = (\<lambda>s. (s, s, s)), rd_http = (\<lambda>_. Inl TimeoutException),
     rd_search = (\<lambda>_. Inr (asc ''China|0|Beijing|0'')), rd_summary = (\<lambda>_. [])\<rparr>"

definition sample_locales :: locales where
  "sample_locales = [(asc ''zh-CN'', P_dict [(asc ''error'', P_dict [(asc ''language_not_found'', P_text (asc ''?''))])])]"

definition sample_config :: config where
  "sample_config = \<lparr>cf_deps = sample_req_deps, cf_settings = default_req_settings True,
     cf_rbac = \<lparr>TOKEN_REQUEST_PATH_EXCLUDE = [], TOKEN_REQUEST_PATH_EXCLUDE_PATTERN = [], RBAC_ROLE_MENU_MODE = True,
       RBAC_ROLE_MENU_EXCLUDE = []\<rparr>,
     cf_auth = sample_auth, cf_auth_settings = default_auth_settings, cf_locales = sample_locales\<rparr>"

definition sample_stack :: stack where
  "sample_stack =
     \<lparr>sk_auth = (\<lambda>backend on_error next r w. case backend r w of
          (w1, Inl e) \<Rightarrow> (case on_error e w1 of (w2, resp) \<Rightarrow> (w2, Inr resp))
        | (w1, Inr user) \<Rightarrow> next user w1),
      sk_exc = (\<lambda>handlers next w. case next w of
          (w1, Inr resp) \<Rightarrow> (w1, Inr resp)
        | (w1, Inl e) \<Rightarrow> (case handlers e of
              None \<Rightarrow> (w1, Inl e)
            | Some h \<Rightarrow> (case h (pw_ctx w1) of (cx, out) \<Rightarrow> (w1\<lparr>pw_ctx := cx\<rparr>, out)))),
      sk_endpoint = (\<lambda>user r a. (a, Inl (Raised (NotFoundError (asc ''Not Found'')))))\<rparr>"

lemma sample_stack_ok:
  "runs_backend (sk_auth sample_stack)" "runs_handlers (sk_exc sample_stack)" "plain_answers sample_stack"
  by (simp_all add: runs_backend_def runs_handlers_def plain_answers_def sample_stack_def)

definition sample_request :: "ustr option \<Rightarrow> bytes \<Rightarrow> request" where
  "sample_request ip body =
     \<lparr>hq_method = asc ''POST'', hq_path = asc ''/api/v1/x'', hq_query = [], hq_path_params = [], hq_authorization = None,
      hq_accept_language = Some (asc ''fr''), hq_user_agent = None, hq_real_ip = ip, hq_forwarded_for = None,
      hq_content_type = Some (asc ''application/json''), hq_content_length = Some (asc ''2''),
      hq_origin = None, hq_cookie = None, hq_client = None, hq_body = body\<rparr>"

definition sample_pworld :: pworld where
  "sample_pworld = \<lparr>pw_a = \<lparr>adb = sample_admin_db, red = [], alog = []\<rparr>, pw_ctx = new_context None, pw_log = [],
     pw_metrics = \<lparr>mt_in_progress = (\<lambda>_. 0), mt_requests = (\<lambda>_. 0), mt_costs = (\<lambda>_. 0),
       mt_exceptions = (\<lambda>_. 0), mt_responses = (\<lambda>_. 0)\<rparr>\<rparr>"

abbreviation sample_run :: "ustr option \<Rightarrow> bytes \<Rightarrow> pworld \<times> outcome" where
  "sample_run ip body \<equiv> app_stack sample_config sample_stack 0 5 None (sample_request ip body) sample_pworld"

lemma sample_comes_in: "comes_in sample_config 0 (sample_request ip body) (pw_a sample_pworld)"
  by (simp add: comes_in_def sample_config_def sample_request_def sample_pworld_def authenticate_def
      extract_token_def parse_ip_info_def Let_def r_get_def split: option.split list.split)

lemma sample_recorded: "recorded (cf_settings sample_config) (sample_request ip body)"
  by (simp add: recorded_def should_log_def is_api_def sample_config_def sample_request_def default_req_settings_def)
    code_simp


lemma sample_args: "get_request_args sample_req_deps (default_req_settings True) sample_auth (sample_request ip [123, 125])
    = Inr (Some [(asc ''json'', P_dict [(asc ''password'', P_text (asc ''[REDACTED]''))])])"
  by code_simp

lemma sample_through: "gets_through sample_config 0 (sample_request ip [123, 125]) (pw_a sample_pworld)"
  using sample_comes_in [of ip "[123, 125]"] sample_args [of ip] by (simp add: gets_through_def sample_config_def)

text \<open>The one entry the sample leaves.\<close>

lemma sample_entry:
  obtains e where "pw_log (fst (sample_run ip [123, 125])) = [e]"
    "ol_args e = Some [(asc ''json'', P_dict [(asc ''password'', P_text (asc ''[REDACTED]''))])]"
proof -
  obtain w1 out where run: "sample_run ip [123, 125] = (w1, out)" by fastforce
  have "pw_log w1 = pw_log sample_pworld
     \<or> (\<exists>user args cx. pw_log w1 = pw_log sample_pworld @ [log_entry (cf_deps sample_config) (sample_request ip [123, 125]) user 0 5 args cx out]
          \<and> get_request_args (cf_deps sample_config) (cf_settings sample_config) (cf_auth sample_config) (sample_request ip [123, 125]) = Inr args)"
    using app_stack_log [OF sample_stack_ok run] by blast
  moreover have "pw_log w1 \<noteq> pw_log sample_pworld"
    using app_stack_log [OF sample_stack_ok run] sample_through [of ip] sample_recorded [of ip "[123, 125]"] by auto
  ultimately obtain user cx where "pw_log w1 = [log_entry (cf_deps sample_config) (sample_request ip [123, 125]) user 0 5
      (Some [(asc ''json'', P_dict [(asc ''password'', P_text (asc ''[REDACTED]''))])]) cx out]"
    using sample_args [of ip] by (auto simp: sample_config_def sample_pworld_def)
  with run that show thesis by (auto simp: log_entry_def split: prod.splits)
qed


theorem malformed_json_raises_witness:
  "map_prod pw_log id (sample_run None [123]) = ([], Inl (Raised (ValueError [123])))"
proof -
  have "is_json (cf_auth sample_config) (sample_request None [123])" by code_simp
  moreover have "\<not> is_form (cf_auth sample_config) (sample_request None [123])" by code_simp
  moreover have "get_content_length (sample_request None [123]) = Inr (Some 2)" by code_simp
  ultimately show ?thesis
    using malformed_json_raises [OF sample_stack_ok(1) sample_comes_in, of None "[123]" "Some 2" "ValueError [123]" 5 None]
    by (simp add: sample_config_def sample_request_def sample_req_deps_def default_req_settings_def sample_pworld_def)
qed

theorem secrets_hidden_witness:
  "\<exists>e args kvs v. pw_log (fst (sample_run None [123, 125])) = [e] \<and> ol_args e = Some args
     \<and> (asc ''json'', P_dict kvs) \<in> set args \<and> (asc ''password'', v) \<in> set kvs \<and> v = P_text (asc ''[REDACTED]'')"
proof -
  obtain e where e: "pw_log (fst (sample_run None [123, 125])) = [e]"
    and args: "ol_args e = Some [(asc ''json'', P_dict [(asc ''password'', P_text (asc ''[REDACTED]''))])]"
    by (rule sample_entry)
  obtain w1 out where run: "sample_run None [123, 125] = (w1, out)" by fastforce
  have "e \<in> set (drop (length (pw_log sample_pworld)) (pw_log w1))"
    using e run by (simp add: sample_pworld_def)
  moreover have "List.member (OPERA_LOG_REDACT_KEYS (cf_settings sample_config)) (asc ''password'')" by code_simp
  moreover have "asc ''json'' \<noteq> asc ''body''" by code_simp
  ultimately have "P_text (asc ''[REDACTED]'') = P_text (asc ''[REDACTED]'')"
    using secrets_hidden [OF sample_stack_ok run, of e, OF _ args, of "asc ''json''"
      "[(asc ''password'', P_text (asc ''[REDACTED]''))]" "asc ''password''"] by simp
  with e args show ?thesis by auto
qed

theorem long_address_loses_batch_witness:
  "\<exists>e. pw_log (fst (sample_run (Some (replicate 65 49)) [123, 125])) = [e]
     \<and> (\<forall>e'. lq_lost (handle_batch 0 False ((empty_queue [])\<lparr>lq_batch := [e', e]\<rparr>)) = [e', e])"
proof -
  obtain e where e: "pw_log (fst (sample_run (Some (replicate 65 49)) [123, 125])) = [e]"
    by (rule sample_entry)
  obtain w1 out where run: "sample_run (Some (replicate 65 49)) [123, 125] = (w1, out)" by fastforce
  have "e \<in> set (drop (length (pw_log sample_pworld)) (pw_log w1))"
    using e run by (simp add: sample_pworld_def)
  then have "lq_lost (handle_batch 0 False ((empty_queue [])\<lparr>lq_batch := [e', e]\<rparr>)) = [e', e]" for e'
    using long_address_loses_batch [OF sample_stack_ok run, of e "replicate 65 49" "(empty_queue [])\<lparr>lq_batch := [e', e]\<rparr>" 0 False]
    by (simp add: sample_request_def empty_queue_def)
  with e show ?thesis by blast
qed

theorem location_again_witness:
  "snd (parse_ip_info sample_req_deps (default_req_settings True) 1 (sample_request None [])
      (fst (parse_ip_info sample_req_deps (default_req_settings True) 0 (sample_request None []) [])))
    \<noteq> snd (parse_ip_info sample_req_deps (default_req_settings True) 0 (sample_request None []) [])"
proof -
  let ?l = "\<lparr>lo_country = Some (asc ''China''), lo_region = None, lo_city = Some (asc ''Beijing'')\<rparr>"
  have f: "find_location sample_req_deps (default_req_settings True) (get_request_ip (sample_request None [])) = Some ?l"
    by code_simp
  have n: "no_bar ?l" by code_simp
  obtain st info where p: "parse_ip_info sample_req_deps (default_req_settings True) 0 (sample_request None []) []
      = (st, Inr info)"
    using f by (auto simp: parse_ip_info_def Let_def r_get_def)
  show ?thesis
    using location_again [OF _ f n p, of 1 "sample_request None []"] p
    by (simp add: r_get_def default_req_settings_def)
qed

theorem unknown_language_witness:
  "code_msg sample_req_deps (default_req_settings True) sample_locales
     (Some (set_language (default_req_settings True) sample_auth (sample_request None []) (new_context None))) Code_200
   = Inr (asc ''?'')"
proof (rule unknown_language)
  show "get_current_language (default_req_settings True) sample_auth (sample_request None []) \<noteq> []" by code_simp
  show "map_of sample_locales (get_current_language (default_req_settings True) sample_auth (sample_request None [])) = None"
    by code_simp
  show "map_of sample_locales (I18N_DEFAULT_LANGUAGE (default_req_settings True))
      = Some (P_dict [(asc ''error'', P_dict [(asc ''language_not_found'', P_text (asc ''?''))])])" by code_simp
  show "asc ''?'' \<noteq> []" by code_simp
  show "walk [asc ''error'', asc ''language_not_found'']
      (P_dict [(asc ''error'', P_dict [(asc ''language_not_found'', P_text (asc ''?''))])]) = Some (P_text (asc ''?''))"
    by code_simp
qed

theorem log_in_order_witness:
  "\<exists>q e. consumed (default_req_settings True) [] [e] q \<and> subseq (entries (lq_table q) @ lq_batch q @ lq_items q) [e]"
proof -
  obtain e where "pw_log (fst (sample_run None [123, 125])) = [e]" by (rule sample_entry)
  define q where "q = (empty_queue [])\<lparr>lq_items := [e], lq_unfinished := 1\<rparr>"
  have c: "consumed (default_req_settings True) [] ([] @ [e]) q"
    unfolding q_def by (rule consumed.accept [OF consumed.start]) (simp add: empty_queue_def default_req_settings_def)
  have "subseq (entries (lq_table q) @ lq_batch q @ lq_items q) [e]"
    using log_in_order [OF c] by (simp add: entries_def)
  with c show ?thesis by auto
qed

end
