(* ===== verification/Pagination.thy ===== *)
theory Pagination
  imports Prelude
begin

text \<open>
  The pages of \<open>backend/common/pagination.py\<close>: the limit and offset of a page, the number of pages and the
  links between them. The database cuts the ordered rows by limit and offset; the division is that of
  integers, with which the float division of the code agrees for fewer than \<open>2 ^ 45\<close> rows.
\<close>

section \<open>Pages\<close>

text \<open>A page is at least 1, and its size between 1 and 200.\<close>

record page_params =
  pg_page :: int
  pg_size :: int

definition valid_params :: "page_params \<Rightarrow> bool" where
  "valid_params p \<longleftrightarrow> 1 \<le> pg_page p \<and> 0 < pg_size p \<and> pg_size p \<le> 200"

text \<open>Limit and offset.\<close>

definition to_raw_params :: "page_params \<Rightarrow> int \<times> int" where
  "to_raw_params p = (pg_size p, pg_size p * (pg_page p - 1))"

record page_links =
  li_first :: page_params
  li_last :: page_params
  li_next :: "page_params option"
  li_prev :: "page_params option"

record 'a page_data =
  pd_items :: "'a list"
  pd_total :: int
  pd_page :: int
  pd_size :: int
  pd_total_pages :: int
  pd_links :: page_links

definition total_pages :: "int \<Rightarrow> int \<Rightarrow> int" where
  "total_pages t n = (t + n - 1) div n"

definition create_page :: "'a list \<Rightarrow> page_params \<Rightarrow> int \<Rightarrow> 'a page_data" where
  "create_page items p t =
     (let page = pg_page p; n = pg_size p; pages = total_pages t n; to = (\<lambda>k. \<lparr>pg_page = k, pg_size = n\<rparr>)
      in \<lparr>pd_items = items, pd_total = t, pd_page = page, pd_size = n, pd_total_pages = pages,
          pd_links = \<lparr>li_first = to 1,
            li_last = (if t > 0 then to pages else to 1),
            li_next = (if page + 1 \<le> pages then Some (to (page + 1)) else None),
            li_prev = (if page - 1 \<ge> 1 then Some (to (page - 1)) else None)\<rparr>\<rparr>)"

definition paging_data :: "'a list \<Rightarrow> page_params \<Rightarrow> 'a page_data" where
  "paging_data rows p =
     (case to_raw_params p of (limit, offset) \<Rightarrow>
        create_page (take (nat limit) (drop (nat offset) rows)) p (int (length rows)))"

text \<open>A cursor page has more rows exactly when there is a next cursor; the encoding of cursors is an argument.\<close>

record 'a cursor_page =
  cp_items :: "'a list"
  cp_next_cursor :: "ustr option"
  cp_has_more :: bool

definition create_cursor_page :: "('c option \<Rightarrow> ustr option) \<Rightarrow> 'a list \<Rightarrow> 'c option \<Rightarrow> 'a cursor_page" where
  "create_cursor_page encode items cursor =
     \<lparr>cp_items = items, cp_next_cursor = encode cursor, cp_has_more = (cursor \<noteq> None)\<rparr>"

section \<open>Reading all the pages\<close>

text \<open>A client that starts at a page and follows the links to the next one, for at most \<open>n\<close> more pages.\<close>

fun follow :: "nat \<Rightarrow> 'a list \<Rightarrow> page_params \<Rightarrow> 'a list" where
  "follow 0 rows p = pd_items (paging_data rows p)"
| "follow (Suc n) rows p =
     pd_items (paging_data rows p)
       @ (case li_next (pd_links (paging_data rows p)) of None \<Rightarrow> [] | Some p' \<Rightarrow> follow n rows p')"

lemma le_div_iff:
  fixes x m n :: int
  assumes "0 < n"
  shows "x \<le> m div n \<longleftrightarrow> x * n \<le> m"
proof
  assume "x \<le> m div n"
  then have "x * n \<le> m div n * n" using assms by (simp add: mult_right_mono)
  also have "\<dots> \<le> m" using assms by (simp add: minus_mod_eq_div_mult [symmetric])
  finally show "x * n \<le> m" .
next
  assume "x * n \<le> m"
  from zdiv_mono1 [OF this assms] assms show "x \<le> m div n" by simp
qed

lemma next_link:
  assumes "0 < n"
  shows "li_next (pd_links (paging_data rows \<lparr>pg_page = k, pg_size = n\<rparr>)) =
    (if n * k < int (length rows) then Some \<lparr>pg_page = k + 1, pg_size = n\<rparr> else None)"
proof -
  have "k + 1 \<le> (int (length rows) + n - 1) div n \<longleftrightarrow> n * k < int (length rows)"
    unfolding le_div_iff [OF assms] by (auto simp: algebra_simps)
  then show ?thesis by (simp add: paging_data_def to_raw_params_def create_page_def Let_def total_pages_def)
qed

lemma page_items: "pd_items (paging_data rows \<lparr>pg_page = k, pg_size = n\<rparr>) = take (nat n) (drop (nat (n * (k - 1))) rows)"
  by (simp add: paging_data_def to_raw_params_def create_page_def Let_def)

lemma follow_rest:
  assumes "0 < n" "1 \<le> k" "int (length rows) \<le> n * (k + int m)"
  shows "follow m rows \<lparr>pg_page = k, pg_size = n\<rparr> = drop (nat (n * (k - 1))) rows"
  using assms(2,3)
proof (induction m arbitrary: k)
  case 0
  have "nat (n * (k - 1)) + nat n = nat (n * k)"
    using assms(1) 0(1) by (simp add: nat_add_distrib [symmetric] algebra_simps)
  with 0 assms(1) have "length (drop (nat (n * (k - 1))) rows) \<le> nat n" by simp
  then show ?case by (simp add: page_items)
next
  case (Suc m)
  have add: "nat (n * (k - 1)) + nat n = nat (n * k)"
    using assms(1) Suc.prems(1) by (simp add: nat_add_distrib [symmetric] algebra_simps)
  show ?case
  proof (cases "n * k < int (length rows)")
    case True
    have "follow m rows \<lparr>pg_page = k + 1, pg_size = n\<rparr> = drop (nat (n * k)) rows"
      using Suc.IH [of "k + 1"] Suc.prems by (simp add: algebra_simps)
    moreover have "drop (nat (n * k)) rows = drop (nat n) (drop (nat (n * (k - 1))) rows)"
      using add by (simp add: add.commute)
    ultimately have "follow m rows \<lparr>pg_page = k + 1, pg_size = n\<rparr> = drop (nat n) (drop (nat (n * (k - 1))) rows)"
      by (rule trans)
    with True show ?thesis by (simp add: next_link [OF assms(1)] page_items del: drop_drop)
  next
    case False
    with add have "length (drop (nat (n * (k - 1))) rows) \<le> nat n" by simp
    with False show ?thesis by (simp add: next_link [OF assms(1)] page_items)
  qed
qed

text \<open>
  A client that starts at the first page and follows the links reads every row once, in order, whatever the size of
  the pages; as many steps as there are rows are enough.
\<close>

theorem pages_cover:
  assumes "valid_params \<lparr>pg_page = 1, pg_size = n\<rparr>"
  shows "follow (length rows) rows \<lparr>pg_page = 1, pg_size = n\<rparr> = rows"
proof -
  have "0 < n" using assms by (simp add: valid_params_def)
  moreover have "int (length rows) \<le> n * (1 + int (length rows))"
  proof -
    have "1 * (1 + int (length rows)) \<le> n * (1 + int (length rows))"
      using \<open>0 < n\<close> by (intro mult_right_mono) auto
    moreover have "int (length rows) \<le> 1 * (1 + int (length rows))" by simp
    ultimately show ?thesis by (rule order_trans [rotated])
  qed
  ultimately show ?thesis using follow_rest [of n 1 rows "length rows"] by simp
qed

theorem pages_cover_witness: "follow 5 [1, 2, 3, 4, 5::int] \<lparr>pg_page = 1, pg_size = 2\<rparr> = [1, 2, 3, 4, 5]"
  using pages_cover [of 2 "[1, 2, 3, 4, 5::int]"] by (simp add: valid_params_def numeral_eq_Suc del: follow.simps)

text \<open>The last link leads to a page with rows when there are any, and no further page has one.\<close>

lemma last_page:
  assumes "0 < n" "rows \<noteq> []"
  shows "pd_items (paging_data rows (li_last (pd_links (paging_data rows \<lparr>pg_page = k, pg_size = n\<rparr>)))) \<noteq> []"
proof -
  let ?t = "total_pages (int (length rows)) n"
  have last: "li_last (pd_links (paging_data rows \<lparr>pg_page = k, pg_size = n\<rparr>)) = \<lparr>pg_page = ?t, pg_size = n\<rparr>"
    using assms(2) by (simp add: paging_data_def to_raw_params_def create_page_def Let_def)
  have "?t * n \<le> int (length rows) + n - 1"
    using le_div_iff [OF assms(1), of ?t "int (length rows) + n - 1"] by (simp add: total_pages_def)
  then have "n * (?t - 1) < int (length rows)" by (simp add: algebra_simps)
  then have "nat (n * (?t - 1)) < length rows" using assms(2) by (cases "0 \<le> n * (?t - 1)") auto
  then show ?thesis using assms(1) by (simp add: last page_items)
qed

end
