(* ===== verification/Races.thy ===== *)
theory Races
  imports LifecycleProps
begin

text \<open>
  What the state machine of \<open>Lifecycle\<close> leaves out: an upload and a retry read their rows without locking them
  (\<open>document_service.py\<close>), so another request may commit between that read and their writes. The two
  requests are cut here at that point; run without interruption the parts are the whole.
\<close>

section \<open>The requests in two parts\<close>

text \<open>
  An \<open>UPDATE\<close> of a changed object writes the columns that differ from what was read, into whatever the
  row has become; a row that is gone is an error.
\<close>

definition write_columns :: "int \<Rightarrow> document \<Rightarrow> document \<Rightarrow> document \<Rightarrow> document" where
  "write_columns now old new cur =
     cur\<lparr>doc_status := (if doc_status new = doc_status old then doc_status cur else doc_status new),
       doc_error_message := (if doc_error_message new = doc_error_message old then doc_error_message cur
         else doc_error_message new),
       doc_index_version := (if doc_index_version new = doc_index_version old then doc_index_version cur
         else doc_index_version new),
       doc_index_profile_id := (if doc_index_profile_id new = doc_index_profile_id old then doc_index_profile_id cur
         else doc_index_profile_id new),
       doc_updated_time := Some now\<rparr>"

definition update_columns :: "int \<Rightarrow> document \<Rightarrow> document \<Rightarrow> rag_db \<Rightarrow> rag_db res" where
  "update_columns now old new db =
     (if list_ex (\<lambda>x. doc_id x = doc_id old) (t_documents db)
      then Inr (db\<lparr>t_documents := map (\<lambda>x. if doc_id x = doc_id old then write_columns now old new x else x)
             (t_documents db)\<rparr>)
      else Inl SQLAlchemyError)"

text \<open>\<open>retry\<close> after its read of \<open>data\<close>.\<close>

definition retry_write :: "deps \<Rightarrow> rag_settings \<Rightarrow> int \<Rightarrow> document \<Rightarrow> rag_db \<Rightarrow> rag_db res" where
  "retry_write D s now data db =
     rbind (get_or_create_index_profile (sha256_text D) (index_settings.truncate s) db) (\<lambda>(db, profile).
     let data' = data\<lparr>doc_status := PENDING, doc_error_message := None,
           doc_index_version := doc_index_version data + 1, doc_index_profile_id := Some (ip_id profile)\<rparr> in
     rbind (update_columns now data data' db) (\<lambda>db.
       rmap fst (enqueue_document_index (doc_id data') (doc_index_version data') db)))"

text \<open>\<open>create\<close> after its read of the knowledge base \<open>kb\<close> and its checks of the file.\<close>

definition upload_write ::
  "deps \<Rightarrow> rag_settings \<Rightarrow> int \<Rightarrow> knowledge_base \<Rightarrow> ustr \<Rightarrow> bytes \<Rightarrow> ustr option \<Rightarrow> rag_db \<Rightarrow> (rag_db \<times> document) res" where
  "upload_write D s now kb filename content mime_type db =
     rbind (get_or_create_index_profile (sha256_text D) (index_settings.truncate s) db) (\<lambda>(db, profile).
     rbind (insert_document (new_document now (kb_id kb) filename (upload_suffix filename) mime_type
         (storage_key_of (kb_id kb) (dep_sha256 D content) (upload_suffix filename)) (int (length content))
         (dep_sha256 D content) (ip_id profile)) db) (\<lambda>(db, data).
       rmap (\<lambda>(db, _). (db, data)) (enqueue_document_index (doc_id data) (doc_index_version data) db)))"

lemma doc_create_split:
  assumes "kb_get pk u adm True db = Inr kb" "upload_suffix filename \<in> set supported_document_suffixes"
    "int (length content) \<le> RAG_MAX_FILE_SIZE s"
  shows "doc_create D s now pk u adm filename content mime db store =
    (storage_put (storage_key_of (kb_id kb) (dep_sha256 D content) (upload_suffix filename)) content store,
     upload_write D s now kb filename content mime db)"
  using assms by (simp add: doc_create_def upload_write_def Let_def)

lemma update_columns_own:
  assumes "docs_ok db" "d \<in> set (t_documents db)" "new \<noteq> d"
    "new = d\<lparr>doc_status := st, doc_error_message := err, doc_index_version := v, doc_index_profile_id := p\<rparr>"
  shows "update_columns now d new db = Inr (save_document now d new db)"
proof -
  have "write_columns now d new d = touched now d new"
    using assms(3) by (simp add: write_columns_def touched_def assms(4))
  moreover have "doc_id (touched now d new) = doc_id d" by (simp add: touched_def assms(4))
  moreover have "x = d" if "x \<in> set (t_documents db)" "doc_id x = doc_id d" for x
    using same_doc [OF assms(1,2) that] .
  ultimately have "map (\<lambda>x. if doc_id x = doc_id d then write_columns now d new x else x) (t_documents db)
      = replace_row doc_id (touched now d new) (t_documents db)"
    by (auto simp: replace_row_def)
  moreover have "list_ex (\<lambda>x. doc_id x = doc_id d) (t_documents db)" using assms(2) by (auto simp: list_ex_iff)
  ultimately show ?thesis by (simp add: update_columns_def save_document_def)
qed

lemma doc_retry_split:
  assumes "docs_ok db"
  shows "rmap fst (doc_retry D s now kb pk u adm db) =
    rbind (doc_get kb pk u adm True db) (\<lambda>data. retry_write D s now data db)"
proof (cases "doc_get kb pk u adm True db")
  case (Inr d)
  then have mem: "d \<in> set (t_documents db)"
    by (auto simp: doc_get_def get_in_kb_def res_iffs find_Some_iff split: option.splits)
  show ?thesis
  proof (cases "get_or_create_index_profile (sha256_text D) (index_settings.truncate s) db")
    case p: (Inr x)
    obtain db1 profile where x: "x = (db1, profile)" by fastforce
    have docs: "t_documents db1 = t_documents db" "next_document db1 = next_document db"
      using profile_effect [OF p [unfolded x]] by auto
    have ok: "docs_ok db1" using assms by (simp add: docs_ok_def docs)
    let ?new = "d\<lparr>doc_status := PENDING, doc_error_message := None, doc_index_version := doc_index_version d + 1,
      doc_index_profile_id := Some (ip_id profile)\<rparr>"
    have "?new \<noteq> d" by (auto dest: arg_cong [where f = doc_index_version])
    from update_columns_own [OF ok _ this refl, of now] mem
    have "update_columns now d ?new db1 = Inr (save_document now d ?new db1)" by (simp add: docs)
    then show ?thesis
      by (cases "enqueue_document_index (doc_id d) (doc_index_version d + 1) (save_document now d ?new db1)")
        (auto simp: doc_retry_def retry_write_def Inr p x Let_def)
  qed (simp add: doc_retry_def retry_write_def Inr)
qed (simp add: doc_retry_def)

section \<open>A deletion between the parts\<close>

lemma kb_delete_deletes:
  assumes inv: "tables_ok m db" and del: "kb_delete now pk u adm db = Inr db'"
  shows "\<exists>kb \<in> set (t_kbs db'). kb_id kb = pk \<and> kb_deleted kb \<noteq> 0"
proof -
  obtain k where k: "kb_get pk u adm True db = Inr k"
    using del by (auto simp: kb_delete_def res_iffs)
  let ?k = "k\<lparr>kb_deleted := kb_id k\<rparr>"
  have ok: "k \<in> set (t_kbs db)" "kb_id k = pk" "0 < kb_id k"
    using kb_get_InrD [OF k] inv by (auto simp: tables_ok_def db_inv_def kbs_ok_def)
  have "t_kbs db' = replace_row kb_id ?k (t_kbs db)"
    using del k by (auto simp: kb_delete_def save_kb_def request_deletions_kbs res_iffs split: if_splits)
  then have "?k \<in> set (t_kbs db')" using ok(1) by (auto simp: replace_row_def image_iff)
  then show ?thesis using ok(2,3) by (intro bexI [of _ ?k]) simp_all
qed

text \<open>What the late writes of a retry leave of the row \<open>x\<close> that the document has become.\<close>

lemma retry_write_row:
  assumes "events_ok m db" "x \<in> set (t_documents db)" "doc_id x = doc_id d" "retry_write D s now d db = Inr db2"
  obtains y where "y \<in> set (t_documents db2)" "doc_id y = doc_id d" "doc_kb_id y = doc_kb_id x"
    "doc_index_version y = doc_index_version d + 1"
    "doc_status y = (if doc_status d = PENDING then doc_status x else PENDING)"
    "t_kbs db2 = t_kbs db" "t_chunks db2 = t_chunks db"
proof -
  obtain db3 p where p: "get_or_create_index_profile (sha256_text D) (index_settings.truncate s) db = Inr (db3, p)"
    using assms(4) by (auto simp: retry_write_def res_iffs)
  let ?new = "d\<lparr>doc_status := PENDING, doc_error_message := None, doc_index_version := doc_index_version d + 1,
    doc_index_profile_id := Some (ip_id p)\<rparr>"
  have db3: "t_documents db3 = t_documents db" "t_kbs db3 = t_kbs db" "t_events db3 = t_events db"
    "next_event db3 = next_event db" "t_chunks db3 = t_chunks db" using profile_effect [OF p] by auto
  let ?db4 = "db3\<lparr>t_documents := map (\<lambda>x. if doc_id x = doc_id d then write_columns now d ?new x else x)
    (t_documents db3)\<rparr>"
  have db4: "update_columns now d ?new db3 = Inr ?db4"
    using assms(2,3) by (auto simp: update_columns_def list_ex_iff db3)
  have "events_ok m ?db4" using assms(1) by (simp add: events_ok_def db3)
  from enqueue_document_index_effect [OF this, of "doc_id d" "doc_index_version d + 1"]
  have db2: "t_documents db2 = t_documents ?db4" "t_kbs db2 = t_kbs db" "t_chunks db2 = t_chunks db"
    using assms(4) by (auto simp: retry_write_def p Let_def db4 db3)
  show ?thesis
  proof (rule that)
    show "write_columns now d ?new x \<in> set (t_documents db2)"
      using assms(2,3) by (force simp: db2 db3)
  qed (simp_all add: write_columns_def assms(3) db2)
qed

text \<open>
  A retry that read its document before the deletion of the knowledge base was committed and writes after it:
  the document is in the deleted base and PENDING again, except when it was PENDING already, where the retry
  does not write the column. The delete message that was requested finds no DELETING document and removes
  nothing.
\<close>

theorem retry_after_deletion:
  assumes "reachable D s w" "doc_get kb pk u adm True (w_db w) = Inr d"
    "kb_delete now kb u' adm' (w_db w) = Inr db1" "retry_write D s now' d db1 = Inr db2"
  shows "(\<exists>k \<in> set (t_kbs db2). kb_id k = kb \<and> kb_deleted k \<noteq> 0)
    \<and> (\<exists>x \<in> set (t_documents db2). doc_id x = pk \<and> doc_kb_id x = kb
      \<and> doc_status x = (if doc_status d = PENDING then DELETING else PENDING))"
proof -
  have inv: "tables_ok (RAG_OUTBOX_MAX_DISPATCH_ATTEMPTS s) (w_db w)" by (rule reachable_tables_ok [OF assms(1)])
  have d: "d \<in> set (t_documents (w_db w))" "doc_id d = pk" "doc_kb_id d = kb"
    using doc_get_InrD [OF assms(2)] by auto
  have inv1: "tables_ok (RAG_OUTBOX_MAX_DISPATCH_ATTEMPTS s) db1" by (rule tables_ok_kb_delete [OF inv assms(3)])
  obtain k where k: "k \<in> set (t_kbs db1)" "kb_id k = kb" "kb_deleted k \<noteq> 0"
    using kb_delete_deletes [OF inv assms(3)] by blast
  obtain x where x: "x \<in> set (t_documents db1)" "moves d x"
    using keeps_kb_delete [OF inv assms(3)] d(1) by (auto simp: keeps_def)
  then have ident: "doc_id x = pk" "doc_kb_id x = kb" using d by (simp_all add: moves_def same_identity_def)
  have "homed_ok db1" "kbs_ok db1" using inv1 by (simp_all add: tables_ok_def db_inv_def)
  then have gone: "doc_status x = DELETING"
    using same_kb [of db1 k] k x(1) ident(2) by (fastforce simp: homed_ok_def)
  have "events_ok (RAG_OUTBOX_MAX_DISPATCH_ATTEMPTS s) db1" using inv1 by (simp add: tables_ok_def)
  from retry_write_row [OF this x(1) _ assms(4)] ident d obtain y where
    "y \<in> set (t_documents db2)" "doc_id y = pk" "doc_kb_id y = kb"
    "doc_status y = (if doc_status d = PENDING then DELETING else PENDING)" "t_kbs db2 = t_kbs db1"
    unfolding gone by metis
  then show ?thesis using k by auto
qed

text \<open>
  A retry that read a PENDING document before an indexing of it was committed and writes after it: the row stays
  READY, for the column was not changed, but at the next version, of which there is no chunk. The task that
  the retry has requested finds the document READY and leaves it as it is.
\<close>

theorem retry_after_indexing:
  assumes "reachable D s w" "x \<in> set (t_documents (w_db w))" "doc_status x = READY"
    "doc_id d = doc_id x" "doc_index_version d = doc_index_version x" "doc_status d = PENDING"
    "retry_write D s now d (w_db w) = Inr db2"
  shows "\<exists>y \<in> set (t_documents db2). doc_id y = doc_id x \<and> doc_status y = READY
    \<and> doc_index_version y = doc_index_version x + 1
    \<and> (\<forall>c \<in> set (t_chunks db2). ch_document_id c = doc_id y \<longrightarrow> ch_index_version c \<noteq> doc_index_version y)"
proof -
  have inv: "tables_ok (RAG_OUTBOX_MAX_DISPATCH_ATTEMPTS s) (w_db w)" by (rule reachable_tables_ok [OF assms(1)])
  then have ok: "docs_ok (w_db w)" "chunks_ok (w_db w)" "events_ok (RAG_OUTBOX_MAX_DISPATCH_ATTEMPTS s) (w_db w)"
    by (simp_all add: tables_ok_def db_inv_def)
  obtain y where row: "y \<in> set (t_documents db2)" "doc_id y = doc_id d" "doc_kb_id y = doc_kb_id x"
    "doc_index_version y = doc_index_version d + 1"
    "doc_status y = (if doc_status d = PENDING then doc_status x else PENDING)"
    "t_kbs db2 = t_kbs (w_db w)" "t_chunks db2 = t_chunks (w_db w)"
    by (rule retry_write_row [OF ok(3) assms(2) assms(4) [symmetric] assms(7)])
  have y: "y \<in> set (t_documents db2)" "doc_id y = doc_id x" "doc_index_version y = doc_index_version x + 1"
    "doc_status y = READY" "t_chunks db2 = t_chunks (w_db w)"
    using row(1) by (simp_all add: row(2,4,5,7) assms(3-6))
  have "ch_index_version c = doc_index_version x"
    if c: "c \<in> set (t_chunks (w_db w))" "ch_document_id c = doc_id x" for c
  proof -
    obtain z where z: "z \<in> set (t_documents (w_db w))" "chunk_of z c"
      using bspec [OF ok(2) [unfolded chunks_ok_def] c(1)] by blast
    have "doc_id z = doc_id x" using z(2) unfolding chunk_of_def c(2) by metis
    then have "z = x" by (rule same_doc [OF ok(1) assms(2) z(1)])
    then show ?thesis using z(2) assms(3) by (simp add: chunk_of_def)
  qed
  then show ?thesis using y by (intro bexI [of _ y]) auto
qed

text \<open>
  An upload that read its knowledge base before the deletion was committed and writes after it: the new document
  is PENDING in the deleted base, where no request reaches it any more.
\<close>

theorem upload_after_deletion:
  assumes "reachable D s w" "kb_get pk u adm True (w_db w) = Inr kb"
    "kb_delete now pk u' adm' (w_db w) = Inr db1"
    "upload_write D s now' kb filename content mime db1 = Inr (db2, d)"
  shows "(\<exists>k \<in> set (t_kbs db2). kb_id k = pk \<and> kb_deleted k \<noteq> 0)
    \<and> d \<in> set (t_documents db2) \<and> doc_kb_id d = pk \<and> doc_status d = PENDING"
proof -
  have inv: "tables_ok (RAG_OUTBOX_MAX_DISPATCH_ATTEMPTS s) (w_db w)" by (rule reachable_tables_ok [OF assms(1)])
  have inv1: "tables_ok (RAG_OUTBOX_MAX_DISPATCH_ATTEMPTS s) db1" by (rule tables_ok_kb_delete [OF inv assms(3)])
  obtain db3 p where p: "get_or_create_index_profile (sha256_text D) (index_settings.truncate s) db1 = Inr (db3, p)"
    using assms(4) by (auto simp: upload_write_def res_iffs)
  have db3: "t_kbs db3 = t_kbs db1" "t_events db3 = t_events db1" "next_event db3 = next_event db1"
    using profile_effect [OF p] by auto
  let ?n = "new_document now' (kb_id kb) filename (upload_suffix filename) mime
    (storage_key_of (kb_id kb) (dep_sha256 D content) (upload_suffix filename)) (int (length content))
    (dep_sha256 D content) (ip_id p)"
  obtain db4 where ins: "insert_document ?n db3 = Inr (db4, d)"
    using assms(4) by (auto simp: upload_write_def p res_iffs)
  have db4: "d \<in> set (t_documents db4)" "t_kbs db4 = t_kbs db1" "doc_kb_id d = kb_id kb" "doc_status d = PENDING"
    "t_events db4 = t_events db1" "next_event db4 = next_event db1"
    using ins by (auto simp: insert_document_def Let_def new_document_def db3 split: if_splits)
  have "events_ok (RAG_OUTBOX_MAX_DISPATCH_ATTEMPTS s) db4"
    using inv1 by (simp add: tables_ok_def events_ok_def db4(5,6))
  from enqueue_document_index_effect [OF this, of "doc_id d" "doc_index_version d"]
  have "t_documents db2 = t_documents db4" "t_kbs db2 = t_kbs db4"
    using assms(4) by (auto simp: upload_write_def p ins)
  then show ?thesis using db4 kb_delete_deletes [OF inv assms(3)] kb_get_InrD [OF assms(2)] by simp
qed

text \<open>Both happen, on the knowledge base and the document of the sample runs.\<close>

definition late_retry :: "rag_db res" where
  "late_retry =
     (let db = w_db (run index_acts) in
      rbind (doc_get 1 1 7 False True db) (\<lambda>d.
      rbind (kb_delete 8 1 7 False db) (\<lambda>db1. retry_write sample_deps sample_settings 9 d db1)))"

definition late_upload :: "(rag_db \<times> document) res" where
  "late_upload =
     (let db = w_db (run upload_acts) in
      rbind (kb_get 1 7 False True db) (\<lambda>kb.
      rbind (kb_delete 8 1 7 False db) (\<lambda>db1.
      upload_write sample_deps sample_settings 9 kb
        (asc ''b.md'') (asc ''ho'') None db1)))"

definition late_retry_ready :: "rag_db res" where
  "late_retry_ready =
     rbind (doc_get 1 1 7 False True (w_db (run upload_acts))) (\<lambda>d.
     retry_write sample_deps sample_settings 9 d (w_db (run index_acts)))"

lemma late_retry_ready_run:
  "rmap (\<lambda>db. (map (\<lambda>d. (doc_status d, doc_index_version d)) (t_documents db),
      remdups (map ch_index_version (t_chunks db)), fst (snd (claim_index 10 1 (Some 2) db)))) late_retry_ready
    = Inr ([(READY, 2)], [1], asc ''already_ready'')"
  by code_simp

lemma late_retry_run:
  "rmap (\<lambda>db. (map doc_status (t_documents db), map kb_deleted (t_kbs db))) late_retry = Inr ([PENDING], [1])"
  by code_simp

lemma late_upload_run:
  "rmap (\<lambda>(db, d). (map doc_status (t_documents db), map kb_deleted (t_kbs db), doc_status d)) late_upload
    = Inr ([DELETING, PENDING], [1], PENDING)"
  by code_simp

theorem retry_after_deletion_witness:
  "\<exists>db. late_retry = Inr db \<and> (\<exists>x \<in> set (t_documents db). doc_id x = 1 \<and> doc_status x = PENDING)"
proof -
  let ?db = "w_db (run index_acts)"
  obtain db2 where l: "late_retry = Inr db2" using late_retry_run unfolding rmap_Inr_iff by blast
  then obtain d db1 where d: "doc_get 1 1 7 False True ?db = Inr d" "kb_delete 8 1 7 False ?db = Inr db1"
    "retry_write sample_deps sample_settings 9 d db1 = Inr db2"
    by (auto simp: late_retry_def Let_def res_iffs)
  have "rmap doc_status (doc_get 1 1 7 False True ?db) = Inr READY" by code_simp
  then have "doc_status d = READY" by (simp add: d(1))
  then show ?thesis using retry_after_deletion [OF reachable_run d] l by auto
qed

theorem upload_after_deletion_witness:
  "\<exists>db d. late_upload = Inr (db, d) \<and> d \<in> set (t_documents db) \<and> doc_status d = PENDING"
proof -
  let ?db = "w_db (run upload_acts)"
  obtain db2 d where l: "late_upload = Inr (db2, d)" using late_upload_run unfolding rmap_Inr_iff by force
  then obtain kb db1 where u: "kb_get 1 7 False True ?db = Inr kb" "kb_delete 8 1 7 False ?db = Inr db1"
    "upload_write sample_deps sample_settings 9 kb (asc ''b.md'') (asc ''ho'') None db1 = Inr (db2, d)"
    by (auto simp: late_upload_def Let_def rbind_Inr_iff)
  then show ?thesis using upload_after_deletion [OF reachable_run u] l by auto
qed

theorem retry_after_indexing_witness:
  "\<exists>db. late_retry_ready = Inr db \<and> (\<exists>y \<in> set (t_documents db). doc_status y = READY \<and> doc_index_version y = 2
     \<and> (\<forall>c \<in> set (t_chunks db). ch_document_id c = doc_id y \<longrightarrow> ch_index_version c \<noteq> 2))"
proof -
  let ?old = "w_db (run upload_acts)" and ?db = "w_db (run index_acts)"
  obtain db2 where l: "late_retry_ready = Inr db2" using late_retry_ready_run unfolding rmap_Inr_iff by blast
  then obtain d where d: "doc_get 1 1 7 False True ?old = Inr d"
    "retry_write sample_deps sample_settings 9 d ?db = Inr db2"
    by (auto simp: late_retry_ready_def rbind_Inr_iff)
  have "rmap (\<lambda>d. (doc_id d, doc_index_version d, doc_status d)) (doc_get 1 1 7 False True ?old) = Inr (1, 1, PENDING)"
    by code_simp
  then have old: "doc_id d = 1" "doc_index_version d = 1" "doc_status d = PENDING" by (simp_all add: d(1))
  have "map (\<lambda>d. (doc_id d, doc_index_version d, doc_status d)) (t_documents ?db) = [(1, 1, READY)]" by code_simp
  then obtain x where "x \<in> set (t_documents ?db)" "doc_id x = 1" "doc_index_version x = 1" "doc_status x = READY"
    by (auto dest: map_eq_singletonD)
  then show ?thesis
    using retry_after_indexing [OF reachable_run [of index_acts] _ _ _ _ _ d(2), of x] old l
    by (auto intro!: bexI)
qed

end
