(* ===== verification/Spec2Isabelle.thy ===== *)
theory Spec2Isabelle
  imports Chunking Lexical RagContext Indexing Adapters Providers Parsers LifecycleLive QueryProps Snowflake Limiter BuildTree
    RenewalProps SecurityProps EvaluationProps PublicSources PluginProps BeatOnce PipelineProps Pagination Races
begin

text \<open>
  A verification library of the program under \<open>src/backend\<close>: an administration backend (accounts, roles, menus,
  sessions, configuration) with a service for retrieval-augmented generation (knowledge bases, documents that are
  parsed, cut into chunks, embedded and indexed by Celery workers, and questions answered from them).

  How the parts interact. Requests are authenticated and authorised by the administration part, whose sessions,
  locks and cached descriptions of users live in Redis and whose accounts and permissions live in the database.
  The document service writes rows, objects in the object store, and events in an outbox table within one
  transaction; a dispatcher turns events into messages on the broker; workers index and delete documents, may
  stop at any moment and get their messages again; a repair task restarts what got stuck. Questions see only the
  live chunks of documents that are ready. The evaluation runs the question service over a dataset. Plugins read
  their tables through a two-level cache that processes invalidate over Redis.

  \<^bold>\<open>Shared.\<close> \<open>Prelude\<close>: Python's strings as lists of code points, slices, \<open>strip\<close>, \<open>split\<close>, stable sorting.
  \<open>Messages\<close>: the non-ASCII literals of the source. \<open>Errors\<close>: the exceptions of \<open>common/exception/errors.py\<close> and
  results that are an exception or a value. \<open>UniqueRows\<close>: tables with logical deletion and a unique live key.

  \<^bold>\<open>RAG, functions.\<close> \<open>Chunking\<close> (\<open>rag/chunking.py\<close>), \<open>Lexical\<close> (\<open>rag/lexical.py\<close>), \<open>RagContext\<close> (\<open>rag/context.py\<close>),
  \<open>Indexing\<close> (\<open>rag/indexing.py\<close>), \<open>Adapters\<close> and \<open>Providers\<close> (\<open>rag/adapters\<close>), \<open>Parsers\<close> (\<open>rag/parsers\<close>). Their lemmas bound
  chunks and contexts, show that chunking loses no text, decode what was encoded, and say which citations survive.

  \<^bold>\<open>RAG, documents.\<close> \<open>RagDb\<close> (models and \<open>crud_rag.py\<close>), \<open>Outbox\<close> (\<open>outbox_service.py\<close>, \<open>index_profile_service.py\<close>),
  \<open>Knowledge\<close>, \<open>Documents\<close> (the services), \<open>Tasks\<close> (\<open>task/tasks/rag/tasks.py\<close>) and \<open>Lifecycle\<close>, which composes them to
  a state machine: requests, dispatchers, worker transactions, crashes and redeliveries in any order.
  \<open>Invariants\<close>, \<open>LifecycleOps\<close> and \<open>LifecycleMoves\<close> show what each step keeps and how it moves documents and events;
  \<open>LifecycleProps\<close> and \<open>LifecycleLive\<close> state the properties of all reachable states and of complete runs, \<open>Races\<close> what
  happens when requests overlap.

  \<^bold>\<open>RAG, questions.\<close> \<open>Query\<close> (\<open>query_service.py\<close>, \<open>agent/graph.py\<close>) and \<open>QueryProps\<close>; \<open>Evaluation\<close>, \<open>EvaluationProps\<close> and
  \<open>PublicSources\<close> (\<open>rag/evaluation\<close>).

  \<^bold>\<open>Administration.\<close> \<open>AdminDb\<close> and \<open>AdminCrud\<close> (models and CRUD classes), \<open>Redis\<close> (\<open>database/redis.py\<close>), \<open>Sessions\<close> and \<open>Jwt\<close>
  (\<open>common/security/jwt.py\<close>, \<open>admin/utils/cache.py\<close>), \<open>Security\<close> (\<open>password_security.py\<close>), \<open>Auth\<close>, \<open>Users\<close>, \<open>Access\<close> (the
  services), \<open>Rbac\<close> (\<open>rbac.py\<close>, \<open>permission.py\<close>). \<open>AdminWorld\<close> composes them to a state machine of requests; \<open>Views\<close>,
  \<open>AdminMoves\<close> and \<open>AdminCoherent\<close> show that the cached descriptions stay those of the database, or of one that a
  commit replaced while others were authenticated; \<open>AdminProps\<close>,
  \<open>SessionProps\<close>, \<open>RenewalProps\<close> and \<open>SecurityProps\<close> state the properties.

  \<^bold>\<open>Requests.\<close> \<open>Requests\<close> (\<open>common/exception/exception_handler.py\<close>, \<open>common/context.py\<close>, \<open>common/i18n.py\<close>,
  \<open>utils/request_parse.py\<close>), \<open>Pipeline\<close> (\<open>middleware\<close>, \<open>common/queue.py\<close>, the operation logs) and \<open>PipelineProps\<close>: the stack of middlewares as
  functions of the next one, which requests it records and with what result, and what the consumer of the queue
  stores. \<open>Pagination\<close> (\<open>common/pagination.py\<close>): the pages of a list and their links.

  \<^bold>\<open>Infrastructure.\<close> \<open>Snowflake\<close> (\<open>utils/snowflake.py\<close>), \<open>Limiter\<close> (\<open>utils/limiter.py\<close>), \<open>BuildTree\<close> (\<open>utils/build_tree.py\<close>),
  \<open>Cache\<close> (\<open>common/cache\<close>), \<open>Plugins\<close> and \<open>PluginProps\<close> (\<open>plugin/config\<close>, \<open>plugin/dict\<close>).

  \<^bold>\<open>Scheduler.\<close> \<open>Beat\<close>, \<open>BeatProps\<close> and \<open>BeatOnce\<close> (\<open>app/task\<close>: \<open>utils/schedulers.py\<close>, \<open>scheduler_service.py\<close>): the table of periodic tasks,
  the requests that change it, and the scheduler process that reads it and sends the tasks. The nested loop of
  \<open>sync\<close> has as many levels as there are changed names, which is its fuel.

  \<^bold>\<open>Conventions.\<close> A request or a worker transaction is one step and reads the clock once; a failed transaction changes
  nothing but what the code writes outside the database. Requests therefore take effect one after the other, which
  the code does not enforce: the requests of the document and knowledge base services take no row locks, and the
  reads and writes of Redis in one function (\<open>create_new_token\<close>, \<open>handle_login_failure\<close>) are not one command. What
  may come in between is modelled here: the two transactions of an index task (\<open>Lifecycle\<close>); a failure between the removal of
  an object and the commit (\<open>Tasks\<close>); authentications between the deletion of cached users and the commit
  (\<open>wreachable\<close> in \<open>AdminCoherent\<close>); cached reads between an invalidation and the commit (\<open>Cache\<close>, \<open>PluginProps\<close>). \<open>Races\<close> cuts
  uploads and retries in two and proves what they leave when the deletion of the knowledge base or an index run
  is committed in between. Python's integers are \<open>int\<close>, floats are reals, strings are lists of code points; a table is
  the list of its rows. Primary keys are positive and increase (\<open>fresh_id\<close>). Redis prefixes and settings
  have their defaults of \<open>core/conf.py\<close> or are arguments.

  \<^bold>\<open>Parameters.\<close> What is not under \<open>src/\<close> is an argument: HTTP services, PostgreSQL's distance, match and rank
  functions, the middlewares of Starlette, the readers of documents, jose, bcrypt, JSON, SHA-256, jieba, pyrate_limiter, cachebox, Celery's
  broker and calendars, the clock. What properties need of them is a named hypothesis with a witness.

  \<^bold>\<open>Bounds and fuel.\<close> The tree recursion has the number of rows plus one as fuel, which \<open>BuildTree\<close> shows to be
  enough when parents form no cycle. The wait of the Snowflake generator consumes a list of clock readings and
  is \<open>None\<close> when they do not suffice. All other loops are structural or have a measure.

  \<^bold>\<open>Not modelled.\<close> The command line, scripts, start-up, migrations, log output and Socket.IO are I/O around
  libraries. List pages, whose queries are handed to fastapi-pagination, are left out, as are messages that
  Redis loses between publishing and a subscriber. The OAuth2 sign-up, the code generator and the plugin
  installer are driven by external services, templates and the file system. What is left of each component is
  in the note of its entry in the manifest.
\<close>

end
